(* ===== verification/Roar_Prelude.thy ===== *)
theory Roar_Prelude
  imports Main "HOL-Library.Word" "HOL-Library.Signed_Division"
begin

text \<open>
  Shared material of the development: the collections the component theories add
  their lemmas to, the C types the sources use, the two shapes of counted loop that
  the signal processing code is written in, and the integer facts about narrowing
  and truncating division that its proofs need.
\<close>

named_theorems roar_defs \<open>unfolding equations of small operations\<close>
named_theorems c_arith \<open>facts on C integer conversions\<close>

subsection \<open>C types\<close>

text \<open>
  A pointer is an address, a \<^typ>\<open>int\<close>, and the null pointer is address 0. An \<open>int\<close> of the
  source is an \<^typ>\<open>int\<close> whose wrap-around is written out (\<open>wrap_s 32\<close>) where a
  computation can leave its range. Every operation of the source that reports success
  or failure returns 0 or -1.
\<close>

type_synonym ptr = int
type_synonym c_int = int
type_synonym byte = "8 word"

abbreviation (input) NULL :: ptr where "NULL \<equiv> 0"

text \<open>Conversion to an unsigned or signed integer type of \<open>w\<close> bits.\<close>

definition wrap_u :: "nat \<Rightarrow> int \<Rightarrow> int" where
  "wrap_u w x = take_bit w x"

definition wrap_s :: "nat \<Rightarrow> int \<Rightarrow> int" where
  "wrap_s w x = signed_take_bit (w - 1) x"

lemma wrap_u_range: "0 \<le> wrap_u w x \<and> wrap_u w x < 2 ^ w"
  by (simp add: wrap_u_def)

lemma wrap_u_id [c_arith]: "0 \<le> x \<Longrightarrow> x < 2 ^ w \<Longrightarrow> wrap_u w x = x"
  by (simp add: wrap_u_def take_bit_int_eq_self_iff)

lemma wrap_u_idem [simp]: "wrap_u w (wrap_u w x) = wrap_u w x"
  by (simp add: wrap_u_def)

lemma wrap_s_id [c_arith]:
  "0 < w \<Longrightarrow> - (2 ^ (w - 1)) \<le> x \<Longrightarrow> x < 2 ^ (w - 1) \<Longrightarrow> wrap_s w x = x"
  by (simp add: wrap_s_def signed_take_bit_int_eq_self_iff)

lemma wrap_s_range: "- (2 ^ (w - 1)) \<le> wrap_s w x \<and> wrap_s w x < 2 ^ (w - 1)"
  by (simp add: wrap_s_def signed_take_bit_int_greater_eq_minus_exp signed_take_bit_int_less_exp)

lemma wrap_s_idem [simp]: "wrap_s w (wrap_s w x) = wrap_s w x"
  by (simp add: wrap_s_def)

lemma wrap_s_wrap_u [simp]: "0 < w \<Longrightarrow> wrap_s w (wrap_u w x) = wrap_s w x"
  by (cases w) (simp_all add: wrap_s_def wrap_u_def signed_take_bit_take_bit)

lemma wrap_u_wrap_s [simp]: "wrap_u w (wrap_s w x) = wrap_u w x"
  by (cases w) (simp_all add: wrap_s_def wrap_u_def take_bit_signed_take_bit)

lemma wrap_s_cong: "0 < w \<Longrightarrow> x mod 2 ^ w = y mod 2 ^ w \<Longrightarrow> wrap_s w x = wrap_s w y"
  by (metis wrap_s_wrap_u wrap_u_def take_bit_eq_mod)

lemma wrap_u_cong: "x mod 2 ^ w = y mod 2 ^ w \<Longrightarrow> wrap_u w x = wrap_u w y"
  by (simp add: wrap_u_def take_bit_eq_mod)

lemma wrap_u_mod: "wrap_u w x mod 2 ^ w = x mod 2 ^ w"
  by (simp add: wrap_u_def take_bit_eq_mod)

lemma wrap_s_mod: "wrap_s w x mod 2 ^ w = x mod 2 ^ w"
  by (metis wrap_u_wrap_s wrap_u_def take_bit_eq_mod)

subsection \<open>Counted loops\<close>

text \<open>
  \<open>for (i = 0; i < n; i++)\<close> and \<open>for (i = n - 1; i >= 0; i--)\<close> over a state. A bound that
  the source computes as an \<open>int\<close> enters as \<^term>\<open>nat n\<close>: a negative bound runs no iteration.
\<close>

fun for_up :: "nat \<Rightarrow> (int \<Rightarrow> 's \<Rightarrow> 's) \<Rightarrow> 's \<Rightarrow> 's" where
  "for_up 0 f s = s"
| "for_up (Suc n) f s = f (int n) (for_up n f s)"

fun for_down :: "nat \<Rightarrow> (int \<Rightarrow> 's \<Rightarrow> 's) \<Rightarrow> 's \<Rightarrow> 's" where
  "for_down 0 f s = s"
| "for_down (Suc n) f s = for_down n f (f (int n) s)"

lemma for_up_cong [fundef_cong]:
  assumes "n = n'" and "s = s'" and "\<And>i x. 0 \<le> i \<Longrightarrow> i < int n' \<Longrightarrow> f i x = g i x"
  shows "for_up n f s = for_up n' g s'"
proof -
  have "k \<le> n' \<Longrightarrow> for_up k f s = for_up k g s" for k
    by (induction k) (auto simp: assms(3))
  then show ?thesis using assms(1,2) by simp
qed

lemma for_up_inv:
  assumes "P 0 s" and "\<And>i x. i < n \<Longrightarrow> P i x \<Longrightarrow> P (Suc i) (f (int i) x)"
  shows "P n (for_up n f s)"
proof -
  have "k \<le> n \<Longrightarrow> P k (for_up k f s)" for k
    by (induction k) (auto simp: assms)
  then show ?thesis by simp
qed

lemma for_down_inv:
  assumes "P n s" and "\<And>i x. i < n \<Longrightarrow> P (Suc i) x \<Longrightarrow> P i (f (int i) x)"
  shows "P 0 (for_down n f s)"
  using assms by (induction n arbitrary: s) auto

subsection \<open>Division\<close>

text \<open>C's \<open>/\<close> on signed operands is \<open>sdiv\<close> of the library: it truncates towards zero.\<close>

lemma sdiv_pos: "0 \<le> a \<Longrightarrow> 0 < b \<Longrightarrow> a sdiv b = a div (b :: int)"
  by (cases "a = 0") (simp_all add: signed_divide_int_def)

lemma sdiv_neg: "a \<le> 0 \<Longrightarrow> 0 < b \<Longrightarrow> a sdiv b = - ((- a) div (b :: int))"
  by (cases "a = 0") (simp_all add: signed_divide_int_def)

lemma pos_zdiv_mult_self_le: "0 < b \<Longrightarrow> a div b * b \<le> (a :: int)"
  by (metis add.commute le_add_same_cancel1 mod_div_mult_eq pos_mod_sign)

lemma sdiv_abs_le:
  fixes a b :: int
  assumes "0 < b"
  shows "\<bar>a sdiv b\<bar> * b \<le> \<bar>a\<bar>"
proof (cases "0 \<le> a")
  case True
  then show ?thesis using assms
    by (simp add: sdiv_pos pos_imp_zdiv_nonneg_iff pos_zdiv_mult_self_le)
next
  case False
  then have "a sdiv b = - ((- a) div b)" using assms by (simp add: sdiv_neg)
  moreover have "0 \<le> (- a) div b" using False assms by (simp add: pos_imp_zdiv_nonneg_iff)
  moreover have "(- a) div b * b \<le> - a" using assms by (rule pos_zdiv_mult_self_le)
  ultimately show ?thesis using False by simp
qed

lemma sdiv_abs_bound:
  fixes a b c :: int
  assumes "0 < b" and "\<bar>a\<bar> \<le> b * c"
  shows "\<bar>a sdiv b\<bar> \<le> c"
proof -
  have "\<bar>a sdiv b\<bar> * b \<le> c * b" using sdiv_abs_le [OF assms(1), of a] assms(2) by (simp add: mult.commute)
  then show ?thesis using assms(1) by simp
qed

lemma sdiv_lower:
  fixes a b c :: int
  assumes "0 < b" and "- (b * c) \<le> a" and "0 \<le> c"
  shows "- c \<le> a sdiv b"
proof (cases "0 \<le> a")
  case True
  then have "0 \<le> a sdiv b" using assms(1) by (simp add: sdiv_pos pos_imp_zdiv_nonneg_iff)
  then show ?thesis using assms(3) by simp
next
  case False
  then show ?thesis using sdiv_abs_bound [OF assms(1), of a c] assms(2) by simp
qed

lemma sdiv_upper:
  fixes a b c :: int
  assumes "0 < b" and "a \<le> b * c" and "0 \<le> c"
  shows "a sdiv b \<le> c"
proof (cases "0 \<le> a")
  case True
  then show ?thesis using sdiv_abs_bound [OF assms(1), of a c] assms(2) by simp
next
  case False
  then have "a sdiv b \<le> 0" using assms(1) by (simp add: sdiv_neg pos_imp_zdiv_nonneg_iff)
  then show ?thesis using assms(3) by simp
qed

lemma div_le_self: "0 \<le> a \<Longrightarrow> 0 < b \<Longrightarrow> a div b \<le> (a :: int)"
  using zdiv_mono2 [of a 1 b] by simp

lemma sdiv_between:
  fixes a b :: int
  assumes "0 < b" "- m - 1 \<le> a" "a \<le> m" "0 \<le> m"
  shows "- m - 1 \<le> a sdiv b \<and> a sdiv b \<le> m \<and> - m - 1 \<le> a sdiv b * b \<and> a sdiv b * b \<le> m"
proof (cases "0 \<le> a")
  case True
  have "0 \<le> a div b" "a div b \<le> a" "a div b * b \<le> a"
    using True assms(1) by (simp_all add: pos_imp_zdiv_nonneg_iff div_le_self pos_zdiv_mult_self_le)
  moreover have "0 \<le> a div b * b" using \<open>0 \<le> a div b\<close> assms(1) by simp
  ultimately show ?thesis using True assms unfolding sdiv_pos [OF True assms(1)] by linarith
next
  case False
  have "0 \<le> (- a) div b" "(- a) div b \<le> - a" "(- a) div b * b \<le> - a"
    using False assms(1) by (simp_all add: pos_imp_zdiv_nonneg_iff div_le_self pos_zdiv_mult_self_le)
  moreover have "0 \<le> (- a) div b * b" using \<open>0 \<le> (- a) div b\<close> assms(1) by simp
  moreover have "a sdiv b = - ((- a) div b)" using False assms(1) by (simp add: sdiv_neg)
  moreover from this have "a sdiv b * b = - ((- a) div b * b)" by simp
  ultimately show ?thesis using False assms by linarith
qed

end
