(* ===== verification/Memory_Model.thy ===== *)
theory Memory_Model
  imports Roar_Prelude
begin

text \<open>
  Byte-addressed memory with the typed accesses of the C code, on a little-endian
  host (\<open>BYTE_ORDER == LITTLE_ENDIAN\<close>, the branch of the sources for x86). The signal
  processing routines take \<open>void *\<close> buffers, are called with \<open>in == out\<close>, and
  reinterpret the same bytes as cells of different widths, so the buffers live in one
  memory and an aliased call is an ordinary call.

  Locale \<open>cell\<close> is the contract of one typed access (a load, a store, a width, the
  narrowing a store applies); locale \<open>frame_loop\<close> is the contract of a loop body that
  reads and writes one frame per iteration, and carries the proof that such a loop
  produces, in every frame, what its body produces on the original memory.
\<close>

type_synonym mem = "int \<Rightarrow> byte"

text \<open>What a routine on buffers returns: its return value and the memory it leaves.\<close>

type_synonym conv_result = "c_int \<times> mem"

subsection \<open>Loads and stores of \<open>n\<close> bytes\<close>

fun ldu :: "nat \<Rightarrow> mem \<Rightarrow> int \<Rightarrow> int" where
  "ldu 0 m a = 0"
| "ldu (Suc n) m a = uint (m a) + 256 * ldu n m (a + 1)"

fun stn :: "nat \<Rightarrow> mem \<Rightarrow> int \<Rightarrow> int \<Rightarrow> mem" where
  "stn 0 m a v = m"
| "stn (Suc n) m a v = stn n (m(a := word_of_int v)) (a + 1) (v div 256)"

definition lds :: "nat \<Rightarrow> mem \<Rightarrow> int \<Rightarrow> int" where
  "lds n m a = wrap_s (8 * n) (ldu n m a)"

abbreviation "ldu8 \<equiv> ldu 1"
abbreviation "ldu16 \<equiv> ldu 2"
abbreviation "ldu32 \<equiv> ldu 4"
abbreviation "lds8 \<equiv> lds 1"
abbreviation "lds16 \<equiv> lds 2"
abbreviation "lds32 \<equiv> lds 4"
abbreviation "st8 \<equiv> stn 1"
abbreviation "st16 \<equiv> stn 2"
abbreviation "st32 \<equiv> stn 4"

lemma stn_frame: "b < a \<or> a + int n \<le> b \<Longrightarrow> stn n m a v b = m b"
  by (induction n arbitrary: m a v) auto

lemma stn_local: "a \<le> b \<Longrightarrow> b < a + int n \<Longrightarrow> stn n m a v b = stn n m' a v b"
proof (induction n arbitrary: m m' a v)
  case (Suc n)
  show ?case
  proof (cases "b = a")
    case True
    then show ?thesis by (simp add: stn_frame)
  next
    case False
    then show ?thesis using Suc.prems by (simp add: Suc.IH [of "a + 1"])
  qed
qed simp

lemma ldu_cong: "(\<And>b. a \<le> b \<Longrightarrow> b < a + int n \<Longrightarrow> m b = m' b) \<Longrightarrow> ldu n m a = ldu n m' a"
proof (induction n arbitrary: a)
  case (Suc n)
  have "m a = m' a" by (rule Suc.prems) simp_all
  moreover have "ldu n m (a + 1) = ldu n m' (a + 1)" by (rule Suc.IH, rule Suc.prems) simp_all
  ultimately show ?case by simp
qed simp

lemma ldu_range: "0 \<le> ldu n m a \<and> ldu n m a < 256 ^ n"
proof (induction n arbitrary: a)
  case (Suc n)
  have "0 \<le> uint (m a) \<and> uint (m a) < 256" using uint_lt2p [of "m a"] by simp
  with Suc.IH [of "a + 1"] show ?case by auto
qed simp

lemma ldu_stn: "ldu n (stn n m a v) a = v mod 256 ^ n"
proof (induction n arbitrary: m a v)
  case (Suc n)
  have "stn n (m(a := word_of_int v)) (a + 1) (v div 256) a = word_of_int v"
    by (simp add: stn_frame)
  moreover have "uint (word_of_int v :: byte) = v mod 256"
    by (simp add: uint_word_of_int)
  moreover have "v mod 256 + 256 * (v div 256 mod 256 ^ n) = v mod 256 ^ Suc n"
    by (simp add: zmod_zmult2_eq)
  ultimately show ?case
    by (simp only: ldu.simps stn.simps Suc.IH)
qed simp

lemma pow256: "(256 :: int) ^ n = 2 ^ (8 * n)"
  by (simp add: power_mult)

lemma ldu_stn_wrap: "ldu n (stn n m a v) a = wrap_u (8 * n) v"
  by (simp add: ldu_stn wrap_u_def take_bit_eq_mod pow256)

lemma lds_stn: "0 < n \<Longrightarrow> lds n (stn n m a v) a = wrap_s (8 * n) v"
  by (simp add: lds_def ldu_stn_wrap)

lemma lds_cong: "(\<And>b. a \<le> b \<Longrightarrow> b < a + int n \<Longrightarrow> m b = m' b) \<Longrightarrow> lds n m a = lds n m' a"
  unfolding lds_def by (rule arg_cong [OF ldu_cong])

lemma ldu_wrap [simp]: "wrap_u (8 * n) (ldu n m a) = ldu n m a"
  using ldu_range [of n m a] by (simp add: wrap_u_id pow256)

lemma lds_wrap [simp]: "wrap_s (8 * n) (lds n m a) = lds n m a"
  by (simp add: lds_def)

lemma lds_range: "- (2 ^ (8 * n - 1)) \<le> lds n m a \<and> lds n m a < 2 ^ (8 * n - 1)"
  unfolding lds_def by (rule wrap_s_range)

lemma lds8_range: "- 128 \<le> lds8 m a \<and> lds8 m a \<le> 127"
  using lds_range [of 1 m a] by simp

lemma lds16_range: "- 32768 \<le> lds16 m a \<and> lds16 m a \<le> 32767"
  using lds_range [of 2 m a] by simp

lemma lds32_range: "- 2147483648 \<le> lds32 m a \<and> lds32 m a \<le> 2147483647"
  using lds_range [of 4 m a] by simp

lemma ldu_inj:
  "ldu n m a = ldu n m' a \<Longrightarrow> a \<le> b \<Longrightarrow> b < a + int n \<Longrightarrow> m b = m' b"
proof (induction n arbitrary: a)
  case (Suc n)
  let ?r = "ldu n m (a + 1)" and ?r' = "ldu n m' (a + 1)"
  have lim: "uint (m a) < 256" "uint (m' a) < 256" "0 \<le> uint (m a)" "0 \<le> uint (m' a)"
    using uint_lt2p [of "m a"] uint_lt2p [of "m' a"] by simp_all
  have eq: "uint (m a) + 256 * ?r = uint (m' a) + 256 * ?r'" using Suc.prems(1) by simp
  have "uint (m a) = (uint (m a) + 256 * ?r) mod 256" using lim by simp
  also have "\<dots> = (uint (m' a) + 256 * ?r') mod 256" by (simp only: eq)
  also have "\<dots> = uint (m' a)" using lim by simp
  finally have u: "uint (m a) = uint (m' a)" .
  with eq have r: "?r = ?r'" by simp
  show ?case
  proof (cases "b = a")
    case True
    then show ?thesis using u by (simp add: word_uint_eq_iff)
  next
    case False
    then show ?thesis using Suc.IH [OF r] Suc.prems by simp
  qed
qed simp

lemma stn_mod:
  assumes "v mod 256 ^ n = v' mod 256 ^ n"
  shows "stn n m a v = stn n m a v'"
proof
  fix b
  show "stn n m a v b = stn n m a v' b"
  proof (cases "a \<le> b \<and> b < a + int n")
    case True
    then show ?thesis using assms by (intro ldu_inj [of n _ a]) (simp_all add: ldu_stn)
  qed (auto simp: stn_frame)
qed

subsection \<open>Block operations of the C library\<close>

text \<open>\<open>memcpy\<close> and \<open>memset\<close> on byte counts; \<open>memcpy\<close> copies from the memory before the call.\<close>

definition memcpy :: "mem \<Rightarrow> ptr \<Rightarrow> ptr \<Rightarrow> int \<Rightarrow> mem" where
  "memcpy m dst src n = (\<lambda>b. if dst \<le> b \<and> b < dst + n then m (src + (b - dst)) else m b)"

definition memset :: "mem \<Rightarrow> ptr \<Rightarrow> byte \<Rightarrow> int \<Rightarrow> mem" where
  "memset m dst c n = (\<lambda>b. if dst \<le> b \<and> b < dst + n then c else m b)"

definition store_bytes :: "mem \<Rightarrow> ptr \<Rightarrow> byte list \<Rightarrow> mem" where
  "store_bytes m p xs = (\<lambda>b. if p \<le> b \<and> b < p + int (length xs) then xs ! nat (b - p) else m b)"

subsection \<open>The contract of a typed access\<close>

locale cell =
  fixes ld :: "mem \<Rightarrow> int \<Rightarrow> int"
    and st :: "mem \<Rightarrow> int \<Rightarrow> int \<Rightarrow> mem"
    and width :: int
    and narrow :: "int \<Rightarrow> int"
  assumes width_pos: "0 < width"
    and ld_st [simp]: "ld (st m a v) a = narrow v"
    and st_frame: "b < a \<or> a + width \<le> b \<Longrightarrow> st m a v b = m b"
    and st_local: "a \<le> b \<Longrightarrow> b < a + width \<Longrightarrow> st m a v b = st m' a v b"
    and ld_cong: "(\<And>b. a \<le> b \<Longrightarrow> b < a + width \<Longrightarrow> m b = m' b) \<Longrightarrow> ld m a = ld m' a"
    and narrow_ld [simp]: "narrow (ld m a) = ld m a"
begin

lemma ld_st_other:
  assumes "a + width \<le> b \<or> b + width \<le> a"
  shows "ld (st m a v) b = ld m b"
proof (rule ld_cong)
  fix c
  assume "b \<le> c" "c < b + width"
  then show "st m a v c = m c" using assms by (intro st_frame) auto
qed

end

lemma cell_ldu: "0 < n \<Longrightarrow> cell (ldu n) (stn n) (int n) (wrap_u (8 * n))"
  by (unfold_locales)
     (auto simp: ldu_stn_wrap intro: stn_frame stn_local ldu_cong)

lemma cell_lds: "0 < n \<Longrightarrow> cell (lds n) (stn n) (int n) (wrap_s (8 * n))"
  by (unfold_locales)
     (auto simp: lds_stn intro: stn_frame stn_local lds_cong)

interpretation u8: cell ldu8 st8 1 "wrap_u 8"
  using cell_ldu [of 1] by simp

interpretation s8: cell lds8 st8 1 "wrap_s 8"
  using cell_lds [of 1] by simp

interpretation u16: cell ldu16 st16 2 "wrap_u 16"
  using cell_ldu [of 2] by simp

interpretation s16: cell lds16 st16 2 "wrap_s 16"
  using cell_lds [of 2] by simp

interpretation u32: cell ldu32 st32 4 "wrap_u 32"
  using cell_ldu [of 4] by simp

interpretation s32: cell lds32 st32 4 "wrap_s 32"
  using cell_lds [of 4] by simp

subsection \<open>Loops over frames\<close>

lemma for_up_keep:
  "(\<And>k m. 0 \<le> k \<Longrightarrow> k < n \<Longrightarrow> body k m b = (m :: mem) b) \<Longrightarrow> for_up (nat n) body m b = m b"
proof -
  assume keep: "\<And>k m. 0 \<le> k \<Longrightarrow> k < n \<Longrightarrow> body k m b = (m :: mem) b"
  have "int k \<le> n \<Longrightarrow> for_up k body m b = m b" for k
    by (induction k) (auto simp: keep)
  then show ?thesis by (cases "0 \<le> n") simp_all
qed

text \<open>
  The body of iteration \<open>i\<close> changes bytes of \<open>wr i\<close> only, and what it writes there is
  determined by the bytes of \<open>rd i\<close>. If no earlier iteration writes what a later one reads
  or writes, every frame of the result is the body's own result on the original memory.
\<close>

locale frame_loop =
  fixes body :: "int \<Rightarrow> mem \<Rightarrow> mem"
    and rd :: "int \<Rightarrow> int set"
    and wr :: "int \<Rightarrow> int set"
  assumes writes: "b \<notin> wr i \<Longrightarrow> body i m b = m b"
    and reads: "(\<And>b. b \<in> rd i \<Longrightarrow> m b = m' b) \<Longrightarrow> b \<in> wr i \<Longrightarrow> body i m b = body i m' b"
begin

lemma up_outside:
  "(\<And>i. 0 \<le> i \<Longrightarrow> i < int n \<Longrightarrow> b \<notin> wr i) \<Longrightarrow> for_up n body m b = m b"
  by (induction n) (simp_all add: writes)

lemma down_outside:
  "(\<And>i. 0 \<le> i \<Longrightarrow> i < int n \<Longrightarrow> b \<notin> wr i) \<Longrightarrow> for_down n body m b = m b"
  by (induction n arbitrary: m) (simp_all add: writes)

lemma up_frame:
  assumes "\<And>i j. 0 \<le> i \<Longrightarrow> i < j \<Longrightarrow> j < int n \<Longrightarrow> wr i \<inter> (rd j \<union> wr j) = {}"
    and "0 \<le> i" and "i < int n" and "b \<in> wr i"
  shows "for_up n body m b = body i m b"
  using assms
proof (induction n)
  case (Suc n)
  show ?case
  proof (cases "i = int n")
    case True
    have "for_up n body m c = m c" if "c \<in> rd (int n)" for c
    proof (rule up_outside)
      fix j assume "0 \<le> j" "j < int n"
      then have "wr j \<inter> (rd (int n) \<union> wr (int n)) = {}" by (intro Suc.prems(1)) simp_all
      then show "c \<notin> wr j" using that by blast
    qed
    then show ?thesis using True Suc.prems(4) by (auto intro: reads)
  next
    case False
    then have i: "i < int n" using Suc.prems(3) by simp
    have "wr i \<inter> (rd (int n) \<union> wr (int n)) = {}"
      using Suc.prems(1) [of i "int n"] Suc.prems(2) i by simp
    then have "b \<notin> wr (int n)" using Suc.prems(4) by blast
    then have "for_up (Suc n) body m b = for_up n body m b" by (simp add: writes)
    also have "\<dots> = body i m b"
      by (rule Suc.IH) (use Suc.prems i in auto)
    finally show ?thesis .
  qed
qed simp

lemma down_frame:
  assumes "\<And>i j. 0 \<le> i \<Longrightarrow> i < j \<Longrightarrow> j < int n \<Longrightarrow> wr j \<inter> (rd i \<union> wr i) = {}"
    and "0 \<le> i" and "i < int n" and "b \<in> wr i"
  shows "for_down n body m b = body i m b"
  using assms
proof (induction n arbitrary: m)
  case (Suc n)
  show ?case
  proof (cases "i = int n")
    case True
    have "for_down n body (body (int n) m) b = body (int n) m b"
    proof (rule down_outside)
      fix j assume "0 \<le> j" "j < int n"
      then have "wr (int n) \<inter> (rd j \<union> wr j) = {}" by (intro Suc.prems(1)) simp_all
      then show "b \<notin> wr j" using Suc.prems(4) True by blast
    qed
    then show ?thesis using True by simp
  next
    case False
    then have i: "i < int n" using Suc.prems(3) by simp
    have dis: "wr (int n) \<inter> (rd i \<union> wr i) = {}"
      using Suc.prems(1) [of i "int n"] Suc.prems(2) i by simp
    have "for_down n body (body (int n) m) b = body i (body (int n) m) b"
      by (rule Suc.IH) (use Suc.prems i in auto)
    also have "\<dots> = body i m b"
    proof (rule reads)
      fix c assume "c \<in> rd i"
      then show "body (int n) m c = m c" using dis by (intro writes) blast
    qed (rule Suc.prems(4))
    finally show ?thesis by simp
  qed
qed simp

end

text \<open>
  The usual case: frame \<open>i\<close> of the source is the \<open>fs\<close> bytes at \<open>inp + fs * i\<close> and frame
  \<open>i\<close> of the destination the \<open>fd\<close> bytes at \<open>out + fd * i\<close>. The two buffers either start
  at the same address or do not overlap (\<open>aliasing\<close>).
\<close>

definition span :: "int \<Rightarrow> int \<Rightarrow> int set" where
  "span a n = {a ..< a + n}"

lemma in_span [simp]: "b \<in> span a n \<longleftrightarrow> a \<le> b \<and> b < a + n"
  by (simp add: span_def)

definition aliasing :: "ptr \<Rightarrow> int \<Rightarrow> ptr \<Rightarrow> int \<Rightarrow> bool" where
  "aliasing out olen inp ilen \<longleftrightarrow> inp = out \<or> out + olen \<le> inp \<or> inp + ilen \<le> out"

lemma aliasing_refl [simp]: "aliasing p x p y"
  by (simp add: aliasing_def)

lemma stride_next: "0 \<le> i \<Longrightarrow> i < j \<Longrightarrow> 0 \<le> (w :: int) \<Longrightarrow> w * i + w \<le> w * j"
proof -
  assume "0 \<le> i" "i < j" "0 \<le> w"
  then have "w * (i + 1) \<le> w * j" by (intro mult_left_mono) simp_all
  then show ?thesis by (simp add: algebra_simps)
qed

lemma stride_bound: "0 \<le> i \<Longrightarrow> i < n \<Longrightarrow> 0 \<le> (w :: int) \<Longrightarrow> 0 \<le> w * i \<and> w * i + w \<le> w * n"
  using stride_next [of i n w] by simp

lemma stride_disjoint:
  "0 \<le> i \<Longrightarrow> i < j \<Longrightarrow> 0 \<le> w \<Longrightarrow> span (a + w * i) w \<inter> span (a + w * j) w = {}"
  using stride_next [of i j w] by auto

lemma stride_up_disjoint:
  assumes "0 \<le> i" "i < j" "j < n" "0 \<le> fd" "fd \<le> fs" "aliasing out (fd * n) inp (fs * n)"
  shows "span (out + fd * i) fd \<inter> span (inp + fs * j) fs = {}"
proof -
  have a: "fd * i + fd \<le> fd * j" "fd * j \<le> fs * j" using assms by (auto intro: stride_next mult_right_mono)
  have "fd * i + fd \<le> fd * n" "0 \<le> fd * i" "fs * j + fs \<le> fs * n" "0 \<le> fs * j"
    using stride_bound [of i n fd] stride_bound [of j n fs] assms by auto
  then show ?thesis using a assms(6) by (auto simp: aliasing_def)
qed

lemma stride_down_disjoint:
  assumes "0 \<le> i" "i < j" "j < n" "0 \<le> fs" "fs \<le> fd" "aliasing out (fd * n) inp (fs * n)"
  shows "span (out + fd * j) fd \<inter> span (inp + fs * i) fs = {}"
proof -
  have a: "fs * i + fs \<le> fs * j" "fs * j \<le> fd * j" using assms by (auto intro: stride_next mult_right_mono)
  have "fd * j + fd \<le> fd * n" "0 \<le> fd * j" "fs * i + fs \<le> fs * n" "0 \<le> fs * i"
    using stride_bound [of j n fd] stride_bound [of i n fs] assms by auto
  then show ?thesis using a assms(6) by (auto simp: aliasing_def)
qed

locale strided_loop = frame_loop body "\<lambda>i. span (inp + fs * i) fs" "\<lambda>i. span (out + fd * i) fd"
  for body :: "int \<Rightarrow> mem \<Rightarrow> mem" and out :: ptr and inp :: ptr and fd :: int and fs :: int +
  assumes fs_nonneg: "0 \<le> fs" and fd_nonneg: "0 \<le> fd"
begin

lemma up:
  assumes "fd \<le> fs" "aliasing out (fd * int n) inp (fs * int n)" "0 \<le> i" "i < int n"
    and "out + fd * i \<le> b" "b < out + fd * i + fd"
  shows "for_up n body m b = body i m b"
proof (rule up_frame [OF _ assms(3,4)])
  show "span (out + fd * i) fd \<inter> (span (inp + fs * j) fs \<union> span (out + fd * j) fd) = {}"
    if "0 \<le> i" "i < j" "j < int n" for i j
    using stride_up_disjoint [OF that fd_nonneg assms(1,2)] stride_disjoint [OF that(1,2) fd_nonneg]
    by (simp add: Int_Un_distrib)
qed (use assms in simp)

lemma down:
  assumes "fs \<le> fd" "aliasing out (fd * int n) inp (fs * int n)" "0 \<le> i" "i < int n"
    and "out + fd * i \<le> b" "b < out + fd * i + fd"
  shows "for_down n body m b = body i m b"
proof (rule down_frame [OF _ assms(3,4)])
  show "span (out + fd * j) fd \<inter> (span (inp + fs * i) fs \<union> span (out + fd * i) fd) = {}"
    if "0 \<le> i" "i < j" "j < int n" for i j
    using stride_down_disjoint [OF that fs_nonneg assms(1,2)] stride_disjoint [OF that(1,2) fd_nonneg]
    by (simp add: Int_Un_distrib Int_commute)
qed (use assms in simp)

lemma up_rest:
  assumes "b < out \<or> out + fd * int n \<le> b"
  shows "for_up n body m b = m b"
  by (rule up_outside) (use assms stride_bound fd_nonneg in fastforce)

lemma down_rest:
  assumes "b < out \<or> out + fd * int n \<le> b"
  shows "for_down n body m b = m b"
  by (rule down_outside) (use assms stride_bound fd_nonneg in fastforce)

end

subsection \<open>Loops that convert cell by cell\<close>

locale cell_map =
  src: cell ldS stS ws narrowS + dst: cell ldD stD wd narrowD
  for ldS stS ws narrowS ldD stD wd narrowD +
  fixes f :: "int \<Rightarrow> int"
begin

lemma strided: "strided_loop (\<lambda>i m. stD m (out + wd * i) (f (ldS m (inp + ws * i)))) out inp wd ws"
proof (unfold_locales, goal_cases)
  case (1 b i m)
  then show ?case by (intro dst.st_frame) auto
next
  case (2 i m m' b)
  have "ldS m (inp + ws * i) = ldS m' (inp + ws * i)" by (rule src.ld_cong) (rule 2, simp)
  then show ?case using 2(2) by (auto intro: dst.st_local)
qed (use src.width_pos dst.width_pos in auto)

lemma map_down:
  assumes "ws \<le> wd" "aliasing out (wd * int n) inp (ws * int n)" "0 \<le> i" "i < int n"
  shows "ldD (for_down n (\<lambda>i m. stD m (out + wd * i) (f (ldS m (inp + ws * i)))) m) (out + wd * i) = narrowD (f (ldS m (inp + ws * i)))"
proof -
  have "ldD (for_down n (\<lambda>i m. stD m (out + wd * i) (f (ldS m (inp + ws * i)))) m) (out + wd * i)
      = ldD (stD m (out + wd * i) (f (ldS m (inp + ws * i)))) (out + wd * i)"
    by (rule dst.ld_cong) (rule strided_loop.down [OF strided], use assms in auto)
  then show ?thesis by simp
qed

lemma map_up:
  assumes "wd \<le> ws" "aliasing out (wd * int n) inp (ws * int n)" "0 \<le> i" "i < int n"
  shows "ldD (for_up n (\<lambda>i m. stD m (out + wd * i) (f (ldS m (inp + ws * i)))) m) (out + wd * i) = narrowD (f (ldS m (inp + ws * i)))"
proof -
  have "ldD (for_up n (\<lambda>i m. stD m (out + wd * i) (f (ldS m (inp + ws * i)))) m) (out + wd * i)
      = ldD (stD m (out + wd * i) (f (ldS m (inp + ws * i)))) (out + wd * i)"
    by (rule dst.ld_cong) (rule strided_loop.up [OF strided], use assms in auto)
  then show ?thesis by simp
qed

lemmas map_up_rest = strided_loop.up_rest [OF strided]
lemmas map_down_rest = strided_loop.down_rest [OF strided]

end

subsection \<open>Memories that agree on a set of addresses\<close>

definition agree :: "int set \<Rightarrow> mem \<Rightarrow> mem \<Rightarrow> bool" where
  "agree S m m' \<longleftrightarrow> (\<forall>b \<in> S. m b = m' b)"

lemma agreeD: "agree S m m' \<Longrightarrow> b \<in> S \<Longrightarrow> m b = m' b"
  by (simp add: agree_def)

lemma agree_mono: "agree S m m' \<Longrightarrow> T \<subseteq> S \<Longrightarrow> agree T m m'"
  by (auto simp: agree_def)

lemma agree_stn:
  "agree S m m' \<Longrightarrow> v = v' \<Longrightarrow> agree (S \<union> span a (int n)) (stn n m a v) (stn n m' a v')"
proof -
  assume S: "agree S m m'" and "v = v'"
  have "stn n m a v b = stn n m' a v b" if "b \<in> S \<union> span a (int n)" for b
  proof (cases "b \<in> span a (int n)")
    case True
    then show ?thesis by (auto intro: stn_local)
  next
    case False
    then show ?thesis using that agreeD [OF S, of b] by (auto simp: stn_frame)
  qed
  then show ?thesis using \<open>v = v'\<close> by (simp add: agree_def)
qed

lemma agree_lds: "agree S m m' \<Longrightarrow> span a (int n) \<subseteq> S \<Longrightarrow> lds n m a = lds n m' a"
  by (rule lds_cong) (auto dest: agreeD)

lemma agree_ldu: "agree S m m' \<Longrightarrow> span a (int n) \<subseteq> S \<Longrightarrow> ldu n m a = ldu n m' a"
  by (rule ldu_cong) (auto dest: agreeD)

lemma agree_copy:
  assumes "agree S m m'" and "span a (int n) \<subseteq> S"
  shows "agree (S \<union> span d (int n)) (stn n m d (lds n m a)) (stn n m' d (lds n m' a))"
  by (rule agree_stn [OF assms(1) agree_lds [OF assms]])

lemma agree_copy2:
  assumes "agree S m m'" and "span a (int n) \<subseteq> S" and "span b (int n) \<subseteq> S"
  shows "agree (S \<union> span d (int n)) (stn n m d (f (lds n m a) (lds n m b)))
     (stn n m' d (f (lds n m' a) (lds n m' b)))"
  by (rule agree_stn [OF assms(1)])
     (simp only: agree_lds [OF assms(1,2)] agree_lds [OF assms(1,3)])

lemma for_down_rel:
  assumes "P n s t" and "\<And>i x y. i < n \<Longrightarrow> P (Suc i) x y \<Longrightarrow> P i (f (int i) x) (g (int i) y)"
  shows "P 0 (for_down n f s) (for_down n g t)"
  using assms by (induction n arbitrary: s t) auto

text \<open>Storing the same cell over a row of cells, from the last to the first.\<close>

lemma fan_out_frame:
  assumes "b < A \<or> A + int w * int k \<le> b"
  shows "for_down k (\<lambda>c m. stn w m (A + int w * c) (lds w m a)) m b = m b"
  using assms
proof (induction k arbitrary: m)
  case (Suc k)
  have "int w * int (Suc k) = int w * int k + int w" by (simp add: algebra_simps)
  moreover have "0 \<le> int w * int k" by simp
  ultimately have o: "b < A + int w * int k \<or> A + int w * int k + int w \<le> b"
    and r: "b < A \<or> A + int w * int k \<le> b" using Suc.prems by linarith+
  show ?case using o by (simp only: for_down.simps Suc.IH [OF r]) (rule stn_frame)
qed simp

lemma fan_out_cell:
  assumes w: "0 < w" and a: "a = A \<or> A + int w * int k \<le> a \<or> a + int w \<le> A" and c: "0 \<le> c" "c < int k"
  shows "lds w (for_down k (\<lambda>c m. stn w m (A + int w * c) (lds w m a)) m) (A + int w * c) = lds w m a"
  using a c
proof (induction k arbitrary: m)
  case (Suc k)
  let ?m = "stn w m (A + int w * int k) (lds w m a)"
  let ?f = "\<lambda>c m. stn w m (A + int w * c) (lds w m a)"
  have wk: "int w * int (Suc k) = int w * int k + int w" "0 \<le> int w * int k"
    by (simp_all add: algebra_simps)
  show ?case
  proof (cases "c = int k")
    case True
    have "lds w (for_down k ?f ?m) (A + int w * c) = lds w ?m (A + int w * c)"
      by (rule lds_cong, rule fan_out_frame) (use True in auto)
    then show ?thesis using True by (simp add: lds_stn w)
  next
    case False
    then have ck: "c < int k" using Suc.prems by simp
    then have "1 \<le> int k" using Suc.prems by simp
    then have "int w * 1 \<le> int w * int k" by (intro mult_left_mono) simp_all
    then have keep: "lds w ?m a = lds w m a"
      using Suc.prems(1) wk w by (intro cell.ld_st_other [OF cell_lds]) linarith+
    have "lds w (for_down k ?f ?m) (A + int w * c) = lds w ?m a"
      by (rule Suc.IH) (use Suc.prems wk ck in linarith)+
    then show ?thesis using keep by simp
  qed
qed simp

lemma fan_out_agree:
  assumes "agree (span a (int w)) m m'"
  shows "agree (span A (int w * int k))
    (for_down k (\<lambda>c m. stn w m (A + int w * c) (lds w m a)) m)
    (for_down k (\<lambda>c m. stn w m (A + int w * c) (lds w m a)) m')"
proof -
  let ?S = "\<lambda>c. span a (int w) \<union> span (A + int w * int c) (int w * int k - int w * int c)"
  have "agree (?S 0) (for_down k (\<lambda>c m. stn w m (A + int w * c) (lds w m a)) m)
    (for_down k (\<lambda>c m. stn w m (A + int w * c) (lds w m a)) m')"
  proof (rule for_down_rel [where P = "\<lambda>c. agree (?S c)"])
    fix c m1 m2
    assume c: "c < k" and P: "agree (?S (Suc c)) m1 m2"
    have "agree (?S (Suc c) \<union> span (A + int w * int c) (int w))
       (stn w m1 (A + int w * int c) (lds w m1 a)) (stn w m2 (A + int w * int c) (lds w m2 a))"
      by (rule agree_stn [OF P], rule agree_lds [OF P]) simp
    then show "agree (?S c) (stn w m1 (A + int w * int c) (lds w m1 a)) (stn w m2 (A + int w * int c) (lds w m2 a))"
      by (rule agree_mono) (auto simp: algebra_simps)
  qed (use assms in \<open>auto intro: agree_mono\<close>)
  then show ?thesis by (rule agree_mono) simp
qed

end
