(* ===== verification/Conv_Bits.thy ===== *)
theory Conv_Bits
  imports Memory_Model
begin

text \<open>
  Change of sample width, \<open>roar_conv_bits*\<close> of \<open>src/libroardsp/convert.c\<close>. \<open>char\<close> is signed, as
  on x86. Shifts of promoted samples stay inside 32 bits, so they are shifts of
  integers; the store narrows. Widening routines run from the last sample to the first
  and narrowing ones from the first to the last, which is what makes a call with
  \<open>in == out\<close> correct; the theorems cover that call and the one with separate buffers.
\<close>

definition roar_conv_bits_8to16 :: "mem \<Rightarrow> ptr \<Rightarrow> ptr \<Rightarrow> c_int \<Rightarrow> conv_result" where
  "roar_conv_bits_8to16 m out inp samples =
     (0, for_down (nat samples) (\<lambda>i m. st16 m (out + 2 * i) (push_bit 8 (lds8 m (inp + 1 * i)))) m)"

definition roar_conv_bits_8to32 :: "mem \<Rightarrow> ptr \<Rightarrow> ptr \<Rightarrow> c_int \<Rightarrow> conv_result" where
  "roar_conv_bits_8to32 m out inp samples =
     (0, for_down (nat samples) (\<lambda>i m. st32 m (out + 4 * i) (push_bit 24 (lds8 m (inp + 1 * i)))) m)"

definition roar_conv_bits_16to8 :: "mem \<Rightarrow> ptr \<Rightarrow> ptr \<Rightarrow> c_int \<Rightarrow> conv_result" where
  "roar_conv_bits_16to8 m out inp samples =
     (0, for_up (nat samples) (\<lambda>i m. st8 m (out + 1 * i) (drop_bit 8 (lds16 m (inp + 2 * i)))) m)"

definition roar_conv_bits_16to32 :: "mem \<Rightarrow> ptr \<Rightarrow> ptr \<Rightarrow> c_int \<Rightarrow> conv_result" where
  "roar_conv_bits_16to32 m out inp samples =
     (0, for_down (nat samples) (\<lambda>i m. st32 m (out + 4 * i) (push_bit 16 (lds16 m (inp + 2 * i)))) m)"

text \<open>
  The 24 bit routine walks \<open>ip\<close> down from \<open>in + 3 * (samples - 1)\<close> and fills the bytes of
  the union \<open>t\<close> in the order 2, 3, 1 (little-endian branch); byte 0 stays 0. The loop
  state carries \<open>ip\<close>.
\<close>

definition roar_conv_bits_24to32 :: "mem \<Rightarrow> ptr \<Rightarrow> ptr \<Rightarrow> c_int \<Rightarrow> conv_result" where
  "roar_conv_bits_24to32 m out inp samples =
     (let samples = samples - 1;
          ip = inp + 3 * samples;
          body = (\<lambda>i (ip, m).
            (let c2 = uint (m ip); c3 = uint (m (ip - 1)); c1 = uint (m (ip - 2));
                 t = 0 + 256 * c1 + 65536 * c2 + 16777216 * c3
             in (ip - 3, st32 m (out + 4 * i) t)))
      in (0, snd (for_down (nat (samples + 1)) body (ip, m))))"

definition roar_conv_bits_32to8 :: "mem \<Rightarrow> ptr \<Rightarrow> ptr \<Rightarrow> c_int \<Rightarrow> conv_result" where
  "roar_conv_bits_32to8 m out inp samples =
     (0, for_up (nat samples) (\<lambda>i m. st8 m (out + 1 * i) (drop_bit 24 (lds32 m (inp + 4 * i)))) m)"

definition roar_conv_bits_32to16 :: "mem \<Rightarrow> ptr \<Rightarrow> ptr \<Rightarrow> c_int \<Rightarrow> conv_result" where
  "roar_conv_bits_32to16 m out inp samples =
     (0, for_up (nat samples) (\<lambda>i m. st16 m (out + 2 * i) (drop_bit 16 (lds32 m (inp + 4 * i)))) m)"

text \<open>The dispatcher: \<open>((from / 8) << 4) + (to / 8)\<close> selects the routine.\<close>

definition roar_conv_bits :: "mem \<Rightarrow> ptr \<Rightarrow> ptr \<Rightarrow> c_int \<Rightarrow> c_int \<Rightarrow> c_int \<Rightarrow> conv_result" where
  "roar_conv_bits m out inp samples from to =
     (if from = to then
        (if inp = out then (0, m) else (0, memcpy m out inp (wrap_s 32 (samples * from) sdiv 8)))
      else
        (let format = push_bit 4 (from sdiv 8) + to sdiv 8
         in if format = 0x12 then roar_conv_bits_8to16 m out inp samples
            else if format = 0x14 then roar_conv_bits_8to32 m out inp samples
            else if format = 0x21 then roar_conv_bits_16to8 m out inp samples
            else if format = 0x24 then roar_conv_bits_16to32 m out inp samples
            else if format = 0x34 then roar_conv_bits_24to32 m out inp samples
            else if format = 0x41 then roar_conv_bits_32to8 m out inp samples
            else if format = 0x42 then roar_conv_bits_32to16 m out inp samples
            else (-1, m)))"

lemmas conv_bits_defs [roar_defs] =
  roar_conv_bits_8to16_def roar_conv_bits_8to32_def roar_conv_bits_16to8_def
  roar_conv_bits_16to32_def roar_conv_bits_32to8_def roar_conv_bits_32to16_def

subsection \<open>The routines as cell maps\<close>

interpretation w8to16: cell_map lds8 st8 1 "wrap_s 8" lds16 st16 2 "wrap_s 16" "push_bit 8"
  by unfold_locales

interpretation w8to32: cell_map lds8 st8 1 "wrap_s 8" lds32 st32 4 "wrap_s 32" "push_bit 24"
  by unfold_locales

interpretation w16to32: cell_map lds16 st16 2 "wrap_s 16" lds32 st32 4 "wrap_s 32" "push_bit 16"
  by unfold_locales

interpretation n16to8: cell_map lds16 st16 2 "wrap_s 16" lds8 st8 1 "wrap_s 8" "drop_bit 8"
  by unfold_locales

interpretation n32to8: cell_map lds32 st32 4 "wrap_s 32" lds8 st8 1 "wrap_s 8" "drop_bit 24"
  by unfold_locales

interpretation n32to16: cell_map lds32 st32 4 "wrap_s 32" lds16 st16 2 "wrap_s 16" "drop_bit 16"
  by unfold_locales

subsection \<open>What the dispatcher computes\<close>

text \<open>Sample \<open>i\<close> of a signed PCM buffer of \<open>bits\<close> bits.\<close>

definition sample :: "int \<Rightarrow> mem \<Rightarrow> ptr \<Rightarrow> int \<Rightarrow> int" where
  "sample bits m p i = lds (nat (bits div 8)) m (p + bits div 8 * i)"

lemma sample_8: "sample 8 m p i = lds8 m (p + 1 * i)"
  and sample_16: "sample 16 m p i = lds16 m (p + 2 * i)"
  and sample_32: "sample 32 m p i = lds32 m (p + 4 * i)"
  by (simp_all add: sample_def)

lemmas samples = sample_8 sample_16 sample_32

definition pcm_widths :: "(int \<times> int) set" where
  "pcm_widths = {(8, 16), (8, 32), (16, 32)}"

lemma pcm_widths_cases:
  assumes "(a, b) \<in> pcm_widths"
  obtains "a = 8" "b = 16" | "a = 8" "b = 32" | "a = 16" "b = 32"
  using assms by (auto simp: pcm_widths_def)

lemma push_in_s16: "- 128 \<le> (x :: int) \<Longrightarrow> x \<le> 127 \<Longrightarrow> wrap_s 16 (push_bit 8 x) = x * 256"
  by (subst wrap_s_id) (simp_all add: push_bit_eq_mult)

lemma push_in_s32_24: "- 128 \<le> (x :: int) \<Longrightarrow> x \<le> 127 \<Longrightarrow> wrap_s 32 (push_bit 24 x) = x * 16777216"
  by (subst wrap_s_id) (simp_all add: push_bit_eq_mult)

lemma push_in_s32_16: "- 32768 \<le> (x :: int) \<Longrightarrow> x \<le> 32767 \<Longrightarrow> wrap_s 32 (push_bit 16 x) = x * 65536"
  by (subst wrap_s_id) (simp_all add: push_bit_eq_mult)

lemma drop_in_s8_8: "- 32768 \<le> (x :: int) \<Longrightarrow> x \<le> 32767 \<Longrightarrow> wrap_s 8 (drop_bit 8 x) = x div 256"
  by (subst wrap_s_id) (simp_all add: drop_bit_eq_div)

lemma drop_in_s8_24: "- 2147483648 \<le> (x :: int) \<Longrightarrow> x \<le> 2147483647 \<Longrightarrow> wrap_s 8 (drop_bit 24 x) = x div 16777216"
  by (subst wrap_s_id) (simp_all add: drop_bit_eq_div)

lemma drop_in_s16: "- 2147483648 \<le> (x :: int) \<Longrightarrow> x \<le> 2147483647 \<Longrightarrow> wrap_s 16 (drop_bit 16 x) = x div 65536"
  by (subst wrap_s_id) (simp_all add: drop_bit_eq_div)

lemmas shift_in_range [c_arith] =
  push_in_s16 push_in_s32_24 push_in_s32_16 drop_in_s8_8 drop_in_s8_24 drop_in_s16

lemmas cell_ranges = lds8_range lds16_range lds32_range

lemma conv_bits_format:
  "roar_conv_bits m out inp n 8 16 = roar_conv_bits_8to16 m out inp n"
  "roar_conv_bits m out inp n 8 32 = roar_conv_bits_8to32 m out inp n"
  "roar_conv_bits m out inp n 16 32 = roar_conv_bits_16to32 m out inp n"
  "roar_conv_bits m out inp n 16 8 = roar_conv_bits_16to8 m out inp n"
  "roar_conv_bits m out inp n 32 8 = roar_conv_bits_32to8 m out inp n"
  "roar_conv_bits m out inp n 32 16 = roar_conv_bits_32to16 m out inp n"
  "roar_conv_bits m out inp n 24 32 = roar_conv_bits_24to32 m out inp n"
  by (simp_all add: roar_conv_bits_def sdiv_pos push_bit_eq_mult)

lemma widen_sample:
  assumes "(from, to) \<in> pcm_widths" and "aliasing out (to div 8 * n) inp (from div 8 * n)"
    and "0 \<le> i" and "i < n"
  shows "sample to (snd (roar_conv_bits m out inp n from to)) out i
      = sample from m inp i * 2 ^ nat (to - from)"
  using assms(1)
proof (cases rule: pcm_widths_cases)
  case 1
  then show ?thesis using assms(2-4) cell_ranges
    by (simp only: conv_bits_format conv_bits_defs samples snd_conv)
       (subst w8to16.map_down, simp_all add: c_arith)
next
  case 2
  then show ?thesis using assms(2-4) cell_ranges
    by (simp only: conv_bits_format conv_bits_defs samples snd_conv)
       (subst w8to32.map_down, simp_all add: c_arith)
next
  case 3
  then show ?thesis using assms(2-4) cell_ranges
    by (simp only: conv_bits_format conv_bits_defs samples snd_conv)
       (subst w16to32.map_down, simp_all add: c_arith)
qed

lemma narrow_sample:
  assumes "(to, from) \<in> pcm_widths" and "aliasing out (to div 8 * n) inp (from div 8 * n)"
    and "0 \<le> i" and "i < n"
  shows "sample to (snd (roar_conv_bits m out inp n from to)) out i
      = sample from m inp i div 2 ^ nat (from - to)"
  using assms(1)
proof (cases rule: pcm_widths_cases)
  case 1
  then show ?thesis using assms(2-4) cell_ranges
    by (simp only: conv_bits_format conv_bits_defs samples snd_conv)
       (subst n16to8.map_up, simp_all add: c_arith)
next
  case 2
  then show ?thesis using assms(2-4) cell_ranges
    by (simp only: conv_bits_format conv_bits_defs samples snd_conv)
       (subst n32to8.map_up, simp_all add: c_arith)
next
  case 3
  then show ?thesis using assms(2-4) cell_ranges
    by (simp only: conv_bits_format conv_bits_defs samples snd_conv)
       (subst n32to16.map_up, simp_all add: c_arith)
qed

lemma conv_bits_ret:
  "(from, to) \<in> pcm_widths \<or> (to, from) \<in> pcm_widths \<Longrightarrow> fst (roar_conv_bits m out inp n from to) = 0"
  by (auto simp: pcm_widths_def conv_bits_format conv_bits_defs)

lemma conv_bits_rest:
  assumes "(from, to) \<in> pcm_widths \<or> (to, from) \<in> pcm_widths" and "0 \<le> n"
    and "b < out \<or> out + to div 8 * n \<le> b"
  shows "snd (roar_conv_bits m out inp n from to) b = m b"
proof -
  have n: "int (nat n) = n" using assms(2) by simp
  show ?thesis
    using assms(1)
  proof (elim disjE pcm_widths_cases)
    assume "from = 8" "to = 16" then show ?thesis
      using w8to16.map_down_rest [of b out "nat n" inp m] assms(3) n by (simp add: conv_bits_format conv_bits_defs)
  next
    assume "from = 8" "to = 32" then show ?thesis
      using w8to32.map_down_rest [of b out "nat n" inp m] assms(3) n by (simp add: conv_bits_format conv_bits_defs)
  next
    assume "from = 16" "to = 32" then show ?thesis
      using w16to32.map_down_rest [of b out "nat n" inp m] assms(3) n by (simp add: conv_bits_format conv_bits_defs)
  next
    assume "to = 8" "from = 16" then show ?thesis
      using n16to8.map_up_rest [of b out "nat n" inp m] assms(3) n by (simp add: conv_bits_format conv_bits_defs)
  next
    assume "to = 8" "from = 32" then show ?thesis
      using n32to8.map_up_rest [of b out "nat n" inp m] assms(3) n by (simp add: conv_bits_format conv_bits_defs)
  next
    assume "to = 16" "from = 32" then show ?thesis
      using n32to16.map_up_rest [of b out "nat n" inp m] assms(3) n by (simp add: conv_bits_format conv_bits_defs)
  qed
qed

subsection \<open>Properties\<close>

text \<open>Widening 8 to 16, 8 to 32 or 16 to 32 bits returns 0, multiplies every sample by
  the exact power of two, and leaves every byte outside the output untouched, both in
  place (\<open>in == out\<close>) and between buffers that do not overlap.\<close>

theorem conv_bits_widen:
  assumes "(from, to) \<in> pcm_widths" and "0 \<le> n"
    and "aliasing out (to div 8 * n) inp (from div 8 * n)"
  shows "fst (roar_conv_bits m out inp n from to) = 0
    \<and> (\<forall>i. 0 \<le> i \<and> i < n \<longrightarrow>
         sample to (snd (roar_conv_bits m out inp n from to)) out i
         = sample from m inp i * 2 ^ nat (to - from))
    \<and> (\<forall>b. b < out \<or> out + to div 8 * n \<le> b \<longrightarrow>
         snd (roar_conv_bits m out inp n from to) b = m b)"
  using assms widen_sample conv_bits_ret conv_bits_rest by blast

theorem conv_bits_widen_witness:
  "sample 16 (snd (roar_conv_bits ((\<lambda>_. 0)(100 := 5, 101 := 200)) 100 100 2 8 16)) 100 1 = - 14336"
proof -
  have "sample 8 ((\<lambda>_. 0)(100 := 5, 101 := 200)) 100 1 = - 56" by code_simp
  moreover have "aliasing 100 (16 div 8 * 2) 100 (8 div 8 * 2)" by simp
  ultimately show ?thesis
    using conv_bits_widen [of 8 16 2 100 100 "(\<lambda>_. 0)(100 := 5, 101 := 200)"]
    by (simp add: pcm_widths_def)
qed

text \<open>Widening and narrowing back is lossless: whatever the (aliased or separate)
  buffers \<open>p\<close>, \<open>q\<close>, \<open>r\<close> of the two calls, every sample of the original buffer is found
  again in the last one, and both calls return 0.\<close>

theorem conv_bits_roundtrip:
  assumes "(from, to) \<in> pcm_widths" and "0 \<le> i" and "i < n"
    and "aliasing q (to div 8 * n) p (from div 8 * n)"
    and "aliasing r (from div 8 * n) q (to div 8 * n)"
    and m1: "m1 = snd (roar_conv_bits m q p n from to)"
  shows "fst (roar_conv_bits m q p n from to) = 0
    \<and> fst (roar_conv_bits m1 r q n to from) = 0
    \<and> sample from (snd (roar_conv_bits m1 r q n to from)) r i = sample from m p i"
proof -
  have "sample to m1 q i = sample from m p i * 2 ^ nat (to - from)"
    unfolding m1 by (rule widen_sample) (use assms in auto)
  moreover have "sample from (snd (roar_conv_bits m1 r q n to from)) r i
      = sample to m1 q i div 2 ^ nat (to - from)"
    by (rule narrow_sample) (use assms in auto)
  ultimately show ?thesis using assms(1) conv_bits_ret by simp
qed

theorem conv_bits_roundtrip_witness:
  "sample 8 (snd (roar_conv_bits (snd (roar_conv_bits ((\<lambda>_. 0)(100 := 5, 101 := 200)) 100 100 2 8 32))
     100 100 2 32 8)) 100 1 = - 56"
proof -
  have "sample 8 ((\<lambda>_. 0)(100 := 5, 101 := 200)) 100 1 = - 56" by code_simp
  then show ?thesis
    using conv_bits_roundtrip [of 8 32 1 2 100 100 100
        "snd (roar_conv_bits ((\<lambda>_. 0)(100 := 5, 101 := 200)) 100 100 2 8 32)"
        "(\<lambda>_. 0)(100 := 5, 101 := 200)"]
    by (simp add: pcm_widths_def)
qed

text \<open>The 24 bit routine reads before its input: converting one sample whose three bytes
  are at \<open>inp\<close> takes the two high bytes of the result from \<open>inp\<close> and from the byte in front of
  the buffer, and byte 1 from the one before that; the second and third byte of the
  sample do not enter the result.\<close>

theorem conv_24to32_first_sample:
  "ldu32 (snd (roar_conv_bits m out inp 1 24 32)) out
     = 256 * uint (m (inp - 2)) + 65536 * uint (m inp) + 16777216 * uint (m (inp - 1))"
proof -
  let ?t = "256 * uint (m (inp - 2)) + 65536 * uint (m inp) + 16777216 * uint (m (inp - 1))"
  have b: "0 \<le> uint (m a) \<and> uint (m a) < 256" for a using uint_lt2p [of "m a"] by simp
  have "0 \<le> ?t \<and> ?t < 2 ^ 32" using b [of inp] b [of "inp - 1"] b [of "inp - 2"] by auto
  then have "wrap_u 32 ?t = ?t" by (simp add: wrap_u_id)
  then show ?thesis
    by (simp add: conv_bits_format roar_conv_bits_24to32_def Let_def)
qed

end
