(* ===== verification/Conv_Chans.thy ===== *)
theory Conv_Chans
  imports Conv_Bits
begin

text \<open>
  Change of the number of channels, \<open>roar_conv_chans*\<close> of \<open>src/libroardsp/convert.c\<close>.
  \<open>samples\<close> counts the samples of the input buffer, all channels together. The routines for
  8, 16 and 32 bits that differ in the sample type only are instances of one definition
  over the sample's bytes \<open>w\<close>. A loop whose counters move together is written over the frame number:
  \<open>i = (h = samples - 1) * 2; i >= 0; i -= 2, h--\<close> is \<open>h\<close> going down with \<open>i = 2 * h\<close>. The
  accumulator \<open>register int s\<close> wraps at 32 bits. Dividing by \<open>from = 0\<close> traps in C; the theorems
  assume \<open>0 < from\<close>.
\<close>

subsection \<open>From one channel\<close>

definition conv_1ton :: "nat \<Rightarrow> mem \<Rightarrow> ptr \<Rightarrow> ptr \<Rightarrow> c_int \<Rightarrow> c_int \<Rightarrow> conv_result" where
  "conv_1ton w m out inp samples to =
     (0, for_down (nat samples) (\<lambda>i. for_down (nat to) (\<lambda>c m.
           stn w m (out + int w * (i * to + c)) (lds w m (inp + int w * i)))) m)"

definition roar_conv_chans_1ton8 :: "mem \<Rightarrow> ptr \<Rightarrow> ptr \<Rightarrow> c_int \<Rightarrow> c_int \<Rightarrow> conv_result" where
  "roar_conv_chans_1ton8 = conv_1ton 1"

definition roar_conv_chans_1ton16 :: "mem \<Rightarrow> ptr \<Rightarrow> ptr \<Rightarrow> c_int \<Rightarrow> c_int \<Rightarrow> conv_result" where
  "roar_conv_chans_1ton16 = conv_1ton 2"

definition roar_conv_chans_1ton32 :: "mem \<Rightarrow> ptr \<Rightarrow> ptr \<Rightarrow> c_int \<Rightarrow> c_int \<Rightarrow> conv_result" where
  "roar_conv_chans_1ton32 = conv_1ton 4"

definition conv_1to2 :: "nat \<Rightarrow> mem \<Rightarrow> ptr \<Rightarrow> ptr \<Rightarrow> c_int \<Rightarrow> conv_result" where
  "conv_1to2 w m out inp samples =
     (0, for_down (nat samples) (\<lambda>h m.
           let i = h * 2;
               m = stn w m (out + int w * (i + 0)) (lds w m (inp + int w * h))
           in stn w m (out + int w * (i + 1)) (lds w m (inp + int w * h))) m)"

definition roar_conv_chans_1to28 :: "mem \<Rightarrow> ptr \<Rightarrow> ptr \<Rightarrow> c_int \<Rightarrow> conv_result" where
  "roar_conv_chans_1to28 = conv_1to2 1"

definition roar_conv_chans_1to216 :: "mem \<Rightarrow> ptr \<Rightarrow> ptr \<Rightarrow> c_int \<Rightarrow> conv_result" where
  "roar_conv_chans_1to216 = conv_1to2 2"

subsection \<open>To one channel\<close>

definition conv_nto1 :: "nat \<Rightarrow> mem \<Rightarrow> ptr \<Rightarrow> ptr \<Rightarrow> c_int \<Rightarrow> c_int \<Rightarrow> conv_result" where
  "conv_nto1 w m out inp samples from =
     (0, for_up (nat (samples sdiv from)) (\<lambda>i m.
           let s = for_up (nat from) (\<lambda>c s. wrap_s 32 (s + lds w m (inp + int w * (i * from + c)))) 0
           in stn w m (out + int w * i) (s sdiv from)) m)"

definition roar_conv_chans_nto18 :: "mem \<Rightarrow> ptr \<Rightarrow> ptr \<Rightarrow> c_int \<Rightarrow> c_int \<Rightarrow> conv_result" where
  "roar_conv_chans_nto18 = conv_nto1 1"

definition roar_conv_chans_nto116 :: "mem \<Rightarrow> ptr \<Rightarrow> ptr \<Rightarrow> c_int \<Rightarrow> c_int \<Rightarrow> conv_result" where
  "roar_conv_chans_nto116 = conv_nto1 2"

definition roar_conv_chans_nto132 :: "mem \<Rightarrow> ptr \<Rightarrow> ptr \<Rightarrow> c_int \<Rightarrow> c_int \<Rightarrow> conv_result" where
  "roar_conv_chans_nto132 = conv_nto1 4"

text \<open>\<open>for (h = i = 0; i < samples; i += 2, h++)\<close>: an odd count still runs its last iteration.\<close>

definition conv_2to1 :: "nat \<Rightarrow> mem \<Rightarrow> ptr \<Rightarrow> ptr \<Rightarrow> c_int \<Rightarrow> conv_result" where
  "conv_2to1 w m out inp samples =
     (0, for_up (nat ((samples + 1) div 2)) (\<lambda>h m.
           let i = 2 * h
           in stn w m (out + int w * h)
                ((lds w m (inp + int w * (i + 0)) + lds w m (inp + int w * (i + 1))) sdiv 2)) m)"

definition roar_conv_chans_2to18 :: "mem \<Rightarrow> ptr \<Rightarrow> ptr \<Rightarrow> c_int \<Rightarrow> conv_result" where
  "roar_conv_chans_2to18 = conv_2to1 1"

definition roar_conv_chans_2to116 :: "mem \<Rightarrow> ptr \<Rightarrow> ptr \<Rightarrow> c_int \<Rightarrow> conv_result" where
  "roar_conv_chans_2to116 = conv_2to1 2"

subsection \<open>From two channels, 16 bit\<close>

text \<open>
  \<open>samples -= 2; i = samples; h = (samples / 2) * k; for (; i >= 0; i -= 2, h -= k)\<close>: frame \<open>j\<close>
  counts down from \<open>samples / 2 - 1\<close>, with \<open>i = 2 * j\<close> (plus one when \<open>samples\<close> is odd) and
  \<open>h = k * j\<close>. Each assignment reads the memory the previous one left.
\<close>

definition roar_conv_chans_2to316 :: "mem \<Rightarrow> ptr \<Rightarrow> ptr \<Rightarrow> c_int \<Rightarrow> conv_result" where
  "roar_conv_chans_2to316 m out inp samples =
     (0, for_down (nat (samples div 2)) (\<lambda>j m.
           let i = 2 * j + samples mod 2; h = 3 * j;
               m = st16 m (out + 2 * (h + 0)) (lds16 m (inp + 2 * (i + 0)));
               m = st16 m (out + 2 * (h + 1)) (lds16 m (inp + 2 * (i + 1)))
           in st16 m (out + 2 * (h + 2))
                ((lds16 m (inp + 2 * (i + 0)) + lds16 m (inp + 2 * (i + 1))) sdiv 2)) m)"

definition roar_conv_chans_2to416 :: "mem \<Rightarrow> ptr \<Rightarrow> ptr \<Rightarrow> c_int \<Rightarrow> conv_result" where
  "roar_conv_chans_2to416 m out inp samples =
     (0, for_down (nat (samples div 2)) (\<lambda>j m.
           let i = 2 * j + samples mod 2; h = 4 * j;
               m = st16 m (out + 2 * (h + 0)) (lds16 m (inp + 2 * (i + 0)));
               m = st16 m (out + 2 * (h + 1)) (lds16 m (inp + 2 * (i + 1)));
               m = st16 m (out + 2 * (h + 2)) (lds16 m (inp + 2 * (i + 0)))
           in st16 m (out + 2 * (h + 3)) (lds16 m (inp + 2 * (i + 1)))) m)"

definition roar_conv_chans_2to516 :: "mem \<Rightarrow> ptr \<Rightarrow> ptr \<Rightarrow> c_int \<Rightarrow> conv_result" where
  "roar_conv_chans_2to516 m out inp samples =
     (0, for_down (nat (samples div 2)) (\<lambda>j m.
           let i = 2 * j + samples mod 2; h = 5 * j;
               m = st16 m (out + 2 * (h + 0)) (lds16 m (inp + 2 * (i + 0)));
               m = st16 m (out + 2 * (h + 1)) (lds16 m (inp + 2 * (i + 1)));
               m = st16 m (out + 2 * (h + 2))
                     ((lds16 m (inp + 2 * (i + 0)) + lds16 m (inp + 2 * (i + 1))) sdiv 2);
               m = st16 m (out + 2 * (h + 3)) (lds16 m (inp + 2 * (i + 0)))
           in st16 m (out + 2 * (h + 4)) (lds16 m (inp + 2 * (i + 1)))) m)"

definition roar_conv_chans_2to616 :: "mem \<Rightarrow> ptr \<Rightarrow> ptr \<Rightarrow> c_int \<Rightarrow> conv_result" where
  "roar_conv_chans_2to616 m out inp samples =
     (0, for_down (nat (samples div 2)) (\<lambda>j m.
           let i = 2 * j + samples mod 2; h = 6 * j;
               m = st16 m (out + 2 * (h + 0)) (lds16 m (inp + 2 * (i + 0)));
               m = st16 m (out + 2 * (h + 1)) (lds16 m (inp + 2 * (i + 1)));
               m = st16 m (out + 2 * (h + 2))
                     ((lds16 m (inp + 2 * (i + 0)) + lds16 m (inp + 2 * (i + 1))) sdiv 2);
               m = st16 m (out + 2 * (h + 3)) (lds16 m (out + 2 * (h + 2)));
               m = st16 m (out + 2 * (h + 4)) (lds16 m (inp + 2 * (i + 0)))
           in st16 m (out + 2 * (h + 5)) (lds16 m (inp + 2 * (i + 1)))) m)"

text \<open>\<open>samples -= 4; for (i = h = 0; i < samples; i += 4, h += 2)\<close>.\<close>

definition roar_conv_chans_4to216 :: "mem \<Rightarrow> ptr \<Rightarrow> ptr \<Rightarrow> c_int \<Rightarrow> conv_result" where
  "roar_conv_chans_4to216 m out inp samples =
     (let samples = samples - 4
      in (0, for_up (nat ((samples + 3) div 4)) (\<lambda>j m.
            let i = 4 * j; h = 2 * j;
                m = st16 m (out + 2 * (h + 0))
                      ((lds16 m (inp + 2 * (i + 0)) + lds16 m (inp + 2 * (i + 2))) sdiv 2)
            in st16 m (out + 2 * (h + 1))
                 ((lds16 m (inp + 2 * (i + 1)) + lds16 m (inp + 2 * (i + 3))) sdiv 2)) m))"

subsection \<open>The dispatcher\<close>

definition roar_conv_chans :: "mem \<Rightarrow> ptr \<Rightarrow> ptr \<Rightarrow> c_int \<Rightarrow> c_int \<Rightarrow> c_int \<Rightarrow> c_int \<Rightarrow> conv_result" where
  "roar_conv_chans m out inp samples from to bits =
     (if from = to then
        (if inp = out then (0, m)
         else (0, memcpy m out inp (wrap_s 32 (samples * from * bits) sdiv 8)))
      else if bits = 8 then
        (if from = 1 then
           (if to = 2 then roar_conv_chans_1to28 m out inp samples
            else roar_conv_chans_1ton8 m out inp samples to)
         else if from = 2 then
           (if to = 1 then roar_conv_chans_2to18 m out inp samples else (-1, m))
         else
           (if to = 1 then roar_conv_chans_nto18 m out inp samples from else (-1, m)))
      else if bits = 16 then
        (if from = 1 then
           (if to = 2 then roar_conv_chans_1to216 m out inp samples
            else roar_conv_chans_1ton16 m out inp samples to)
         else if from = 2 then
           (if to = 1 then roar_conv_chans_2to116 m out inp samples
            else if to = 3 then roar_conv_chans_2to316 m out inp samples
            else if to = 4 then roar_conv_chans_2to416 m out inp samples
            else if to = 5 then roar_conv_chans_2to516 m out inp samples
            else if to = 6 then roar_conv_chans_2to616 m out inp samples
            else (-1, m))
         else if from = 4 then
           (if to = 1 then roar_conv_chans_nto116 m out inp samples 4
            else if to = 2 then roar_conv_chans_4to216 m out inp samples
            else (-1, m))
         else
           (if to = 1 then roar_conv_chans_nto116 m out inp samples from else (-1, m)))
      else if bits = 32 then
        (if from = 1 then roar_conv_chans_1ton32 m out inp samples to
         else
           (if to = 1 then roar_conv_chans_nto132 m out inp samples from else (-1, m)))
      else (-1, m))"

subsection \<open>Mono to several channels\<close>

definition fan_body :: "nat \<Rightarrow> int \<Rightarrow> ptr \<Rightarrow> ptr \<Rightarrow> int \<Rightarrow> mem \<Rightarrow> mem" where
  "fan_body w to out inp i = for_down (nat to) (\<lambda>c m.
     stn w m (out + int w * to * i + int w * c) (lds w m (inp + int w * i)))"

lemma conv_1ton_fan:
  "conv_1ton w m out inp samples to = (0, for_down (nat samples) (fan_body w to out inp) m)"
  by (simp add: conv_1ton_def fan_body_def [abs_def] algebra_simps)

lemma fan_strided:
  assumes "0 \<le> to"
  shows "strided_loop (fan_body w to out inp) out inp (int w * to) (int w)"
proof (unfold_locales, goal_cases)
  case (1 b i m)
  then show ?case unfolding fan_body_def
    by (intro fan_out_frame) (use assms in auto)
next
  case (2 i m m' b)
  have "agree (span (inp + int w * i) (int w)) m m'" using 2(1) by (auto simp: agree_def)
  from fan_out_agree [OF this, of "out + int w * to * i" "nat to"] 2(2) assms
  show ?case unfolding fan_body_def by (auto dest: agreeD)
qed (use assms in auto)

lemma fan_source_safe:
  assumes "0 < w" "1 \<le> to" "aliasing out (w * to * n) inp (w * n)" "0 \<le> i" "i < n"
  shows "inp + w * i = out + w * to * i \<or> out + w * to * i + w * to \<le> inp + w * i
    \<or> inp + w * i + w \<le> out + w * to * i"
proof (cases "inp = out")
  case True
  show ?thesis
  proof (cases "i = 0 \<or> to = 1")
    case False
    then have "2 * i \<le> to * i" using assms by (intro mult_right_mono) auto
    then have "i + 1 \<le> to * i" using False assms by linarith
    then have "w * (i + 1) \<le> w * (to * i)" using assms by (intro mult_left_mono) auto
    then show ?thesis using True by (simp add: algebra_simps)
  qed (use True in auto)
next
  case False
  have "0 \<le> w * to * i \<and> w * to * i + w * to \<le> w * to * n" "0 \<le> w * i \<and> w * i + w \<le> w * n"
    using assms stride_bound [of i n "w * to"] stride_bound [of i n w] by auto
  then show ?thesis using False assms(3) by (auto simp: aliasing_def)
qed

lemma fan_loop_cell:
  assumes "0 < w" "1 \<le> to" "aliasing out (int w * to * n) inp (int w * n)"
    and i: "0 \<le> i" "i < n" and c: "0 \<le> c" "c < to"
  shows "lds w (for_down (nat n) (fan_body w to out inp) m) (out + int w * (i * to + c))
    = lds w m (inp + int w * i)"
proof -
  let ?A = "out + int w * to * i" and ?a = "inp + int w * i"
  have addr: "out + int w * (i * to + c) = ?A + int w * c" by (simp add: algebra_simps)
  have fit: "0 \<le> int w * c \<and> int w * c + int w \<le> int w * to" using c by (intro stride_bound) auto
  have "lds w (for_down (nat n) (fan_body w to out inp) m) (?A + int w * c)
      = lds w (fan_body w to out inp i m) (?A + int w * c)"
  proof (rule lds_cong, rule strided_loop.down [OF fan_strided])
    fix b assume b: "?A + int w * c \<le> b" "b < ?A + int w * c + int w"
    show "int w \<le> int w * to" using assms(1,2) by simp
    show "?A \<le> b" "b < ?A + int w * to" using b fit by linarith+
  qed (use assms in auto)
  also have "\<dots> = lds w m ?a"
    unfolding fan_body_def
    by (rule fan_out_cell) (use fan_source_safe [of "int w" to out n inp i] assms in auto)
  finally show ?thesis by (simp only: addr)
qed

text \<open>The two-channel routine stores the same two cells, in the other order.\<close>

definition fan2_body :: "nat \<Rightarrow> ptr \<Rightarrow> ptr \<Rightarrow> int \<Rightarrow> mem \<Rightarrow> mem" where
  "fan2_body w out inp h m =
     (let m = stn w m (out + int w * 2 * h) (lds w m (inp + int w * h))
      in stn w m (out + int w * 2 * h + int w) (lds w m (inp + int w * h)))"

lemma conv_1to2_fan2:
  "conv_1to2 w m out inp samples = (0, for_down (nat samples) (fan2_body w out inp) m)"
  by (simp add: conv_1to2_def fan2_body_def [abs_def] algebra_simps)

interpretation fan2: strided_loop "fan2_body w out inp" out inp "int w * 2" "int w" for w out inp
proof (unfold_locales, goal_cases)
  case (1 b h m)
  then show ?case by (auto simp: fan2_body_def Let_def stn_frame)
next
  case (2 h m m' b)
  let ?S = "span (inp + int w * h) (int w)"
  have "agree ?S m m'" using 2(1) by (auto simp: agree_def)
  then have "agree (?S \<union> span (out + int w * 2 * h) (int w) \<union> span (out + int w * 2 * h + int w) (int w))
      (fan2_body w out inp h m) (fan2_body w out inp h m')"
    unfolding fan2_body_def Let_def by (intro agree_copy) auto
  then show ?case by (rule agreeD) (use 2(2) in auto)
qed simp_all

lemma fan2_loop_cell:
  assumes "0 < w" "aliasing out (int w * 2 * n) inp (int w * n)"
    and i: "0 \<le> i" "i < n" and c: "c = 0 \<or> c = 1"
  shows "lds w (for_down (nat n) (fan2_body w out inp) m) (out + int w * (i * 2 + c))
    = lds w m (inp + int w * i)"
proof -
  let ?A = "out + int w * 2 * i" and ?a = "inp + int w * i"
  have addr: "out + int w * (i * 2 + c) = ?A + int w * c" by (simp add: algebra_simps)
  have "lds w (for_down (nat n) (fan2_body w out inp) m) (?A + int w * c)
      = lds w (fan2_body w out inp i m) (?A + int w * c)"
    by (rule lds_cong, rule fan2.down) (use assms in auto)
  also have "\<dots> = lds w m ?a"
  proof -
    let ?m1 = "stn w m ?A (lds w m ?a)"
    have safe: "?a = ?A \<or> ?A + int w * 2 \<le> ?a \<or> ?a + int w \<le> ?A"
      using fan_source_safe [of "int w" 2 out n inp i] assms by auto
    have keep: "lds w ?m1 ?a = lds w m ?a"
    proof (cases "?a = ?A")
      case True
      then show ?thesis by (simp only: lds_stn [OF assms(1)] lds_wrap)
    next
      case False
      with safe assms(1) show ?thesis by (intro cell.ld_st_other [OF cell_lds]) linarith+
    qed
    have "lds w (stn w ?m1 (?A + int w) (lds w m ?a)) ?A = lds w ?m1 ?A"
      by (intro cell.ld_st_other [OF cell_lds]) (use assms(1) in auto)
    then show ?thesis using c assms(1) keep
      by (auto simp: fan2_body_def Let_def lds_stn)
  qed
  finally show ?thesis by (simp only: addr)
qed

subsection \<open>Several channels to mono\<close>

lemma wrap_sum:
  assumes "\<And>c. \<bar>x c\<bar> \<le> B" and "B * int k \<le> 2147483647"
  shows "for_up k (\<lambda>c s. wrap_s 32 (s + x c)) 0 = (\<Sum>c<k. x (int c))
    \<and> \<bar>\<Sum>c<k. x (int c)\<bar> \<le> B * int k"
  using assms(2)
proof (induction k)
  case (Suc k)
  have B: "0 \<le> B" using assms(1) [of 0] by linarith
  have Bk: "B * int (Suc k) = B * int k + B" by (simp add: algebra_simps)
  with B Suc.prems have le: "B * int k \<le> 2147483647" by linarith
  let ?s = "\<Sum>c<k. x (int c)"
  from Suc.IH [OF le] have eq: "for_up k (\<lambda>c s. wrap_s 32 (s + x c)) 0 = ?s" and b: "\<bar>?s\<bar> \<le> B * int k"
    by auto
  have b': "\<bar>?s + x (int k)\<bar> \<le> B * int (Suc k)" using b assms(1) [of "int k"] Bk by linarith
  then have "wrap_s 32 (?s + x (int k)) = ?s + x (int k)" using Suc.prems by (intro wrap_s_id) auto
  then show ?case using eq b' by simp
qed simp

definition avg_body :: "nat \<Rightarrow> int \<Rightarrow> ptr \<Rightarrow> ptr \<Rightarrow> int \<Rightarrow> mem \<Rightarrow> mem" where
  "avg_body w from out inp i m =
     stn w m (out + int w * i)
       (for_up (nat from) (\<lambda>c s. wrap_s 32 (s + lds w m (inp + int w * (i * from + c)))) 0 sdiv from)"

lemma conv_nto1_avg:
  "conv_nto1 w m out inp samples from =
     (0, for_up (nat (samples sdiv from)) (avg_body w from out inp) m)"
  by (simp add: conv_nto1_def avg_body_def [abs_def] Let_def)

lemma frame_cell:
  "0 \<le> c \<Longrightarrow> c < from \<Longrightarrow> span (inp + int w * (i * from + c)) (int w) \<subseteq> span (inp + int w * from * i) (int w * from)"
proof
  fix x
  assume c: "0 \<le> c" "c < from" and x: "x \<in> span (inp + int w * (i * from + c)) (int w)"
  have "0 \<le> int w * c \<and> int w * c + int w \<le> int w * from" using c by (intro stride_bound) auto
  moreover have "int w * (i * from + c) = int w * from * i + int w * c" by (simp add: algebra_simps)
  ultimately show "x \<in> span (inp + int w * from * i) (int w * from)"
    using x unfolding in_span by linarith
qed

lemma avg_strided:
  assumes "0 \<le> from"
  shows "strided_loop (avg_body w from out inp) out inp (int w) (int w * from)"
proof (unfold_locales, goal_cases)
  case (1 b i m)
  then show ?case by (auto simp: avg_body_def stn_frame)
next
  case (2 i m m' b)
  have ag: "agree (span (inp + int w * from * i) (int w * from)) m m'"
    using 2(1) by (auto simp: agree_def)
  have "lds w m (inp + int w * (i * from + c)) = lds w m' (inp + int w * (i * from + c))"
    if "0 \<le> c" "c < int (nat from)" for c
    by (rule agree_lds [OF ag frame_cell]) (use that assms in auto)
  then have "for_up (nat from) (\<lambda>c s. wrap_s 32 (s + lds w m (inp + int w * (i * from + c)))) 0
      = for_up (nat from) (\<lambda>c s. wrap_s 32 (s + lds w m' (inp + int w * (i * from + c)))) 0"
    by (intro for_up_cong) auto
  then show ?case using 2(2) by (auto simp: avg_body_def intro: stn_local)
qed (use assms in auto)

definition avg2_body :: "nat \<Rightarrow> ptr \<Rightarrow> ptr \<Rightarrow> int \<Rightarrow> mem \<Rightarrow> mem" where
  "avg2_body w out inp h m =
     stn w m (out + int w * h) ((lds w m (inp + int w * (h * 2 + 0)) + lds w m (inp + int w * (h * 2 + 1))) sdiv 2)"

lemma conv_2to1_avg2:
  "conv_2to1 w m out inp samples = (0, for_up (nat ((samples + 1) div 2)) (avg2_body w out inp) m)"
  by (simp add: conv_2to1_def avg2_body_def [abs_def] Let_def mult.commute)

interpretation avg2: strided_loop "avg2_body w out inp" out inp "int w" "int w * 2" for w out inp
proof (unfold_locales, goal_cases)
  case (1 b h m)
  then show ?case by (auto simp: avg2_body_def stn_frame)
next
  case (2 h m m' b)
  have ag: "agree (span (inp + int w * 2 * h) (int w * 2)) m m'"
    using 2(1) by (auto simp: agree_def)
  have "lds w m (inp + int w * (h * 2 + c)) = lds w m' (inp + int w * (h * 2 + c))"
    if "0 \<le> c" "c < 2" for c
    by (rule agree_lds [OF ag frame_cell]) (use that in auto)
  from this [of 0] this [of 1] show ?case using 2(2) by (auto simp: avg2_body_def intro: stn_local)
qed simp_all

text \<open>The mean of \<open>k\<close> samples of \<open>w\<close> bytes, rounded towards zero, is again such a sample.\<close>

lemma mean_fits:
  assumes "0 < w" "0 < k"
  shows "wrap_s (8 * w) ((\<Sum>c<k. lds w m (a c)) sdiv int k) = (\<Sum>c<k. lds w m (a c)) sdiv int k"
proof -
  let ?H = "2 ^ (8 * w - 1) :: int"
  have H: "1 \<le> ?H" by simp
  have lo: "- (int k * ?H) \<le> (\<Sum>c<k. lds w m (a c))"
    using sum_mono [of "{..<k}" "\<lambda>_. - ?H" "\<lambda>c. lds w m (a c)"] lds_range by simp
  have hi: "(\<Sum>c<k. lds w m (a c)) \<le> int k * (?H - 1)"
    using sum_mono [of "{..<k}" "\<lambda>c. lds w m (a c)" "\<lambda>_. ?H - 1"] lds_range by simp
  show ?thesis
  proof (rule wrap_s_id)
    show "- ?H \<le> (\<Sum>c<k. lds w m (a c)) sdiv int k"
      by (rule sdiv_lower) (use lo assms in auto)
    have "(\<Sum>c<k. lds w m (a c)) sdiv int k \<le> ?H - 1"
      by (rule sdiv_upper) (use hi assms H in auto)
    then show "(\<Sum>c<k. lds w m (a c)) sdiv int k < ?H" by simp
  qed (use assms in simp)
qed

lemma avg_loop_cell:
  assumes "w = 1 \<or> w = 2" "1 \<le> from" "from \<le> 65535"
    and "aliasing out (int w * n) inp (int w * from * n)" "0 \<le> i" "i < n"
  shows "lds w (for_up (nat n) (avg_body w from out inp) m) (out + int w * i)
    = (\<Sum>c<nat from. lds w m (inp + int w * (i * from + int c))) sdiv from"
proof -
  have w: "0 < w" using assms(1) by auto
  let ?x = "\<lambda>c. lds w m (inp + int w * (i * from + c))"
  have bnd: "\<bar>?x c\<bar> \<le> 32768" for c
    using lds8_range [of m "inp + int w * (i * from + c)"] lds16_range [of m "inp + int w * (i * from + c)"]
      assms(1) by auto
  have sum: "for_up (nat from) (\<lambda>c s. wrap_s 32 (s + ?x c)) 0 = (\<Sum>c<nat from. ?x (int c))"
    using wrap_sum [of ?x 32768 "nat from"] bnd assms(2,3) by simp
  have "lds w (for_up (nat n) (avg_body w from out inp) m) (out + int w * i)
      = lds w (avg_body w from out inp i m) (out + int w * i)"
    by (rule lds_cong, rule strided_loop.up [OF avg_strided]) (use assms in auto)
  also have "\<dots> = wrap_s (8 * w) ((\<Sum>c<nat from. ?x (int c)) sdiv from)"
    by (simp only: avg_body_def sum lds_stn [OF w])
  also have "\<dots> = (\<Sum>c<nat from. ?x (int c)) sdiv from"
    using mean_fits [OF w, of "nat from" m "\<lambda>c. inp + int w * (i * from + int c)"] assms(2) by simp
  finally show ?thesis .
qed

lemma avg2_loop_cell:
  assumes "0 < w" "aliasing out (int w * n) inp (int w * 2 * n)" "0 \<le> i" "i < n"
  shows "lds w (for_up (nat n) (avg2_body w out inp) m) (out + int w * i)
    = (\<Sum>c<nat 2. lds w m (inp + int w * (i * 2 + int c))) sdiv 2"
proof -
  have "lds w (for_up (nat n) (avg2_body w out inp) m) (out + int w * i)
      = lds w (avg2_body w out inp i m) (out + int w * i)"
    by (rule lds_cong, rule avg2.up) (use assms in auto)
  then show ?thesis
    using mean_fits [OF assms(1), of 2 m "\<lambda>c. inp + int w * (i * 2 + int c)"] assms(1)
    by (simp add: avg2_body_def lds_stn numeral_2_eq_2)
qed

subsection \<open>Stereo to four, five and six channels\<close>

text \<open>
  What a frame of each layout holds: \<open>0\<close> the left sample, \<open>1\<close> the right one, \<open>2\<close> their mean.
\<close>

definition mix2 :: "int \<Rightarrow> int \<Rightarrow> int \<Rightarrow> int" where
  "mix2 l r k = (if k = 0 then l else if k = 1 then r else (l + r) sdiv 2)"

definition stereo_layout :: "int \<Rightarrow> int list" where
  "stereo_layout to =
     (if to = 3 then [0, 1, 2] else if to = 4 then [0, 1, 0, 1]
      else if to = 5 then [0, 1, 2, 0, 1] else if to = 6 then [0, 1, 2, 2, 0, 1] else [])"

lemma mean2_fits: "wrap_s 16 ((lds16 m a + lds16 m b) sdiv 2) = (lds16 m a + lds16 m b) sdiv 2"
proof -
  have "- 32768 \<le> (lds16 m a + lds16 m b) sdiv 2"
    by (rule sdiv_lower) (use lds16_range [of m a] lds16_range [of m b] in auto)
  moreover have "(lds16 m a + lds16 m b) sdiv 2 \<le> 32767"
    by (rule sdiv_upper) (use lds16_range [of m a] lds16_range [of m b] in auto)
  ultimately show ?thesis by (intro wrap_s_id) auto
qed

lemma lds16_wrap [simp]: "wrap_s 16 (lds16 m a) = lds16 m a"
  using lds_wrap [of 2 m a] by simp

definition up4_body :: "ptr \<Rightarrow> ptr \<Rightarrow> int \<Rightarrow> mem \<Rightarrow> mem" where
  "up4_body out inp j m =
     (let i = inp + 4 * j; h = out + 8 * j;
          m = st16 m h (lds16 m i);
          m = st16 m (h + 2) (lds16 m (i + 2));
          m = st16 m (h + 4) (lds16 m i)
      in st16 m (h + 6) (lds16 m (i + 2)))"

definition up5_body :: "ptr \<Rightarrow> ptr \<Rightarrow> int \<Rightarrow> mem \<Rightarrow> mem" where
  "up5_body out inp j m =
     (let i = inp + 4 * j; h = out + 10 * j;
          m = st16 m h (lds16 m i);
          m = st16 m (h + 2) (lds16 m (i + 2));
          m = st16 m (h + 4) ((lds16 m i + lds16 m (i + 2)) sdiv 2);
          m = st16 m (h + 6) (lds16 m i)
      in st16 m (h + 8) (lds16 m (i + 2)))"

definition up6_body :: "ptr \<Rightarrow> ptr \<Rightarrow> int \<Rightarrow> mem \<Rightarrow> mem" where
  "up6_body out inp j m =
     (let i = inp + 4 * j; h = out + 12 * j;
          m = st16 m h (lds16 m i);
          m = st16 m (h + 2) (lds16 m (i + 2));
          m = st16 m (h + 4) ((lds16 m i + lds16 m (i + 2)) sdiv 2);
          m = st16 m (h + 6) (lds16 m (h + 4));
          m = st16 m (h + 8) (lds16 m i)
      in st16 m (h + 10) (lds16 m (i + 2)))"

definition up3_body :: "ptr \<Rightarrow> ptr \<Rightarrow> int \<Rightarrow> mem \<Rightarrow> mem" where
  "up3_body out inp j m =
     (let i = inp + 4 * j; h = out + 6 * j;
          m = st16 m h (lds16 m i);
          m = st16 m (h + 2) (lds16 m (i + 2))
      in st16 m (h + 4) ((lds16 m i + lds16 m (i + 2)) sdiv 2))"

lemma up_bodies:
  assumes "even n"
  shows "roar_conv_chans_2to316 m out inp n = (0, for_down (nat (n div 2)) (up3_body out inp) m)"
    and "roar_conv_chans_2to416 m out inp n = (0, for_down (nat (n div 2)) (up4_body out inp) m)"
    and "roar_conv_chans_2to516 m out inp n = (0, for_down (nat (n div 2)) (up5_body out inp) m)"
    and "roar_conv_chans_2to616 m out inp n = (0, for_down (nat (n div 2)) (up6_body out inp) m)"
proof -
  have "n mod 2 = 0" using assms by presburger
  then show "roar_conv_chans_2to316 m out inp n = (0, for_down (nat (n div 2)) (up3_body out inp) m)"
    and "roar_conv_chans_2to416 m out inp n = (0, for_down (nat (n div 2)) (up4_body out inp) m)"
    and "roar_conv_chans_2to516 m out inp n = (0, for_down (nat (n div 2)) (up5_body out inp) m)"
    and "roar_conv_chans_2to616 m out inp n = (0, for_down (nat (n div 2)) (up6_body out inp) m)"
    by (simp_all add: roar_conv_chans_2to316_def roar_conv_chans_2to416_def roar_conv_chans_2to516_def
        roar_conv_chans_2to616_def up3_body_def [abs_def] up4_body_def [abs_def] up5_body_def [abs_def]
        up6_body_def [abs_def] Let_def algebra_simps)
qed

interpretation up4: strided_loop "up4_body out inp" out inp 8 4 for out inp
proof (unfold_locales, goal_cases)
  case (2 j m m' b)
  have "agree (span (inp + 4 * j) 4) m m'" using 2(1) by (auto simp: agree_def)
  then have "agree (span (inp + 4 * j) 4 \<union> span (out + 8 * j) (int 2) \<union> span (out + 8 * j + 2) (int 2)
      \<union> span (out + 8 * j + 4) (int 2) \<union> span (out + 8 * j + 6) (int 2)) (up4_body out inp j m) (up4_body out inp j m')"
    unfolding up4_body_def Let_def by (intro agree_copy) (simp_all add: subset_iff)
  then show ?case by (rule agreeD) (use 2(2) in auto)
qed (auto simp: up4_body_def Let_def stn_frame)

interpretation up5: strided_loop "up5_body out inp" out inp 10 4 for out inp
proof (unfold_locales, goal_cases)
  case (2 j m m' b)
  have "agree (span (inp + 4 * j) 4) m m'" using 2(1) by (auto simp: agree_def)
  then have "agree (span (inp + 4 * j) 4 \<union> span (out + 10 * j) (int 2) \<union> span (out + 10 * j + 2) (int 2)
      \<union> span (out + 10 * j + 4) (int 2) \<union> span (out + 10 * j + 6) (int 2) \<union> span (out + 10 * j + 8) (int 2))
      (up5_body out inp j m) (up5_body out inp j m')"
    unfolding up5_body_def Let_def
    by (intro agree_copy agree_copy2 [where f = "\<lambda>l r. (l + r) sdiv 2"]) (simp_all add: subset_iff)
  then show ?case by (rule agreeD) (use 2(2) in auto)
qed (auto simp: up5_body_def Let_def stn_frame)

interpretation up6: strided_loop "up6_body out inp" out inp 12 4 for out inp
proof (unfold_locales, goal_cases)
  case (2 j m m' b)
  have "agree (span (inp + 4 * j) 4) m m'" using 2(1) by (auto simp: agree_def)
  then have "agree (span (inp + 4 * j) 4 \<union> span (out + 12 * j) (int 2) \<union> span (out + 12 * j + 2) (int 2)
      \<union> span (out + 12 * j + 4) (int 2) \<union> span (out + 12 * j + 6) (int 2) \<union> span (out + 12 * j + 8) (int 2)
      \<union> span (out + 12 * j + 10) (int 2))
      (up6_body out inp j m) (up6_body out inp j m')"
    unfolding up6_body_def Let_def
    by (intro agree_copy agree_copy2 [where f = "\<lambda>l r. (l + r) sdiv 2"]) (simp_all add: subset_iff)
  then show ?case by (rule agreeD) (use 2(2) in auto)
qed (auto simp: up6_body_def Let_def stn_frame)

interpretation up3: strided_loop "up3_body out inp" out inp 6 4 for out inp
proof (unfold_locales, goal_cases)
  case (2 j m m' b)
  have "agree (span (inp + 4 * j) 4) m m'" using 2(1) by (auto simp: agree_def)
  then have "agree (span (inp + 4 * j) 4 \<union> span (out + 6 * j) (int 2) \<union> span (out + 6 * j + 2) (int 2)
      \<union> span (out + 6 * j + 4) (int 2)) (up3_body out inp j m) (up3_body out inp j m')"
    unfolding up3_body_def Let_def
    by (intro agree_copy agree_copy2 [where f = "\<lambda>l r. (l + r) sdiv 2"]) (simp_all add: subset_iff)
  then show ?case by (rule agreeD) (use 2(2) in auto)
qed (auto simp: up3_body_def Let_def stn_frame)

text \<open>
  In the frame itself the source pair and the destination cells either start at the same
  address (frame 0 in place) or are disjoint; the value of every destination cell follows.
\<close>

lemma pair_keep:
  assumes "lds16 m i = l \<and> lds16 m (i + 2) = r"
    and "a + 2 \<le> i \<or> i + 4 \<le> a \<or> a = i \<and> v = l \<or> a = i + 2 \<and> v = r"
  shows "lds16 (st16 m a v) i = l \<and> lds16 (st16 m a v) (i + 2) = r"
  using assms(2)
proof (elim disjE conjE)
  assume "a + 2 \<le> i" then show ?thesis using assms(1) by (simp add: s16.ld_st_other)
next
  assume "i + 4 \<le> a" then show ?thesis using assms(1) by (simp add: s16.ld_st_other)
next
  assume "a = i" "v = l" then show ?thesis using assms(1) by (auto simp: s16.ld_st_other)
next
  assume "a = i + 2" "v = r" then show ?thesis using assms(1) by (auto simp: s16.ld_st_other)
qed

definition frame_ok :: "ptr \<Rightarrow> int \<Rightarrow> ptr \<Rightarrow> bool" where
  "frame_ok h n i \<longleftrightarrow> i = h \<or> h + n \<le> i \<or> i + 4 \<le> h"

lemma up4_stores:
  fixes out inp j m
  defines "h \<equiv> out + 8 * j" and "i \<equiv> inp + 4 * j"
  defines "l \<equiv> lds16 m i" and "r \<equiv> lds16 m (i + 2)"
  assumes "frame_ok h 8 i"
  shows "up4_body out inp j m = st16 (st16 (st16 (st16 m h l) (h + 2) r) (h + 4) l) (h + 6) r"
proof -
  let ?m1 = "st16 m h l" let ?m2 = "st16 ?m1 (h + 2) r" let ?m3 = "st16 ?m2 (h + 4) l"
  have k0: "lds16 m i = l \<and> lds16 m (i + 2) = r" by (simp add: l_def r_def)
  have k1: "lds16 ?m1 i = l \<and> lds16 ?m1 (i + 2) = r" by (rule pair_keep [OF k0]) (use assms(5) in \<open>auto simp: frame_ok_def\<close>)
  have k2: "lds16 ?m2 i = l \<and> lds16 ?m2 (i + 2) = r" by (rule pair_keep [OF k1]) (use assms(5) in \<open>auto simp: frame_ok_def\<close>)
  have k3: "lds16 ?m3 i = l \<and> lds16 ?m3 (i + 2) = r" by (rule pair_keep [OF k2]) (use assms(5) in \<open>auto simp: frame_ok_def\<close>)
  show ?thesis
    by (simp only: up4_body_def Let_def h_def [symmetric] i_def [symmetric] k0 k1 k2 k3)
qed

lemma up5_stores:
  fixes out inp j m
  defines "h \<equiv> out + 10 * j" and "i \<equiv> inp + 4 * j"
  defines "l \<equiv> lds16 m i" and "r \<equiv> lds16 m (i + 2)"
  assumes "frame_ok h 10 i"
  shows "up5_body out inp j m =
    st16 (st16 (st16 (st16 (st16 m h l) (h + 2) r) (h + 4) ((l + r) sdiv 2)) (h + 6) l) (h + 8) r"
proof -
  let ?m1 = "st16 m h l" let ?m2 = "st16 ?m1 (h + 2) r" let ?m3 = "st16 ?m2 (h + 4) ((l + r) sdiv 2)"
  let ?m4 = "st16 ?m3 (h + 6) l"
  have k0: "lds16 m i = l \<and> lds16 m (i + 2) = r" by (simp add: l_def r_def)
  have k1: "lds16 ?m1 i = l \<and> lds16 ?m1 (i + 2) = r" by (rule pair_keep [OF k0]) (use assms(5) in \<open>auto simp: frame_ok_def\<close>)
  have k2: "lds16 ?m2 i = l \<and> lds16 ?m2 (i + 2) = r" by (rule pair_keep [OF k1]) (use assms(5) in \<open>auto simp: frame_ok_def\<close>)
  have k3: "lds16 ?m3 i = l \<and> lds16 ?m3 (i + 2) = r" by (rule pair_keep [OF k2]) (use assms(5) in \<open>auto simp: frame_ok_def\<close>)
  have k4: "lds16 ?m4 i = l \<and> lds16 ?m4 (i + 2) = r" by (rule pair_keep [OF k3]) (use assms(5) in \<open>auto simp: frame_ok_def\<close>)
  show ?thesis
    by (simp only: up5_body_def Let_def h_def [symmetric] i_def [symmetric] k0 k1 k2 k3 k4)
qed

lemma up6_stores:
  fixes out inp j m
  defines "h \<equiv> out + 12 * j" and "i \<equiv> inp + 4 * j"
  defines "l \<equiv> lds16 m i" and "r \<equiv> lds16 m (i + 2)"
  assumes "frame_ok h 12 i"
  shows "up6_body out inp j m =
    st16 (st16 (st16 (st16 (st16 (st16 m h l) (h + 2) r) (h + 4) ((l + r) sdiv 2)) (h + 6) ((l + r) sdiv 2))
      (h + 8) l) (h + 10) r"
proof -
  let ?m1 = "st16 m h l" let ?m2 = "st16 ?m1 (h + 2) r" let ?m3 = "st16 ?m2 (h + 4) ((l + r) sdiv 2)"
  let ?m4 = "st16 ?m3 (h + 6) ((l + r) sdiv 2)" let ?m5 = "st16 ?m4 (h + 8) l"
  have k0: "lds16 m i = l \<and> lds16 m (i + 2) = r" by (simp add: l_def r_def)
  have k1: "lds16 ?m1 i = l \<and> lds16 ?m1 (i + 2) = r" by (rule pair_keep [OF k0]) (use assms(5) in \<open>auto simp: frame_ok_def\<close>)
  have k2: "lds16 ?m2 i = l \<and> lds16 ?m2 (i + 2) = r" by (rule pair_keep [OF k1]) (use assms(5) in \<open>auto simp: frame_ok_def\<close>)
  have k3: "lds16 ?m3 i = l \<and> lds16 ?m3 (i + 2) = r" by (rule pair_keep [OF k2]) (use assms(5) in \<open>auto simp: frame_ok_def\<close>)
  have k4: "lds16 ?m4 i = l \<and> lds16 ?m4 (i + 2) = r" by (rule pair_keep [OF k3]) (use assms(5) in \<open>auto simp: frame_ok_def\<close>)
  have k5: "lds16 ?m5 i = l \<and> lds16 ?m5 (i + 2) = r" by (rule pair_keep [OF k4]) (use assms(5) in \<open>auto simp: frame_ok_def\<close>)
  have c: "lds16 ?m3 (h + 4) = (l + r) sdiv 2" by (simp add: l_def r_def mean2_fits)
  show ?thesis
    by (simp only: up6_body_def Let_def h_def [symmetric] i_def [symmetric] k0 k1 k2 k3 k4 k5 c)
qed

lemma up3_stores:
  fixes out inp j m
  defines "h \<equiv> out + 6 * j" and "i \<equiv> inp + 4 * j"
  defines "l \<equiv> lds16 m i" and "r \<equiv> lds16 m (i + 2)"
  assumes "h + 6 \<le> i \<or> i + 4 \<le> h"
  shows "up3_body out inp j m = st16 (st16 (st16 m h l) (h + 2) r) (h + 4) ((l + r) sdiv 2)"
proof -
  let ?m1 = "st16 m h l" let ?m2 = "st16 ?m1 (h + 2) r"
  have k0: "lds16 m i = l \<and> lds16 m (i + 2) = r" by (simp add: l_def r_def)
  have k1: "lds16 ?m1 i = l \<and> lds16 ?m1 (i + 2) = r" by (rule pair_keep [OF k0]) (use assms(5) in auto)
  have k2: "lds16 ?m2 i = l \<and> lds16 ?m2 (i + 2) = r" by (rule pair_keep [OF k1]) (use assms(5) in auto)
  show ?thesis
    by (simp only: up3_body_def Let_def h_def [symmetric] i_def [symmetric] k0 k1 k2)
qed

lemma frame_ok_stereo:
  assumes "aliasing out (k * n) inp (4 * n)" "0 \<le> j" "j < n" "8 \<le> k"
  shows "frame_ok (out + k * j) k (inp + 4 * j)"
proof -
  have b: "0 \<le> k * j \<and> k * j + k \<le> k * n" using assms by (intro stride_bound) auto
  have k: "8 * j \<le> k * j" using assms by (intro mult_right_mono) auto
  from assms(1) consider "inp = out" | "out + k * n \<le> inp" | "inp + 4 * n \<le> out"
    by (auto simp: aliasing_def)
  then show ?thesis
  proof cases
    case 1
    show ?thesis
    proof (cases "j = 0")
      case False
      then have "4 * j + 4 \<le> k * j" using k assms(2) by linarith
      then show ?thesis using 1 by (simp add: frame_ok_def)
    qed (simp add: frame_ok_def 1)
  next
    case 2
    then show ?thesis using b assms(2) unfolding frame_ok_def by linarith
  next
    case 3
    then show ?thesis using b assms(3) unfolding frame_ok_def by linarith
  qed
qed

lemma up4_cell:
  assumes "aliasing out (8 * n) inp (4 * n)" "0 \<le> j" "j < n" "c \<in> {0, 1, 2, 3}"
  shows "lds16 (for_down (nat n) (up4_body out inp) m) (out + 8 * j + 2 * c)
    = mix2 (lds16 m (inp + 4 * j)) (lds16 m (inp + 4 * j + 2)) (stereo_layout 4 ! nat c)"
proof -
  have "lds16 (for_down (nat n) (up4_body out inp) m) (out + 8 * j + 2 * c)
      = lds16 (up4_body out inp j m) (out + 8 * j + 2 * c)"
    by (rule s16.ld_cong, rule up4.down) (use assms in auto)
  then show ?thesis
    using assms(4) frame_ok_stereo [OF assms(1-3)]
    by (auto simp: up4_stores s16.ld_st_other mix2_def stereo_layout_def)
qed

lemma up5_cell:
  assumes "aliasing out (10 * n) inp (4 * n)" "0 \<le> j" "j < n" "c \<in> {0, 1, 2, 3, 4}"
  shows "lds16 (for_down (nat n) (up5_body out inp) m) (out + 10 * j + 2 * c)
    = mix2 (lds16 m (inp + 4 * j)) (lds16 m (inp + 4 * j + 2)) (stereo_layout 5 ! nat c)"
proof -
  have "lds16 (for_down (nat n) (up5_body out inp) m) (out + 10 * j + 2 * c)
      = lds16 (up5_body out inp j m) (out + 10 * j + 2 * c)"
    by (rule s16.ld_cong, rule up5.down) (use assms in auto)
  then show ?thesis
    using assms(4) frame_ok_stereo [OF assms(1-3)]
    by (auto simp: up5_stores s16.ld_st_other mix2_def stereo_layout_def mean2_fits)
qed

lemma up6_cell:
  assumes "aliasing out (12 * n) inp (4 * n)" "0 \<le> j" "j < n" "c \<in> {0, 1, 2, 3, 4, 5}"
  shows "lds16 (for_down (nat n) (up6_body out inp) m) (out + 12 * j + 2 * c)
    = mix2 (lds16 m (inp + 4 * j)) (lds16 m (inp + 4 * j + 2)) (stereo_layout 6 ! nat c)"
proof -
  have "lds16 (for_down (nat n) (up6_body out inp) m) (out + 12 * j + 2 * c)
      = lds16 (up6_body out inp j m) (out + 12 * j + 2 * c)"
    by (rule s16.ld_cong, rule up6.down) (use assms in auto)
  then show ?thesis
    using assms(4) frame_ok_stereo [OF assms(1-3)]
    by (auto simp: up6_stores s16.ld_st_other mix2_def stereo_layout_def mean2_fits)
qed

lemma up3_cell:
  assumes "out + 6 * n \<le> inp \<or> inp + 4 * n \<le> out" "0 \<le> j" "j < n" "c \<in> {0, 1, 2}"
  shows "lds16 (for_down (nat n) (up3_body out inp) m) (out + 6 * j + 2 * c)
    = mix2 (lds16 m (inp + 4 * j)) (lds16 m (inp + 4 * j + 2)) (stereo_layout 3 ! nat c)"
proof -
  have "lds16 (for_down (nat n) (up3_body out inp) m) (out + 6 * j + 2 * c)
      = lds16 (up3_body out inp j m) (out + 6 * j + 2 * c)"
    by (rule s16.ld_cong, rule up3.down) (use assms in \<open>auto simp: aliasing_def\<close>)
  moreover have "out + 6 * j + 6 \<le> inp + 4 * j \<or> inp + 4 * j + 4 \<le> out + 6 * j" using assms by auto
  ultimately show ?thesis
    using assms(4)
    by (auto simp: up3_stores s16.ld_st_other mix2_def stereo_layout_def mean2_fits)
qed

lemma int_range_cases:
  "0 \<le> c \<Longrightarrow> c < 4 \<Longrightarrow> (c :: int) \<in> {0, 1, 2, 3}"
  "0 \<le> c \<Longrightarrow> c < 5 \<Longrightarrow> (c :: int) \<in> {0, 1, 2, 3, 4}"
  "0 \<le> c \<Longrightarrow> c < 6 \<Longrightarrow> (c :: int) \<in> {0, 1, 2, 3, 4, 5}"
  by auto

subsection \<open>Properties\<close>

lemma fan_out_sample:
  assumes "bits \<in> {8, 16, 32}" and "2 \<le> to"
    and "aliasing out (bits div 8 * to * n) inp (bits div 8 * n)"
    and "0 \<le> i" "i < n" and "0 \<le> c" "c < to"
  shows "fst (roar_conv_chans m out inp n 1 to bits) = 0
    \<and> sample bits (snd (roar_conv_chans m out inp n 1 to bits)) out (i * to + c) = sample bits m inp i"
proof -
  have two: "c = 0 \<or> c = 1" if "to = 2" using that assms(6,7) by auto
  from assms(1) consider (8) "bits = 8" | (16) "bits = 16" | (32) "bits = 32" by auto
  then show ?thesis
  proof cases
    case 8
    then show ?thesis
      using assms two fan_loop_cell [of 1 to out n inp i c m] fan2_loop_cell [of 1 out n inp i c m]
      by (auto simp: roar_conv_chans_def roar_conv_chans_1to28_def roar_conv_chans_1ton8_def
          conv_1ton_fan conv_1to2_fan2 sample_8)
  next
    case 16
    then show ?thesis
      using assms two fan_loop_cell [of 2 to out n inp i c m] fan2_loop_cell [of 2 out n inp i c m]
      by (auto simp: roar_conv_chans_def roar_conv_chans_1to216_def roar_conv_chans_1ton16_def
          conv_1ton_fan conv_1to2_fan2 sample_16)
  next
    case 32
    then show ?thesis
      using assms fan_loop_cell [of 4 to out n inp i c m]
      by (simp add: roar_conv_chans_def roar_conv_chans_1ton32_def conv_1ton_fan sample_32)
  qed
qed

text \<open>Mono to \<open>to\<close> channels, for 8, 16 and 32 bit samples: the call returns 0 and every
  channel of every output frame is the mono sample of that frame, in place or between
  buffers that do not overlap.\<close>

theorem mono_fan_out:
  assumes "bits \<in> {8, 16, 32}" and "2 \<le> to"
    and "aliasing out (bits div 8 * to * n) inp (bits div 8 * n)"
    and "0 \<le> i" "i < n" and "0 \<le> c" "c < to"
  shows "fst (roar_conv_chans m out inp n 1 to bits) = 0
    \<and> sample bits (snd (roar_conv_chans m out inp n 1 to bits)) out (i * to + c) = sample bits m inp i"
  using assms by (rule fan_out_sample)

theorem mono_fan_out_witness:
  "sample 8 (snd (roar_conv_chans ((\<lambda>_. 0)(100 := 5, 101 := 200)) 100 100 2 1 3 8)) 100 5 = - 56"
proof -
  have "sample 8 ((\<lambda>_. 0)(100 := 5, 101 := 200)) 100 1 = - 56" by code_simp
  then show ?thesis
    using mono_fan_out [of 8 3 100 2 100 1 2 "(\<lambda>_. 0)(100 := 5, 101 := 200)"] by simp
qed

lemma down_mix_sample:
  assumes "bits \<in> {8, 16}" and "2 \<le> from" "from \<le> 65535"
    and "aliasing out (bits div 8 * n) inp (bits div 8 * from * n)"
    and "0 \<le> i" "i < n"
  shows "fst (roar_conv_chans m out inp (n * from) from 1 bits) = 0
    \<and> sample bits (snd (roar_conv_chans m out inp (n * from) from 1 bits)) out i
      = (\<Sum>c<nat from. sample bits m inp (i * from + int c)) sdiv from"
proof -
  have div: "(n * from) sdiv from = n" using assms by (simp add: sdiv_pos)
  have half: "(n * 2 + 1) div 2 = n" by simp
  from assms(1) consider (8) "bits = 8" | (16) "bits = 16" by auto
  then show ?thesis
  proof cases
    case 8
    then show ?thesis
      using assms div half avg_loop_cell [of 1 "from" out n inp i m] avg2_loop_cell [of 1 out n inp i m]
      by (cases "from = 2") (simp_all add: roar_conv_chans_def roar_conv_chans_2to18_def
          roar_conv_chans_nto18_def conv_nto1_avg conv_2to1_avg2 sample_8)
  next
    case 16
    then show ?thesis
      using assms div half avg_loop_cell [of 2 "from" out n inp i m] avg2_loop_cell [of 2 out n inp i m]
      by (cases "from = 2"; cases "from = 4") (simp_all add: roar_conv_chans_def roar_conv_chans_2to116_def
          roar_conv_chans_nto116_def conv_nto1_avg conv_2to1_avg2 sample_16)
  qed
qed

text \<open>Down-mixing 8 or 16 bit samples of \<open>from\<close> channels to mono returns 0 and stores, for
  every frame, the mean of its samples rounded towards zero: the 32 bit accumulator does not
  overflow for up to 65535 channels and the mean needs no clipping.\<close>

theorem mono_down_mix:
  assumes "bits \<in> {8, 16}" and "2 \<le> from" "from \<le> 65535"
    and "aliasing out (bits div 8 * n) inp (bits div 8 * from * n)"
    and "0 \<le> i" "i < n"
  shows "fst (roar_conv_chans m out inp (n * from) from 1 bits) = 0
    \<and> sample bits (snd (roar_conv_chans m out inp (n * from) from 1 bits)) out i
      = (\<Sum>c<nat from. sample bits m inp (i * from + int c)) sdiv from"
  using assms by (rule down_mix_sample)

theorem mono_down_mix_witness:
  "sample 8 (snd (roar_conv_chans ((\<lambda>_. 0)(100 := 5, 101 := 200, 102 := 7)) 100 100 3 3 1 8)) 100 0 = - 14"
proof -
  have "(\<Sum>c<nat 3. sample 8 ((\<lambda>_. 0)(100 := 5, 101 := 200, 102 := 7)) 100 (0 * 3 + int c)) sdiv 3 = - 14"
    by code_simp
  then show ?thesis
    using mono_down_mix [of 8 3 100 1 100 0 "(\<lambda>_. 0)(100 := 5, 101 := 200, 102 := 7)"] by simp
qed

text \<open>Stereo to 4, 5 or 6 channels at 16 bit returns 0 and fills every output frame from
  its input frame alone: left and right, their mean for the centre and LFE channels, left and
  right again, in place or between separate buffers.\<close>

theorem stereo_up_mix:
  assumes "to \<in> {4, 5, 6}" and "aliasing out (2 * to * n) inp (4 * n)"
    and "0 \<le> j" "j < n" and "0 \<le> c" "c < to"
  shows "fst (roar_conv_chans m out inp (2 * n) 2 to 16) = 0
    \<and> sample 16 (snd (roar_conv_chans m out inp (2 * n) 2 to 16)) out (to * j + c)
      = mix2 (sample 16 m inp (2 * j)) (sample 16 m inp (2 * j + 1)) (stereo_layout to ! nat c)"
proof -
  have s: "sample 16 M p (k * j + c) = lds16 M (p + 2 * k * j + 2 * c)" for M p k
    by (simp add: sample_16 algebra_simps)
  have i: "sample 16 m inp (2 * j) = lds16 m (inp + 4 * j)"
    "sample 16 m inp (2 * j + 1) = lds16 m (inp + 4 * j + 2)" by (simp_all add: sample_16 algebra_simps)
  from assms(1) consider "to = 4" | "to = 5" | "to = 6" by auto
  then show ?thesis
  proof cases
    case 1
    with assms int_range_cases(1) [of c] show ?thesis
      using up4_cell [of out n inp j c m] by (simp only: s i) (simp add: roar_conv_chans_def up_bodies)
  next
    case 2
    with assms int_range_cases(2) [of c] show ?thesis
      using up5_cell [of out n inp j c m] by (simp only: s i) (simp add: roar_conv_chans_def up_bodies)
  next
    case 3
    with assms int_range_cases(3) [of c] show ?thesis
      using up6_cell [of out n inp j c m] by (simp only: s i) (simp add: roar_conv_chans_def up_bodies)
  qed
qed

theorem stereo_up_mix_witness:
  "sample 16 (snd (roar_conv_chans ((\<lambda>_. 0)(100 := 10, 102 := 20)) 100 100 2 2 5 16)) 100 2 = 15"
proof -
  have "mix2 (sample 16 ((\<lambda>_. 0)(100 := 10, 102 := 20)) 100 0) (sample 16 ((\<lambda>_. 0)(100 := 10, 102 := 20)) 100 1)
     (stereo_layout 5 ! nat 2) = 15" by code_simp
  then show ?thesis
    using stereo_up_mix [of 5 100 1 100 0 2 "(\<lambda>_. 0)(100 := 10, 102 := 20)"] by simp
qed

lemma stereo_to_three_loop:
  "snd (roar_conv_chans m out inp (2 * n) 2 3 16) = for_down (nat n) (up3_body out inp) m"
  by (simp add: roar_conv_chans_def up_bodies)

text \<open>Stereo to three channels keeps left and right and adds their mean when input and
  output are separate buffers. In place it loses the right channel of the second frame:
  channel 1 of output frame 1 is the frame's left sample, because the store of channel 0 hits
  the cell the right sample is read from.\<close>

theorem stereo_to_three:
  assumes "2 \<le> n" and "out + 6 * n \<le> inp \<or> inp + 4 * n \<le> out" and "0 \<le> j" "j < n" and "c \<in> {0, 1, 2}"
  shows "sample 16 (snd (roar_conv_chans m out inp (2 * n) 2 3 16)) out (3 * j + c)
      = mix2 (sample 16 m inp (2 * j)) (sample 16 m inp (2 * j + 1)) (stereo_layout 3 ! nat c)
    \<and> sample 16 (snd (roar_conv_chans m p p (2 * n) 2 3 16)) p (3 * 1 + 1) = sample 16 m p (2 * 1)"
proof -
  have s: "sample 16 M q (3 * j + c) = lds16 M (q + 6 * j + 2 * c)" for M q j c
    by (simp add: sample_16 algebra_simps)
  have i: "sample 16 m q (2 * j) = lds16 m (q + 4 * j)"
    "sample 16 m q (2 * j + 1) = lds16 m (q + 4 * j + 2)" for q j by (simp_all add: sample_16 algebra_simps)
  have "lds16 (for_down (nat n) (up3_body p p) m) (p + 6 * 1 + 2 * 1) = lds16 (up3_body p p 1 m) (p + 6 * 1 + 2 * 1)"
    by (rule s16.ld_cong, rule up3.down) (use assms in auto)
  also have "\<dots> = lds16 m (p + 4 * 1)"
    by (simp add: up3_body_def Let_def s16.ld_st_other add.commute [of 6 p])
  finally show ?thesis
    unfolding stereo_to_three_loop s i using up3_cell [OF assms(2-5)] by blast
qed

theorem stereo_to_three_witness:
  "sample 16 (snd (roar_conv_chans ((\<lambda>_. 0)(104 := 10, 106 := 20)) 100 100 4 2 3 16)) 100 4 = 10
   \<and> sample 16 ((\<lambda>_. 0)(104 := 10, 106 := 20)) 100 3 = 20
   \<and> sample 16 (snd (roar_conv_chans ((\<lambda>_. 0)(104 := 10, 106 := 20)) 200 100 4 2 3 16)) 200 4 = 20"
proof -
  let ?m = "(\<lambda>_. 0)(104 := 10, 106 := 20) :: mem"
  have e: "sample 16 ?m 100 2 = 10" "sample 16 ?m 100 3 = 20"
    "mix2 (sample 16 ?m 100 2) (sample 16 ?m 100 3) (stereo_layout 3 ! nat 1) = 20" by code_simp+
  show ?thesis
    using e stereo_to_three [of 2 200 100 1 1 ?m 100] by simp
qed

definition down42_body :: "ptr \<Rightarrow> ptr \<Rightarrow> int \<Rightarrow> mem \<Rightarrow> mem" where
  "down42_body out inp j m =
     (let m = st16 m (out + 4 * j) ((lds16 m (inp + 8 * j) + lds16 m (inp + 8 * j + 4)) sdiv 2)
      in st16 m (out + 4 * j + 2) ((lds16 m (inp + 8 * j + 2) + lds16 m (inp + 8 * j + 6)) sdiv 2))"

lemma down42_loop:
  "roar_conv_chans_4to216 m out inp (4 * n) = (0, for_up (nat (n - 1)) (down42_body out inp) m)"
proof -
  have "(4 * n - 4 + 3) div 4 = n - 1" by presburger
  then show ?thesis
    unfolding roar_conv_chans_4to216_def down42_body_def [abs_def] Let_def
    by (simp only:) (simp add: algebra_simps)
qed

interpretation down42: strided_loop "down42_body out inp" out inp 4 8 for out inp
proof (unfold_locales, goal_cases)
  case (2 j m m' b)
  have "agree (span (inp + 8 * j) 8) m m'" using 2(1) by (auto simp: agree_def)
  then have "agree (span (inp + 8 * j) 8 \<union> span (out + 4 * j) (int 2) \<union> span (out + 4 * j + 2) (int 2))
      (down42_body out inp j m) (down42_body out inp j m')"
    unfolding down42_body_def Let_def
    by (intro agree_copy2 [where f = "\<lambda>l r. (l + r) sdiv 2"]) (simp_all add: subset_iff)
  then show ?case by (rule agreeD) (use 2(2) in auto)
qed (auto simp: down42_body_def Let_def stn_frame)

text \<open>Four to two channels never converts the last frame: with \<open>n\<close> frames of input no byte at
  or after output frame \<open>n - 1\<close> is written, while all earlier frames get the means of the two
  left and of the two right channels.\<close>

theorem quad_down_mix:
  assumes "aliasing out (4 * n) inp (8 * n)" and "0 \<le> j" "j < n - 1" and "out + 4 * (n - 1) \<le> b"
  shows "sample 16 (snd (roar_conv_chans m out inp (4 * n) 4 2 16)) out (2 * j)
      = (sample 16 m inp (4 * j) + sample 16 m inp (4 * j + 2)) sdiv 2
    \<and> sample 16 (snd (roar_conv_chans m out inp (4 * n) 4 2 16)) out (2 * j + 1)
      = (sample 16 m inp (4 * j + 1) + sample 16 m inp (4 * j + 3)) sdiv 2
    \<and> snd (roar_conv_chans m out inp (4 * n) 4 2 16) b = m b"
proof -
  let ?r = "snd (roar_conv_chans m out inp (4 * n) 4 2 16)"
  have r: "?r = for_up (nat (n - 1)) (down42_body out inp) m"
    by (simp add: roar_conv_chans_def down42_loop)
  have al: "aliasing out (4 * int (nat (n - 1))) inp (8 * int (nat (n - 1)))"
    using assms by (auto simp: aliasing_def)
  have cell: "lds16 ?r (out + 4 * j + 2 * c) = lds16 (down42_body out inp j m) (out + 4 * j + 2 * c)"
    if "c = 0 \<or> c = 1" for c
    unfolding r by (rule s16.ld_cong, rule down42.up [OF _ al]) (use assms that in auto)
  have safe: "out + 4 * j = inp + 8 * j \<or> out + 4 * j + 4 \<le> inp + 8 * j \<or> inp + 8 * j + 8 \<le> out + 4 * j"
    using assms by (auto simp: aliasing_def)
  have "?r b = m b" unfolding r by (rule down42.up_rest) (use assms in auto)
  then show ?thesis
    using cell [of 0] cell [of 1] safe
    by (auto simp: down42_body_def Let_def sample_16 s16.ld_st_other mean2_fits algebra_simps)
qed

theorem quad_down_mix_witness:
  "snd (roar_conv_chans ((\<lambda>_. 0)(100 := 10, 104 := 20)) 200 100 8 4 2 16) 204 = 0
   \<and> sample 16 (snd (roar_conv_chans ((\<lambda>_. 0)(100 := 10, 104 := 20)) 200 100 8 4 2 16)) 200 0 = 15"
proof -
  let ?m = "(\<lambda>_. 0)(100 := 10, 104 := 20) :: mem"
  have e: "(sample 16 ?m 100 0 + sample 16 ?m 100 2) sdiv 2 = 15" by code_simp
  show ?thesis
    using e quad_down_mix [of 200 2 100 0 204 ?m] by (simp add: aliasing_def)
qed

end
