(* ===== verification/Conv_Codec.thy ===== *)
theory Conv_Codec
  imports Conv_Bits
begin

text \<open>
  Signedness and byte order, \<open>roar_conv_signedness\<close>, \<open>roar_conv_codec*\<close> and \<open>roar_conv_endian*\<close> of
  \<open>src/libroardsp/convert.c\<close>. The byte-order routines work on bytes: an assignment
  \<open>op[i] = ip[i+1]\<close> of \<open>char\<close>s is one update of the memory and the next one reads the updated
  memory.
\<close>

unbundle bit_operations_syntax

subsection \<open>Codec numbers\<close>

definition ROAR_CODEC_UNSIGNED :: int where "ROAR_CODEC_UNSIGNED = 4"
definition ROAR_CODEC_LE :: int where "ROAR_CODEC_LE = 1"
definition ROAR_CODEC_BE :: int where "ROAR_CODEC_BE = 2"
definition ROAR_CODEC_PDP :: int where "ROAR_CODEC_PDP = 3"
definition ROAR_CODEC_NATIVE_ENDIAN :: int where "ROAR_CODEC_NATIVE_ENDIAN = ROAR_CODEC_LE"
definition ROAR_CODEC_PCM_S_LE :: int where "ROAR_CODEC_PCM_S_LE = ROAR_CODEC_LE"

definition ROAR_CODEC_IS_SIGNED :: "int \<Rightarrow> int" where
  "ROAR_CODEC_IS_SIGNED x = (if x AND ROAR_CODEC_UNSIGNED = 0 then 1 else 0)"

definition ROAR_CODEC_BYTE_ORDER :: "int \<Rightarrow> int" where
  "ROAR_CODEC_BYTE_ORDER x = x AND 3"

lemmas codec_defs = ROAR_CODEC_UNSIGNED_def ROAR_CODEC_LE_def ROAR_CODEC_BE_def ROAR_CODEC_PDP_def
  ROAR_CODEC_NATIVE_ENDIAN_def ROAR_CODEC_PCM_S_LE_def

subsection \<open>Signedness\<close>

definition roar_conv_codec_s2u8 :: "mem \<Rightarrow> ptr \<Rightarrow> ptr \<Rightarrow> c_int \<Rightarrow> conv_result" where
  "roar_conv_codec_s2u8 m out inp samples =
     (0, for_up (nat samples) (\<lambda>i m. st8 m (out + 1 * i) (lds8 m (inp + 1 * i) + 128)) m)"

definition roar_conv_codec_s2u16 :: "mem \<Rightarrow> ptr \<Rightarrow> ptr \<Rightarrow> c_int \<Rightarrow> conv_result" where
  "roar_conv_codec_s2u16 m out inp samples =
     (0, for_up (nat samples) (\<lambda>i m. st16 m (out + 2 * i) (lds16 m (inp + 2 * i) + 32768)) m)"

definition roar_conv_codec_s2u32 :: "mem \<Rightarrow> ptr \<Rightarrow> ptr \<Rightarrow> c_int \<Rightarrow> conv_result" where
  "roar_conv_codec_s2u32 m out inp samples =
     (0, for_up (nat samples) (\<lambda>i m.
           st32 m (out + 4 * i) (wrap_u 32 (lds32 m (inp + 4 * i) + 2147483648))) m)"

definition roar_conv_codec_u2s8 :: "mem \<Rightarrow> ptr \<Rightarrow> ptr \<Rightarrow> c_int \<Rightarrow> conv_result" where
  "roar_conv_codec_u2s8 m out inp samples =
     (0, for_up (nat samples) (\<lambda>i m. st8 m (out + 1 * i) (ldu8 m (inp + 1 * i) - 128)) m)"

definition roar_conv_codec_u2s16 :: "mem \<Rightarrow> ptr \<Rightarrow> ptr \<Rightarrow> c_int \<Rightarrow> conv_result" where
  "roar_conv_codec_u2s16 m out inp samples =
     (0, for_up (nat samples) (\<lambda>i m. st16 m (out + 2 * i) (ldu16 m (inp + 2 * i) - 32768)) m)"

definition roar_conv_codec_u2s32 :: "mem \<Rightarrow> ptr \<Rightarrow> ptr \<Rightarrow> c_int \<Rightarrow> conv_result" where
  "roar_conv_codec_u2s32 m out inp samples =
     (0, for_up (nat samples) (\<lambda>i m.
           st32 m (out + 4 * i) (wrap_u 32 (ldu32 m (inp + 4 * i) - 2147483648))) m)"

definition roar_conv_signedness :: "mem \<Rightarrow> ptr \<Rightarrow> ptr \<Rightarrow> c_int \<Rightarrow> c_int \<Rightarrow> c_int \<Rightarrow> c_int \<Rightarrow> conv_result" where
  "roar_conv_signedness m out inp samples from to bits =
     (if from \<noteq> to then
        (if from \<noteq> 0 \<and> to = 0 then
           (if bits = 8 then (0, snd (roar_conv_codec_s2u8 m out inp samples))
            else if bits = 16 then (0, snd (roar_conv_codec_s2u16 m out inp samples))
            else if bits = 32 then (0, snd (roar_conv_codec_s2u32 m out inp samples))
            else (-1, m))
         else if from = 0 \<and> to \<noteq> 0 then
           (if bits = 8 then (0, snd (roar_conv_codec_u2s8 m out inp samples))
            else if bits = 16 then (0, snd (roar_conv_codec_u2s16 m out inp samples))
            else if bits = 32 then (0, snd (roar_conv_codec_u2s32 m out inp samples))
            else (-1, m))
         else (-1, m))
      else if out = inp then (0, m)
      else (0, memcpy m out inp (wrap_s 32 (samples * bits) sdiv 8)))"

interpretation s2u8: cell_map lds8 st8 1 "wrap_s 8" ldu8 st8 1 "wrap_u 8" "\<lambda>x. x + 128"
  by unfold_locales
interpretation s2u16: cell_map lds16 st16 2 "wrap_s 16" ldu16 st16 2 "wrap_u 16" "\<lambda>x. x + 32768"
  by unfold_locales
interpretation s2u32: cell_map lds32 st32 4 "wrap_s 32" ldu32 st32 4 "wrap_u 32" "\<lambda>x. wrap_u 32 (x + 2147483648)"
  by unfold_locales
interpretation u2s8: cell_map ldu8 st8 1 "wrap_u 8" lds8 st8 1 "wrap_s 8" "\<lambda>x. x - 128"
  by unfold_locales
interpretation u2s16: cell_map ldu16 st16 2 "wrap_u 16" lds16 st16 2 "wrap_s 16" "\<lambda>x. x - 32768"
  by unfold_locales
interpretation u2s32: cell_map ldu32 st32 4 "wrap_u 32" lds32 st32 4 "wrap_s 32" "\<lambda>x. wrap_u 32 (x - 2147483648)"
  by unfold_locales

text \<open>The unsigned reading of sample \<open>i\<close>.\<close>

definition usample :: "int \<Rightarrow> mem \<Rightarrow> ptr \<Rightarrow> int \<Rightarrow> int" where
  "usample bits m p i = ldu (nat (bits div 8)) m (p + bits div 8 * i)"

lemma usample_8: "usample 8 m p i = ldu8 m (p + 1 * i)"
  and usample_16: "usample 16 m p i = ldu16 m (p + 2 * i)"
  and usample_32: "usample 32 m p i = ldu32 m (p + 4 * i)"
  by (simp_all add: usample_def)

lemmas usamples = usample_8 usample_16 usample_32

lemmas signedness_defs = roar_conv_codec_s2u8_def roar_conv_codec_s2u16_def roar_conv_codec_s2u32_def
  roar_conv_codec_u2s8_def roar_conv_codec_u2s16_def roar_conv_codec_u2s32_def

lemma ldu8_range: "0 \<le> ldu8 m a \<and> ldu8 m a \<le> 255"
  using ldu_range [of 1 m a] by simp

lemma ldu16_range: "0 \<le> ldu16 m a \<and> ldu16 m a \<le> 65535"
  using ldu_range [of 2 m a] by simp

lemma ldu32_range: "0 \<le> ldu32 m a \<and> ldu32 m a \<le> 4294967295"
  using ldu_range [of 4 m a] by simp

lemma signedness_format:
  "snd (roar_conv_signedness m out inp n 1 0 8) = snd (roar_conv_codec_s2u8 m out inp n)"
  "snd (roar_conv_signedness m out inp n 1 0 16) = snd (roar_conv_codec_s2u16 m out inp n)"
  "snd (roar_conv_signedness m out inp n 1 0 32) = snd (roar_conv_codec_s2u32 m out inp n)"
  "snd (roar_conv_signedness m out inp n 0 1 8) = snd (roar_conv_codec_u2s8 m out inp n)"
  "snd (roar_conv_signedness m out inp n 0 1 16) = snd (roar_conv_codec_u2s16 m out inp n)"
  "snd (roar_conv_signedness m out inp n 0 1 32) = snd (roar_conv_codec_u2s32 m out inp n)"
  by (simp_all add: roar_conv_signedness_def)

text \<open>Signed to unsigned adds half the range and unsigned to signed subtracts it; the result
  always fits.\<close>

lemma s2u_sample:
  assumes "bits \<in> {8, 16, 32}" "aliasing out (bits div 8 * n) inp (bits div 8 * n)" "0 \<le> i" "i < n"
  shows "usample bits (snd (roar_conv_signedness m out inp n 1 0 bits)) out i
    = sample bits m inp i + 2 ^ nat (bits - 1)"
proof -
  from assms(1) consider (8) "bits = 8" | (16) "bits = 16" | (32) "bits = 32" by auto
  then show ?thesis
  proof cases
    case 8
    then show ?thesis using assms(2-4) lds8_range [of m "inp + 1 * i"]
      by (simp only: signedness_format signedness_defs usamples samples snd_conv)
         (subst s2u8.map_up, simp_all add: wrap_u_id)
  next
    case 16
    then show ?thesis using assms(2-4) lds16_range [of m "inp + 2 * i"]
      by (simp only: signedness_format signedness_defs usamples samples snd_conv)
         (subst s2u16.map_up, simp_all add: wrap_u_id)
  next
    case 32
    then show ?thesis using assms(2-4) lds32_range [of m "inp + 4 * i"]
      by (simp only: signedness_format signedness_defs usamples samples snd_conv)
         (subst s2u32.map_up, simp_all add: wrap_u_id)
  qed
qed

lemma u2s_sample:
  assumes "bits \<in> {8, 16, 32}" "aliasing out (bits div 8 * n) inp (bits div 8 * n)" "0 \<le> i" "i < n"
  shows "sample bits (snd (roar_conv_signedness m out inp n 0 1 bits)) out i
    = usample bits m inp i - 2 ^ nat (bits - 1)"
proof -
  from assms(1) consider (8) "bits = 8" | (16) "bits = 16" | (32) "bits = 32" by auto
  then show ?thesis
  proof cases
    case 8
    then show ?thesis using assms(2-4) ldu8_range [of m "inp + 1 * i"]
      by (simp only: signedness_format signedness_defs usamples samples snd_conv)
         (subst u2s8.map_up, simp_all add: wrap_s_id)
  next
    case 16
    then show ?thesis using assms(2-4) ldu16_range [of m "inp + 2 * i"]
      by (simp only: signedness_format signedness_defs usamples samples snd_conv)
         (subst u2s16.map_up, simp_all add: wrap_s_id)
  next
    case 32
    then show ?thesis using assms(2-4) ldu32_range [of m "inp + 4 * i"]
      by (simp only: signedness_format signedness_defs usamples samples snd_conv)
         (subst u2s32.map_up, simp_all add: wrap_s_id)
  qed
qed

subsection \<open>Byte order\<close>

definition roar_conv_endian_16 :: "mem \<Rightarrow> ptr \<Rightarrow> ptr \<Rightarrow> c_int \<Rightarrow> conv_result" where
  "roar_conv_endian_16 m out inp samples =
     (0, if out \<noteq> inp then
           for_up (nat samples) (\<lambda>k m.
             let i = 2 * k;
                 m = m(out + i := m (inp + (i + 1)))
             in m(out + (i + 1) := m (inp + i))) m
         else
           for_up (nat samples) (\<lambda>k m.
             let i = 2 * k;
                 c = m (inp + (i + 1));
                 m = m(out + (i + 1) := m (inp + i))
             in m(out + i := c)) m)"

text \<open>The 24 bit routine leaves the middle byte of \<open>op\<close> alone in both branches.\<close>

definition roar_conv_endian_24 :: "mem \<Rightarrow> ptr \<Rightarrow> ptr \<Rightarrow> c_int \<Rightarrow> conv_result" where
  "roar_conv_endian_24 m out inp samples =
     (0, if out \<noteq> inp then
           for_up (nat samples) (\<lambda>k m.
             let i = 3 * k;
                 m = m(out + i := m (inp + (i + 2)))
             in m(out + (i + 2) := m (inp + i))) m
         else
           for_up (nat samples) (\<lambda>k m.
             let i = 3 * k;
                 c = m (inp + (i + 2));
                 m = m(out + (i + 2) := m (inp + i))
             in m(out + i := c)) m)"

text \<open>The 32 bit routine copies the word into a union, reverses it there and stores it.\<close>

definition roar_conv_endian_32 :: "mem \<Rightarrow> ptr \<Rightarrow> ptr \<Rightarrow> c_int \<Rightarrow> conv_result" where
  "roar_conv_endian_32 m out inp samples =
     (0, for_up (nat samples) (\<lambda>i m.
           let c0 = m (inp + 4 * i); c1 = m (inp + 4 * i + 1);
               c2 = m (inp + 4 * i + 2); c3 = m (inp + 4 * i + 3)
           in m(out + 4 * i := c3, out + 4 * i + 1 := c2, out + 4 * i + 2 := c1, out + 4 * i + 3 := c0)) m)"

definition roar_conv_endian :: "mem \<Rightarrow> ptr \<Rightarrow> ptr \<Rightarrow> c_int \<Rightarrow> c_int \<Rightarrow> c_int \<Rightarrow> c_int \<Rightarrow> conv_result" where
  "roar_conv_endian m out inp samples from0 to0 bits =
     (let le_be = (\<lambda>x. x = ROAR_CODEC_LE \<or> x = ROAR_CODEC_BE);
          (from, to) =
            (if bits = 8 then (ROAR_CODEC_NATIVE_ENDIAN, ROAR_CODEC_NATIVE_ENDIAN)
             else if bits = 16 then
               (if from0 = ROAR_CODEC_PDP then ROAR_CODEC_LE else from0,
                if to0 = ROAR_CODEC_PDP then ROAR_CODEC_LE else to0)
             else (from0, to0))
      in if from = to then
           (if inp \<noteq> out then (0, memcpy m out inp (wrap_s 32 (samples * bits) sdiv 8)) else (0, m))
         else if bits = 16 then roar_conv_endian_16 m out inp samples
         else if bits = 24 then
           (if le_be from \<and> le_be to then roar_conv_endian_24 m out inp samples else (-1, m))
         else if bits = 32 then
           (if le_be from \<and> le_be to then roar_conv_endian_32 m out inp samples
            else
              (let m = (if from = ROAR_CODEC_BE then snd (roar_conv_endian_32 m out inp samples) else m);
                   m = snd (roar_conv_endian_16 m out inp (samples * 2));
                   m = (if to = ROAR_CODEC_BE then snd (roar_conv_endian_32 m out inp samples) else m)
               in (0, m)))
         else (-1, m))"

definition roar_conv_codec :: "mem \<Rightarrow> ptr \<Rightarrow> ptr \<Rightarrow> c_int \<Rightarrow> c_int \<Rightarrow> c_int \<Rightarrow> c_int \<Rightarrow> conv_result" where
  "roar_conv_codec m out inp samples from to bits =
     (let inbo = ROAR_CODEC_BYTE_ORDER from; outbo = ROAR_CODEC_BYTE_ORDER to;
          ins = ROAR_CODEC_IS_SIGNED from; outs = ROAR_CODEC_IS_SIGNED to;
          (r, m) = roar_conv_endian m out inp samples inbo outbo bits
      in roar_conv_signedness m out inp samples ins outs bits)"

text \<open>Every byte-order routine, in place or not, reverses the bytes of each sample.\<close>

definition swap2_body :: "ptr \<Rightarrow> ptr \<Rightarrow> int \<Rightarrow> mem \<Rightarrow> mem" where
  "swap2_body out inp k m = m(out + 2 * k := m (inp + 2 * k + 1), out + 2 * k + 1 := m (inp + 2 * k))"

definition swap3_body :: "ptr \<Rightarrow> ptr \<Rightarrow> int \<Rightarrow> mem \<Rightarrow> mem" where
  "swap3_body out inp k m = m(out + 3 * k := m (inp + 3 * k + 2), out + 3 * k + 2 := m (inp + 3 * k))"

definition swap4_body :: "ptr \<Rightarrow> ptr \<Rightarrow> int \<Rightarrow> mem \<Rightarrow> mem" where
  "swap4_body out inp k m = m(out + 4 * k := m (inp + 4 * k + 3), out + 4 * k + 1 := m (inp + 4 * k + 2),
     out + 4 * k + 2 := m (inp + 4 * k + 1), out + 4 * k + 3 := m (inp + 4 * k))"

lemma endian_32_swap: "roar_conv_endian_32 m out inp n = (0, for_up (nat n) (swap4_body out inp) m)"
  by (simp add: roar_conv_endian_32_def swap4_body_def [abs_def] Let_def)

lemma endian_16_in_place: "roar_conv_endian_16 m p p n = (0, for_up (nat n) (swap2_body p p) m)"
proof -
  have "(\<lambda>k m. let i = 2 * k; c = m (p + (i + 1)); m = m(p + (i + 1) := m (p + i)) in m(p + i := c)) = swap2_body p p"
    by (intro ext) (simp add: swap2_body_def Let_def fun_upd_twist algebra_simps)
  then show ?thesis by (simp add: roar_conv_endian_16_def)
qed

lemma endian_24_in_place: "roar_conv_endian_24 m p p n = (0, for_up (nat n) (swap3_body p p) m)"
proof -
  have "(\<lambda>k m. let i = 3 * k; c = m (p + (i + 2)); m = m(p + (i + 2) := m (p + i)) in m(p + i := c)) = swap3_body p p"
    by (intro ext) (simp add: swap3_body_def Let_def fun_upd_twist algebra_simps)
  then show ?thesis by (simp add: roar_conv_endian_24_def)
qed

text \<open>
  A loop body that permutes the bytes of frame \<open>k\<close> of one buffer by an involution, as a
  contract: run twice it gives back the memory.
\<close>

locale byte_perm =
  fixes body :: "ptr \<Rightarrow> int \<Rightarrow> mem \<Rightarrow> mem" and w :: int and \<pi> :: "int \<Rightarrow> int"
  assumes str: "strided_loop (body p) p p w w"
    and permutes: "0 \<le> r \<Longrightarrow> r < w \<Longrightarrow> body p k m (p + w * k + r) = m (p + w * k + \<pi> r)"
    and involution: "0 \<le> r \<Longrightarrow> r < w \<Longrightarrow> 0 \<le> \<pi> r \<and> \<pi> r < w \<and> \<pi> (\<pi> r) = r"
    and w_pos: "0 < w"
begin

lemma byte_in_place:
  assumes "0 \<le> k" "k < int n" "0 \<le> r" "r < w"
  shows "for_up n (body p) m (p + w * k + r) = m (p + w * k + \<pi> r)"
proof -
  have "for_up n (body p) m (p + w * k + r) = body p k m (p + w * k + r)"
    by (rule strided_loop.up [OF str]) (use assms in auto)
  then show ?thesis using permutes assms by simp
qed

lemma twice: "for_up n (body p) (for_up n (body p) m) = m"
proof
  fix b
  show "for_up n (body p) (for_up n (body p) m) b = m b"
  proof (cases "p \<le> b \<and> b < p + w * int n")
    case True
    define k r where "k = (b - p) div w" and "r = (b - p) mod w"
    have b: "b = p + w * k + r" by (simp add: k_def r_def)
    have r: "0 \<le> r" "r < w" using w_pos by (simp_all add: r_def)
    have "0 \<le> k" using True w_pos by (simp add: k_def pos_imp_zdiv_nonneg_iff)
    moreover have "k < int n"
    proof (rule ccontr)
      assume "\<not> k < int n"
      then have "w * int n \<le> w * k" using w_pos by (intro mult_left_mono) auto
      then show False using True b r by linarith
    qed
    ultimately show ?thesis
      unfolding b using r involution by (simp add: byte_in_place)
  next
    case False
    then have "b < p \<or> p + w * int n \<le> b" by auto
    then show ?thesis by (simp add: strided_loop.up_rest [OF str])
  qed
qed

end

lemma swap2_strided: "strided_loop (swap2_body out inp) out inp 2 2"
proof (unfold_locales, goal_cases)
  case (2 i m m' b)
  have "m (inp + 2 * i) = m' (inp + 2 * i)" "m (inp + 2 * i + 1) = m' (inp + 2 * i + 1)"
    by (rule 2(1), simp)+
  then show ?case using 2(2) by (auto simp: swap2_body_def)
qed (auto simp: swap2_body_def)

lemma swap4_strided: "strided_loop (swap4_body out inp) out inp 4 4"
proof (unfold_locales, goal_cases)
  case (2 i m m' b)
  have "m (inp + 4 * i) = m' (inp + 4 * i)" "m (inp + 4 * i + 1) = m' (inp + 4 * i + 1)"
    "m (inp + 4 * i + 2) = m' (inp + 4 * i + 2)" "m (inp + 4 * i + 3) = m' (inp + 4 * i + 3)"
    by (rule 2(1), simp)+
  then show ?case using 2(2) by (auto simp: swap4_body_def)
qed (auto simp: swap4_body_def)

lemma swap3_strided: "strided_loop (swap3_body p p) p p 3 3"
proof (unfold_locales, goal_cases)
  case (2 i m m' b)
  have "m (p + 3 * i) = m' (p + 3 * i)" "m (p + 3 * i + 1) = m' (p + 3 * i + 1)"
    "m (p + 3 * i + 2) = m' (p + 3 * i + 2)" by (rule 2(1), simp)+
  moreover have "b = p + 3 * i \<or> b = p + 3 * i + 1 \<or> b = p + 3 * i + 2" using 2(2) by auto
  ultimately show ?case by (auto simp: swap3_body_def)
qed (auto simp: swap3_body_def)

lemma swap2_permutes: "0 \<le> r \<Longrightarrow> r < 2 \<Longrightarrow> swap2_body p p k m (p + 2 * k + r) = m (p + 2 * k + (1 - r))"
proof -
  assume "0 \<le> r" "r < 2"
  then consider "r = 0" | "r = 1" by linarith
  then show ?thesis by cases (simp_all add: swap2_body_def)
qed

lemma swap3_permutes: "0 \<le> r \<Longrightarrow> r < 3 \<Longrightarrow> swap3_body p p k m (p + 3 * k + r) = m (p + 3 * k + (2 - r))"
proof -
  assume "0 \<le> r" "r < 3"
  then consider "r = 0" | "r = 1" | "r = 2" by linarith
  then show ?thesis by cases (simp_all add: swap3_body_def)
qed

lemma swap4_permutes: "0 \<le> r \<Longrightarrow> r < 4 \<Longrightarrow> swap4_body out inp k m (out + 4 * k + r) = m (inp + 4 * k + (3 - r))"
proof -
  assume "0 \<le> r" "r < 4"
  then consider "r = 0" | "r = 1" | "r = 2" | "r = 3" by linarith
  then show ?thesis by cases (simp_all add: swap4_body_def)
qed

interpretation swap2: byte_perm "\<lambda>p. swap2_body p p" 2 "\<lambda>r. 1 - r"
  by (rule byte_perm.intro) (simp_all add: swap2_strided swap2_permutes)

interpretation swap3: byte_perm "\<lambda>p. swap3_body p p" 3 "\<lambda>r. 2 - r"
  by (rule byte_perm.intro) (simp_all add: swap3_strided swap3_permutes)

interpretation swap4: byte_perm "\<lambda>p. swap4_body p p" 4 "\<lambda>r. 3 - r"
  by (rule byte_perm.intro) (simp_all add: swap4_strided swap4_permutes)

subsection \<open>Properties\<close>

text \<open>Signed to unsigned conversion of 8, 16 and 32 bit samples adds half the value range
  without overflow, and converting back, over any equal or separate buffers, restores every
  sample.\<close>

theorem signedness_roundtrip:
  assumes "bits \<in> {8, 16, 32}" and "0 \<le> i" "i < n"
    and "aliasing q (bits div 8 * n) p (bits div 8 * n)" and "aliasing r (bits div 8 * n) q (bits div 8 * n)"
    and m1: "m1 = snd (roar_conv_signedness m q p n 1 0 bits)"
  shows "usample bits m1 q i = sample bits m p i + 2 ^ nat (bits - 1)
    \<and> sample bits (snd (roar_conv_signedness m1 r q n 0 1 bits)) r i = sample bits m p i"
proof -
  have "usample bits m1 q i = sample bits m p i + 2 ^ nat (bits - 1)"
    unfolding m1 by (rule s2u_sample) (use assms in auto)
  moreover have "sample bits (snd (roar_conv_signedness m1 r q n 0 1 bits)) r i
      = usample bits m1 q i - 2 ^ nat (bits - 1)"
    by (rule u2s_sample) (use assms in auto)
  ultimately show ?thesis by simp
qed

theorem signedness_roundtrip_witness:
  "sample 8 (snd (roar_conv_signedness (snd (roar_conv_signedness ((\<lambda>_. 0)(100 := 5, 101 := 200)) 100 100 2 1 0 8))
     100 100 2 0 1 8)) 100 1 = - 56"
proof -
  let ?m = "(\<lambda>_. 0)(100 := 5, 101 := 200) :: mem"
  have "sample 8 ?m 100 1 = - 56" by code_simp
  then show ?thesis
    using signedness_roundtrip [of 8 1 2 100 100 100 "snd (roar_conv_signedness ?m 100 100 2 1 0 8)" ?m] by simp
qed

text \<open>Converting a buffer in place between little- and big-endian (16, 24 or 32 bit) returns
  0, reverses the bytes of every sample, and doing it again gives back the whole memory.\<close>

theorem endian_in_place_involution:
  assumes "bits \<in> {16, 24, 32}" and "(from, to) \<in> {(ROAR_CODEC_LE, ROAR_CODEC_BE), (ROAR_CODEC_BE, ROAR_CODEC_LE)}"
    and "0 \<le> k" "k < n" and "0 \<le> r" "r < bits div 8"
    and m1: "m1 = snd (roar_conv_endian m p p n from to bits)"
  shows "fst (roar_conv_endian m p p n from to bits) = 0
    \<and> m1 (p + bits div 8 * k + r) = m (p + bits div 8 * k + (bits div 8 - 1 - r))
    \<and> snd (roar_conv_endian m1 p p n from to bits) = m"
proof -
  have ft: "from \<noteq> to \<and> (from = 1 \<or> from = 2) \<and> (to = 1 \<or> to = 2)" using assms(2) by (auto simp: codec_defs)
  from assms(1) consider (16) "bits = 16" | (24) "bits = 24" | (32) "bits = 32" by auto
  then show ?thesis
  proof cases
    case 16
    then show ?thesis using assms(3-6) ft swap2.twice [of "nat n" p m] swap2.byte_in_place [of k "nat n" r p m]
      unfolding m1 by (auto simp: roar_conv_endian_def codec_defs endian_16_in_place Let_def)
  next
    case 24
    then show ?thesis using assms(3-6) ft swap3.twice [of "nat n" p m] swap3.byte_in_place [of k "nat n" r p m]
      unfolding m1 by (auto simp: roar_conv_endian_def codec_defs endian_24_in_place Let_def)
  next
    case 32
    then show ?thesis using assms(3-6) ft swap4.twice [of "nat n" p m] swap4.byte_in_place [of k "nat n" r p m]
      unfolding m1 by (auto simp: roar_conv_endian_def codec_defs endian_32_swap Let_def)
  qed
qed

theorem endian_in_place_involution_witness:
  "snd (roar_conv_endian ((\<lambda>_. 0)(100 := 1, 101 := 2, 102 := 3)) 100 100 1 ROAR_CODEC_LE ROAR_CODEC_BE 24) 100 = 3
   \<and> snd (roar_conv_endian (snd (roar_conv_endian ((\<lambda>_. 0)(100 := 1, 101 := 2, 102 := 3)) 100 100 1 ROAR_CODEC_LE
      ROAR_CODEC_BE 24)) 100 100 1 ROAR_CODEC_LE ROAR_CODEC_BE 24) = (\<lambda>_. 0)(100 := 1, 101 := 2, 102 := 3)"
  using endian_in_place_involution [of 24 ROAR_CODEC_LE ROAR_CODEC_BE 0 1 0
      "snd (roar_conv_endian ((\<lambda>_. 0)(100 := 1, 101 := 2, 102 := 3)) 100 100 1 ROAR_CODEC_LE ROAR_CODEC_BE 24)"
      "(\<lambda>_. 0)(100 := 1, 101 := 2, 102 := 3)" 100]
  by simp

lemma endian_16_rest:
  assumes "b < out \<or> out + 2 * n \<le> b"
  shows "snd (roar_conv_endian_16 m out inp n) b = m b"
  using assms by (auto simp: roar_conv_endian_16_def Let_def intro!: for_up_keep)

lemma endian_24_rest:
  assumes "b < out \<or> out + 3 * n \<le> b"
  shows "snd (roar_conv_endian_24 m out inp n) b = m b"
  using assms by (auto simp: roar_conv_endian_24_def Let_def intro!: for_up_keep)

lemma endian_32_rest:
  assumes "b < out \<or> out + 4 * n \<le> b"
  shows "snd (roar_conv_endian_32 m out inp n) b = m b"
  using assms by (auto simp: roar_conv_endian_32_def Let_def intro!: for_up_keep)

lemma endian_rest:
  assumes "bits \<in> {8, 16, 24, 32}" "0 \<le> n" "n * bits < 2147483648"
    and "b < out \<or> out + bits div 8 * n \<le> b"
  shows "snd (roar_conv_endian m out inp n f t bits) b = m b"
proof -
  have wr: "wrap_s 32 (n * bits) = n * bits" by (rule wrap_s_id) (use assms in auto)
  have "n * bits sdiv 8 = bits div 8 * n"
    using assms(1,2) by (auto simp: sdiv_pos)
  then have cp: "memcpy m out inp (wrap_s 32 (n * bits) sdiv 8) b = m b"
    using assms(4) wr by (auto simp: memcpy_def)
  from assms(1) consider (8) "bits = 8" | (16) "bits = 16" | (24) "bits = 24" | (32) "bits = 32" by auto
  then show ?thesis
  proof cases
    case 8
    then show ?thesis using cp by (simp add: roar_conv_endian_def)
  next
    case 16
    then show ?thesis using cp assms(4) by (simp add: roar_conv_endian_def endian_16_rest)
  next
    case 24
    then show ?thesis using cp assms(4) by (simp add: roar_conv_endian_def endian_24_rest)
  next
    case 32
    then have "b < out \<or> out + 2 * (n * 2) \<le> b" "b < out \<or> out + 4 * n \<le> b" using assms(4) by simp_all
    then show ?thesis using cp 32 by (simp add: roar_conv_endian_def endian_16_rest endian_32_rest Let_def)
  qed
qed

text \<open>Between separate buffers \<open>roar_conv_codec\<close> does not convert the byte order: the second
  step starts again from \<open>in\<close> instead of the result of the first, so for codecs of equal
  signedness the output holds the input's bytes unchanged, whatever the two byte orders.\<close>

theorem codec_separate_keeps_byte_order:
  assumes "bits \<in> {8, 16, 24, 32}" and "0 \<le> n" "n * bits < 2147483648"
    and "ROAR_CODEC_IS_SIGNED from = ROAR_CODEC_IS_SIGNED to"
    and "out + bits div 8 * n \<le> inp \<or> inp + bits div 8 * n \<le> out" and "out \<noteq> inp"
    and "0 \<le> d" "d < bits div 8 * n"
  shows "snd (roar_conv_codec m out inp n from to bits) (out + d) = m (inp + d)"
proof -
  have "wrap_s 32 (n * bits) sdiv 8 = bits div 8 * n"
  proof -
    have "wrap_s 32 (n * bits) = n * bits" by (rule wrap_s_id) (use assms in auto)
    then show ?thesis using assms(1,2) by (auto simp: sdiv_pos)
  qed
  moreover have "snd (roar_conv_endian m out inp n f t bits) (inp + d) = m (inp + d)" for f t
    by (rule endian_rest) (use assms in auto)
  ultimately show ?thesis
    using assms by (simp add: roar_conv_codec_def Let_def roar_conv_signedness_def memcpy_def split: prod.splits)
      (metis snd_conv)
qed

theorem codec_separate_keeps_byte_order_witness:
  "snd (roar_conv_codec ((\<lambda>_. 0)(100 := 1, 101 := 2)) 200 100 1 1 2 16) 200 = 1"
  using codec_separate_keeps_byte_order [of 16 1 1 2 200 100 0 "(\<lambda>_. 0)(100 := 1, 101 := 2)"]
  by (simp add: ROAR_CODEC_IS_SIGNED_def codec_defs)

definition pdp_value :: "mem \<Rightarrow> ptr \<Rightarrow> int" where
  "pdp_value m a = uint (m (a + 2)) + 256 * uint (m (a + 3)) + 65536 * uint (m a) + 16777216 * uint (m (a + 1))"

text \<open>The 32 bit conversion from little-endian to PDP order, in place, swaps the bytes inside
  each 16 bit half. A PDP word has its most significant half first and each half
  little-endian, so it should swap the halves instead: read as a PDP word, the result is the
  original value with the bytes of both halves and the halves exchanged, i.e. its byte
  reversal.\<close>

theorem le_to_pdp_in_place:
  assumes "0 \<le> k" "k < n"
  shows "pdp_value (snd (roar_conv_endian m p p n ROAR_CODEC_LE ROAR_CODEC_PDP 32)) (p + 4 * k)
    = uint (m (p + 4 * k + 3)) + 256 * uint (m (p + 4 * k + 2)) + 65536 * uint (m (p + 4 * k + 1))
      + 16777216 * uint (m (p + 4 * k))"
proof -
  let ?r = "snd (roar_conv_endian m p p n ROAR_CODEC_LE ROAR_CODEC_PDP 32)"
  have r: "?r = for_up (nat (n * 2)) (swap2_body p p) m"
    by (simp add: roar_conv_endian_def codec_defs Let_def endian_16_in_place)
  have "?r (p + 2 * j + s) = m (p + 2 * j + (1 - s))" if "0 \<le> j" "j < n * 2" "0 \<le> s" "s < 2" for j s
    unfolding r by (rule swap2.byte_in_place) (use that in auto)
  from this [of "2 * k" 0] this [of "2 * k" 1] this [of "2 * k + 1" 0] this [of "2 * k + 1" 1] assms
  show ?thesis by (simp add: pdp_value_def algebra_simps)
qed

theorem le_to_pdp_in_place_witness:
  "pdp_value (snd (roar_conv_endian ((\<lambda>_. 0)(100 := 0xD, 101 := 0xC, 102 := 0xB, 103 := 0xA)) 100 100 1
     ROAR_CODEC_LE ROAR_CODEC_PDP 32)) 100 = 0x0D0C0B0A
   \<and> ldu32 ((\<lambda>_. 0)(100 := 0xD, 101 := 0xC, 102 := 0xB, 103 := 0xA)) 100 = 0x0A0B0C0D"
proof -
  have "ldu32 ((\<lambda>_. 0)(100 := 0xD, 101 := 0xC, 102 := 0xB, 103 := 0xA)) 100 = 0x0A0B0C0D" by code_simp
  then show ?thesis
    using le_to_pdp_in_place [of 0 1 "(\<lambda>_. 0)(100 := 0xD, 101 := 0xC, 102 := 0xB, 103 := 0xA)" 100] by simp
qed

end
