(* ===== verification/Conv_Pipeline.thy ===== *)
theory Conv_Pipeline
  imports Conv_Chans Conv_Codec
begin

text \<open>
  The conversion pipelines \<open>roar_conv\<close> and \<open>roar_conv2\<close> of \<open>src/libroardsp/convert.c\<close>, which
  the server runs on every block a client sends. A step that returns -1 ends the
  pipeline with the memory as it is then (\<open>conv_then\<close>). The resamplers compute in floating point
  and are parameters: \<open>conv_rate\<close> for \<open>roar_conv_rate\<close> (libsamplerate or the zero-order hold)
  and \<open>poly3\<close> for \<open>roar_conv_poly3_8\<close>, \<open>_16\<close> and \<open>_32\<close>, indexed by the sample width. \<open>alloc\<close> is
  \<open>malloc\<close>: the address of a block, or the null pointer.
\<close>

record roar_audio_info =
  rate :: int
  bits :: int
  channels :: int
  codec :: int

definition conv_then :: "conv_result \<Rightarrow> (mem \<Rightarrow> conv_result) \<Rightarrow> conv_result" where
  "conv_then r k = (if fst r = -1 then r else k (snd r))"

lemma conv_then_0 [simp]: "conv_then (0, m) k = k m"
  by (simp add: conv_then_def)

lemma conv_then_err [simp]: "conv_then (-1, m) k = (-1, m)"
  by (simp add: conv_then_def)

lemma conv_then_ok: "fst r = 0 \<Longrightarrow> conv_then r k = k (snd r)"
  by (simp add: conv_then_def)

text \<open>The parameter types of the resamplers.\<close>

type_synonym rate_fun = "mem \<Rightarrow> ptr \<Rightarrow> ptr \<Rightarrow> c_int \<Rightarrow> int \<Rightarrow> int \<Rightarrow> int \<Rightarrow> int \<Rightarrow> conv_result"
type_synonym poly_fun = "int \<Rightarrow> mem \<Rightarrow> ptr \<Rightarrow> ptr \<Rightarrow> int \<Rightarrow> int \<Rightarrow> int \<Rightarrow> conv_result"

definition roar_conv_rate2 :: "poly_fun \<Rightarrow> mem \<Rightarrow> ptr \<Rightarrow> ptr \<Rightarrow> c_int \<Rightarrow> c_int \<Rightarrow> c_int \<Rightarrow> c_int \<Rightarrow> conv_result" where
  "roar_conv_rate2 poly3 m out inp outsamples samples b ch =
     (if b = 8 then poly3 8 m out inp outsamples samples ch
      else if b = 16 then poly3 16 m out inp outsamples samples ch
      else if b = 32 then poly3 32 m out inp outsamples samples ch
      else (-1, m))"

text \<open>
  \<open>roar_conv\<close>: sizes are unsigned 32 bit products; a shrinking conversion works in a
  temporary block and copies the result out.
\<close>

definition roar_conv_steps ::
  "rate_fun \<Rightarrow> mem \<Rightarrow> ptr \<Rightarrow> ptr \<Rightarrow> c_int \<Rightarrow> roar_audio_info \<Rightarrow> roar_audio_info \<Rightarrow> conv_result" where
  "roar_conv_steps conv_rate m out ip samples from to =
     conv_then
       (if ROAR_CODEC_BYTE_ORDER (codec from) \<noteq> ROAR_CODEC_NATIVE_ENDIAN
        then roar_conv_endian m out ip samples (ROAR_CODEC_BYTE_ORDER (codec from)) ROAR_CODEC_NATIVE_ENDIAN (bits from)
        else (0, m))
       (\<lambda>m. let ip = (if ROAR_CODEC_BYTE_ORDER (codec from) \<noteq> ROAR_CODEC_NATIVE_ENDIAN then out else ip) in
     conv_then
       (if bits from \<noteq> bits to then roar_conv_bits m out ip samples (bits from) (bits to) else (0, m))
       (\<lambda>m. let ip = (if bits from \<noteq> bits to then out else ip);
                sf = ROAR_CODEC_IS_SIGNED (codec from); st = ROAR_CODEC_IS_SIGNED (codec to) in
     conv_then
       (if sf \<noteq> st then roar_conv_signedness m out ip samples sf st (bits to) else (0, m))
       (\<lambda>m. let ip = (if sf \<noteq> st then out else ip) in
     conv_then
       (if rate from \<noteq> rate to
        then conv_rate m out ip samples (rate from) (rate to) (bits to) (channels from) else (0, m))
       (\<lambda>m. let ip = (if rate from \<noteq> rate to then out else ip);
                samples = (if rate from \<noteq> rate to
                           then wrap_s 32 (wrap_u 32 (samples * rate to) div rate from) else samples) in
     conv_then
       (if channels from \<noteq> channels to
        then roar_conv_chans m out ip samples (channels from) (channels to) (bits to) else (0, m))
       (\<lambda>m. let ip = (if channels from \<noteq> channels to then out else ip) in
       (if ROAR_CODEC_BYTE_ORDER (codec to) \<noteq> ROAR_CODEC_NATIVE_ENDIAN
        then roar_conv_endian m out ip samples ROAR_CODEC_NATIVE_ENDIAN (ROAR_CODEC_BYTE_ORDER (codec to)) (bits to)
        else (0, m)))))))"

definition roar_conv ::
  "rate_fun \<Rightarrow> (int \<Rightarrow> ptr) \<Rightarrow> mem \<Rightarrow> ptr \<Rightarrow> ptr \<Rightarrow> c_int \<Rightarrow> roar_audio_info \<Rightarrow> roar_audio_info \<Rightarrow> conv_result" where
  "roar_conv conv_rate alloc m out inp samples from to =
     (let from_size = wrap_u 32 (bits from * samples) div 8;
          to_size = wrap_u 32 (bits to * samples * rate to * channels to)
                      div wrap_u 32 (8 * rate from * channels from)
      in if to_size < from_size then
           (let tmp = alloc from_size
            in if tmp = NULL then (-1, m)
               else conv_then (roar_conv_steps conv_rate m tmp inp samples from to)
                      (\<lambda>m. (0, memcpy m out tmp to_size)))
         else roar_conv_steps conv_rate m out inp samples from to)"

text \<open>
  \<open>roar_conv2\<close>: \<open>samples\<close> and \<open>outsamples\<close> are \<open>size_t\<close>, the step routines take \<open>int\<close>. \<open>cinfo\<close>
  follows the format of the data between the steps.
\<close>

definition to_int :: "int \<Rightarrow> c_int" where
  "to_int x = wrap_s 32 x"

definition conv2_outsamples :: "int \<Rightarrow> roar_audio_info \<Rightarrow> roar_audio_info \<Rightarrow> int" where
  "conv2_outsamples bufsize cinfo to =
     (let o1 = bufsize;
          o2 = (if channels cinfo \<noteq> channels to then wrap_u 64 (o1 * channels cinfo) div channels to else o1);
          o3 = (if bits cinfo \<noteq> bits to then wrap_u 64 (o2 * bits cinfo) div bits to else o2)
      in o3 div (bits cinfo div 8))"

definition roar_conv2 ::
  "poly_fun \<Rightarrow> mem \<Rightarrow> ptr \<Rightarrow> ptr \<Rightarrow> int \<Rightarrow> roar_audio_info \<Rightarrow> roar_audio_info \<Rightarrow> int \<Rightarrow> conv_result" where
  "roar_conv2 poly3 m out inp inlen from to bufsize =
     (let cinfo = from;
          samples = wrap_u 64 (inlen * 8) div bits from;
          need_signed = (rate from \<noteq> rate to \<or> channels from \<noteq> channels to);
          sf = ROAR_CODEC_IS_SIGNED (codec from); st = ROAR_CODEC_IS_SIGNED (codec to);
          bof = ROAR_CODEC_BYTE_ORDER (codec from); bot = ROAR_CODEC_BYTE_ORDER (codec to) in
     conv_then
       (if bof \<noteq> ROAR_CODEC_NATIVE_ENDIAN
        then roar_conv_endian m out inp (to_int samples) bof ROAR_CODEC_NATIVE_ENDIAN (bits from) else (0, m))
       (\<lambda>m. let cin = (if bof \<noteq> ROAR_CODEC_NATIVE_ENDIAN then out else inp) in
     conv_then
       (if bits to > bits from then roar_conv_bits m out cin (to_int samples) (bits from) (bits to) else (0, m))
       (\<lambda>m. let cin = (if bits to > bits from then out else cin);
                cinfo = (if bits to > bits from then cinfo\<lparr>bits := bits to\<rparr> else cinfo) in
     conv_then
       (if need_signed \<and> sf = 0
        then roar_conv_signedness m out cin (to_int samples) sf st (bits cinfo) else (0, m))
       (\<lambda>m. let cin = (if need_signed \<and> sf = 0 then out else cin);
                cinfo = (if need_signed \<and> sf = 0 then cinfo\<lparr>codec := ROAR_CODEC_PCM_S_LE\<rparr> else cinfo) in
     conv_then
       (if channels to > channels from
        then roar_conv_chans m out cin (to_int samples) (channels from) (channels to) (bits cinfo) else (0, m))
       (\<lambda>m. let cin = (if channels to > channels from then out else cin);
                samples = (if channels to > channels from
                           then wrap_u 64 (samples * channels to) div channels cinfo else samples);
                cinfo = (if channels to > channels from then cinfo\<lparr>channels := channels to\<rparr> else cinfo);
                outsamples = conv2_outsamples bufsize cinfo to in
     conv_then
       (if rate from \<noteq> rate to
        then roar_conv_rate2 poly3 m out cin (to_int outsamples) (to_int samples) (bits cinfo) (channels cinfo)
        else (0, m))
       (\<lambda>m. let cin = (if rate from \<noteq> rate to then out else cin);
                samples = (if rate from \<noteq> rate to then outsamples else samples);
                cinfo = (if rate from \<noteq> rate to then cinfo\<lparr>rate := rate to\<rparr> else cinfo) in
     conv_then
       (if channels cinfo \<noteq> channels to
        then roar_conv_chans m out cin (to_int samples) (channels cinfo) (channels to) (bits cinfo) else (0, m))
       (\<lambda>m. let cin = (if channels cinfo \<noteq> channels to then out else cin);
                samples = (if channels cinfo \<noteq> channels to
                           then wrap_u 64 (samples * channels to) div channels cinfo else samples);
                cinfo = (if channels cinfo \<noteq> channels to then cinfo\<lparr>channels := channels to\<rparr> else cinfo);
                sc = ROAR_CODEC_IS_SIGNED (codec cinfo) in
     conv_then
       (if sc \<noteq> st then roar_conv_signedness m out cin (to_int samples) sc st (bits cinfo) else (0, m))
       (\<lambda>m. let cin = (if sc \<noteq> st then out else cin);
                cinfo = (if sc \<noteq> st then cinfo\<lparr>codec := codec to\<rparr> else cinfo) in
     conv_then
       (if bits cinfo \<noteq> bits to
        then roar_conv_bits m out cin (to_int samples) (bits cinfo) (bits to) else (0, m))
       (\<lambda>m. let cin = (if bits cinfo \<noteq> bits to then out else cin) in
       (if bot \<noteq> ROAR_CODEC_NATIVE_ENDIAN
        then roar_conv_endian m out cin (to_int samples) ROAR_CODEC_NATIVE_ENDIAN bot (bits to)
        else (0, m)))))))))))"

subsection \<open>Pipelines as compositions of their steps\<close>

lemma to_int_id: "0 \<le> x \<Longrightarrow> x < 2147483648 \<Longrightarrow> to_int x = x"
  unfolding to_int_def by (rule wrap_s_id) auto

lemma native_s_le: "ROAR_CODEC_BYTE_ORDER ROAR_CODEC_PCM_S_LE = ROAR_CODEC_NATIVE_ENDIAN"
  "ROAR_CODEC_IS_SIGNED ROAR_CODEC_PCM_S_LE = 1"
  by (simp_all add: ROAR_CODEC_BYTE_ORDER_def ROAR_CODEC_IS_SIGNED_def codec_defs)

lemma conv_chans_up_ret: "b \<in> {8, 16, 32} \<Longrightarrow> 2 \<le> to \<Longrightarrow> fst (roar_conv_chans m out inp n 1 to b) = 0"
  by (auto simp: roar_conv_chans_def roar_conv_chans_1to28_def roar_conv_chans_1ton8_def
      roar_conv_chans_1to216_def roar_conv_chans_1ton16_def roar_conv_chans_1ton32_def
      conv_1ton_def conv_1to2_def)

lemma conv2_signed_up:
  assumes "rate from = rate to" "codec from = ROAR_CODEC_PCM_S_LE" "codec to = ROAR_CODEC_PCM_S_LE"
    and "(bits from, bits to) \<in> pcm_widths" "channels from = 1" "2 \<le> channels to"
    and "0 \<le> n" "n * channels to < 2147483648" "inlen = n * (bits from div 8)"
  shows "roar_conv2 poly3 m out inp inlen from to bufsize =
     roar_conv_chans (snd (roar_conv_bits m out inp n (bits from) (bits to))) out out n 1 (channels to) (bits to)"
proof -
  have w: "bits from \<in> {8, 16}" "bits to \<in> {16, 32}" "bits from < bits to" using assms(4) by (auto simp: pcm_widths_def)
  have "n * 1 \<le> n * channels to" using assms(6,7) by (intro mult_left_mono) auto
  then have n: "n < 2147483648" using assms(8) by linarith
  have "inlen * 8 = n * bits from" using w assms(9) by auto
  moreover have "n * bits from < 2 ^ 64" using w n by auto
  ultimately have s: "wrap_u 64 (inlen * 8) div bits from = n"
    using w assms(7) by (auto simp: wrap_u_id)
  have "wrap_u 64 (n * channels to) = n * channels to" using assms by (intro wrap_u_id) auto
  then have t: "to_int (wrap_u 64 (n * channels to) div 1) = n * channels to"
    using assms by (simp add: to_int_id)
  have r: "fst (roar_conv_bits m out inp n (bits from) (bits to)) = 0"
    using assms(4) by (rule conv_bits_ret [OF disjI1])
  have r2: "fst (roar_conv_chans M out out n 1 (channels to) (bits to)) = 0" for M
    by (rule conv_chans_up_ret) (use w assms(6) in auto)
  show ?thesis
    using assms w n s r r2 by (simp add: roar_conv2_def native_s_le to_int_id conv_then_ok Let_def prod_eq_iff)
qed

lemma conv2_signed_down:
  assumes "rate from = rate to" "codec from = ROAR_CODEC_PCM_S_LE" "codec to = ROAR_CODEC_PCM_S_LE"
    and "bits from = 16" "bits to = 8" "channels to = 1" "2 \<le> channels from"
    and "0 \<le> n" "n * channels from < 134217728" "inlen = n * channels from * 2"
  shows "roar_conv2 poly3 m out inp inlen from to bufsize =
     conv_then (roar_conv_chans m out inp (n * channels from) (channels from) 1 16)
       (\<lambda>m. roar_conv_bits m out out n 16 8)"
proof -
  have s: "wrap_u 64 (inlen * 8) div 16 = n * channels from"
    using assms by (subst wrap_u_id) auto
  have p: "0 \<le> n * channels from" using assms by simp
  have "wrap_u 64 (n * channels from * 1) div channels from = n"
    using assms p by (subst wrap_u_id) auto
  moreover have "n * 1 \<le> n * channels from" using assms(7,8) by (intro mult_left_mono) auto
  ultimately show ?thesis
    using assms s p by (simp add: roar_conv2_def native_s_le to_int_id Let_def conv_bits_format conv_bits_defs)
qed

lemma conv_chans_down_ret:
  "2 \<le> from \<Longrightarrow> fst (roar_conv_chans m out inp k from 1 16) = 0"
  by (auto simp: roar_conv_chans_def roar_conv_chans_2to116_def roar_conv_chans_nto116_def
      conv_2to1_def conv_nto1_def)

lemma conv_chans_mono_u8:
  assumes "0 \<le> n" "0 \<le> i" "i < n" "c \<in> {0, 1}"
  shows "lds8 (snd (roar_conv_chans m p p n 1 2 8)) (p + (i * 2 + c)) = lds8 m (p + i)"
  using fan_out_sample [of 8 2 p n p i c m] assms by (auto simp: sample_8)

subsection \<open>Properties\<close>

text \<open>C24: On the server's input path (signed little-endian client data, equal rates) \<open>roar_conv2\<close>
  turns a mono stream of narrower samples into the mixer's format in one call: it returns 0,
  and every channel of every output frame is the client's sample scaled to the wider width.
  The client's buffer may be the output buffer.\<close>

theorem conv2_mono_up:
  assumes "rate from = rate to" "codec from = ROAR_CODEC_PCM_S_LE" "codec to = ROAR_CODEC_PCM_S_LE"
    and "(bits from, bits to) \<in> pcm_widths" "channels from = 1" "2 \<le> channels to"
    and "n * channels to < 2147483648" "inlen = n * (bits from div 8)"
    and "aliasing out (bits to div 8 * n) inp (bits from div 8 * n)"
    and "0 \<le> i" "i < n" "0 \<le> c" "c < channels to"
  shows "fst (roar_conv2 poly3 m out inp inlen from to bufsize) = 0
    \<and> sample (bits to) (snd (roar_conv2 poly3 m out inp inlen from to bufsize)) out (i * channels to + c)
      = sample (bits from) m inp i * 2 ^ nat (bits to - bits from)"
proof -
  have w: "bits to \<in> {8, 16, 32}" using assms(4) by (auto simp: pcm_widths_def)
  show ?thesis
    using conv2_signed_up [of "from" to n inlen poly3 m out inp bufsize] assms
      fan_out_sample [OF w assms(6) aliasing_refl assms(10-13), of "snd (roar_conv_bits m out inp n (bits from) (bits to))" out]
      widen_sample [OF assms(4,9,10,11), of m]
    by auto
qed

definition mono8 :: roar_audio_info where
  "mono8 = \<lparr>rate = 44100, bits = 8, channels = 1, codec = ROAR_CODEC_PCM_S_LE\<rparr>"

definition stereo16 :: roar_audio_info where
  "stereo16 = \<lparr>rate = 44100, bits = 16, channels = 2, codec = ROAR_CODEC_PCM_S_LE\<rparr>"

theorem conv2_mono_up_witness:
  "sample 16 (snd (roar_conv2 (\<lambda>_ m _ _ _ _ _. (-1, m)) ((\<lambda>_. 0)(100 := 5, 101 := 200)) 100 100 2 mono8 stereo16 8))
     100 3 = - 14336"
proof -
  let ?m = "(\<lambda>_. 0)(100 := 5, 101 := 200) :: mem"
  have "sample 8 ?m 100 1 = - 56" by code_simp
  then show ?thesis
    using conv2_mono_up [of mono8 stereo16 2 2 100 100 1 1 "\<lambda>_ m _ _ _ _ _. (-1, m)" ?m 8]
    by (simp add: mono8_def stereo16_def pcm_widths_def)
qed

text \<open>On the way down, signed 16 bit data of several channels to 8 bit mono at equal rates,
  \<open>roar_conv2\<close> returns 0 and stores for every frame the mean of its channels (towards zero), shifted
  down to 8 bits (towards minus infinity); the frame is mixed before it is narrowed.\<close>

theorem conv2_down_to_mono8:
  assumes "rate from = rate to" "codec from = ROAR_CODEC_PCM_S_LE" "codec to = ROAR_CODEC_PCM_S_LE"
    and "bits from = 16" "bits to = 8" "channels to = 1" "2 \<le> channels from" "channels from \<le> 65535"
    and "n * channels from < 134217728" "inlen = n * channels from * 2"
    and "aliasing out (2 * n) inp (2 * channels from * n)"
    and "0 \<le> i" "i < n"
  shows "fst (roar_conv2 poly3 m out inp inlen from to bufsize) = 0
    \<and> sample 8 (snd (roar_conv2 poly3 m out inp inlen from to bufsize)) out i
      = (\<Sum>c<nat (channels from). sample 16 m inp (i * channels from + int c)) sdiv channels from div 256"
proof -
  let ?m1 = "snd (roar_conv_chans m out inp (n * channels from) (channels from) 1 16)"
  have eq: "roar_conv2 poly3 m out inp inlen from to bufsize = roar_conv_bits ?m1 out out n 16 8"
    using conv2_signed_down [of "from" to n inlen poly3 m out inp bufsize] assms
      conv_chans_down_ret [OF assms(7), of m out inp "n * channels from"]
    by (simp add: conv_then_ok)
  have "sample 16 ?m1 out i
      = (\<Sum>c<nat (channels from). sample 16 m inp (i * channels from + int c)) sdiv channels from"
    using down_mix_sample [of 16 "channels from" out n inp i m] assms by simp
  moreover have "sample 8 (snd (roar_conv_bits ?m1 out out n 16 8)) out i = sample 16 ?m1 out i div 2 ^ nat (16 - 8)"
    by (rule narrow_sample) (use assms in \<open>auto simp: pcm_widths_def\<close>)
  ultimately show ?thesis
    unfolding eq by (simp add: conv_bits_format conv_bits_defs)
qed

theorem conv2_down_to_mono8_witness:
  "sample 8 (snd (roar_conv2 (\<lambda>_ m _ _ _ _ _. (-1, m)) ((\<lambda>_. 0)(101 := 10, 103 := 20)) 100 100 4 stereo16 mono8 8)) 100 0 = 15"
proof -
  let ?m = "(\<lambda>_. 0)(101 := 10, 103 := 20) :: mem"
  have "(\<Sum>c<nat 2. sample 16 ?m 100 (0 * 2 + int c)) sdiv 2 div 256 = 15" by code_simp
  then show ?thesis
    using conv2_down_to_mono8 [of stereo16 mono8 1 4 100 100 0 "\<lambda>_ m _ _ _ _ _. (-1, m)" ?m 8]
    by (simp add: mono8_def stereo16_def)
qed

definition unsigned8 :: "int \<Rightarrow> int \<Rightarrow> roar_audio_info" where
  "unsigned8 r ch = \<lparr>rate = r, bits = 8, channels = ch, codec = 5\<rparr>"

text \<open>An unsigned stream whose channel count changes is corrupted: with unsigned 8 bit input and
  output at equal rates, mono to stereo, \<open>roar_conv2\<close> marks the data as signed without having
  converted it (the call to the signedness step has equal source and target), and the last
  step converts it again, so every output sample is the input sample with its top bit flipped.\<close>

theorem conv2_unsigned_corrupted:
  assumes "0 \<le> i" "i < n" "n < 1073741824" "c \<in> {0, 1}"
  shows "fst (roar_conv2 poly3 m p p n (unsigned8 r 1) (unsigned8 r 2) bufsize) = 0
    \<and> usample 8 (snd (roar_conv2 poly3 m p p n (unsigned8 r 1) (unsigned8 r 2) bufsize)) p (i * 2 + c)
      = (usample 8 m p i + 128) mod 256"
proof -
  have u: "ROAR_CODEC_BYTE_ORDER 5 = ROAR_CODEC_NATIVE_ENDIAN" "ROAR_CODEC_IS_SIGNED 5 = 0"
    by (simp_all add: ROAR_CODEC_BYTE_ORDER_def ROAR_CODEC_IS_SIGNED_def codec_defs)
  let ?m1 = "snd (roar_conv_chans m p p n 1 2 8)"
  have w: "wrap_u 64 (n * 8) div 8 = n" "wrap_u 64 (n * 2) = n * 2"
    using assms by (simp_all add: wrap_u_id)
  have eq: "roar_conv2 poly3 m p p n (unsigned8 r 1) (unsigned8 r 2) bufsize
      = roar_conv_signedness ?m1 p p (n * 2) 1 0 8"
    using assms w conv_chans_up_ret [of 8 2 m p p n]
    by (simp add: roar_conv2_def unsigned8_def u native_s_le to_int_id conv_then_ok Let_def
        roar_conv_signedness_def)
  have "usample 8 (snd (roar_conv_signedness ?m1 p p (n * 2) 1 0 8)) p (i * 2 + c)
      = sample 8 ?m1 p (i * 2 + c) + 2 ^ nat (8 - 1)"
    by (rule s2u_sample) (use assms in auto)
  also have "sample 8 ?m1 p (i * 2 + c) = lds8 m (p + i)"
    using conv_chans_mono_u8 [of n i c m p] assms by (simp add: sample_8)
  also have "lds8 m (p + i) + 2 ^ nat (8 - 1) = (usample 8 m p i + 128) mod 256"
  proof -
    have "lds8 m (p + i) mod 256 = ldu8 m (p + i) mod 256"
      using wrap_s_mod [of 8 "ldu8 m (p + i)"] by (simp add: lds_def)
    then have "(lds8 m (p + i) + 128) mod 256 = (ldu8 m (p + i) + 128) mod 256" by (metis mod_add_left_eq)
    moreover have "(lds8 m (p + i) + 128) mod 256 = lds8 m (p + i) + 128"
      using lds8_range [of m "p + i"] by simp
    ultimately show ?thesis by (simp add: usample_8)
  qed
  finally show ?thesis unfolding eq by (simp add: roar_conv_signedness_def)
qed

theorem conv2_unsigned_corrupted_witness:
  "usample 8 ((\<lambda>_. 0)(100 := 200)) 100 0 = 200
   \<and> usample 8 (snd (roar_conv2 (\<lambda>_ m _ _ _ _ _. (-1, m)) ((\<lambda>_. 0)(100 := 200)) 100 100 1
        (unsigned8 44100 1) (unsigned8 44100 2) 2)) 100 1 = 72"
proof -
  have "usample 8 ((\<lambda>_. 0)(100 := 200)) 100 0 = 200" by code_simp
  then show ?thesis
    using conv2_unsigned_corrupted [of 0 1 1 "\<lambda>_ m _ _ _ _ _. (-1, m)" "(\<lambda>_. 0)(100 := 200)" 100 44100 2] by simp
qed

end
