(* ===== verification/Mid_Side.thy ===== *)
theory Mid_Side
  imports Conv_Bits
begin

text \<open>
  Stereo to mid/side and back, \<open>src/libroardsp/midside.c\<close>. The three widths differ in the
  sample type only and share one definition; the sum and the difference are computed in
  \<open>int\<close> (32 bits, wrapping for the 32 bit routines) and both registers are read before the first store.
\<close>

definition conv_s2ms :: "nat \<Rightarrow> mem \<Rightarrow> ptr \<Rightarrow> ptr \<Rightarrow> c_int \<Rightarrow> conv_result" where
  "conv_s2ms w m out inp samples =
     (0, for_up (nat ((samples + 1) div 2)) (\<lambda>k m.
           let i = 2 * k;
               l = lds w m (inp + int w * i); r = lds w m (inp + int w * (i + 1));
               mid = wrap_s (8 * w) (wrap_s 32 (l + r) sdiv 2);
               side = wrap_s (8 * w) (wrap_s 32 (l - r) sdiv 2)
           in stn w (stn w m (out + int w * i) mid) (out + int w * (i + 1)) side) m)"

definition roar_conv_s2ms_8 :: "mem \<Rightarrow> ptr \<Rightarrow> ptr \<Rightarrow> c_int \<Rightarrow> conv_result" where
  "roar_conv_s2ms_8 = conv_s2ms 1"
definition roar_conv_s2ms_16 :: "mem \<Rightarrow> ptr \<Rightarrow> ptr \<Rightarrow> c_int \<Rightarrow> conv_result" where
  "roar_conv_s2ms_16 = conv_s2ms 2"
definition roar_conv_s2ms_32 :: "mem \<Rightarrow> ptr \<Rightarrow> ptr \<Rightarrow> c_int \<Rightarrow> conv_result" where
  "roar_conv_s2ms_32 = conv_s2ms 4"

definition conv_ms2s :: "nat \<Rightarrow> mem \<Rightarrow> ptr \<Rightarrow> ptr \<Rightarrow> c_int \<Rightarrow> conv_result" where
  "conv_ms2s w m out inp samples =
     (0, for_up (nat ((samples + 1) div 2)) (\<lambda>k m.
           let i = 2 * k;
               mid = lds w m (inp + int w * i); side = lds w m (inp + int w * (i + 1))
           in stn w (stn w m (out + int w * i) (wrap_s 32 (mid + side)))
                (out + int w * (i + 1)) (wrap_s 32 (mid - side))) m)"

definition roar_conv_ms2s_8 :: "mem \<Rightarrow> ptr \<Rightarrow> ptr \<Rightarrow> c_int \<Rightarrow> conv_result" where
  "roar_conv_ms2s_8 = conv_ms2s 1"
definition roar_conv_ms2s_16 :: "mem \<Rightarrow> ptr \<Rightarrow> ptr \<Rightarrow> c_int \<Rightarrow> conv_result" where
  "roar_conv_ms2s_16 = conv_ms2s 2"
definition roar_conv_ms2s_32 :: "mem \<Rightarrow> ptr \<Rightarrow> ptr \<Rightarrow> c_int \<Rightarrow> conv_result" where
  "roar_conv_ms2s_32 = conv_ms2s 4"

subsection \<open>Both directions as loops over sample pairs\<close>

definition pair_body :: "(int \<Rightarrow> int \<Rightarrow> int) \<Rightarrow> (int \<Rightarrow> int \<Rightarrow> int) \<Rightarrow> nat \<Rightarrow> ptr \<Rightarrow> ptr \<Rightarrow> int \<Rightarrow> mem \<Rightarrow> mem" where
  "pair_body f g w out inp k m =
     (let l = lds w m (inp + int w * (2 * k)); r = lds w m (inp + int w * (2 * k + 1))
      in stn w (stn w m (out + int w * (2 * k)) (f l r)) (out + int w * (2 * k + 1)) (g l r))"

interpretation pair_loop: strided_loop "pair_body f g w out inp" out inp "int w * 2" "int w * 2" for f g w out inp
proof (unfold_locales, goal_cases)
  case (1 b k m)
  then show ?case by (auto simp: pair_body_def Let_def stn_frame algebra_simps)
next
  case (2 k m m' b)
  let ?S = "span (inp + int w * 2 * k) (int w * 2)"
  have ag: "agree ?S m m'" using 2(1) by (auto simp: agree_def)
  have l: "lds w m (inp + int w * (2 * k)) = lds w m' (inp + int w * (2 * k))"
    and r: "lds w m (inp + int w * (2 * k + 1)) = lds w m' (inp + int w * (2 * k + 1))"
    by (rule agree_lds [OF ag], auto simp: algebra_simps)+
  have "agree ({} \<union> span (out + int w * (2 * k)) (int w) \<union> span (out + int w * (2 * k + 1)) (int w))
      (pair_body f g w out inp k m) (pair_body f g w out inp k m')"
    unfolding pair_body_def Let_def l r by (intro agree_stn) (simp_all add: agree_def)
  then show ?case by (rule agreeD) (use 2(2) in \<open>auto simp: algebra_simps\<close>)
qed simp_all

lemma pair_loop_cells:
  assumes w: "0 < w" and "aliasing out (int w * 2 * n) inp (int w * 2 * n)" "0 \<le> k" "k < n"
  shows "lds w (for_up (nat n) (pair_body f g w out inp) m) (out + int w * (2 * k))
      = wrap_s (8 * w) (f (lds w m (inp + int w * (2 * k))) (lds w m (inp + int w * (2 * k + 1))))"
    and "lds w (for_up (nat n) (pair_body f g w out inp) m) (out + int w * (2 * k + 1))
      = wrap_s (8 * w) (g (lds w m (inp + int w * (2 * k))) (lds w m (inp + int w * (2 * k + 1))))"
proof -
  have c: "lds w (for_up (nat n) (pair_body f g w out inp) m) (out + int w * (2 * k + c))
      = lds w (pair_body f g w out inp k m) (out + int w * (2 * k + c))" if "c = 0 \<or> c = 1" for c
    by (rule lds_cong, rule pair_loop.up) (use assms that in \<open>auto simp: algebra_simps\<close>)
  have o: "lds w (stn w M (out + int w * (2 * k + 1)) v) (out + int w * (2 * k)) = lds w M (out + int w * (2 * k))" for M v
    by (rule cell.ld_st_other [OF cell_lds [OF w]]) (simp add: algebra_simps)
  show "lds w (for_up (nat n) (pair_body f g w out inp) m) (out + int w * (2 * k))
      = wrap_s (8 * w) (f (lds w m (inp + int w * (2 * k))) (lds w m (inp + int w * (2 * k + 1))))"
    using c [of 0] by (simp add: pair_body_def Let_def o lds_stn [OF w])
  show "lds w (for_up (nat n) (pair_body f g w out inp) m) (out + int w * (2 * k + 1))
      = wrap_s (8 * w) (g (lds w m (inp + int w * (2 * k))) (lds w m (inp + int w * (2 * k + 1))))"
    using c [of 1] by (simp add: pair_body_def Let_def lds_stn [OF w])
qed

lemma conv_s2ms_pair:
  "conv_s2ms w m out inp (2 * n) = (0, for_up (nat n) (pair_body
     (\<lambda>l r. wrap_s (8 * w) (wrap_s 32 (l + r) sdiv 2)) (\<lambda>l r. wrap_s (8 * w) (wrap_s 32 (l - r) sdiv 2)) w out inp) m)"
  by (simp add: conv_s2ms_def pair_body_def [abs_def] Let_def)

lemma conv_ms2s_pair:
  "conv_ms2s w m out inp (2 * n) = (0, for_up (nat n) (pair_body
     (\<lambda>l r. wrap_s 32 (l + r)) (\<lambda>l r. wrap_s 32 (l - r)) w out inp) m)"
  by (simp add: conv_ms2s_def pair_body_def [abs_def] Let_def)

text \<open>Halving the sum and the difference: exact for an even sum, else both move towards zero.\<close>

lemma half_cases: "x sdiv 2 * 2 = x \<or> (0 < x \<and> odd x \<and> x sdiv 2 * 2 = x - 1) \<or> (x < 0 \<and> odd x \<and> x sdiv 2 * 2 = (x :: int) + 1)"
proof (cases "0 \<le> x")
  case True
  then have e: "x sdiv 2 = x div 2" by (simp add: sdiv_pos)
  from True show ?thesis unfolding e by presburger
next
  case False
  then have e: "x sdiv 2 = - ((- x) div 2)" by (simp add: sdiv_neg)
  from False show ?thesis unfolding e by presburger
qed

lemma mid_side_err:
  fixes l r :: int
  defines "md \<equiv> (l + r) sdiv 2" and "sd \<equiv> (l - r) sdiv 2"
  shows "even (l + r) \<Longrightarrow> md + sd = l \<and> md - sd = r"
    and "\<bar>md + sd\<bar> \<le> \<bar>l\<bar> \<and> \<bar>md - sd\<bar> \<le> \<bar>r\<bar> \<and> \<bar>l - (md + sd)\<bar> \<le> 1 \<and> \<bar>r - (md - sd)\<bar> \<le> 1"
proof -
  have h1: "md * 2 = l + r \<or> (0 < l + r \<and> odd (l + r) \<and> md * 2 = l + r - 1) \<or> (l + r < 0 \<and> odd (l + r) \<and> md * 2 = l + r + 1)"
    unfolding md_def by (rule half_cases)
  have h2: "sd * 2 = l - r \<or> (0 < l - r \<and> odd (l - r) \<and> sd * 2 = l - r - 1) \<or> (l - r < 0 \<and> odd (l - r) \<and> sd * 2 = l - r + 1)"
    unfolding sd_def by (rule half_cases)
  have par: "odd (l - r) = odd (l + r)" by presburger
  show ev: "even (l + r) \<Longrightarrow> md + sd = l \<and> md - sd = r" using h1 h2 par by auto
  show "\<bar>md + sd\<bar> \<le> \<bar>l\<bar> \<and> \<bar>md - sd\<bar> \<le> \<bar>r\<bar> \<and> \<bar>l - (md + sd)\<bar> \<le> 1 \<and> \<bar>r - (md - sd)\<bar> \<le> 1"
  proof (cases "even (l + r)")
    case True
    with ev show ?thesis by simp
  next
    case False
    have "md * 2 \<noteq> l + r" using False by (metis dvd_triv_right)
    with h1 have md: "0 < l + r \<and> md * 2 = l + r - 1 \<or> l + r < 0 \<and> md * 2 = l + r + 1" by auto
    have "sd * 2 \<noteq> l - r" using False par by (metis dvd_triv_right)
    with h2 have sd: "0 < l - r \<and> sd * 2 = l - r - 1 \<or> l - r < 0 \<and> sd * 2 = l - r + 1" by auto
    from md sd consider
        "md + sd = l - 1" "md - sd = r" "0 < l"
      | "md + sd = l" "md - sd = r - 1" "0 < r"
      | "md + sd = l" "md - sd = r + 1" "r < 0"
      | "md + sd = l + 1" "md - sd = r" "l < 0"
      by linarith
    then show ?thesis by cases simp_all
  qed
qed

subsection \<open>Properties\<close>

lemma ms_roundtrip_pair:
  fixes m :: mem and p q s :: ptr and k n :: int
  assumes w: "w = 1 \<or> w = 2" and "0 \<le> k" "k < n"
    and "aliasing q (int w * 2 * n) p (int w * 2 * n)" "aliasing s (int w * 2 * n) q (int w * 2 * n)"
  defines "l \<equiv> lds w m (p + int w * (2 * k))" and "r \<equiv> lds w m (p + int w * (2 * k + 1))"
  defines "m2 \<equiv> snd (conv_ms2s w (snd (conv_s2ms w m q p (2 * n))) s q (2 * n))"
  shows "lds w m2 (s + int w * (2 * k)) = (l + r) sdiv 2 + (l - r) sdiv 2
    \<and> lds w m2 (s + int w * (2 * k + 1)) = (l + r) sdiv 2 - (l - r) sdiv 2"
proof -
  have w0: "0 < w" using w by auto
  define H where "H = (2 ^ (8 * w - 1) :: int)"
  have H: "H \<le> 32768" "2 \<le> H" using w by (auto simp: H_def)
  have lr: "- H \<le> l" "l < H" "- H \<le> r" "r < H"
    unfolding l_def r_def H_def using lds_range by blast+
  have W: "wrap_s (8 * w) x = x" if "- H \<le> x" "x < H" for x
    by (rule wrap_s_id) (use w0 that in \<open>auto simp: H_def\<close>)
  have w32: "wrap_s 32 x = x" if "- 2147483648 \<le> x" "x < 2147483648" for x
    by (rule wrap_s_id) (use that in auto)
  define md sd where "md = (l + r) sdiv 2" and "sd = (l - r) sdiv 2"
  have md: "- H \<le> md" "md \<le> H - 1"
    using lr H sdiv_lower [of 2 H "l + r"] sdiv_upper [of 2 "l + r" "H - 1"] by (simp_all add: md_def)
  have sd: "- H \<le> sd" "sd \<le> H - 1"
    using half_cases [of "l - r"] lr H by (auto simp: sd_def)
  have err: "\<bar>md + sd\<bar> \<le> \<bar>l\<bar>" "\<bar>md - sd\<bar> \<le> \<bar>r\<bar>" "\<bar>l - (md + sd)\<bar> \<le> 1" "\<bar>r - (md - sd)\<bar> \<le> 1"
    unfolding md_def sd_def using mid_side_err(2) [of l r] by auto
  have out: "- H \<le> md + sd" "md + sd < H" "- H \<le> md - sd" "md - sd < H" using err lr H by arith+
  let ?m1 = "snd (conv_s2ms w m q p (2 * n))"
  have m1: "lds w ?m1 (q + int w * (2 * k)) = md" "lds w ?m1 (q + int w * (2 * k + 1)) = sd"
    using pair_loop_cells [OF w0 assms(4,2,3), where m = m] md sd lr H
    unfolding conv_s2ms_pair by (simp_all add: l_def [symmetric] r_def [symmetric] w32 W md_def sd_def)
  show ?thesis
    using pair_loop_cells [OF w0 assms(5,2,3), where m = ?m1] out H
    unfolding m2_def conv_ms2s_pair by (simp add: m1 w32 W md_def sd_def)
qed

text \<open>C33: Stereo to mid/side and back, at 8 or 16 bits and over any equal or separate buffers,
  returns every left and right sample to within one step, never larger in magnitude than the
  original, and exactly when left and right have the same parity; nothing overflows.\<close>

theorem mid_side_roundtrip:
  assumes "b \<in> {8, 16}" and "0 \<le> k" "k < n"
    and "aliasing q (b div 8 * 2 * n) p (b div 8 * 2 * n)" "aliasing s (b div 8 * 2 * n) q (b div 8 * 2 * n)"
    and m2: "m2 = (if b = 8 then snd (roar_conv_ms2s_8 (snd (roar_conv_s2ms_8 m q p (2 * n))) s q (2 * n))
                   else snd (roar_conv_ms2s_16 (snd (roar_conv_s2ms_16 m q p (2 * n))) s q (2 * n)))"
    and l: "l = sample b m p (2 * k)" and r: "r = sample b m p (2 * k + 1)"
  shows "\<bar>sample b m2 s (2 * k) - l\<bar> \<le> 1 \<and> \<bar>sample b m2 s (2 * k + 1) - r\<bar> \<le> 1
    \<and> \<bar>sample b m2 s (2 * k)\<bar> \<le> \<bar>l\<bar> \<and> \<bar>sample b m2 s (2 * k + 1)\<bar> \<le> \<bar>r\<bar>
    \<and> (even (l + r) \<longrightarrow> sample b m2 s (2 * k) = l \<and> sample b m2 s (2 * k + 1) = r)"
proof -
  have "sample b m2 s (2 * k) = (l + r) sdiv 2 + (l - r) sdiv 2
    \<and> sample b m2 s (2 * k + 1) = (l + r) sdiv 2 - (l - r) sdiv 2"
  proof (cases "b = 8")
    case True
    then show ?thesis
      using ms_roundtrip_pair [of 1 k n q p s m] assms(2-5)
      unfolding m2 l r by (simp add: sample_8 roar_conv_ms2s_8_def roar_conv_s2ms_8_def)
  next
    case False
    then have "b = 16" using assms(1) by simp
    then show ?thesis
      using ms_roundtrip_pair [of 2 k n q p s m] assms(2-5)
      unfolding m2 l r by (simp add: sample_16 roar_conv_ms2s_16_def roar_conv_s2ms_16_def)
  qed
  then show ?thesis using mid_side_err [of l r] by (simp add: abs_minus_commute)
qed

theorem mid_side_roundtrip_witness:
  "sample 8 (snd (roar_conv_ms2s_8 (snd (roar_conv_s2ms_8 ((\<lambda>_. 0)(100 := 9, 101 := 3)) 100 100 2)) 100 100 2)) 100 1 = 3"
proof -
  let ?m = "(\<lambda>_. 0)(100 := 9, 101 := 3) :: mem"
  have "sample 8 ?m 100 0 = 9" "sample 8 ?m 100 1 = 3" by code_simp+
  then show ?thesis
    using mid_side_roundtrip [of 8 0 1 100 100 100 _ ?m 9 3] by simp
qed

end
