(* ===== verification/Pcm_Mixer.thy ===== *)
theory Pcm_Mixer
  imports Conv_Bits
begin

text \<open>
  The mixer core, \<open>roar_mix_pcm*\<close> of \<open>src/libroardsp/mixer.c\<close>: the sum of the clients' samples,
  clipped to the sample range. \<open>input\<close> is the array of stream buffers up to its terminating
  null pointer, a list of addresses. The accumulator is 32 bits wide for 8 and 16 bit samples and
  64 bits for 32 bit samples (\<open>ROAR_NATIVE_INT64\<close> is available).
\<close>

definition mix_sum :: "nat \<Rightarrow> nat \<Rightarrow> mem \<Rightarrow> ptr list \<Rightarrow> int \<Rightarrow> int" where
  "mix_sum acc w m input s = foldl (\<lambda>c p. wrap_s acc (c + lds w m (p + int w * s))) 0 input"

definition roar_mix_pcm_8bit :: "mem \<Rightarrow> ptr \<Rightarrow> ptr list \<Rightarrow> c_int \<Rightarrow> conv_result" where
  "roar_mix_pcm_8bit m output input samples =
     (0, for_up (nat samples) (\<lambda>s m.
           let c = mix_sum 32 1 m input s;
               c = (if c > 127 then 127 else if c < -128 then -128 else c)
           in st8 m (output + 1 * s) c) m)"

definition roar_mix_pcm_16bit :: "mem \<Rightarrow> ptr \<Rightarrow> ptr list \<Rightarrow> c_int \<Rightarrow> conv_result" where
  "roar_mix_pcm_16bit m output input samples =
     (0, for_up (nat samples) (\<lambda>s m.
           let c = mix_sum 32 2 m input s;
               c = (if c > 32767 then 32767 else if c < -32768 then -32768 else c)
           in st16 m (output + 2 * s) c) m)"

definition roar_mix_pcm_24bit :: "mem \<Rightarrow> ptr \<Rightarrow> ptr list \<Rightarrow> c_int \<Rightarrow> conv_result" where
  "roar_mix_pcm_24bit m output input samples = (-1, m)"

text \<open>The upper limit of the 32 bit routine is the constant of the source, \<open>21474836487LL\<close>.\<close>

definition roar_mix_pcm_32bit :: "mem \<Rightarrow> ptr \<Rightarrow> ptr list \<Rightarrow> c_int \<Rightarrow> conv_result" where
  "roar_mix_pcm_32bit m output input samples =
     (0, for_up (nat samples) (\<lambda>s m.
           let c = mix_sum 64 4 m input s;
               c = (if c > 21474836487 then 2147483647 else if c < -2147483648 then -2147483648 else c)
           in st32 m (output + 4 * s) c) m)"

definition roar_mix_pcm :: "mem \<Rightarrow> ptr \<Rightarrow> c_int \<Rightarrow> ptr list \<Rightarrow> c_int \<Rightarrow> conv_result" where
  "roar_mix_pcm m output b input samples =
     (if b = 8 then roar_mix_pcm_8bit m output input samples
      else if b = 16 then roar_mix_pcm_16bit m output input samples
      else if b = 24 then roar_mix_pcm_24bit m output input samples
      else if b = 32 then roar_mix_pcm_32bit m output input samples
      else (-1, m))"

subsection \<open>The loop over samples\<close>

definition mix_body :: "nat \<Rightarrow> nat \<Rightarrow> int \<Rightarrow> int \<Rightarrow> int \<Rightarrow> ptr \<Rightarrow> ptr list \<Rightarrow> int \<Rightarrow> mem \<Rightarrow> mem" where
  "mix_body acc w lim hi lo output input s m =
     (let c = mix_sum acc w m input s
      in stn w m (output + int w * s)
           (if c > lim then hi else if c < lo then lo else c))"

lemma mix_loops:
  "roar_mix_pcm m output 8 input n = (0, for_up (nat n) (mix_body 32 1 127 127 (-128) output input) m)"
  "roar_mix_pcm m output 16 input n = (0, for_up (nat n) (mix_body 32 2 32767 32767 (-32768) output input) m)"
  "roar_mix_pcm m output 32 input n = (0, for_up (nat n) (mix_body 64 4 21474836487 2147483647 (-2147483648) output input) m)"
  by (simp_all add: roar_mix_pcm_def roar_mix_pcm_8bit_def roar_mix_pcm_16bit_def roar_mix_pcm_32bit_def
      mix_body_def [abs_def] Let_def)

lemma mix_sum_cong:
  assumes "\<And>p. p \<in> set input \<Longrightarrow> lds w m (p + int w * s) = lds w m' (p + int w * s)"
  shows "mix_sum acc w m input s = mix_sum acc w m' input s"
  unfolding mix_sum_def by (rule foldl_cong) (use assms in auto)

interpretation mix_loop: frame_loop "mix_body acc w lim hi lo outp inputs"
  "\<lambda>s. \<Union>p \<in> set inputs. span (p + int w * s) (int w)" "\<lambda>s. span (outp + int w * s) (int w)" for acc w lim hi lo outp inputs
proof (unfold_locales, goal_cases)
  case (1 b s m)
  then show ?case by (auto simp: mix_body_def Let_def stn_frame)
next
  case (2 s m m' b)
  have "mix_sum acc w m inputs s = mix_sum acc w m' inputs s"
  proof (rule mix_sum_cong)
    fix p assume p: "p \<in> set inputs"
    show "lds w m (p + int w * s) = lds w m' (p + int w * s)"
      by (rule lds_cong) (rule 2(1), use p in auto)
  qed
  then show ?case using 2(2) by (auto simp: mix_body_def Let_def intro: stn_local)
qed

text \<open>Every input buffer is the output buffer itself or does not overlap it.\<close>

definition mix_buffers :: "nat \<Rightarrow> ptr \<Rightarrow> ptr list \<Rightarrow> int \<Rightarrow> bool" where
  "mix_buffers w output input n \<longleftrightarrow> (\<forall>p \<in> set input. aliasing output (int w * n) p (int w * n))"

lemma mix_loop_cell:
  assumes "0 < w" "mix_buffers w output input n" "0 \<le> s" "s < n"
  shows "lds w (for_up (nat n) (mix_body acc w lim hi lo output input) m) (output + int w * s)
    = lds w (mix_body acc w lim hi lo output input s m) (output + int w * s)"
proof (rule lds_cong, rule mix_loop.up_frame)
  fix i j :: int
  assume ij: "0 \<le> i" "i < j" "j < int (nat n)"
  have "span (output + int w * i) (int w) \<inter> span (p + int w * j) (int w) = {}" if "p \<in> set input" for p
    by (rule stride_up_disjoint [of i j "int (nat n)"])
       (use ij that assms in \<open>auto simp: mix_buffers_def\<close>)
  moreover have "span (output + int w * i) (int w) \<inter> span (output + int w * j) (int w) = {}"
    by (rule stride_disjoint) (use ij in auto)
  ultimately show "span (output + int w * i) (int w) \<inter>
      ((\<Union>p \<in> set input. span (p + int w * j) (int w)) \<union> span (output + int w * j) (int w)) = {}"
    by blast
qed (use assms in auto)

lemma mix_sum_exact:
  assumes "\<And>p. p \<in> set input \<Longrightarrow> \<bar>lds w m (p + int w * s)\<bar> \<le> B"
    and "\<bar>z\<bar> + B * int (length input) < 2 ^ (acc - 1)" "0 < acc" "0 \<le> B"
  shows "foldl (\<lambda>c p. wrap_s acc (c + lds w m (p + int w * s))) z input
    = z + (\<Sum>p\<leftarrow>input. lds w m (p + int w * s))"
  using assms(1,2)
proof (induction input arbitrary: z)
  case (Cons p ps)
  let ?x = "lds w m (p + int w * s)"
  have x: "\<bar>?x\<bar> \<le> B" using Cons.prems(1) by simp
  have len: "B * int (length (p # ps)) = B + B * int (length ps)" by (simp add: algebra_simps)
  moreover have "0 \<le> B * int (length ps)" using assms(4) by simp
  ultimately have r: "\<bar>z + ?x\<bar> < 2 ^ (acc - 1)" and n: "\<bar>z + ?x\<bar> + B * int (length ps) < 2 ^ (acc - 1)"
    using Cons.prems(2) x by linarith+
  have "wrap_s acc (z + ?x) = z + ?x" by (rule wrap_s_id) (use r assms(3) in auto)
  then show ?case using Cons.IH [of "z + ?x"] Cons.prems(1) n by (simp add: algebra_simps)
qed simp

text \<open>The mathematical sum of the samples at position \<open>s\<close>, and clipping to \<open>b\<close> bits.\<close>

definition stream_sum :: "int \<Rightarrow> mem \<Rightarrow> ptr list \<Rightarrow> int \<Rightarrow> int" where
  "stream_sum b m input s = (\<Sum>p\<leftarrow>input. sample b m p s)"

definition clip :: "int \<Rightarrow> int \<Rightarrow> int" where
  "clip b x = max (- (2 ^ nat (b - 1))) (min (2 ^ nat (b - 1) - 1) x)"

lemma lds_abs: "0 < w \<Longrightarrow> \<bar>lds w m a\<bar> \<le> 2 ^ (8 * w - 1)"
  using lds_range [of w m a] by (simp add: abs_le_iff minus_le_iff)

lemma mix_sum_stream:
  assumes "2 ^ (8 * w - 1) * int (length input) < 2 ^ (acc - 1)" "0 < acc" "0 < w"
  shows "mix_sum acc w m input s = (\<Sum>p\<leftarrow>input. lds w m (p + int w * s))"
  unfolding mix_sum_def
  by (subst mix_sum_exact [where B = "2 ^ (8 * w - 1)"]) (use assms lds_abs in auto)

lemma mix_cell_value:
  assumes "0 < w" "mix_buffers w output input n" "0 \<le> s" "s < n"
    and "2 ^ (8 * w - 1) * int (length input) < 2 ^ (acc - 1)" "0 < acc"
  shows "lds w (for_up (nat n) (mix_body acc w lim hi lo output input) m) (output + int w * s)
    = (let c = (\<Sum>p\<leftarrow>input. lds w m (p + int w * s))
       in wrap_s (8 * w) (if c > lim then hi else if c < lo then lo else c))"
  by (simp add: mix_loop_cell [OF assms(1-4)] mix_body_def mix_sum_stream [OF assms(5,6,1)] lds_stn assms(1) Let_def)

subsection \<open>Properties\<close>

text \<open>C25: Mixing 8 or 16 bit streams returns 0 and stores in every output position the sum of
  all input samples at that position, clipped to the sample range, for up to 65535 streams;
  the output buffer may itself be one of the inputs.\<close>

theorem mix_pcm_clipped_sum:
  assumes "b \<in> {8, 16}" and "length input \<le> 65535" and "mix_buffers (nat (b div 8)) output input n"
    and "0 \<le> s" "s < n"
  shows "fst (roar_mix_pcm m output b input n) = 0
    \<and> sample b (snd (roar_mix_pcm m output b input n)) output s = clip b (stream_sum b m input s)"
proof -
  from assms(1) consider (8) "b = 8" | (16) "b = 16" by auto
  then show ?thesis
  proof cases
    case 8
    show ?thesis
      using mix_cell_value [of 1 "output" "input" n s 32 127 127 "-128" m] assms 8
      by (auto simp: mix_loops sample_8 stream_sum_def Let_def clip_def wrap_s_id)
  next
    case 16
    show ?thesis
      using mix_cell_value [of 2 "output" "input" n s 32 32767 32767 "-32768" m] assms 16
      by (auto simp: mix_loops sample_16 stream_sum_def Let_def clip_def wrap_s_id)
  qed
qed

theorem mix_pcm_clipped_sum_witness:
  "sample 8 (snd (roar_mix_pcm ((\<lambda>_. 0)(100 := 100, 110 := 90)) 100 8 [100, 110] 2)) 100 0 = 127"
proof -
  let ?m = "(\<lambda>_. 0)(100 := 100, 110 := 90) :: mem"
  have "clip 8 (stream_sum 8 ?m [100, 110] 0) = 127" by code_simp
  then show ?thesis
    using mix_pcm_clipped_sum [of 8 "[100, 110]" 100 2 0 ?m] by (simp add: mix_buffers_def aliasing_def)
qed

text \<open>Mixing 32 bit streams stores the exact sum while it fits, and the lower limit when the
  sum is too small, but a sum above the sample range and up to 21474836487 is stored modulo
  \<open>2 ^ 32\<close> instead of being clipped: the upper limit in the comparison has a digit too many.
  Two loud positive samples give a negative one.\<close>

theorem mix_pcm_32_overflow:
  assumes "length input \<le> 2147483647" and "mix_buffers 4 output input n" and "0 \<le> s" "s < n"
    and "c = stream_sum 32 m input s"
  shows "sample 32 (snd (roar_mix_pcm m output 32 input n)) output s
    = (if c \<le> 2147483647 \<or> c > 21474836487 then clip 32 c else wrap_s 32 c)"
  using mix_cell_value [of 4 "output" "input" n s 64 21474836487 2147483647 "-2147483648" m] assms
  by (auto simp: mix_loops sample_32 stream_sum_def Let_def clip_def wrap_s_id)

theorem mix_pcm_32_overflow_witness:
  "sample 32 (snd (roar_mix_pcm ((\<lambda>_. 0)(103 := 64, 113 := 64)) 120 32 [100, 110] 1)) 120 0 = - 2147483648"
proof -
  let ?m = "(\<lambda>_. 0)(103 := 64, 113 := 64) :: mem"
  have "stream_sum 32 ?m [100, 110] 0 = 2147483648" by code_simp
  moreover have "wrap_s 32 2147483648 = - 2147483648" by code_simp
  ultimately show ?thesis
    using mix_pcm_32_overflow [of "[100, 110]" 120 1 0 2147483648 ?m] by (simp add: mix_buffers_def aliasing_def)
qed

end
