(* ===== verification/Pcm_Amp.thy ===== *)
theory Pcm_Amp
  imports Conv_Bits
begin

text \<open>
  The volume stage, \<open>roar_amp_pcm*\<close> of \<open>src/libroardsp/amp.c\<close>: every sample is multiplied by the
  volume of its channel (and by the replay gain \<open>rpg_mul / rpg_div\<close> where the two differ) and divided
  by \<open>scale\<close>. The settings are unsigned 16 bit fields promoted to \<open>int\<close>, so the gain and the
  accumulator of the 8 and 16 bit routines wrap at 32 bits; the 32 bit routine accumulates in 64.
\<close>

record roar_mixer_settings =
  scale :: int
  rpg_mul :: int
  rpg_div :: int
  mixer :: "int list"

definition amp_gain :: "roar_mixer_settings \<Rightarrow> c_int \<Rightarrow> c_int \<Rightarrow> c_int" where
  "amp_gain st i channels =
     (let v = mixer st ! nat (i smod channels)
      in if rpg_mul st = rpg_div st then v
         else wrap_s 32 (v * rpg_mul st) sdiv rpg_div st)"

definition roar_amp_pcm_8bit :: "mem \<Rightarrow> ptr \<Rightarrow> ptr \<Rightarrow> c_int \<Rightarrow> c_int \<Rightarrow> roar_mixer_settings \<Rightarrow> conv_result" where
  "roar_amp_pcm_8bit m outp inp samples channels st =
     (if inp = NULL \<or> outp = NULL then (-1, m)
      else (0, for_up (nat samples) (\<lambda>i m.
        let s = lds8 m (inp + 1 * i);
            s = wrap_s 32 (s * amp_gain st i channels);
            s = s sdiv scale st
        in st8 m (outp + 1 * i) s) m))"

definition roar_amp_pcm_16bit :: "mem \<Rightarrow> ptr \<Rightarrow> ptr \<Rightarrow> c_int \<Rightarrow> c_int \<Rightarrow> roar_mixer_settings \<Rightarrow> conv_result" where
  "roar_amp_pcm_16bit m outp inp samples channels st =
     (if inp = NULL \<or> outp = NULL then (-1, m)
      else (0, for_up (nat samples) (\<lambda>i m.
        let s = lds16 m (inp + 2 * i);
            s = wrap_s 32 (s * amp_gain st i channels);
            s = s sdiv scale st
        in st16 m (outp + 2 * i) s) m))"

definition roar_amp_pcm_24bit :: "mem \<Rightarrow> ptr \<Rightarrow> ptr \<Rightarrow> c_int \<Rightarrow> c_int \<Rightarrow> roar_mixer_settings \<Rightarrow> conv_result" where
  "roar_amp_pcm_24bit m outp inp samples channels st = (-1, m)"

definition roar_amp_pcm_32bit :: "mem \<Rightarrow> ptr \<Rightarrow> ptr \<Rightarrow> c_int \<Rightarrow> c_int \<Rightarrow> roar_mixer_settings \<Rightarrow> conv_result" where
  "roar_amp_pcm_32bit m outp inp samples channels st =
     (if inp = NULL \<or> outp = NULL then (-1, m)
      else (0, for_up (nat samples) (\<lambda>i m.
        let s = lds32 m (inp + 4 * i);
            s = wrap_s 64 (s * amp_gain st i channels);
            s = s sdiv scale st
        in st32 m (outp + 4 * i) s) m))"

definition roar_amp_pcm :: "mem \<Rightarrow> ptr \<Rightarrow> c_int \<Rightarrow> ptr \<Rightarrow> c_int \<Rightarrow> c_int \<Rightarrow> roar_mixer_settings \<Rightarrow> conv_result" where
  "roar_amp_pcm m outp b inp samples channels st =
     (if b = 8 then roar_amp_pcm_8bit m outp inp samples channels st
      else if b = 16 then roar_amp_pcm_16bit m outp inp samples channels st
      else if b = 24 then roar_amp_pcm_24bit m outp inp samples channels st
      else if b = 32 then roar_amp_pcm_32bit m outp inp samples channels st
      else (-1, m))"

subsection \<open>The loop over samples\<close>

definition amp_body :: "nat \<Rightarrow> nat \<Rightarrow> ptr \<Rightarrow> ptr \<Rightarrow> c_int \<Rightarrow> roar_mixer_settings \<Rightarrow> int \<Rightarrow> mem \<Rightarrow> mem" where
  "amp_body acc w outp inp channels st i m =
     stn w m (outp + int w * i) (wrap_s acc (lds w m (inp + int w * i) * amp_gain st i channels) sdiv scale st)"

lemma amp_loops:
  assumes "inp \<noteq> 0" "outp \<noteq> 0"
  shows "roar_amp_pcm m outp 8 inp n ch st = (0, for_up (nat n) (amp_body 32 1 outp inp ch st) m)"
    and "roar_amp_pcm m outp 16 inp n ch st = (0, for_up (nat n) (amp_body 32 2 outp inp ch st) m)"
    and "roar_amp_pcm m outp 32 inp n ch st = (0, for_up (nat n) (amp_body 64 4 outp inp ch st) m)"
  using assms
  by (simp_all add: roar_amp_pcm_def roar_amp_pcm_8bit_def roar_amp_pcm_16bit_def roar_amp_pcm_32bit_def
      amp_body_def [abs_def] Let_def)

lemma amp_strided: "0 < w \<Longrightarrow> strided_loop (amp_body acc w outp inp ch st) outp inp (int w) (int w)"
proof (unfold_locales, goal_cases)
  case (1 b i m)
  then show ?case by (auto simp: amp_body_def stn_frame)
next
  case (2 i m m' b)
  have "lds w m (inp + int w * i) = lds w m' (inp + int w * i)" by (rule lds_cong) (rule 2, simp)
  then show ?case using 2(3) by (auto simp: amp_body_def intro: stn_local)
qed auto

lemma amp_cell:
  assumes "0 < w" "aliasing outp (int w * n) inp (int w * n)" "0 \<le> i" "i < n"
  shows "lds w (for_up (nat n) (amp_body acc w outp inp ch st) m) (outp + int w * i)
    = wrap_s (8 * w) (wrap_s acc (lds w m (inp + int w * i) * amp_gain st i ch) sdiv scale st)"
proof -
  have "lds w (for_up (nat n) (amp_body acc w outp inp ch st) m) (outp + int w * i)
      = lds w (amp_body acc w outp inp ch st i m) (outp + int w * i)"
    by (rule lds_cong, rule strided_loop.up [OF amp_strided]) (use assms in auto)
  then show ?thesis using assms(1) by (simp add: amp_body_def lds_stn)
qed

text \<open>A gain of at most one never enlarges a sample, so nothing is lost in the accumulator or the store.\<close>

lemma attenuate:
  fixes x g d :: int
  assumes "0 \<le> g" "g \<le> d" "0 < d"
  shows "\<bar>(x * g) sdiv d\<bar> \<le> \<bar>x\<bar>"
proof (rule sdiv_abs_bound [OF assms(3)])
  have "\<bar>x\<bar> * g \<le> \<bar>x\<bar> * d" using assms by (intro mult_left_mono) auto
  then show "\<bar>x * g\<bar> \<le> d * \<bar>x\<bar>" using assms(1) by (simp add: abs_mult mult.commute)
qed

lemma attenuate_range:
  fixes x g d B :: int
  assumes "0 \<le> g" "g \<le> d" "0 < d" "- B \<le> x" "x \<le> B - 1"
  shows "- B \<le> (x * g) sdiv d \<and> (x * g) sdiv d \<le> B - 1"
proof (cases "0 \<le> x")
  case True
  have "x * g \<le> d * x" using True assms by (simp add: mult.commute [of x] mult_right_mono)
  then have "(x * g) sdiv d \<le> x" using True assms by (intro sdiv_upper) auto
  moreover have "0 \<le> (x * g) sdiv d" using True assms by (simp add: sdiv_pos pos_imp_zdiv_nonneg_iff)
  ultimately show ?thesis using assms by linarith
next
  case False
  have "x * g \<le> 0" using False assms(1) by (simp add: mult_nonpos_nonneg)
  then have "(x * g) sdiv d \<le> 0" using assms(3) by (simp add: sdiv_neg pos_imp_zdiv_nonneg_iff)
  then show ?thesis using attenuate [OF assms(1-3), of x] False assms by linarith
qed

lemma attenuate_acc:
  fixes x g B :: int
  assumes "0 \<le> g" "g \<le> 65535" "- B \<le> x" "x \<le> B - 1" "65535 * B < 2 ^ (acc - 1)" "0 < acc"
  shows "wrap_s acc (x * g) = x * g"
proof -
  have "\<bar>x\<bar> * g \<le> B * 65535" by (rule mult_mono) (use assms in auto)
  then have "\<bar>x * g\<bar> < 2 ^ (acc - 1)" using assms(1,5) by (simp add: abs_mult mult.commute)
  then show ?thesis by (intro wrap_s_id) (use assms(6) in auto)
qed

lemma attenuate_exact:
  assumes "0 \<le> g" "g \<le> d" "0 < d" "d \<le> 65535" "65535 * 2 ^ (8 * w - 1) < (2 :: int) ^ (acc - 1)" "0 < acc" "0 < w"
  shows "wrap_s (8 * w) (wrap_s acc (lds w m a * g) sdiv d) = (lds w m a * g) sdiv d"
proof -
  have r: "- (2 ^ (8 * w - 1)) \<le> lds w m a" "lds w m a \<le> 2 ^ (8 * w - 1) - 1"
    using lds_range [of w m a] by auto
  have "wrap_s acc (lds w m a * g) = lds w m a * g"
    by (rule attenuate_acc [OF _ _ r]) (use assms in auto)
  then show ?thesis
    using attenuate_range [OF assms(1-3) r] assms(7) by (simp add: wrap_s_id)
qed

lemma amp_value:
  assumes "b \<in> {8, 16, 32}" and "inp \<noteq> NULL" "outp \<noteq> NULL"
    and "aliasing outp (b div 8 * n) inp (b div 8 * n)" and "0 \<le> i" "i < n"
    and "0 \<le> amp_gain st i ch" "amp_gain st i ch \<le> scale st" "0 < scale st" "scale st \<le> 65535"
  shows "fst (roar_amp_pcm m outp b inp n ch st) = 0 \<and>
    sample b (snd (roar_amp_pcm m outp b inp n ch st)) outp i = (sample b m inp i * amp_gain st i ch) sdiv scale st"
  using assms(1)
proof (elim insertE emptyE)
  assume "b = 8"
  then show ?thesis using amp_cell [of 1 outp n inp i 32 ch st m] assms
    attenuate_exact [of "amp_gain st i ch" "scale st" 1 32 m "inp + i"]
    by (simp add: amp_loops sample_8)
next
  assume "b = 16"
  then show ?thesis using amp_cell [of 2 outp n inp i 32 ch st m] assms
    attenuate_exact [of "amp_gain st i ch" "scale st" 2 32 m "inp + 2 * i"]
    by (simp add: amp_loops sample_16)
next
  assume "b = 32"
  then show ?thesis using amp_cell [of 4 outp n inp i 64 ch st m] assms
    attenuate_exact [of "amp_gain st i ch" "scale st" 4 64 m "inp + 4 * i"]
    by (simp add: amp_loops sample_32)
qed

lemma amp_loop_frame:
  assumes "0 < w" "x < outp \<or> outp + int w * n \<le> x"
  shows "for_up (nat n) (amp_body acc w outp inp ch st) m x = m x"
proof (rule for_up_keep)
  fix k m' assume "0 \<le> k" "k < n"
  then have "int w * k + int w \<le> int w * n" "0 \<le> int w * k" using stride_next [of k n "int w"] by auto
  then show "amp_body acc w outp inp ch st k m' x = m' x" using assms(2) by (auto simp: amp_body_def intro!: stn_frame)
qed

lemma amp_frame:
  assumes "b \<in> {8, 16, 32}" "inp \<noteq> NULL" "outp \<noteq> NULL" "x < outp \<or> outp + b div 8 * n \<le> x"
  shows "snd (roar_amp_pcm m outp b inp n ch st) x = m x"
  using assms amp_loop_frame [of 1 x outp n] amp_loop_frame [of 2 x outp n] amp_loop_frame [of 4 x outp n] by (auto simp: amp_loops)

subsection \<open>Properties\<close>

text \<open>C31: Volume control of 8, 16 and 32 bit samples, in place or into a separate buffer: when the
  gain of the sample's channel is at most \<open>scale\<close>, the call returns 0 and the stored sample is the
  input sample times gain over \<open>scale\<close>, truncated towards zero. No step overflows, the sample's
  magnitude never grows, and a gain of exactly \<open>scale\<close> leaves the sample as it is.\<close>

theorem amp_pcm_scales:
  assumes "b \<in> {8, 16, 32}" and "inp \<noteq> NULL" "outp \<noteq> NULL"
    and "aliasing outp (b div 8 * n) inp (b div 8 * n)" and "0 \<le> i" "i < n"
    and "0 \<le> amp_gain st i ch" "amp_gain st i ch \<le> scale st" "0 < scale st" "scale st \<le> 65535"
    and "x = sample b m inp i" "y = sample b (snd (roar_amp_pcm m outp b inp n ch st)) outp i"
  shows "fst (roar_amp_pcm m outp b inp n ch st) = 0
    \<and> y = (x * amp_gain st i ch) sdiv scale st \<and> \<bar>y\<bar> \<le> \<bar>x\<bar>
    \<and> (amp_gain st i ch = scale st \<longrightarrow> y = x)"
proof -
  have y: "fst (roar_amp_pcm m outp b inp n ch st) = 0 \<and> y = (x * amp_gain st i ch) sdiv scale st"
    using amp_value [OF assms(1-10), of m] assms(11,12) by simp
  moreover have "(x * scale st) sdiv scale st = x"
    using assms(9) by (simp add: signed_divide_int_def abs_mult sgn_mult abs_sgn)
  ultimately show ?thesis using attenuate [OF assms(7,8,9), of x] by auto
qed

theorem amp_pcm_scales_witness:
  "sample 8 (snd (roar_amp_pcm ((\<lambda>_. 0)(101 := 200)) 100 8 100 2 2
      \<lparr>scale = 65535, rpg_mul = 1, rpg_div = 1, mixer = [65535, 32768]\<rparr>)) 100 1 = - 28"
proof -
  let ?m = "(\<lambda>_. 0)(101 := 200) :: mem"
  let ?s = "\<lparr>scale = 65535, rpg_mul = 1, rpg_div = 1, mixer = [65535, 32768]\<rparr>"
  have g: "amp_gain ?s 1 2 = 32768" "sample 8 ?m 100 1 = - 56" "(- 56 * 32768) sdiv 65535 = (- 28 :: int)" by code_simp+
  show ?thesis
    using amp_pcm_scales [of 8 100 100 2 1 ?s 2 _ ?m, OF _ _ _ _ _ _ _ _ _ _ refl refl] g by simp
qed

end
