(* ===== verification/Sample_Remove.thy ===== *)
theory Sample_Remove
  imports Conv_Bits
begin

text \<open>
  Removing one signal from another, \<open>src/libroardsp/remove.c\<close>. \<open>roar_remove\<close> subtracts \<open>subs\<close> from
  \<open>inout\<close>; \<open>roar_remove_so\<close> stores into the buffer of the subtracted signal. Without a state the
  difference is stored as it is; with a state a first pass finds the largest magnitude of the
  difference, and a second one scales the subtracted signal by the sample range over that peak.
  The state is only tested for being null. The accumulator is 16, 32 or 64 bits wide for 8, 16
  and 32 bit samples; a negated sample is computed in \<open>int\<close> first.
\<close>

record roar_remove_state =
  rm_a :: int
  rm_b :: int
  rm_old :: int

definition roar_remove_init :: "roar_remove_state option \<Rightarrow> c_int \<times> roar_remove_state option" where
  "roar_remove_init state = (case state of None \<Rightarrow> (-1, None)
     | Some st \<Rightarrow> (0, Some \<lparr>rm_a = 0, rm_b = 0, rm_old = 65535\<rparr>))"

text \<open>\<open>s = x; s -= y\<close>, then \<open>s = -y; s += x\<close>, then \<open>s = s < 0 ? -s : s\<close>, in an accumulator of \<open>acc\<close> bits.\<close>

definition rm_diff :: "nat \<Rightarrow> int \<Rightarrow> int \<Rightarrow> int" where
  "rm_diff acc x y = wrap_s acc (wrap_s acc x - y)"

definition rm_neg_add :: "nat \<Rightarrow> int \<Rightarrow> int \<Rightarrow> int" where
  "rm_neg_add acc x y = wrap_s acc (wrap_s acc (wrap_s 32 (- y)) + x)"

definition rm_abs :: "nat \<Rightarrow> int \<Rightarrow> int" where
  "rm_abs acc s = wrap_s acc (if s < 0 then - s else s)"

definition rm_peak :: "nat \<Rightarrow> int \<Rightarrow> (int \<Rightarrow> int) \<Rightarrow> c_int \<Rightarrow> int" where
  "rm_peak acc init d samples =
     for_up (nat samples) (\<lambda>i peak. let s = rm_abs acc (d i) in if s > peak then s else peak) init"

text \<open>\<open>s = -y; s *= k; s /= peak; s += x\<close>\<close>

definition rm_scaled :: "nat \<Rightarrow> int \<Rightarrow> int \<Rightarrow> int \<Rightarrow> int \<Rightarrow> int" where
  "rm_scaled acc k peak x y =
     (let s = wrap_s acc (wrap_s 32 (- y));
          s = wrap_s acc (s * k);
          s = wrap_s acc (s sdiv peak)
      in wrap_s acc (s + x))"

definition roar_remove_8 :: "mem \<Rightarrow> ptr \<Rightarrow> ptr \<Rightarrow> c_int \<Rightarrow> roar_remove_state option \<Rightarrow> conv_result" where
  "roar_remove_8 m inout subs samples state =
     (0, if state = None then
           for_up (nat samples) (\<lambda>i m. st8 m (inout + 1 * i) (rm_diff 16 (lds8 m (inout + 1 * i)) (lds8 m (subs + 1 * i)))) m
         else
           let peak = rm_peak 16 127 (\<lambda>i. rm_diff 16 (lds8 m (inout + 1 * i)) (lds8 m (subs + 1 * i))) samples
           in for_up (nat samples) (\<lambda>i m. st8 m (inout + 1 * i)
                (rm_scaled 16 127 peak (lds8 m (inout + 1 * i)) (lds8 m (subs + 1 * i)))) m)"

definition roar_remove_16 :: "mem \<Rightarrow> ptr \<Rightarrow> ptr \<Rightarrow> c_int \<Rightarrow> roar_remove_state option \<Rightarrow> conv_result" where
  "roar_remove_16 m inout subs samples state =
     (0, if state = None then
           for_up (nat samples) (\<lambda>i m. st16 m (inout + 2 * i) (rm_diff 32 (lds16 m (inout + 2 * i)) (lds16 m (subs + 2 * i)))) m
         else
           let peak = rm_peak 32 65535 (\<lambda>i. rm_diff 32 (lds16 m (inout + 2 * i)) (lds16 m (subs + 2 * i))) samples
           in for_up (nat samples) (\<lambda>i m. st16 m (inout + 2 * i)
                (rm_scaled 32 65535 peak (lds16 m (inout + 2 * i)) (lds16 m (subs + 2 * i)))) m)"

definition roar_remove_32 :: "mem \<Rightarrow> ptr \<Rightarrow> ptr \<Rightarrow> c_int \<Rightarrow> roar_remove_state option \<Rightarrow> conv_result" where
  "roar_remove_32 m inout subs samples state =
     (0, if state = None then
           for_up (nat samples) (\<lambda>i m. st32 m (inout + 4 * i) (rm_diff 64 (lds32 m (inout + 4 * i)) (lds32 m (subs + 4 * i)))) m
         else
           let peak = rm_peak 64 4294967295 (\<lambda>i. rm_diff 64 (lds32 m (inout + 4 * i)) (lds32 m (subs + 4 * i))) samples
           in for_up (nat samples) (\<lambda>i m. st32 m (inout + 4 * i)
                (rm_scaled 64 4294967295 peak (lds32 m (inout + 4 * i)) (lds32 m (subs + 4 * i)))) m)"

definition roar_remove :: "mem \<Rightarrow> ptr \<Rightarrow> ptr \<Rightarrow> c_int \<Rightarrow> c_int \<Rightarrow> roar_remove_state option \<Rightarrow> conv_result" where
  "roar_remove m inout subs samples b state =
     (if inout = NULL \<or> subs = NULL \<or> samples < 0 then (-1, m)
      else if b = 8 then roar_remove_8 m inout subs samples state
      else if b = 16 then roar_remove_16 m inout subs samples state
      else if b = 32 then roar_remove_32 m inout subs samples state
      else (-1, m))"

definition roar_remove_so8 :: "mem \<Rightarrow> ptr \<Rightarrow> ptr \<Rightarrow> c_int \<Rightarrow> roar_remove_state option \<Rightarrow> conv_result" where
  "roar_remove_so8 m subout inp samples state =
     (0, if state = None then
           for_up (nat samples) (\<lambda>i m. st8 m (subout + 1 * i) (rm_neg_add 16 (lds8 m (inp + 1 * i)) (lds8 m (subout + 1 * i)))) m
         else
           let peak = rm_peak 16 127 (\<lambda>i. rm_neg_add 16 (lds8 m (inp + 1 * i)) (lds8 m (subout + 1 * i))) samples
           in for_up (nat samples) (\<lambda>i m. st8 m (subout + 1 * i)
                (rm_scaled 16 127 peak (lds8 m (inp + 1 * i)) (lds8 m (subout + 1 * i)))) m)"

definition roar_remove_so16 :: "mem \<Rightarrow> ptr \<Rightarrow> ptr \<Rightarrow> c_int \<Rightarrow> roar_remove_state option \<Rightarrow> conv_result" where
  "roar_remove_so16 m subout inp samples state =
     (0, if state = None then
           for_up (nat samples) (\<lambda>i m. st16 m (subout + 2 * i) (rm_neg_add 32 (lds16 m (inp + 2 * i)) (lds16 m (subout + 2 * i)))) m
         else
           let peak = rm_peak 32 65535 (\<lambda>i. rm_neg_add 32 (lds16 m (inp + 2 * i)) (lds16 m (subout + 2 * i))) samples
           in for_up (nat samples) (\<lambda>i m. st16 m (subout + 2 * i)
                (rm_scaled 32 65535 peak (lds16 m (inp + 2 * i)) (lds16 m (subout + 2 * i)))) m)"

definition roar_remove_so32 :: "mem \<Rightarrow> ptr \<Rightarrow> ptr \<Rightarrow> c_int \<Rightarrow> roar_remove_state option \<Rightarrow> conv_result" where
  "roar_remove_so32 m subout inp samples state =
     (0, if state = None then
           for_up (nat samples) (\<lambda>i m. st32 m (subout + 4 * i) (rm_neg_add 64 (lds32 m (inp + 4 * i)) (lds32 m (subout + 4 * i)))) m
         else
           let peak = rm_peak 64 2147483647 (\<lambda>i. rm_neg_add 64 (lds32 m (inp + 4 * i)) (lds32 m (subout + 4 * i))) samples
           in for_up (nat samples) (\<lambda>i m. st32 m (subout + 4 * i)
                (rm_scaled 64 2147483647 peak (lds32 m (inp + 4 * i)) (lds32 m (subout + 4 * i)))) m)"

definition roar_remove_so :: "mem \<Rightarrow> ptr \<Rightarrow> ptr \<Rightarrow> c_int \<Rightarrow> c_int \<Rightarrow> roar_remove_state option \<Rightarrow> conv_result" where
  "roar_remove_so m subout inp samples b state =
     (if subout = NULL \<or> inp = NULL \<or> samples < 0 then (-1, m)
      else if b = 8 then roar_remove_so8 m subout inp samples state
      else if b = 16 then roar_remove_so16 m subout inp samples state
      else if b = 32 then roar_remove_so32 m subout inp samples state
      else (-1, m))"

subsection \<open>The peak and the scaled difference\<close>

lemma rm_peak_id: "(\<And>i. rm_abs acc (d i) \<le> init) \<Longrightarrow> rm_peak acc init d n = init"
  unfolding rm_peak_def Let_def
  by (rule for_up_inv [where P = "\<lambda>_ x. x = init"]) (auto simp: not_less)

lemma rm_peak_ge: "init \<le> rm_peak acc init d n"
  unfolding rm_peak_def Let_def
  by (rule for_up_inv [where P = "\<lambda>_ x. init \<le> x"]) auto

lemma rm_abs_exact: "\<bar>s\<bar> < 2 ^ (acc - 1) \<Longrightarrow> 0 < acc \<Longrightarrow> rm_abs acc s = \<bar>s\<bar>"
  using wrap_s_id [of acc "\<bar>s\<bar>"] by (simp add: rm_abs_def abs_if split: if_splits)

lemma rm_diff_exact:
  assumes "\<bar>x\<bar> \<le> B" "\<bar>y\<bar> \<le> B" "2 * B < 2 ^ (acc - 1)" "0 < acc"
  shows "rm_diff acc x y = x - y"
  using assms by (simp add: rm_diff_def wrap_s_id)

lemma rm_neg_add_exact:
  assumes "\<bar>x\<bar> \<le> B" "\<bar>y\<bar> \<le> B" "2 * B < 2 ^ (acc - 1)" "0 < acc" "B < 2 ^ 31"
  shows "rm_neg_add acc x y = x - y"
proof -
  have "wrap_s 32 (- y) = - y" using assms by (intro wrap_s_id) auto
  then show ?thesis using assms by (simp add: rm_neg_add_def wrap_s_id)
qed

lemma mult_sdiv_cancel: "0 < k \<Longrightarrow> (s * k) sdiv k = (s :: int)"
  by (simp add: signed_divide_int_def abs_mult sgn_mult abs_sgn)

lemma rm_scaled_same:
  assumes "s = wrap_s 32 (- y)" "\<bar>s\<bar> \<le> B" "\<bar>x\<bar> \<le> B" "B * k < 2 ^ (acc - 1)" "2 * B < 2 ^ (acc - 1)" "0 < acc" "0 < k"
  shows "rm_scaled acc k k x y = s + x"
proof -
  have "\<bar>s\<bar> * k \<le> B * k" using assms by (intro mult_right_mono) auto
  moreover have "\<bar>s * k\<bar> = \<bar>s\<bar> * k" using assms(7) by (simp add: abs_mult)
  ultimately have "\<bar>s * k\<bar> < 2 ^ (acc - 1)" using assms(4) by linarith
  then have "wrap_s acc (s * k) = s * k" using assms(6) by (intro wrap_s_id) auto
  moreover have "wrap_s acc s = s" "wrap_s acc (s + x) = s + x" using assms by (auto intro!: wrap_s_id)
  ultimately show ?thesis
    using assms(1,7) by (simp add: rm_scaled_def Let_def mult_sdiv_cancel)
qed


lemma remove_peak_16:
  "rm_peak 32 65535 (\<lambda>i. rm_diff 32 (lds16 m (p i)) (lds16 m (q i))) n = 65535"
  "rm_peak 32 65535 (\<lambda>i. rm_neg_add 32 (lds16 m (p i)) (lds16 m (q i))) n = 65535"
proof -
  have a: "\<bar>lds16 m a\<bar> \<le> 32768" for a using lds16_range [of m a] by linarith
  have "rm_diff 32 (lds16 m (p i)) (lds16 m (q i)) = lds16 m (p i) - lds16 m (q i)"
    "rm_neg_add 32 (lds16 m (p i)) (lds16 m (q i)) = lds16 m (p i) - lds16 m (q i)" for i
    by (rule rm_diff_exact [OF a a] rm_neg_add_exact [OF a a]; simp)+
  moreover have "rm_abs 32 (lds16 m (p i) - lds16 m (q i)) \<le> 65535" for i
    using lds16_range [of m "p i"] lds16_range [of m "q i"] by (subst rm_abs_exact) auto
  ultimately show "rm_peak 32 65535 (\<lambda>i. rm_diff 32 (lds16 m (p i)) (lds16 m (q i))) n = 65535"
    "rm_peak 32 65535 (\<lambda>i. rm_neg_add 32 (lds16 m (p i)) (lds16 m (q i))) n = 65535"
    by (simp_all add: rm_peak_id)
qed

lemma remove_peak_32: "rm_peak 64 4294967295 (\<lambda>i. rm_diff 64 (lds32 m (p i)) (lds32 m (q i))) n = 4294967295"
proof (rule rm_peak_id)
  fix i
  have a: "\<bar>lds32 m a\<bar> \<le> 2147483648" for a using lds32_range [of m a] by linarith
  have "rm_diff 64 (lds32 m (p i)) (lds32 m (q i)) = lds32 m (p i) - lds32 m (q i)"
    by (rule rm_diff_exact [OF a a]) simp_all
  then show "rm_abs 64 (rm_diff 64 (lds32 m (p i)) (lds32 m (q i))) \<le> 4294967295"
    using lds32_range [of m "p i"] lds32_range [of m "q i"] by (auto simp: rm_abs_exact)
qed

lemma remove_scaled_16:
  "rm_scaled 32 65535 65535 (lds16 m a) (lds16 m b) = rm_diff 32 (lds16 m a) (lds16 m b)"
  "rm_scaled 32 65535 65535 (lds16 m a) (lds16 m b) = rm_neg_add 32 (lds16 m a) (lds16 m b)"
proof -
  have r: "\<bar>lds16 m c\<bar> \<le> 32768" for c using lds16_range [of m c] by linarith
  have "wrap_s 32 (- lds16 m b) = - lds16 m b"
    using lds16_range [of m b] by (intro wrap_s_id) simp_all
  then have "rm_scaled 32 65535 65535 (lds16 m a) (lds16 m b) = - lds16 m b + lds16 m a"
    using r [of a] r [of b] by (subst rm_scaled_same [where B = 32768, OF refl]) simp_all
  then show "rm_scaled 32 65535 65535 (lds16 m a) (lds16 m b) = rm_diff 32 (lds16 m a) (lds16 m b)"
    "rm_scaled 32 65535 65535 (lds16 m a) (lds16 m b) = rm_neg_add 32 (lds16 m a) (lds16 m b)"
    by (simp_all add: rm_diff_exact [OF r r] rm_neg_add_exact [OF r r])
qed

lemma remove_scaled_32:
  "st32 m p (rm_scaled 64 4294967295 4294967295 (lds32 m a) (lds32 m b))
   = st32 m p (rm_diff 64 (lds32 m a) (lds32 m b))"
proof (rule stn_mod)
  have r: "\<bar>lds32 m c\<bar> \<le> 2147483648" for c using lds32_range [of m c] by linarith
  let ?s = "wrap_s 32 (- lds32 m b)"
  have "\<bar>?s\<bar> \<le> 2147483648" using wrap_s_range [of 32 "- lds32 m b"] by simp linarith
  then have "rm_scaled 64 4294967295 4294967295 (lds32 m a) (lds32 m b) = ?s + lds32 m a"
    by (intro rm_scaled_same [OF refl _ r]) simp_all
  moreover have "rm_diff 64 (lds32 m a) (lds32 m b) = - lds32 m b + lds32 m a"
    by (simp add: rm_diff_exact [OF r r])
  moreover have "(?s + lds32 m a) mod 2 ^ 32 = (- lds32 m b + lds32 m a) mod 2 ^ 32"
    by (rule mod_add_cong) (use wrap_s_mod [of 32 "- lds32 m b"] in simp_all)
  ultimately show "rm_scaled 64 4294967295 4294967295 (lds32 m a) (lds32 m b) mod 256 ^ 4
    = rm_diff 64 (lds32 m a) (lds32 m b) mod 256 ^ 4" by simp
qed

lemma remove_16_state: "roar_remove_16 m inout subs n (Some st) = roar_remove_16 m inout subs n None"
  by (simp add: roar_remove_16_def remove_peak_16 remove_scaled_16(1) Let_def)

lemma remove_so16_state: "roar_remove_so16 m subs inout n (Some st) = roar_remove_so16 m subs inout n None"
  by (simp add: roar_remove_so16_def remove_peak_16 remove_scaled_16(2) Let_def)

lemma remove_32_state: "roar_remove_32 m inout subs n (Some st) = roar_remove_32 m inout subs n None"
  by (simp add: roar_remove_32_def remove_peak_32 remove_scaled_32 Let_def)

text \<open>The loop without state: frame \<open>i\<close> reads the two cells of position \<open>i\<close> and writes one of them.\<close>

interpretation remove_loop: frame_loop
  "\<lambda>i m. stn w m (outp + int w * i) (f (lds w m (outp + int w * i)) (lds w m (inp + int w * i)))"
  "\<lambda>i. span (outp + int w * i) (int w) \<union> span (inp + int w * i) (int w)" "\<lambda>i. span (outp + int w * i) (int w)"
  for w outp inp f
proof (unfold_locales, goal_cases)
  case (1 b i m)
  then show ?case by (auto simp: stn_frame)
next
  case (2 i m m' b)
  have "lds w m (outp + int w * i) = lds w m' (outp + int w * i)" "lds w m (inp + int w * i) = lds w m' (inp + int w * i)"
    by (rule lds_cong, rule 2, simp)+
  then show ?case using 2(2) by (auto intro: stn_local)
qed

lemma remove_cell:
  assumes "0 < w" "aliasing outp (int w * n) inp (int w * n)" "0 \<le> i" "i < n"
  shows "lds w (for_up (nat n) (\<lambda>i m. stn w m (outp + int w * i)
        (f (lds w m (outp + int w * i)) (lds w m (inp + int w * i)))) m) (outp + int w * i)
    = wrap_s (8 * w) (f (lds w m (outp + int w * i)) (lds w m (inp + int w * i)))"
proof -
  have "lds w (for_up (nat n) (\<lambda>i m. stn w m (outp + int w * i)
        (f (lds w m (outp + int w * i)) (lds w m (inp + int w * i)))) m) (outp + int w * i)
      = lds w (stn w m (outp + int w * i) (f (lds w m (outp + int w * i)) (lds w m (inp + int w * i)))) (outp + int w * i)"
  proof (rule lds_cong, rule remove_loop.up_frame)
    fix i j :: int
    assume ij: "0 \<le> i" "i < j" "j < int (nat n)"
    then have "j < n" by linarith
    with ij show "span (outp + int w * i) (int w) \<inter>
        (span (outp + int w * j) (int w) \<union> span (inp + int w * j) (int w) \<union> span (outp + int w * j) (int w)) = {}"
      using stride_up_disjoint [of i j n "int w" "int w" outp inp] stride_disjoint [of i j "int w" outp] assms(2)
      by (simp add: Int_Un_distrib)
  qed (use assms in auto)
  then show ?thesis using assms(1) by (simp add: lds_stn)
qed

subsection \<open>Properties\<close>

text \<open>Without a state, \<open>roar_remove\<close> returns 0 and leaves in every position the difference of
  the two samples, modulo the sample width; \<open>subs\<close> may be the buffer itself, which is then silenced.\<close>

theorem remove_difference:
  assumes "b \<in> {8, 16, 32}" and "inout \<noteq> NULL" "subs \<noteq> NULL"
    and "aliasing inout (b div 8 * n) subs (b div 8 * n)" and "0 \<le> i" "i < n"
  shows "fst (roar_remove m inout subs n b None) = 0
    \<and> sample b (snd (roar_remove m inout subs n b None)) inout i = wrap_s (nat b) (sample b m inout i - sample b m subs i)"
proof -
  have d: "wrap_s w (rm_diff acc x y) = wrap_s w (x - y)" if "0 < w" "w \<le> acc" for w acc x y
  proof (rule wrap_s_cong [OF that(1)])
    have "(wrap_s acc x - y) mod 2 ^ acc = (x - y) mod 2 ^ acc"
      by (rule mod_diff_cong) (simp_all add: wrap_s_mod)
    then have "rm_diff acc x y mod 2 ^ acc = (x - y) mod 2 ^ acc" by (simp add: rm_diff_def wrap_s_mod)
    then have "rm_diff acc x y mod 2 ^ acc mod 2 ^ w = (x - y) mod 2 ^ acc mod 2 ^ w" by simp
    then show "rm_diff acc x y mod 2 ^ w = (x - y) mod 2 ^ w" using that(2) by (simp add: mod_mod_cancel le_imp_power_dvd)
  qed
  show ?thesis using assms(1)
  proof (elim insertE emptyE)
    assume "b = 8"
    then show ?thesis
      using remove_cell [of 1 inout n subs i "rm_diff 16" m] assms(2-6)
      by (simp add: roar_remove_def roar_remove_8_def sample_8 d)
  next
    assume "b = 16"
    then show ?thesis
      using remove_cell [of 2 inout n subs i "rm_diff 32" m] assms(2-6)
      by (simp add: roar_remove_def roar_remove_16_def sample_16 d)
  next
    assume "b = 32"
    then show ?thesis
      using remove_cell [of 4 inout n subs i "rm_diff 64" m] assms(2-6)
      by (simp add: roar_remove_def roar_remove_32_def sample_32 d)
  qed
qed

theorem remove_difference_witness:
  "sample 8 (snd (roar_remove ((\<lambda>_. 0)(101 := 100, 111 := 200)) 100 110 2 8 None)) 100 1 = - 100"
proof -
  let ?m = "(\<lambda>_. 0)(101 := 100, 111 := 200) :: mem"
  have "wrap_s (nat 8) (sample 8 ?m 100 1 - sample 8 ?m 110 1) = - 100" by code_simp
  then show ?thesis using remove_difference [of 8 100 110 2 1 ?m] by (simp add: aliasing_def)
qed

text \<open>For 16 and 32 bit samples the normalisation that a state asks for has no effect: the peak
  search starts at the full range of the difference, so no difference exceeds it and the scaling
  factor is 1. The result is the one without a state, overflow included; the 16 bit
  \<open>roar_remove_so\<close> behaves the same.\<close>

theorem remove_state_no_effect:
  assumes "b \<in> {16, 32}"
  shows "roar_remove m inout subs n b (Some st) = roar_remove m inout subs n b None
    \<and> roar_remove_so m subs inout n 16 (Some st) = roar_remove_so m subs inout n 16 None"
  using assms by (auto simp: roar_remove_def roar_remove_so_def remove_16_state remove_32_state remove_so16_state)

theorem remove_state_no_effect_witness:
  "sample 16 (snd (roar_remove ((\<lambda>_. 0)(101 := 127, 111 := 128)) 100 110 1 16 (Some \<lparr>rm_a = 0, rm_b = 0, rm_old = 65535\<rparr>))) 100 0
   = sample 16 (snd (roar_remove ((\<lambda>_. 0)(101 := 127, 111 := 128)) 100 110 1 16 None)) 100 0"
  using remove_state_no_effect [of 16 "(\<lambda>_. 0)(101 := 127, 111 := 128)" 100 110 1 "\<lparr>rm_a = 0, rm_b = 0, rm_old = 65535\<rparr>"]
  by simp

end
