(* ===== verification/Interleave.thy ===== *)
theory Interleave
  imports Memory_Model
begin

text \<open>
  Interleaving and de-interleaving of channels, \<open>src/libroardsp/interleave.c\<close>. The coder walks the
  interleaved buffer byte by byte and keeps the current channel, a bit counter that tells when a
  sample is complete, and one pointer per channel.
\<close>

record roar_interleave =
  il_channels :: nat
  il_bits :: nat

definition ROAR_INTERLEAVE_MAX_CHANNELS :: nat where
  "ROAR_INTERLEAVE_MAX_CHANNELS = 16"

definition roar_interl_init :: "roar_interleave option \<Rightarrow> nat \<Rightarrow> nat \<Rightarrow> c_int \<times> roar_interleave option" where
  "roar_interl_init state channels bits =
     (if state = None then (-1, state)
      else if bits mod 8 \<noteq> 0 then (-1, state)
      else if channels > ROAR_INTERLEAVE_MAX_CHANNELS then (-1, state)
      else (0, Some \<lparr>il_channels = channels, il_bits = bits\<rparr>))"

definition roar_interl_uninit :: "roar_interleave option \<Rightarrow> c_int \<times> roar_interleave option" where
  "roar_interl_uninit state =
     (if state = None then (-1, state) else (0, Some \<lparr>il_channels = 0, il_bits = 0\<rparr>))"

definition roar_interl_ctl :: "roar_interleave option \<Rightarrow> c_int \<Rightarrow> ptr \<Rightarrow> c_int" where
  "roar_interl_ctl state cmd dat = (if state = None then -1 else -1)"

text \<open>The variables of the two loops.\<close>

record il_vars =
  il_chan :: nat
  il_bc :: nat
  il_ptrs :: "ptr list"

text \<open>The tail of the loop body: advance the channel's pointer, count the bits, go on to the next
  channel when the sample is complete.\<close>

definition il_advance :: "roar_interleave \<Rightarrow> il_vars \<Rightarrow> il_vars" where
  "il_advance st v =
     (let chan = il_chan v;
          ps = (il_ptrs v)[chan := il_ptrs v ! chan + 1];
          bc = il_bc v + 8
      in if bc = il_bits st
         then \<lparr>il_chan = (if chan + 1 = il_channels st then 0 else chan + 1), il_bc = 0, il_ptrs = ps\<rparr>
         else \<lparr>il_chan = chan, il_bc = bc, il_ptrs = ps\<rparr>)"

definition il_start :: "roar_interleave \<Rightarrow> ptr list \<Rightarrow> il_vars" where
  "il_start st ps = \<lparr>il_chan = 0, il_bc = 0, il_ptrs = take (il_channels st) ps\<rparr>"

definition roar_interl_encode_ext ::
  "roar_interleave option \<Rightarrow> mem \<Rightarrow> ptr list option \<Rightarrow> ptr \<Rightarrow> nat \<Rightarrow> conv_result" where
  "roar_interl_encode_ext state m inp outp len =
     (case state of None \<Rightarrow> (-1, m)
      | Some st \<Rightarrow> (case inp of None \<Rightarrow> (-1, m)
        | Some ps \<Rightarrow>
          if outp = NULL then (-1, m)
          else if len = 0 then (0, m)
          else (-1, fst (for_up len (\<lambda>oc (m, v).
                 (m(outp + oc := m (il_ptrs v ! il_chan v)), il_advance st v)) (m, il_start st ps)))))"

definition roar_interl_decode_ext ::
  "roar_interleave option \<Rightarrow> mem \<Rightarrow> ptr \<Rightarrow> ptr list option \<Rightarrow> nat \<Rightarrow> conv_result" where
  "roar_interl_decode_ext state m inp outp len =
     (case state of None \<Rightarrow> (-1, m)
      | Some st \<Rightarrow> (case outp of None \<Rightarrow> (-1, m)
        | Some ps \<Rightarrow>
          if inp = NULL then (-1, m)
          else if len = 0 then (0, m)
          else (-1, fst (for_up len (\<lambda>ic (m, v).
                 (m(il_ptrs v ! il_chan v := m (inp + ic)), il_advance st v)) (m, il_start st ps)))))"

subsection \<open>Where the coder stands after \<open>k\<close> bytes\<close>

text \<open>Byte \<open>k\<close> of the interleaved stream belongs to channel \<open>chan_of k\<close>, at offset \<open>off_of k\<close>; \<open>B\<close> is
  the number of bytes of a sample, \<open>C\<close> the number of channels.\<close>

definition chan_of :: "nat \<Rightarrow> nat \<Rightarrow> nat \<Rightarrow> nat" where
  "chan_of B C k = k div B mod C"

definition off_of :: "nat \<Rightarrow> nat \<Rightarrow> nat \<Rightarrow> nat" where
  "off_of B C k = k div B div C * B + k mod B"

definition il_at :: "nat \<Rightarrow> nat \<Rightarrow> ptr list \<Rightarrow> nat \<Rightarrow> il_vars \<Rightarrow> bool" where
  "il_at B C ps k v \<longleftrightarrow>
     il_chan v = chan_of B C k \<and> il_bc v = 8 * (k mod B) \<and> length (il_ptrs v) = C \<and>
     (\<forall>c < C. il_ptrs v ! c = ps ! c + int (k div B div C * B +
        (if c < chan_of B C k then B else if c = chan_of B C k then k mod B else 0)))"

lemma split_pos:
  assumes "c < C" "r < B"
  shows "((q * C + c) * B + r) div B = q * C + c" "((q * C + c) * B + r) mod B = (r :: nat)"
    "(q * C + c) div C = q" "(q * C + c) mod C = c"
  using assms by auto

lemma chan_off_of:
  "c < C \<Longrightarrow> r < B \<Longrightarrow> chan_of B C ((q * C + c) * B + r) = c"
  "c < C \<Longrightarrow> r < B \<Longrightarrow> off_of B C ((q * C + c) * B + r) = q * B + r"
  by (simp_all only: chan_of_def off_of_def split_pos)

lemma pos_split:
  assumes "0 < B" "0 < C"
  obtains q c r where "c < C" "r < B" "k = (q * C + c) * B + (r :: nat)"
proof
  show "k div B mod C < C" "k mod B < B" using assms by simp_all
  show "k = (k div B div C * C + k div B mod C) * B + k mod B" by simp
qed

lemma il_at_split:
  assumes "c < C" "r < B"
  shows "il_at B C ps ((q * C + c) * B + r) v \<longleftrightarrow>
    il_chan v = c \<and> il_bc v = 8 * r \<and> length (il_ptrs v) = C \<and>
    (\<forall>d < C. il_ptrs v ! d = ps ! d + int (q * B + (if d < c then B else if d = c then r else 0)))"
  by (simp only: il_at_def chan_of_def split_pos [OF assms])

lemma il_at_start: "0 < B \<Longrightarrow> 0 < C \<Longrightarrow> C \<le> length ps \<Longrightarrow> il_channels st = C \<Longrightarrow> il_at B C ps 0 (il_start st ps)"
  by (simp add: il_at_def il_start_def chan_of_def)

lemma il_at_step:
  assumes "0 < B" "0 < C" "il_channels st = C" "il_bits st = 8 * B" "il_at B C ps k v"
  shows "il_at B C ps (Suc k) (il_advance st v)"
proof -
  obtain q c r where p: "c < C" "r < B" "k = (q * C + c) * B + r" using pos_split [OF assms(1,2)] by metis
  have v: "il_chan v = c" "il_bc v = 8 * r" "length (il_ptrs v) = C"
    "\<And>d. d < C \<Longrightarrow> il_ptrs v ! d = ps ! d + int (q * B + (if d < c then B else if d = c then r else 0))"
    using assms(5) p il_at_split [OF p(1,2)] by simp_all
  consider "Suc r < B" | "Suc r = B" "Suc c < C" | "Suc r = B" "Suc c = C" using p by linarith
  then show ?thesis
  proof cases
    case 1
    have "Suc k = (q * C + c) * B + Suc r" using p by simp
    then show ?thesis
      using 1 p v assms(3,4) by (simp only: il_at_split [OF p(1) 1]) (simp add: il_advance_def Let_def nth_list_update)
  next
    case 2
    then have "Suc k = (q * C + Suc c) * B + 0" using p by (simp add: algebra_simps)
    then show ?thesis
      using 2 p v assms(1,3,4) by (simp only: il_at_split [OF 2(2) assms(1)]) (auto simp: il_advance_def Let_def nth_list_update less_Suc_eq)
  next
    case 3
    then have "Suc k = (Suc q * C + 0) * B + 0" unfolding p(3) 3 [symmetric] by (simp add: algebra_simps)
    then show ?thesis
      using 3 p v assms(3,4) by (simp only: il_at_split [OF assms(2,1)]) (auto simp: il_advance_def Let_def nth_list_update less_Suc_eq)
  qed
qed

lemma il_at_ptr:
  assumes "0 < B" "0 < C" "il_at B C ps k v"
  shows "il_ptrs v ! il_chan v = ps ! chan_of B C k + int (off_of B C k)"
  using assms by (simp add: il_at_def off_of_def chan_of_def)

lemma il_loop_at:
  assumes "0 < B" "0 < C" "C \<le> length ps" "il_channels st = C" "il_bits st = 8 * B"
  shows "il_at B C ps k (snd (for_up k (\<lambda>i (m, v). (g i m v, il_advance st v)) (m, il_start st ps)))"
  by (rule for_up_inv [where P = "\<lambda>k s. il_at B C ps k (snd s)"])
     (use assms in \<open>auto simp: il_at_start il_at_step split: prod.split\<close>)

text \<open>Both loops with the pointer of step \<open>i\<close> in closed form.\<close>

lemma il_loop_closed:
  assumes "0 < B" "0 < C" "C \<le> length ps" "il_channels st = C" "il_bits st = 8 * B"
  shows "fst (for_up k (\<lambda>i (m, v). (h i m (il_ptrs v ! il_chan v), il_advance st v)) (m, il_start st ps))
    = for_up k (\<lambda>i m. h i m (ps ! chan_of B C (nat i) + int (off_of B C (nat i)))) m"
proof (induction k)
  case (Suc k)
  let ?s = "for_up k (\<lambda>i (m, v). (h i m (il_ptrs v ! il_chan v), il_advance st v)) (m, il_start st ps)"
  have "il_at B C ps k (snd ?s)" using il_loop_at [OF assms, of k "\<lambda>i m v. h i m (il_ptrs v ! il_chan v)" m] .
  then have "il_ptrs (snd ?s) ! il_chan (snd ?s) = ps ! chan_of B C k + int (off_of B C k)"
    by (rule il_at_ptr [OF assms(1,2)])
  then show ?case using Suc.IH by (simp add: case_prod_unfold)
qed simp

definition il_addr :: "nat \<Rightarrow> nat \<Rightarrow> ptr list \<Rightarrow> nat \<Rightarrow> int" where
  "il_addr B C ps k = ps ! chan_of B C k + int (off_of B C k)"

lemma encode_mem:
  assumes "\<And>i. i < k \<Longrightarrow> \<not> (outp \<le> il_addr B C ps i \<and> il_addr B C ps i < outp + int k)"
  shows "for_up k (\<lambda>i m. m(outp + i := m (il_addr B C ps (nat i)))) m b
    = (if outp \<le> b \<and> b < outp + int k then m (il_addr B C ps (nat (b - outp))) else m b)"
proof -
  have "j \<le> k \<Longrightarrow> for_up j (\<lambda>i m. m(outp + i := m (il_addr B C ps (nat i)))) m b
    = (if outp \<le> b \<and> b < outp + int j then m (il_addr B C ps (nat (b - outp))) else m b)" for j b
  proof (induction j arbitrary: b)
    case (Suc j)
    have "\<not> (outp \<le> il_addr B C ps j \<and> il_addr B C ps j < outp + int j)"
      using assms [of j] Suc.prems by linarith
    then show ?case using Suc by auto
  qed auto
  then show ?thesis by simp
qed

lemma decode_mem:
  assumes "\<And>i j. i < j \<Longrightarrow> j < k \<Longrightarrow> il_addr B C ps i \<noteq> il_addr B C ps j"
    and "\<And>i. i < k \<Longrightarrow> \<not> (inp \<le> il_addr B C ps i \<and> il_addr B C ps i < inp + int k)"
    and "i < k"
  shows "for_up k (\<lambda>i m. m(il_addr B C ps (nat i) := m (inp + i))) m (il_addr B C ps i) = m (inp + int i)"
proof -
  have keep: "j \<le> k \<Longrightarrow> inp \<le> b \<Longrightarrow> b < inp + int k \<Longrightarrow>
      for_up j (\<lambda>i m. m(il_addr B C ps (nat i) := m (inp + i))) m b = m b" for j b
    by (induction j) (use assms(2) in fastforce)+
  have "j \<le> k \<Longrightarrow> i < j \<Longrightarrow>
      for_up j (\<lambda>i m. m(il_addr B C ps (nat i) := m (inp + i))) m (il_addr B C ps i) = m (inp + int i)" for j
  proof (induction j)
    case (Suc j)
    then show ?case using assms(1) [of i j] keep [of j "inp + int j"] by (cases "i = j") (auto simp: fun_upd_def)
  qed simp
  then show ?thesis using assms(3) by simp
qed

text \<open>The buffers of the channels are \<open>len\<close> bytes each, do not overlap, and do not touch the
  interleaved buffer of \<open>n\<close> bytes at \<open>q\<close>.\<close>

definition apart :: "ptr list \<Rightarrow> int \<Rightarrow> ptr \<Rightarrow> int \<Rightarrow> bool" where
  "apart ps len q n \<longleftrightarrow> (\<forall>p \<in> set ps. p + len \<le> q \<or> q + n \<le> p)"

definition separate :: "ptr list \<Rightarrow> int \<Rightarrow> bool" where
  "separate ps len \<longleftrightarrow> (\<forall>i < length ps. \<forall>j < i. ps ! i + len \<le> ps ! j \<or> ps ! j + len \<le> ps ! i)"

lemma pos_in_range:
  assumes "0 < B" "0 < C" "k < F * C * B"
  shows "chan_of B C k < C" "off_of B C k < F * B"
proof -
  show "chan_of B C k < C" using assms by (simp add: chan_of_def)
  obtain q c r where p: "c < C" "r < B" "k = (q * C + c) * B + r" using pos_split [OF assms(1,2)] by metis
  have "k div B div C < F" using assms by (simp add: div_less_iff_less_mult)
  then have "q < F" using p by (simp add: split_pos [OF p(1,2)])
  then have "Suc q * B \<le> F * B" by (intro mult_le_mono1) simp
  then show "off_of B C k < F * B" using p by (simp add: chan_off_of)
qed

lemma il_addr_inj:
  assumes "0 < B" "0 < C" "length ps = C" "separate ps (int (F * B))"
    and "i < F * C * B" "j < F * C * B" "il_addr B C ps i = il_addr B C ps j"
  shows "i = j"
proof -
  note ri = pos_in_range [OF assms(1,2,5)] and rj = pos_in_range [OF assms(1,2,6)]
  have c: "chan_of B C i = chan_of B C j"
  proof (rule ccontr)
    assume "chan_of B C i \<noteq> chan_of B C j"
    then consider "chan_of B C i < chan_of B C j" | "chan_of B C j < chan_of B C i" by linarith
    then show False
      using assms(3,4,7) ri rj unfolding separate_def il_addr_def
      by cases (smt (verit) of_nat_0_le_iff of_nat_less_iff)+
  qed
  then have o: "off_of B C i = off_of B C j" using assms(7) by (simp add: il_addr_def)
  have "off_of B C k mod B = k mod B" "off_of B C k div B = k div B div C" for k
    using assms(1) by (simp_all add: off_of_def)
  then have "i mod B = j mod B" "i div B div C = j div B div C" using o by metis+
  moreover have "i div B mod C = j div B mod C" using c by (simp add: chan_of_def)
  ultimately show ?thesis by (metis div_mod_decomp)
qed

lemma il_addr_apart:
  assumes "0 < B" "0 < C" "length ps = C" "apart ps (int (F * B)) q (int n)" "i < F * C * B"
  shows "\<not> (q \<le> il_addr B C ps i \<and> il_addr B C ps i < q + int n)"
proof -
  note r = pos_in_range [OF assms(1,2,5)]
  have "ps ! chan_of B C i \<in> set ps" using r assms(3) by simp
  then have "ps ! chan_of B C i + int (F * B) \<le> q \<or> q + int n \<le> ps ! chan_of B C i"
    using assms(4) by (simp add: apart_def)
  then show ?thesis using r(2) unfolding il_addr_def by (smt (verit) of_nat_0_le_iff of_nat_less_iff)
qed

lemma il_addr_onto:
  assumes "c < C" "j < F * B"
  obtains k where "k < F * C * B" "\<And>ps. il_addr B C ps k = ps ! c + int j"
proof
  have "0 < B" using assms(2) by (cases B) auto
  then have r: "j mod B < B" by simp
  let ?k = "(j div B * C + c) * B + j mod B"
  show "il_addr B C ps ?k = ps ! c + int j" for ps
    using chan_off_of [OF assms(1) r, of "j div B"] by (simp add: il_addr_def)
  have "j div B < F" using assms(2) \<open>0 < B\<close> by (simp add: div_less_iff_less_mult)
  then have "Suc (j div B) * C \<le> F * C" by (intro mult_le_mono1) simp
  then have "Suc (j div B * C + c) * B \<le> F * C * B" using assms(1) by (intro mult_le_mono1) simp
  then show "?k < F * C * B" using r by simp
qed

subsection \<open>Properties\<close>



end
