(* ===== verification/Channel_Map.thy ===== *)
theory Channel_Map
  imports Conv_Bits
begin

text \<open>
  Channel names, channel lists and channel maps, \<open>src/libroardsp/channels.c\<close>: the name table and its
  two lookups, the layouts of the formats (\<open>roardsp_chanlist_init\<close>), the search that turns two
  layouts into a map (\<open>roardsp_chanmap_calc\<close>), and the routines that move the samples of every
  frame along a map (\<open>roardsp_chanmap_mappcm*\<close>).

  A \<open>char\<close> array of the source is a list of integers. A write to the local frame buffer outside its
  bounds is undefined in C and is the result \<open>None\<close>.
\<close>

definition ROAR_MAX_CHANNELS :: nat where "ROAR_MAX_CHANNELS = 64"

definition CHAN_NONE :: int where "CHAN_NONE = 0"
definition CHAN_FRONT_LEFT :: int where "CHAN_FRONT_LEFT = 1"
definition CHAN_FRONT_RIGHT :: int where "CHAN_FRONT_RIGHT = 2"
definition CHAN_SIDE_LEFT :: int where "CHAN_SIDE_LEFT = 3"
definition CHAN_SIDE_RIGHT :: int where "CHAN_SIDE_RIGHT = 4"
definition CHAN_BACK_LEFT :: int where "CHAN_BACK_LEFT = 5"
definition CHAN_BACK_RIGHT :: int where "CHAN_BACK_RIGHT = 6"
definition CHAN_FRONT_CENTER :: int where "CHAN_FRONT_CENTER = 7"
definition CHAN_SIDE_CENTER :: int where "CHAN_SIDE_CENTER = 8"
definition CHAN_BACK_CENTER :: int where "CHAN_BACK_CENTER = 9"
definition CHAN_MS_MID :: int where "CHAN_MS_MID = 10"
definition CHAN_MS_SIDE :: int where "CHAN_MS_SIDE = 11"
definition CHAN_LFE :: int where "CHAN_LFE = 12"
definition CHAN_MIDI0 :: int where "CHAN_MIDI0 = 64"

lemmas chan_defs = CHAN_NONE_def CHAN_FRONT_LEFT_def CHAN_FRONT_RIGHT_def CHAN_SIDE_LEFT_def
  CHAN_SIDE_RIGHT_def CHAN_BACK_LEFT_def CHAN_BACK_RIGHT_def CHAN_FRONT_CENTER_def CHAN_SIDE_CENTER_def
  CHAN_BACK_CENTER_def CHAN_MS_MID_def CHAN_MS_SIDE_def CHAN_LFE_def CHAN_MIDI0_def

subsection \<open>Names\<close>

text \<open>The table up to its end marker: identifier, name, short name.\<close>

definition g_chans :: "(int \<times> string \<times> string option) list" where
  "g_chans =
    [(CHAN_NONE,         ''NONE'',         Some ''NONE''),
     (CHAN_FRONT_LEFT,   ''FRONT_LEFT'',   Some ''FL''),
     (CHAN_FRONT_RIGHT,  ''FRONT_RIGHT'',  Some ''FR''),
     (CHAN_SIDE_LEFT,    ''SIDE_LEFT'',    Some ''SL''),
     (CHAN_SIDE_RIGHT,   ''SIDE_RIGHT'',   Some ''SR''),
     (CHAN_BACK_LEFT,    ''BACK_LEFT'',    Some ''BL''),
     (CHAN_BACK_RIGHT,   ''BACK_RIGHT'',   Some ''BR''),
     (CHAN_FRONT_CENTER, ''FRONT_CENTER'', Some ''FC''),
     (CHAN_SIDE_CENTER,  ''SIDE_CENTER'',  Some ''SC''),
     (CHAN_BACK_CENTER,  ''BACK_CENTER'',  Some ''BC''),
     (CHAN_FRONT_LEFT,   ''LEFT'',         Some ''L''),
     (CHAN_FRONT_RIGHT,  ''RIGHT'',        Some ''R''),
     (CHAN_FRONT_CENTER, ''CENTER'',       Some ''C''),
     (CHAN_FRONT_CENTER, ''MONO'',         Some ''M''),
     (CHAN_MS_MID,       ''MS_MID'',       Some ''MID''),
     (CHAN_MS_SIDE,      ''MS_SIDE'',      Some ''SIDE''),
     (CHAN_LFE,          ''LFE'',          Some ''LFE''),
     (64, ''MIDI0'', None), (65, ''MIDI1'', None), (66, ''MIDI2'', None), (67, ''MIDI3'', None),
     (68, ''MIDI4'', None), (69, ''MIDI5'', None), (70, ''MIDI6'', None), (71, ''MIDI7'', None),
     (72, ''MIDI8'', None), (73, ''MIDI9'', None), (74, ''MIDI10'', None), (75, ''MIDI11'', None),
     (76, ''MIDI12'', None), (77, ''MIDI13'', None), (78, ''MIDI14'', None), (79, ''MIDI15'', None)]"

definition roardsp_chan2str :: "c_int \<Rightarrow> string option" where
  "roardsp_chan2str chan = map_option (\<lambda>(_, name, _). name) (find (\<lambda>(i, _, _). i = chan) g_chans)"

text \<open>\<open>strcasecmp\<close> in the C locale.\<close>

definition lower :: "char \<Rightarrow> char" where
  "lower c = (let n = of_char c :: nat in if 65 \<le> n \<and> n \<le> 90 then char_of (n + 32) else c)"

definition same_nocase :: "string \<Rightarrow> string \<Rightarrow> bool" where
  "same_nocase s t \<longleftrightarrow> map lower s = map lower t"

definition roardsp_str2chan :: "string \<Rightarrow> c_int" where
  "roardsp_str2chan str =
     (case find (\<lambda>(_, name, sn). same_nocase name str \<or> (case sn of None \<Rightarrow> False | Some s \<Rightarrow> same_nocase s str)) g_chans
      of None \<Rightarrow> -1 | Some (i, _, _) \<Rightarrow> i)"

text \<open>The string that ends up at \<open>str\<close>, where one is written; \<open>strlen\<close> is only tested for 0.\<close>

definition roardsp_chanlist2str ::
  "int list option \<Rightarrow> nat \<Rightarrow> bool \<Rightarrow> nat \<Rightarrow> c_int \<times> string option" where
  "roardsp_chanlist2str list len str_null strlen =
     (if list = None \<and> len > 0 then (-1, None)
      else if (str_null \<or> strlen = 0) \<and> len > 0 then (-1, None)
      else if len = 0 then (0, if \<not> str_null \<and> strlen > 0 then Some [] else None)
      else (0, Some (for_up len (\<lambda>i str.
             (if i \<noteq> 0 then str @ '','' else str) @
             (case roardsp_chan2str (the list ! nat i) of None \<Rightarrow> ''<<<INVALID>>>'' | Some name \<Rightarrow> name)) [])))"

subsection \<open>Layouts\<close>

definition MAP_ROARAUDIO :: int where "MAP_ROARAUDIO = 0"
definition MAP_VORBIS :: int where "MAP_VORBIS = 1"
definition MAP_FLAC :: int where "MAP_FLAC = 2"
definition MAP_RIFF_WAVE :: int where "MAP_RIFF_WAVE = 3"
definition MAP_OSS :: int where "MAP_OSS = 4"
definition MAP_ALSA :: int where "MAP_ALSA = 5"
definition MAP_ESD :: int where "MAP_ESD = 6"
definition MAP_MIDI :: int where "MAP_MIDI = 7"

lemmas map_ids = MAP_ROARAUDIO_def MAP_VORBIS_def MAP_FLAC_def MAP_RIFF_WAVE_def MAP_OSS_def
  MAP_ALSA_def MAP_ESD_def MAP_MIDI_def

text \<open>The tables of the three groups of \<open>case\<close> labels; OSS and ALSA fall through from the last
  channel to the first, so a layout of \<open>n\<close> channels is a prefix of the one of eight.\<close>

definition layout_roar :: "c_int \<Rightarrow> int list option" where
  "layout_roar channels =
     (if channels = 3 then Some [CHAN_FRONT_LEFT, CHAN_FRONT_RIGHT, CHAN_FRONT_CENTER]
      else if channels = 4 then Some [CHAN_FRONT_LEFT, CHAN_FRONT_RIGHT, CHAN_BACK_LEFT, CHAN_BACK_RIGHT]
      else if channels = 5 then Some [CHAN_FRONT_LEFT, CHAN_FRONT_RIGHT, CHAN_FRONT_CENTER, CHAN_BACK_LEFT, CHAN_BACK_RIGHT]
      else if channels = 6 then Some [CHAN_FRONT_LEFT, CHAN_FRONT_RIGHT, CHAN_FRONT_CENTER, CHAN_LFE, CHAN_BACK_LEFT, CHAN_BACK_RIGHT]
      else if channels = 7 then Some [CHAN_FRONT_LEFT, CHAN_FRONT_RIGHT, CHAN_FRONT_CENTER, CHAN_LFE,
                                      CHAN_SIDE_LEFT, CHAN_SIDE_RIGHT, CHAN_BACK_CENTER]
      else if channels = 8 then Some [CHAN_FRONT_LEFT, CHAN_FRONT_RIGHT, CHAN_FRONT_CENTER, CHAN_LFE,
                                      CHAN_SIDE_LEFT, CHAN_SIDE_RIGHT, CHAN_BACK_LEFT, CHAN_BACK_RIGHT]
      else None)"

definition layout_vorbis :: "c_int \<Rightarrow> int list option" where
  "layout_vorbis channels =
     (if channels = 3 then Some [CHAN_FRONT_LEFT, CHAN_FRONT_CENTER, CHAN_FRONT_RIGHT]
      else if channels = 4 then Some [CHAN_FRONT_LEFT, CHAN_FRONT_RIGHT, CHAN_BACK_LEFT, CHAN_BACK_RIGHT]
      else if channels = 5 then Some [CHAN_FRONT_LEFT, CHAN_FRONT_CENTER, CHAN_FRONT_RIGHT, CHAN_BACK_LEFT, CHAN_BACK_RIGHT]
      else if channels = 6 then Some [CHAN_FRONT_LEFT, CHAN_FRONT_CENTER, CHAN_FRONT_RIGHT, CHAN_BACK_LEFT, CHAN_BACK_RIGHT, CHAN_LFE]
      else if channels = 7 then Some [CHAN_FRONT_LEFT, CHAN_FRONT_CENTER, CHAN_FRONT_RIGHT, CHAN_SIDE_LEFT,
                                      CHAN_SIDE_RIGHT, CHAN_BACK_CENTER, CHAN_LFE]
      else if channels = 8 then Some [CHAN_FRONT_LEFT, CHAN_FRONT_CENTER, CHAN_FRONT_RIGHT, CHAN_SIDE_LEFT,
                                      CHAN_SIDE_RIGHT, CHAN_BACK_LEFT, CHAN_BACK_RIGHT, CHAN_LFE]
      else None)"

definition layout_oss :: "c_int \<Rightarrow> int list option" where
  "layout_oss channels = (if 3 \<le> channels \<and> channels \<le> 8 then
     Some (take (nat channels) [CHAN_FRONT_LEFT, CHAN_FRONT_RIGHT, CHAN_FRONT_CENTER, CHAN_LFE,
       CHAN_SIDE_LEFT, CHAN_SIDE_RIGHT, CHAN_BACK_LEFT, CHAN_BACK_RIGHT]) else None)"

definition layout_alsa :: "c_int \<Rightarrow> int list option" where
  "layout_alsa channels = (if 3 \<le> channels \<and> channels \<le> 8 then
     Some (take (nat channels) [CHAN_FRONT_LEFT, CHAN_FRONT_RIGHT, CHAN_BACK_LEFT, CHAN_BACK_RIGHT,
       CHAN_FRONT_CENTER, CHAN_LFE, CHAN_BACK_LEFT, CHAN_BACK_RIGHT]) else None)"

text \<open>\<open>list[0] = v0; list[1] = v1; ...\<close>\<close>

definition put_list :: "'a list \<Rightarrow> 'a list \<Rightarrow> 'a list" where
  "put_list vs l = vs @ drop (length vs) l"

definition roardsp_chanlist_init :: "int list option \<Rightarrow> c_int \<Rightarrow> c_int \<Rightarrow> c_int \<times> int list option" where
  "roardsp_chanlist_init list channels mp =
     (if channels = 0 then (0, list)
      else case list of None \<Rightarrow> (-1, None)
      | Some l \<Rightarrow>
        if channels > int ROAR_MAX_CHANNELS then (-1, Some l)
        else
          let l = (if mp = MAP_MIDI then put_list (map (\<lambda>i. int i + CHAN_MIDI0) [0..<nat channels]) l else l);
              set_to = (\<lambda>r. case r of None \<Rightarrow> (-1, Some l) | Some vs \<Rightarrow> (0, Some (put_list vs l)))
          in if channels = 1 then set_to (Some [CHAN_FRONT_CENTER])
             else if channels = 2 then set_to (Some [CHAN_FRONT_LEFT, CHAN_FRONT_RIGHT])
             else if mp = MAP_ROARAUDIO \<or> mp = MAP_FLAC then
               (if mp = MAP_FLAC \<and> channels > 6 then (-1, Some l) else set_to (layout_roar channels))
             else if mp = MAP_VORBIS then set_to (layout_vorbis channels)
             else if mp = MAP_OSS then set_to (layout_oss channels)
             else if mp = MAP_ALSA then set_to (layout_alsa channels)
             else if mp = MAP_RIFF_WAVE then (-1, Some l)
             else (-1, Some l))"

subsection \<open>Maps\<close>

record roardsp_chanmap =
  cm_in :: "int list"
  cm_out :: "int list"
  cm_map :: "int list"

definition CHANMAP_MAP :: int where "CHANMAP_MAP = 2"
definition CHANMAP_INVMAP :: int where "CHANMAP_INVMAP = 3"

text \<open>The inner loop: the first position of \<open>x\<close> in the other layout, \<open>ROAR_MAX_CHANNELS\<close> if none.\<close>

definition chan_search :: "int list \<Rightarrow> int \<Rightarrow> nat" where
  "chan_search to x =
     (case find (\<lambda>b. x = to ! b) [0..<ROAR_MAX_CHANNELS] of None \<Rightarrow> ROAR_MAX_CHANNELS | Some b \<Rightarrow> b)"

text \<open>The outer loop from channel \<open>a\<close> on, over the remaining \<open>n\<close> channels.\<close>

fun chanmap_loop :: "int list \<Rightarrow> int list \<Rightarrow> bool \<Rightarrow> nat \<Rightarrow> nat \<Rightarrow> int list \<Rightarrow> c_int \<times> int list" where
  "chanmap_loop src dst err_on_none a 0 mp = (0, mp)"
| "chanmap_loop src dst err_on_none a (Suc n) mp =
     (if src ! a = CHAN_NONE then chanmap_loop src dst err_on_none (Suc a) n mp
      else let b = chan_search dst (src ! a) in
        if b = ROAR_MAX_CHANNELS then
          (if err_on_none then (-1, mp) else chanmap_loop src dst err_on_none (Suc a) n (mp[a := -1]))
        else chanmap_loop src dst err_on_none (Suc a) n (mp[a := int b]))"

definition roardsp_chanmap_calc :: "roardsp_chanmap option \<Rightarrow> c_int \<Rightarrow> bool \<Rightarrow> c_int \<times> roardsp_chanmap option" where
  "roardsp_chanmap_calc mp what err_on_none =
     (case mp of None \<Rightarrow> (-1, None)
      | Some c \<Rightarrow>
        let start = replicate ROAR_MAX_CHANNELS (-1) in
        if what = CHANMAP_MAP then
          (let r = chanmap_loop (cm_in c) (cm_out c) err_on_none 0 ROAR_MAX_CHANNELS start
           in (fst r, Some (c\<lparr>cm_map := snd r\<rparr>)))
        else if what = CHANMAP_INVMAP then
          (let r = chanmap_loop (cm_out c) (cm_in c) err_on_none 0 ROAR_MAX_CHANNELS start
           in (fst r, Some (c\<lparr>cm_map := snd r\<rparr>)))
        else (-1, Some c))"

subsection \<open>Moving samples along a map\<close>

text \<open>One frame through the local buffer (\<open>in == out\<close>): \<open>buf[map[c]] = in[c]\<close> for every channel.\<close>

definition map_frame_buf :: "nat \<Rightarrow> mem \<Rightarrow> ptr \<Rightarrow> nat \<Rightarrow> int list \<Rightarrow> int list option" where
  "map_frame_buf w m inp chans mp =
     for_up chans (\<lambda>c buf. case buf of None \<Rightarrow> None
        | Some b \<Rightarrow> let k = mp ! nat c in
            if 0 \<le> k \<and> k < int ROAR_MAX_CHANNELS then Some (b[nat k := lds w m (inp + int w * c)]) else None)
       (Some (replicate ROAR_MAX_CHANNELS 0))"

definition map_frame_inplace :: "nat \<Rightarrow> ptr \<Rightarrow> nat \<Rightarrow> int list \<Rightarrow> mem \<Rightarrow> mem option" where
  "map_frame_inplace w p chans mp m =
     (case map_frame_buf w m p chans mp of None \<Rightarrow> None
      | Some b \<Rightarrow> Some (for_up chans (\<lambda>c m. stn w m (p + int w * c) (b ! nat c)) m))"

definition map_frame_separate :: "nat \<Rightarrow> ptr \<Rightarrow> ptr \<Rightarrow> nat \<Rightarrow> int list \<Rightarrow> mem \<Rightarrow> mem" where
  "map_frame_separate w outp inp chans mp m =
     for_up chans (\<lambda>c m. stn w m (outp + int w * (mp ! nat c)) (lds w m (inp + int w * c))) m"

text \<open>The routine for samples of \<open>w\<close> bytes. \<open>in\<close> and \<open>out\<close> advance by one frame per iteration.\<close>

definition mappcm_w :: "nat \<Rightarrow> mem \<Rightarrow> ptr \<Rightarrow> ptr \<Rightarrow> nat \<Rightarrow> nat \<Rightarrow> roardsp_chanmap option \<Rightarrow> conv_result option" where
  "mappcm_w w m outp inp len chans mp =
     (if len = 0 then Some (0, m)
      else if outp = NULL \<or> inp = NULL \<or> mp = None then Some (-1, m)
      else if chans > ROAR_MAX_CHANNELS then Some (-1, m)
      else let cm = cm_map (the mp); frames = len div (chans * w); fl = int w * int chans in
        if inp = outp then
          map_option (\<lambda>m. (0, m)) (for_up frames (\<lambda>f mo. case mo of None \<Rightarrow> None
             | Some m \<Rightarrow> map_frame_inplace w (inp + fl * f) chans cm m) (Some m))
        else
          Some (0, for_up frames (\<lambda>f m. map_frame_separate w (outp + fl * f) (inp + fl * f) chans cm m)
                     (memset m outp 0 (int len))))"

definition roardsp_chanmap_mappcm8 :: "mem \<Rightarrow> ptr \<Rightarrow> ptr \<Rightarrow> nat \<Rightarrow> nat \<Rightarrow> roardsp_chanmap option \<Rightarrow> conv_result option" where
  "roardsp_chanmap_mappcm8 = mappcm_w 1"

definition roardsp_chanmap_mappcm16 :: "mem \<Rightarrow> ptr \<Rightarrow> ptr \<Rightarrow> nat \<Rightarrow> nat \<Rightarrow> roardsp_chanmap option \<Rightarrow> conv_result option" where
  "roardsp_chanmap_mappcm16 = mappcm_w 2"

definition roardsp_chanmap_mappcm24 :: "mem \<Rightarrow> ptr \<Rightarrow> ptr \<Rightarrow> nat \<Rightarrow> nat \<Rightarrow> roardsp_chanmap option \<Rightarrow> conv_result option" where
  "roardsp_chanmap_mappcm24 m outp inp len chans mp = Some (-1, m)"

definition roardsp_chanmap_mappcm32 :: "mem \<Rightarrow> ptr \<Rightarrow> ptr \<Rightarrow> nat \<Rightarrow> nat \<Rightarrow> roardsp_chanmap option \<Rightarrow> conv_result option" where
  "roardsp_chanmap_mappcm32 = mappcm_w 4"

definition roardsp_chanmap_mappcm ::
  "mem \<Rightarrow> ptr \<Rightarrow> ptr \<Rightarrow> nat \<Rightarrow> nat \<Rightarrow> roardsp_chanmap option \<Rightarrow> c_int \<Rightarrow> conv_result option" where
  "roardsp_chanmap_mappcm m outp inp len chans mp b =
     (if len = 0 then Some (0, m)
      else if outp = NULL \<or> inp = NULL \<or> mp = None then Some (-1, m)
      else if chans > ROAR_MAX_CHANNELS then Some (-1, m)
      else if b = 8 then roardsp_chanmap_mappcm8 m outp inp len chans mp
      else if b = 16 then roardsp_chanmap_mappcm16 m outp inp len chans mp
      else if b = 24 then roardsp_chanmap_mappcm24 m outp inp len chans mp
      else if b = 32 then roardsp_chanmap_mappcm32 m outp inp len chans mp
      else Some (-1, m))"

subsection \<open>Lookups\<close>

lemma lower_bits [code]:
  "lower (Char b0 b1 b2 b3 b4 b5 b6 b7) =
     Char b0 b1 b2 b3 b4 (b5 \<or> b6 \<and> \<not> b7 \<and> (b0 \<or> b1 \<or> b2 \<or> b3 \<or> b4) \<and> \<not> (b4 \<and> b3 \<and> (b2 \<or> b1 \<and> b0))) b6 b7"
  by (cases b0; cases b1; cases b2; cases b3; cases b4; cases b5; cases b6; cases b7) (simp_all add: lower_def char_of_def bit_0)

text \<open>The table with its names in lower case, which the comparison without case amounts to.\<close>

definition g_chans_lower :: "(int \<times> string \<times> string option) list" where
  "g_chans_lower =
    [(CHAN_NONE,         ''none'',         Some ''none''),
     (CHAN_FRONT_LEFT,   ''front_left'',   Some ''fl''),
     (CHAN_FRONT_RIGHT,  ''front_right'',  Some ''fr''),
     (CHAN_SIDE_LEFT,    ''side_left'',    Some ''sl''),
     (CHAN_SIDE_RIGHT,   ''side_right'',   Some ''sr''),
     (CHAN_BACK_LEFT,    ''back_left'',    Some ''bl''),
     (CHAN_BACK_RIGHT,   ''back_right'',   Some ''br''),
     (CHAN_FRONT_CENTER, ''front_center'', Some ''fc''),
     (CHAN_SIDE_CENTER,  ''side_center'',  Some ''sc''),
     (CHAN_BACK_CENTER,  ''back_center'',  Some ''bc''),
     (CHAN_FRONT_LEFT,   ''left'',         Some ''l''),
     (CHAN_FRONT_RIGHT,  ''right'',        Some ''r''),
     (CHAN_FRONT_CENTER, ''center'',       Some ''c''),
     (CHAN_FRONT_CENTER, ''mono'',         Some ''m''),
     (CHAN_MS_MID,       ''ms_mid'',       Some ''mid''),
     (CHAN_MS_SIDE,      ''ms_side'',      Some ''side''),
     (CHAN_LFE,          ''lfe'',          Some ''lfe''),
     (64, ''midi0'', None), (65, ''midi1'', None), (66, ''midi2'', None), (67, ''midi3'', None),
     (68, ''midi4'', None), (69, ''midi5'', None), (70, ''midi6'', None), (71, ''midi7'', None),
     (72, ''midi8'', None), (73, ''midi9'', None), (74, ''midi10'', None), (75, ''midi11'', None),
     (76, ''midi12'', None), (77, ''midi13'', None), (78, ''midi14'', None), (79, ''midi15'', None)]"

lemma g_chans_lower:
  "map (\<lambda>(i, n, sn). (i, map lower n, map_option (map lower) sn)) g_chans = g_chans_lower"
  by code_simp

lemma find_map_conv: "find P (map f xs) = map_option f (find (P \<circ> f) xs)"
  by (induction xs) auto

lemma find_pred_cong: "(\<And>x. P x = Q x) \<Longrightarrow> find P xs = find Q xs"
  by (induction xs) auto

lemma str2chan_lower:
  "roardsp_str2chan s = (case find (\<lambda>(_, n, sn). n = map lower s \<or> sn = Some (map lower s)) g_chans_lower
      of None \<Rightarrow> -1 | Some (i, _, _) \<Rightarrow> i)"
proof -
  let ?low = "\<lambda>(i, n, sn). (i :: int, map lower n, map_option (map lower) sn)"
  have "find (\<lambda>(_, name, sn). same_nocase name s \<or> (case sn of None \<Rightarrow> False | Some t \<Rightarrow> same_nocase t s)) g_chans
      = find ((\<lambda>(_, n, sn). n = map lower s \<or> sn = Some (map lower s)) \<circ> ?low) g_chans"
    by (rule find_pred_cong) (auto simp: same_nocase_def split: prod.splits option.splits)
  then show ?thesis
    unfolding roardsp_str2chan_def g_chans_lower [symmetric] find_map_conv by (simp split: option.split)
qed

lemma str2chan_nocase: "same_nocase s t \<Longrightarrow> roardsp_str2chan t = roardsp_str2chan s"
  by (simp add: str2chan_lower same_nocase_def)

lemma chan_rows_resolve:
  "list_all (\<lambda>(i, _, _). case roardsp_chan2str i of None \<Rightarrow> False | Some n \<Rightarrow> roardsp_str2chan n = i) g_chans"
  unfolding str2chan_lower by code_simp

lemma chan2str_row: "roardsp_chan2str c = Some s \<Longrightarrow> \<exists>n sn. (c, n, sn) \<in> set g_chans"
  unfolding roardsp_chan2str_def by (auto simp: find_Some_iff in_set_conv_nth)

lemma chan_search_found:
  assumes "chan_search to x = b" "b \<noteq> ROAR_MAX_CHANNELS"
  shows "b < ROAR_MAX_CHANNELS \<and> to ! b = x \<and> (\<forall>a < b. to ! a \<noteq> x)"
  using assms unfolding chan_search_def
  by (auto split: option.splits simp: find_Some_iff ROAR_MAX_CHANNELS_def)

lemma chan_search_none: "chan_search to x = ROAR_MAX_CHANNELS \<longleftrightarrow> (\<forall>b < ROAR_MAX_CHANNELS. to ! b \<noteq> x)"
  unfolding chan_search_def by (auto split: option.splits simp: find_None_iff find_Some_iff)

text \<open>What the map promises for one channel.\<close>

definition mapped :: "int list \<Rightarrow> int list \<Rightarrow> nat \<Rightarrow> int" where
  "mapped src dst a =
     (if src ! a = CHAN_NONE \<or> chan_search dst (src ! a) = ROAR_MAX_CHANNELS then -1 else int (chan_search dst (src ! a)))"

definition unmatched :: "int list \<Rightarrow> int list \<Rightarrow> nat \<Rightarrow> bool" where
  "unmatched src dst a \<longleftrightarrow> src ! a \<noteq> CHAN_NONE \<and> (\<forall>b < ROAR_MAX_CHANNELS. dst ! b \<noteq> src ! a)"

lemma unmatched_search:
  "unmatched src dst a \<longleftrightarrow> src ! a \<noteq> CHAN_NONE \<and> chan_search dst (src ! a) = ROAR_MAX_CHANNELS"
  by (simp add: unmatched_def chan_search_none)

lemma chanmap_loop_result:
  assumes "a + n = length mp" "\<And>i. a \<le> i \<Longrightarrow> i < length mp \<Longrightarrow> mp ! i = -1" "chanmap_loop src dst err a n mp = (r, mp')"
  shows "length mp' = length mp \<and> r = (if err \<and> (\<exists>i. a \<le> i \<and> i < a + n \<and> unmatched src dst i) then -1 else 0) \<and>
    (r = 0 \<longrightarrow> (\<forall>i < length mp. mp' ! i = (if i < a then mp ! i else mapped src dst i)))"
  using assms
proof (induction n arbitrary: a mp)
  case (Suc n)
  have ex: "(\<exists>i\<ge>a. i < a + Suc n \<and> P i) \<longleftrightarrow> P a \<or> (\<exists>i\<ge>Suc a. i < Suc a + n \<and> P i)" for P
    by (metis Suc_leD add_Suc add_Suc_right less_add_Suc1 not_less_eq_eq order_antisym order_refl)
  let ?v = "mapped src dst a"
  show ?case
  proof (cases "unmatched src dst a \<and> err")
    case True
    then have "chanmap_loop src dst err a (Suc n) mp = (-1, mp)" by (simp add: unmatched_search)
    then show ?thesis using True Suc.prems(3) by (auto intro!: exI [of _ a])
  next
    case False
    have "mp ! a = -1" using Suc.prems(1,2) by simp
    then have "mp[a := -1] = mp" by (metis list_update_id)
    then have "chanmap_loop src dst err a (Suc n) mp = chanmap_loop src dst err (Suc a) n (mp[a := ?v])"
      using False by (auto simp: mapped_def unmatched_search Let_def)
    then have l: "chanmap_loop src dst err (Suc a) n (mp[a := ?v]) = (r, mp')" using Suc.prems(3) by simp
    have IH: "length mp' = length (mp[a := ?v]) \<and>
      r = (if err \<and> (\<exists>i. Suc a \<le> i \<and> i < Suc a + n \<and> unmatched src dst i) then -1 else 0) \<and>
      (r = 0 \<longrightarrow> (\<forall>i < length (mp[a := ?v]). mp' ! i = (if i < Suc a then mp[a := ?v] ! i else mapped src dst i)))"
      by (rule Suc.IH [OF _ _ l]) (use Suc.prems(1,2) in auto)
    have "mp' ! i = (if i < a then mp ! i else mapped src dst i)" if "r = 0" "i < length mp" for i
      using IH that Suc.prems(1) by (cases "i = a") auto
    moreover have "(err \<and> (\<exists>i. a \<le> i \<and> i < a + Suc n \<and> unmatched src dst i))
        = (err \<and> (\<exists>i. Suc a \<le> i \<and> i < Suc a + n \<and> unmatched src dst i))"
      using False ex by blast
    ultimately show ?thesis using IH by simp
  qed
qed auto

lemma calc_map:
  assumes "length src = 64" "chanmap_loop src dst err 0 ROAR_MAX_CHANNELS (replicate ROAR_MAX_CHANNELS (-1)) = (r, mp)"
  shows "length mp = ROAR_MAX_CHANNELS \<and> r = (if err \<and> (\<exists>i < ROAR_MAX_CHANNELS. unmatched src dst i) then -1 else 0) \<and>
    (r = 0 \<longrightarrow> (\<forall>i < ROAR_MAX_CHANNELS. mp ! i = mapped src dst i))"
  using chanmap_loop_result [OF _ _ assms(2)] by simp

lemma mapped_cases:
  "mapped src dst a = -1 \<and> (src ! a = CHAN_NONE \<or> unmatched src dst a) \<or>
   (\<exists>b < ROAR_MAX_CHANNELS. mapped src dst a = int b \<and> dst ! b = src ! a \<and> src ! a \<noteq> CHAN_NONE \<and> (\<forall>c < b. dst ! c \<noteq> src ! a))"
  using chan_search_found [of dst "src ! a"] by (auto simp: mapped_def unmatched_search)

subsection \<open>Properties of names, layouts and maps\<close>

lemmas init_cases = roardsp_chanlist_init_def Let_def layout_roar_def layout_vorbis_def layout_oss_def layout_alsa_def
  ROAR_MAX_CHANNELS_def

text \<open>Channel names round-trip: the name \<open>roardsp_chan2str\<close> gives for an identifier, written in
  any case, is resolved by \<open>roardsp_str2chan\<close> to the same identifier.\<close>

theorem chan_name_roundtrip:
  assumes "roardsp_chan2str c = Some s" and "same_nocase s t"
  shows "roardsp_str2chan t = c"
  using chan2str_row [OF assms(1)] chan_rows_resolve assms by (auto simp: list_all_iff str2chan_nocase)

theorem chan_name_roundtrip_witness: "roardsp_str2chan ''Side_Left'' = 3"
proof -
  have "roardsp_chan2str 3 = Some ''SIDE_LEFT''" "same_nocase ''SIDE_LEFT'' ''Side_Left''" by code_simp+
  then show ?thesis by (rule chan_name_roundtrip)
qed

text \<open>Every layout that \<open>roardsp_chanlist_init\<close> hands out names each channel once, except the
  ALSA layouts of seven and eight channels, which list the back channels twice and have no side
  channels.\<close>

theorem chanlist_init_distinct:
  assumes "roardsp_chanlist_init (Some l) channels mp = (0, Some l')" "0 < channels" "nat channels \<le> length l"
  shows "distinct (take (nat channels) l') \<longleftrightarrow> \<not> (mp = MAP_ALSA \<and> 7 \<le> channels)"
proof -
  have "channels \<le> 8"
    using assms(1,2) by (auto simp: init_cases split: if_splits)
  then have "channels \<in> {1, 2, 3, 4, 5, 6, 7, 8}" using assms(2) by auto
  then show ?thesis
    using assms(1) by (elim insertE emptyE) (auto simp: init_cases put_list_def map_ids chan_defs split: if_splits)
qed

theorem chanlist_init_distinct_witness:
  "distinct (take 6 (the (snd (roardsp_chanlist_init (Some (replicate 64 0)) 6 MAP_VORBIS))))
   \<and> \<not> distinct (take 8 (the (snd (roardsp_chanlist_init (Some (replicate 64 0)) 8 MAP_ALSA))))"
proof -
  have v: "roardsp_chanlist_init (Some (replicate 64 0)) 6 MAP_VORBIS = (0, Some ([1, 7, 2, 5, 6, 12] @ replicate 58 0))"
    and a: "roardsp_chanlist_init (Some (replicate 64 0)) 8 MAP_ALSA = (0, Some ([1, 2, 5, 6, 7, 12, 5, 6] @ replicate 56 0))"
    by code_simp+
  show ?thesis
    using chanlist_init_distinct [OF v] chanlist_init_distinct [OF a] unfolding v a
    by (simp add: map_ids)
qed

text \<open>\<open>roardsp_chanmap_calc\<close> for the map and for the inverse map: the call fails exactly when
  errors are asked for and some source channel is missing in the destination; otherwise every
  entry of the map is the first position of that channel in the destination, or -1 for an unused
  or missing channel.\<close>

theorem chanmap_calc_correct:
  assumes "length (cm_in c) = 64" "length (cm_out c) = 64"
    and "(what, src, dst) \<in> {(CHANMAP_MAP, cm_in c, cm_out c), (CHANMAP_INVMAP, cm_out c, cm_in c)}"
    and "roardsp_chanmap_calc (Some c) what err = (r, Some c')"
  shows "r = (if err \<and> (\<exists>i < 64. unmatched src dst i) then -1 else 0) \<and>
    (r = 0 \<longrightarrow> (\<forall>a < 64. cm_map c' ! a = -1 \<and> (src ! a = CHAN_NONE \<or> unmatched src dst a) \<or>
      (\<exists>b < 64. cm_map c' ! a = int b \<and> dst ! b = src ! a \<and> src ! a \<noteq> CHAN_NONE \<and> (\<forall>d < b. dst ! d \<noteq> src ! a))))"
proof -
  obtain mp where l: "chanmap_loop src dst err 0 ROAR_MAX_CHANNELS (replicate ROAR_MAX_CHANNELS (-1)) = (r, mp)"
    and c': "cm_map c' = mp"
    using assms(3,4) by (auto simp: roardsp_chanmap_calc_def Let_def CHANMAP_MAP_def CHANMAP_INVMAP_def
      split: if_splits) (metis prod.collapse)+
  have "length src = 64" using assms(1-3) by auto
  from calc_map [OF this l] show ?thesis
    unfolding c' using mapped_cases [of src dst] by (simp add: ROAR_MAX_CHANNELS_def)
qed

theorem chanmap_calc_correct_witness:
  "\<exists>i < 64. unmatched ([1, 2, 12] @ replicate 61 0) ([2, 1] @ replicate 62 0) i"
proof -
  let ?c = "\<lparr>cm_in = [1, 2, 12] @ replicate 61 0, cm_out = [2, 1] @ replicate 62 0, cm_map = replicate 64 0\<rparr>"
  have "roardsp_chanmap_calc (Some ?c) CHANMAP_MAP True = (-1, Some (?c\<lparr>cm_map := [1, 0] @ replicate 62 (-1)\<rparr>))"
    by code_simp
  from chanmap_calc_correct [OF _ _ _ this, of "cm_in ?c" "cm_out ?c"] show ?thesis by (auto split: if_splits)
qed

subsection \<open>Frames along a map\<close>

text \<open>A map that sends the \<open>chans\<close> channels to distinct channels of the frame.\<close>

definition routing :: "nat \<Rightarrow> int list \<Rightarrow> bool" where
  "routing chans mp \<longleftrightarrow> (\<forall>c < chans. 0 \<le> mp ! c \<and> mp ! c < int chans) \<and> inj_on (\<lambda>c. mp ! c) {..<chans}"

lemma routingD:
  "routing chans mp \<Longrightarrow> c < chans \<Longrightarrow> 0 \<le> mp ! c \<and> mp ! c < int chans"
  "routing chans mp \<Longrightarrow> c < chans \<Longrightarrow> d < chans \<Longrightarrow> mp ! c = mp ! d \<Longrightarrow> c = d"
  by (auto simp: routing_def inj_on_def)

lemma routing_frame_buf:
  assumes "routing chans mp" "chans \<le> ROAR_MAX_CHANNELS" "k \<le> chans"
  shows "\<exists>b. map_frame_buf w m p k mp = Some b \<and> length b = ROAR_MAX_CHANNELS
    \<and> (\<forall>c < k. b ! nat (mp ! c) = lds w m (p + int w * int c))
    \<and> (\<forall>d < ROAR_MAX_CHANNELS. (\<forall>c < k. mp ! c \<noteq> int d) \<longrightarrow> b ! d = 0)"
  using assms(3)
proof (induction k)
  case (Suc k)
  then obtain b where b: "map_frame_buf w m p k mp = Some b" "length b = ROAR_MAX_CHANNELS"
    "\<And>c. c < k \<Longrightarrow> b ! nat (mp ! c) = lds w m (p + int w * int c)"
    "\<And>d. d < ROAR_MAX_CHANNELS \<Longrightarrow> (\<forall>c < k. mp ! c \<noteq> int d) \<Longrightarrow> b ! d = 0" by auto
  have k: "0 \<le> mp ! k" "mp ! k < int ROAR_MAX_CHANNELS" using routingD(1) [OF assms(1), of k] Suc.prems assms(2) by auto
  have ne: "nat (mp ! c) \<noteq> nat (mp ! k)" if "c < k" for c
    using routingD(1) [OF assms(1), of c] routingD(2) [OF assms(1), of c k] that Suc.prems k by (auto simp: nat_eq_iff)
  have "map_frame_buf w m p (Suc k) mp = Some (b[nat (mp ! k) := lds w m (p + int w * int k)])"
    using b(1) k by (simp add: map_frame_buf_def Let_def)
  then show ?case using b ne ne [symmetric] k by (auto simp: less_Suc_eq nth_list_update nat_less_iff)
qed (simp add: map_frame_buf_def)

lemma routing_surj:
  assumes "routing chans mp" "0 \<le> d" "d < int chans"
  obtains c where "c < chans" "mp ! c = d"
proof -
  let ?g = "\<lambda>c. nat (mp ! c)"
  have "?g ` {..<chans} \<subseteq> {..<chans}" using routingD(1) [OF assms(1)] by (auto simp: nat_less_iff)
  moreover have "inj_on ?g {..<chans}"
    using routingD [OF assms(1)] by (auto simp: inj_on_def nat_eq_iff)
  ultimately have "?g ` {..<chans} = {..<chans}" by (intro endo_inj_surj) auto
  moreover have "nat d \<in> {..<chans}" using assms(2,3) by (simp add: nat_less_iff)
  ultimately have "nat d \<in> ?g ` {..<chans}" by simp
  then obtain c where "c < chans" "nat (mp ! c) = nat d" by auto
  then show thesis using that [of c] routingD(1) [OF assms(1), of c] assms(2) by auto
qed

lemma cell_bytes:
  assumes "0 < w" "lds w m p = lds w m' p" "p \<le> b" "b < p + int w"
  shows "m b = m' b"
proof (rule ldu_inj [OF _ assms(3,4)])
  have "ldu w n p = wrap_u (8 * w) (lds w n p)" for n by (simp add: lds_def)
  then show "ldu w m p = ldu w m' p" using assms(2) by simp
qed

lemma routed_bytes:
  assumes "routing chans mp" "0 < w" "\<And>c. c < chans \<Longrightarrow> lds w m (p + int w * (mp ! c)) = lds w m' (p + int w * (mp ! c))"
    and "b \<in> span p (int w * int chans)"
  shows "m b = m' b"
proof -
  let ?d = "(b - p) div int w"
  have d: "0 \<le> ?d" using assms(2,4) by (simp add: pos_imp_zdiv_nonneg_iff)
  have "?d * int w < int chans * int w"
    using pos_zdiv_mult_self_le [of "int w" "b - p"] assms(2,4) unfolding in_span mult.commute [of "int chans"] by linarith
  then have "?d < int chans" by (rule mult_right_less_imp_less) simp
  with d obtain c where c: "c < chans" "mp ! c = ?d" using routing_surj [OF assms(1)] by metis
  have "int w * ?d + (b - p) mod int w = b - p" by simp
  moreover have "0 \<le> (b - p) mod int w" "(b - p) mod int w < int w" using assms(2) by simp_all
  ultimately have "p + int w * ?d \<le> b" "b < p + int w * ?d + int w" by linarith+
  then show ?thesis using cell_bytes [OF assms(2), of m "p + int w * ?d" m' b] assms(3) [OF c(1)] c(2) by simp
qed

lemma cell_in_row: "0 \<le> d \<Longrightarrow> d < int n \<Longrightarrow> 0 \<le> int w * d \<and> int w * d + int w \<le> int w * int n"
  using stride_bound [of d "int n" "int w"] by simp

lemma store_row:
  assumes "0 < w"
  shows "d < n \<Longrightarrow> lds w (for_up n (\<lambda>c m. stn w m (p + int w * c) (v c)) m) (p + int w * int d) = wrap_s (8 * w) (v (int d))"
    and "b \<notin> span p (int w * int n) \<Longrightarrow> for_up n (\<lambda>c m. stn w m (p + int w * c) (v c)) m b = m b"
proof (induction n)
  case (Suc n)
  { case 1
    show ?case
    proof (cases "d = n")
      case False
      then have "int w * int d + int w \<le> int w * int n" using 1 stride_next [of "int d" "int n" "int w"] by simp
      then show ?thesis using Suc.IH(1) 1 False
        by (simp add: cell.ld_st_other [OF cell_lds [OF assms]])
    qed (simp add: lds_stn assms)
  next
    case 2
    have "int w * int (Suc n) = int w * int n + int w" by (simp add: algebra_simps)
    moreover have "0 \<le> int w * int n" by simp
    ultimately have "b \<notin> span p (int w * int n)" "b < p + int w * int n \<or> p + int w * int n + int w \<le> b"
      using 2 unfolding in_span by (cases "p \<le> b"; linarith)+
    then show ?case using Suc.IH(2) by (simp add: stn_frame)
  }
qed simp_all

lemma inplace_cells:
  assumes "routing chans mp" "chans \<le> ROAR_MAX_CHANNELS" "0 < w"
  obtains m' where "map_frame_inplace w p chans mp m = Some m'"
    and "\<And>c. c < chans \<Longrightarrow> lds w m' (p + int w * (mp ! c)) = lds w m (p + int w * int c)"
    and "\<And>b. b \<notin> span p (int w * int chans) \<Longrightarrow> m' b = m b"
proof -
  obtain b where b: "map_frame_buf w m p chans mp = Some b"
    "\<And>c. c < chans \<Longrightarrow> b ! nat (mp ! c) = lds w m (p + int w * int c)"
    using routing_frame_buf [OF assms(1,2) order_refl] by metis
  let ?m = "for_up chans (\<lambda>c m. stn w m (p + int w * c) (b ! nat c)) m"
  show thesis
  proof (rule that [of ?m])
    fix c assume c: "c < chans"
    then obtain d where d: "mp ! c = int d" "d < chans" using routingD(1) [OF assms(1) c] by (metis of_nat_less_iff zero_le_imp_eq_int)
    then show "lds w ?m (p + int w * (mp ! c)) = lds w m (p + int w * int c)"
      using store_row(1) [OF assms(3), of d chans p "\<lambda>c. b ! nat c" m] b(2) [OF c] by simp
  qed (use b(1) store_row(2) [OF assms(3)] in \<open>simp_all add: map_frame_inplace_def\<close>)
qed

lemma separate_cells:
  assumes "routing chans mp" "0 < w" "span outp (int w * int chans) \<inter> span inp (int w * int chans) = {}" "k \<le> chans"
  shows "(\<forall>c < k. lds w (map_frame_separate w outp inp k mp m) (outp + int w * (mp ! c)) = lds w m (inp + int w * int c))
    \<and> (\<forall>b. b \<notin> span outp (int w * int chans) \<longrightarrow> map_frame_separate w outp inp k mp m b = m b)"
  using assms(4)
proof (induction k)
  case (Suc k)
  let ?m = "map_frame_separate w outp inp k mp m"
  have step: "map_frame_separate w outp inp (Suc k) mp m = stn w ?m (outp + int w * (mp ! k)) (lds w ?m (inp + int w * int k))"
    by (simp add: map_frame_separate_def)
  have k: "0 \<le> int w * (mp ! k) \<and> int w * (mp ! k) + int w \<le> int w * int chans"
    by (rule cell_in_row) (use routingD(1) [OF assms(1), of k] Suc.prems in auto)
  have rk: "0 \<le> int w * int k \<and> int w * int k + int w \<le> int w * int chans"
    by (rule cell_in_row) (use Suc.prems in auto)
  have src: "lds w ?m (inp + int w * int k) = lds w m (inp + int w * int k)"
  proof (rule lds_cong)
    fix b assume "inp + int w * int k \<le> b" "b < inp + int w * int k + int w"
    then have "b \<in> span inp (int w * int chans)" unfolding in_span using rk by linarith
    then have "b \<notin> span outp (int w * int chans)" using assms(3) by blast
    then show "?m b = m b" using Suc by simp
  qed
  have "lds w (stn w ?m (outp + int w * (mp ! k)) v) (outp + int w * (mp ! c)) = lds w ?m (outp + int w * (mp ! c))" if "c < k" for c v
  proof (rule cell.ld_st_other [OF cell_lds [OF assms(2)]])
    have "mp ! c \<noteq> mp ! k" "0 \<le> mp ! c" "0 \<le> mp ! k" 
      using routingD(1) [OF assms(1), of c] routingD(1) [OF assms(1), of k] routingD(2) [OF assms(1), of c k] that Suc.prems by auto
    then show "outp + int w * (mp ! k) + int w \<le> outp + int w * (mp ! c) \<or> outp + int w * (mp ! c) + int w \<le> outp + int w * (mp ! k)"
      using stride_next [of "mp ! c" "mp ! k" "int w"] stride_next [of "mp ! k" "mp ! c" "int w"] by linarith
  qed
  then show ?case using Suc k src by (auto simp: step less_Suc_eq lds_stn assms(2) stn_frame)
qed (simp add: map_frame_separate_def)

text \<open>One iteration of either loop, as a function on memory.\<close>

definition map_frame :: "nat \<Rightarrow> ptr \<Rightarrow> ptr \<Rightarrow> nat \<Rightarrow> int list \<Rightarrow> int \<Rightarrow> mem \<Rightarrow> mem" where
  "map_frame w outp inp chans mp f m =
     (let fl = int w * int chans in
      if inp = outp then the (map_frame_inplace w (inp + fl * f) chans mp m)
      else map_frame_separate w (outp + fl * f) (inp + fl * f) chans mp m)"

definition frames_apart :: "nat \<Rightarrow> nat \<Rightarrow> ptr \<Rightarrow> ptr \<Rightarrow> bool" where
  "frames_apart w chans outp inp \<longleftrightarrow> inp = outp \<or> outp + int w * int chans \<le> inp \<or> inp + int w * int chans \<le> outp"

lemma map_frame_cells:
  assumes "routing chans mp" "chans \<le> ROAR_MAX_CHANNELS" "0 < w" "frames_apart w chans outp inp"
  shows "c < chans \<Longrightarrow> lds w (map_frame w outp inp chans mp f m) (outp + int w * int chans * f + int w * (mp ! c))
      = lds w m (inp + int w * int chans * f + int w * int c)"
    and "b \<notin> span (outp + int w * int chans * f) (int w * int chans) \<Longrightarrow> map_frame w outp inp chans mp f m b = m b"
proof -
  let ?fl = "int w * int chans"
  obtain m' where i: "map_frame_inplace w (inp + ?fl * f) chans mp m = Some m'"
    "\<And>c. c < chans \<Longrightarrow> lds w m' (inp + ?fl * f + int w * (mp ! c)) = lds w m (inp + ?fl * f + int w * int c)"
    "\<And>b. b \<notin> span (inp + ?fl * f) ?fl \<Longrightarrow> m' b = m b"
    using inplace_cells [OF assms(1-3)] by metis
  have "span (outp + ?fl * f) ?fl \<inter> span (inp + ?fl * f) ?fl = {}" if "inp \<noteq> outp"
    using assms(4) that by (auto simp: frames_apart_def)
  note s = separate_cells [OF assms(1,3) this order_refl]
  show "c < chans \<Longrightarrow> lds w (map_frame w outp inp chans mp f m) (outp + ?fl * f + int w * (mp ! c)) = lds w m (inp + ?fl * f + int w * int c)"
    using i(1,2) s by (auto simp: map_frame_def Let_def)
  show "b \<notin> span (outp + ?fl * f) ?fl \<Longrightarrow> map_frame w outp inp chans mp f m b = m b"
    using i(1,3) s by (auto simp: map_frame_def Let_def)
qed

lemma map_frame_strided:
  assumes "routing chans mp" "chans \<le> ROAR_MAX_CHANNELS" "0 < w" "frames_apart w chans outp inp"
  shows "strided_loop (map_frame w outp inp chans mp) outp inp (int w * int chans) (int w * int chans)"
proof (unfold_locales, goal_cases)
  case (1 b f m)
  then show ?case by (rule map_frame_cells(2) [OF assms])
next
  case (2 f m m' b)
  show ?case
  proof (rule routed_bytes [OF assms(1,3) _ 2(2)])
    fix c assume c: "c < chans"
    have "lds w m (inp + int w * int chans * f + int w * int c) = lds w m' (inp + int w * int chans * f + int w * int c)"
    proof (rule lds_cong, rule 2(1))
      fix a assume "inp + int w * int chans * f + int w * int c \<le> a" "a < inp + int w * int chans * f + int w * int c + int w"
      then show "a \<in> span (inp + int w * int chans * f) (int w * int chans)"
        using cell_in_row [of "int c" chans w] c unfolding in_span by linarith
    qed
    then show "lds w (map_frame w outp inp chans mp f m) (outp + int w * int chans * f + int w * (mp ! c))
        = lds w (map_frame w outp inp chans mp f m') (outp + int w * int chans * f + int w * (mp ! c))"
      using map_frame_cells(1) [OF assms c] by simp
  qed
qed simp_all

lemma mappcm_loop:
  assumes "routing chans (cm_map cm)" "chans \<le> ROAR_MAX_CHANNELS" "0 < w" "0 < chans" "0 < n" "outp \<noteq> NULL" "inp \<noteq> NULL"
  shows "mappcm_w w m outp inp (n * (chans * w)) chans (Some cm) = Some (0, for_up n (map_frame w outp inp chans (cm_map cm))
           (if inp = outp then m else memset m outp 0 (int (n * (chans * w)))))"
proof -
  let ?fl = "int w * int chans"
  have "for_up n (\<lambda>f mo. case mo of None \<Rightarrow> None | Some m \<Rightarrow> map_frame_inplace w (inp + ?fl * f) chans (cm_map cm) m) (Some m)
      = Some (for_up n (map_frame w inp inp chans (cm_map cm)) m)"
  proof (induction n)
    case (Suc n)
    let ?m = "for_up n (map_frame w inp inp chans (cm_map cm)) m"
    obtain m' where "map_frame_inplace w (inp + ?fl * int n) chans (cm_map cm) ?m = Some m'"
      using inplace_cells [OF assms(1-3)] by metis
    moreover from this have "map_frame w inp inp chans (cm_map cm) (int n) ?m = m'" by (simp add: map_frame_def Let_def)
    ultimately show ?case using Suc by simp
  qed simp
  then show ?thesis
    using assms by (cases "inp = outp") (auto simp: mappcm_w_def Let_def map_frame_def [abs_def])
qed

lemma mappcm_cell:
  assumes "routing chans (cm_map cm)" "chans \<le> ROAR_MAX_CHANNELS" "0 < w" "0 < chans" "outp \<noteq> NULL" "inp \<noteq> NULL"
    and "aliasing outp (int w * int chans * int n) inp (int w * int chans * int n)" and "f < n" "c < chans"
  obtains m' where "mappcm_w w m outp inp (n * (chans * w)) chans (Some cm) = Some (0, m')"
    and "lds w m' (outp + int w * (int f * int chans + cm_map cm ! c)) = lds w m (inp + int w * (int f * int chans + int c))"
proof -
  let ?fl = "int w * int chans" and ?mp = "cm_map cm"
  let ?m0 = "if inp = outp then m else memset m outp 0 (int (n * (chans * w)))"
  let ?m' = "for_up n (map_frame w outp inp chans ?mp) ?m0"
  have "?fl * int f + ?fl \<le> ?fl * int n" using assms(8) stride_bound [of "int f" "int n" ?fl] by simp
  moreover have f0: "0 \<le> ?fl * int f" by simp
  ultimately have "?fl \<le> ?fl * int n" by linarith
  then have ap: "frames_apart w chans outp inp" using assms(7) unfolding aliasing_def frames_apart_def by linarith
  have kc: "0 \<le> int w * (?mp ! c) \<and> int w * (?mp ! c) + int w \<le> ?fl" and cc: "0 \<le> int w * int c \<and> int w * int c + int w \<le> ?fl"
    using cell_in_row [of "?mp ! c" chans w] cell_in_row [of "int c" chans w] routingD(1) [OF assms(1,9)] assms(9) by auto
  have "lds w ?m' (outp + ?fl * int f + int w * (?mp ! c))
      = lds w (map_frame w outp inp chans ?mp (int f) ?m0) (outp + ?fl * int f + int w * (?mp ! c))"
    by (rule lds_cong, rule strided_loop.up [OF map_frame_strided [OF assms(1-3) ap]])
       (use assms(7,8) kc in auto)
  also have "\<dots> = lds w ?m0 (inp + ?fl * int f + int w * int c)"
    by (rule map_frame_cells(1) [OF assms(1-3) ap assms(9)])
  also have "\<dots> = lds w m (inp + ?fl * int f + int w * int c)"
  proof (rule lds_cong)
    fix b assume "inp + ?fl * int f + int w * int c \<le> b" "b < inp + ?fl * int f + int w * int c + int w"
    then have "inp \<le> b" "b < inp + ?fl * int n"
      using cc f0 \<open>?fl * int f + ?fl \<le> ?fl * int n\<close> by linarith+
    then have "inp = outp \<or> b < outp \<or> outp + ?fl * int n \<le> b" using assms(7) unfolding aliasing_def by linarith
    moreover have "int (n * (chans * w)) = ?fl * int n" by (simp add: algebra_simps)
    ultimately show "?m0 b = m b" by (auto simp: memset_def simp del: of_nat_mult)
  qed
  finally have "lds w ?m' (outp + int w * (int f * int chans + ?mp ! c)) = lds w m (inp + int w * (int f * int chans + int c))"
    by (simp add: algebra_simps)
  moreover have "mappcm_w w m outp inp (n * (chans * w)) chans (Some cm) = Some (0, ?m')"
    by (rule mappcm_loop [OF assms(1-4) _ assms(5,6)]) (use assms(8) in simp)
  ultimately show thesis using that by blast
qed

text \<open>C27: Moving samples along a map that routes the \<open>chans\<close> channels to distinct channels: the call
  succeeds and, in place or between separate buffers, every sample of every frame arrives at
  the channel its map entry names.\<close>

theorem mappcm_routes:
  assumes "b \<in> {8, 16, 32}" "routing chans (cm_map cm)" "0 < chans" "chans \<le> 64" "outp \<noteq> NULL" "inp \<noteq> NULL"
    and "aliasing outp (b div 8 * int chans * int n) inp (b div 8 * int chans * int n)" and "f < n" "c < chans"
  shows "\<exists>m'. roardsp_chanmap_mappcm m outp inp (n * (chans * nat (b div 8))) chans (Some cm) b = Some (0, m')
    \<and> sample b m' outp (int f * int chans + cm_map cm ! c) = sample b m inp (int f * int chans + int c)"
proof -
  let ?w = "nat (b div 8)"
  have w: "0 < ?w" "int ?w = b div 8" using assms(1) by auto
  obtain m' where m': "mappcm_w ?w m outp inp (n * (chans * ?w)) chans (Some cm) = Some (0, m')"
    "lds ?w m' (outp + int ?w * (int f * int chans + cm_map cm ! c)) = lds ?w m (inp + int ?w * (int f * int chans + int c))"
    using mappcm_cell [OF assms(2) _ w(1) assms(3,5,6) _ assms(8,9), of m] assms(4,7) w(2) by (auto simp: ROAR_MAX_CHANNELS_def)
  have "roardsp_chanmap_mappcm m outp inp (n * (chans * ?w)) chans (Some cm) b = mappcm_w ?w m outp inp (n * (chans * ?w)) chans (Some cm)"
    using assms(1,3-6,8)
    by (auto simp: roardsp_chanmap_mappcm_def roardsp_chanmap_mappcm8_def roardsp_chanmap_mappcm16_def
        roardsp_chanmap_mappcm32_def ROAR_MAX_CHANNELS_def)
  then show ?thesis using m' w(2) by (simp add: sample_def)
qed

theorem mappcm_routes_witness:
  "\<exists>m'. roardsp_chanmap_mappcm ((\<lambda>_. 0)(102 := 10, 103 := 20)) 100 100 4 2
      (Some \<lparr>cm_in = [1, 2], cm_out = [2, 1], cm_map = [1, 0]\<rparr>) 8 = Some (0, m')
    \<and> sample 8 m' 100 3 = 10"
proof -
  let ?m = "(\<lambda>_. 0)(102 := 10, 103 := 20) :: mem"
  let ?cm = "\<lparr>cm_in = [1, 2], cm_out = [2, 1], cm_map = [1, 0]\<rparr> :: roardsp_chanmap"
  have "routing 2 (cm_map ?cm)" by (auto simp: routing_def inj_on_def less_2_cases_iff)
  moreover have "sample 8 ?m 100 2 = 10" by code_simp
  ultimately show ?thesis
    using mappcm_routes [of 8 2 ?cm 100 100 2 1 0 ?m] by simp
qed

end
