(* ===== verification/Roar_Stack.thy ===== *)
theory Roar_Stack
  imports Roar_Prelude
begin

text \<open>
  The pointer stack, \<open>src/libroar/stack.c\<close>: a fixed array of \<open>ROAR_STACK_SIZE\<close> slots with a fill
  count, flags that say what \<open>roar_stack_free\<close> has to release, and the function that releases
  an element. A \<open>struct roar_stack *\<close> is an option, \<open>None\<close> the null pointer; a function pointer is an
  address; the calls of the release function are returned as a list.

  Locale \<open>bounded_lifo\<close> is the contract of a bounded stack; \<open>roar\<close> interprets it for the operations.
\<close>

unbundle bit_operations_syntax

record roar_stack =
  st_next :: c_int
  st_flags :: "32 word"
  st_free :: ptr
  st_slot :: "ptr list"

type_synonym stack_ptr = "roar_stack option"

definition ROAR_STACK_SIZE :: nat where "ROAR_STACK_SIZE = 32"
definition FLAG_FREE_SELF :: "32 word" where "FLAG_FREE_SELF = 1"
definition FLAG_FREE_DATA :: "32 word" where "FLAG_FREE_DATA = 2"

text \<open>\<open>memset(stack, 0, sizeof(struct roar_stack))\<close>; \<open>libc_free\<close> is the address of \<open>free\<close>.\<close>

definition stack_zero :: roar_stack where
  "stack_zero = \<lparr>st_next = 0, st_flags = 0, st_free = NULL, st_slot = replicate ROAR_STACK_SIZE NULL\<rparr>"

definition roar_stack_new :: "ptr \<Rightarrow> stack_ptr \<Rightarrow> c_int \<times> stack_ptr" where
  "roar_stack_new libc_free stack = (case stack of None \<Rightarrow> (-1, None)
     | Some s \<Rightarrow> (0, Some (stack_zero\<lparr>st_flags := FLAG_FREE_DATA, st_free := libc_free\<rparr>)))"

definition roar_stack_set_flag :: "stack_ptr \<Rightarrow> 32 word \<Rightarrow> bool \<Rightarrow> c_int \<times> stack_ptr" where
  "roar_stack_set_flag stack flag reset = (case stack of None \<Rightarrow> (-1, None)
     | Some s \<Rightarrow>
       let fl = st_flags s OR flag;
           fl = (if reset then fl - flag else fl)
       in (0, Some (s\<lparr>st_flags := fl\<rparr>)))"

text \<open>\<open>mem\<close> is the block \<open>roar_mm_malloc\<close> returns, \<open>None\<close> when it fails.\<close>

definition roar_stack_newalloc :: "ptr \<Rightarrow> stack_ptr \<Rightarrow> stack_ptr" where
  "roar_stack_newalloc libc_free mem = (case mem of None \<Rightarrow> None
     | Some s \<Rightarrow>
       (case roar_stack_new libc_free (Some s) of (r, st) \<Rightarrow>
         if r = -1 then None
         else case roar_stack_set_flag st FLAG_FREE_SELF False of (r, st) \<Rightarrow>
           if r = -1 then None else st))"

text \<open>The result, what is left of the structure (\<open>None\<close> when it was released itself), and the
  elements handed to the release function, in order.\<close>

definition roar_stack_free :: "stack_ptr \<Rightarrow> c_int \<times> stack_ptr \<times> (ptr \<times> ptr) list" where
  "roar_stack_free stack = (case stack of None \<Rightarrow> (-1, None, [])
     | Some s \<Rightarrow>
       let calls = (if st_flags s AND FLAG_FREE_DATA \<noteq> 0 \<and> st_free s \<noteq> NULL
                    then for_up (nat (st_next s)) (\<lambda>i l. l @ [(st_free s, st_slot s ! nat i)]) [] else [])
       in if st_flags s AND FLAG_FREE_SELF \<noteq> 0 then (0, None, calls) else (0, Some stack_zero, calls))"

definition roar_stack_set_free :: "stack_ptr \<Rightarrow> ptr \<Rightarrow> c_int \<times> stack_ptr" where
  "roar_stack_set_free stack func = (case stack of None \<Rightarrow> (-1, None)
     | Some s \<Rightarrow> (0, Some (s\<lparr>st_free := func\<rparr>)))"

definition roar_stack_push :: "stack_ptr \<Rightarrow> ptr \<Rightarrow> c_int \<times> stack_ptr" where
  "roar_stack_push stack p = (case stack of None \<Rightarrow> (-1, None)
     | Some s \<Rightarrow>
       if st_next s = int ROAR_STACK_SIZE then (-1, Some s)
       else (0, Some (s\<lparr>st_slot := (st_slot s)[nat (st_next s) := p], st_next := st_next s + 1\<rparr>)))"

text \<open>\<open>want\<close> says whether \<open>ptr\<close> is not null; the third component is what \<open>*ptr\<close> is left with.\<close>

definition roar_stack_pop :: "stack_ptr \<Rightarrow> bool \<Rightarrow> c_int \<times> stack_ptr \<times> ptr option" where
  "roar_stack_pop stack want = (case stack of None \<Rightarrow> (-1, None, None)
     | Some s \<Rightarrow>
       let res = (if want then Some NULL else None) in
       if st_next s = 0 then (-1, Some s, res)
       else let s' = s\<lparr>st_next := st_next s - 1\<rparr>
            in (0, Some s', if want then Some (st_slot s' ! nat (st_next s')) else None))"

definition roar_stack_get_cur :: "stack_ptr \<Rightarrow> bool \<Rightarrow> c_int \<times> ptr option" where
  "roar_stack_get_cur stack want = (case stack of None \<Rightarrow> (-1, None)
     | Some s \<Rightarrow>
       if \<not> want then (-1, None)
       else if st_next s = 0 then (-1, Some NULL)
       else (0, Some (st_slot s ! nat (st_next s - 1))))"

subsection \<open>The contract of a bounded stack\<close>

text \<open>A client that pushes a list of elements, and one that pops \<open>n\<close> of them; each stops at a failure.\<close>

fun push_all :: "('s \<Rightarrow> 'a \<Rightarrow> 's option) \<Rightarrow> 's \<Rightarrow> 'a list \<Rightarrow> 's option" where
  "push_all push s [] = Some s"
| "push_all push s (x # xs) = (case push s x of None \<Rightarrow> None | Some s' \<Rightarrow> push_all push s' xs)"

fun pop_n :: "('s \<Rightarrow> ('s \<times> 'a) option) \<Rightarrow> nat \<Rightarrow> 's \<Rightarrow> ('s \<times> 'a list) option" where
  "pop_n pop 0 s = Some (s, [])"
| "pop_n pop (Suc n) s = (case pop s of None \<Rightarrow> None
     | Some (s', x) \<Rightarrow> (case pop_n pop n s' of None \<Rightarrow> None | Some (s'', xs) \<Rightarrow> Some (s'', x # xs)))"

locale bounded_lifo =
  fixes valid :: "'s \<Rightarrow> bool"
    and content :: "'s \<Rightarrow> 'a list"
    and cap :: nat
    and push :: "'s \<Rightarrow> 'a \<Rightarrow> 's option"
    and pop :: "'s \<Rightarrow> ('s \<times> 'a) option"
  assumes push_ok: "valid s \<Longrightarrow> length (content s) < cap \<Longrightarrow>
      \<exists>s'. push s x = Some s' \<and> valid s' \<and> content s' = x # content s"
    and push_full: "valid s \<Longrightarrow> cap \<le> length (content s) \<Longrightarrow> push s x = None"
    and pop_ok: "valid s \<Longrightarrow> content s = x # xs \<Longrightarrow> \<exists>s'. pop s = Some (s', x) \<and> valid s' \<and> content s' = xs"
    and pop_empty: "valid s \<Longrightarrow> content s = [] \<Longrightarrow> pop s = None"
begin

lemma push_all_ok:
  assumes "valid s" "length (content s) + length xs \<le> cap"
  shows "\<exists>s'. push_all push s xs = Some s' \<and> valid s' \<and> content s' = rev xs @ content s"
  using assms
proof (induction xs arbitrary: s)
  case (Cons x xs)
  obtain s' where s': "push s x = Some s'" "valid s'" "content s' = x # content s"
    using push_ok [of s x] Cons.prems by auto
  with Cons.IH [of s'] Cons.prems show ?case by simp
qed simp

lemma pop_n_ok:
  assumes "valid s" "content s = xs @ ys"
  shows "\<exists>s'. pop_n pop (length xs) s = Some (s', xs) \<and> valid s' \<and> content s' = ys"
  using assms
proof (induction xs arbitrary: s)
  case (Cons x xs)
  obtain s' where s': "pop s = Some (s', x)" "valid s'" "content s' = xs @ ys"
    using pop_ok [of s x "xs @ ys"] Cons.prems by auto
  with Cons.IH [of s'] show ?case by auto
qed simp

lemma lifo_order:
  assumes "valid s" "length (content s) + length xs \<le> cap"
  shows "\<exists>s' s''. push_all push s xs = Some s' \<and> pop_n pop (length xs) s' = Some (s'', rev xs) \<and> content s'' = content s"
proof -
  obtain s' where s': "push_all push s xs = Some s'" "valid s'" "content s' = rev xs @ content s"
    using push_all_ok [OF assms] by auto
  with pop_n_ok [of s' "rev xs" "content s"] show ?thesis by auto
qed

end

subsection \<open>The model as a bounded stack\<close>

definition stack_ok :: "roar_stack \<Rightarrow> bool" where
  "stack_ok s \<longleftrightarrow> 0 \<le> st_next s \<and> st_next s \<le> int ROAR_STACK_SIZE \<and> length (st_slot s) = ROAR_STACK_SIZE"

definition stack_content :: "roar_stack \<Rightarrow> ptr list" where
  "stack_content s = rev (take (nat (st_next s)) (st_slot s))"

definition push_result :: "roar_stack \<Rightarrow> ptr \<Rightarrow> roar_stack option" where
  "push_result s p = (case roar_stack_push (Some s) p of (r, st) \<Rightarrow> if r = 0 then st else None)"

definition pop_result :: "roar_stack \<Rightarrow> (roar_stack \<times> ptr) option" where
  "pop_result s = (case roar_stack_pop (Some s) True of (r, st, v) \<Rightarrow> if r = 0 then Some (the st, the v) else None)"

lemma stack_content_length: "stack_ok s \<Longrightarrow> length (stack_content s) = nat (st_next s)"
  by (auto simp: stack_ok_def stack_content_def)

lemma push_refines:
  assumes "stack_ok s"
  shows "if length (stack_content s) < ROAR_STACK_SIZE
    then \<exists>s'. roar_stack_push (Some s) p = (0, Some s') \<and> stack_ok s' \<and> stack_content s' = p # stack_content s
    else roar_stack_push (Some s) p = (-1, Some s)"
proof (cases "st_next s = int ROAR_STACK_SIZE")
  case True
  then show ?thesis using stack_content_length [OF assms] by (simp add: roar_stack_push_def)
next
  case False
  then have "nat (st_next s) < length (st_slot s)" using assms by (auto simp: stack_ok_def)
  then have "take (Suc (nat (st_next s))) ((st_slot s)[nat (st_next s) := p]) = take (nat (st_next s)) (st_slot s) @ [p]"
    by (simp add: take_Suc_conv_app_nth)
  moreover have "nat (st_next s + 1) = Suc (nat (st_next s))" using assms by (auto simp: stack_ok_def)
  ultimately show ?thesis
    using False assms stack_content_length [OF assms]
    by (auto simp: roar_stack_push_def stack_ok_def stack_content_def)
qed

lemma pop_refines:
  assumes "stack_ok s"
  shows "case stack_content s of [] \<Rightarrow> roar_stack_pop (Some s) True = (-1, Some s, Some NULL)
    | x # xs \<Rightarrow> \<exists>s'. roar_stack_pop (Some s) True = (0, Some s', Some x) \<and> stack_ok s' \<and> stack_content s' = xs"
proof (cases "st_next s = 0")
  case True
  then show ?thesis by (simp add: stack_content_def roar_stack_pop_def Let_def)
next
  case False
  define k where "k = nat (st_next s) - 1"
  have k: "nat (st_next s) = Suc k" "st_next s = int k + 1" using False assms by (auto simp: stack_ok_def k_def)
  then have "k < length (st_slot s)" using assms by (auto simp: stack_ok_def)
  then have "stack_content s = st_slot s ! k # rev (take k (st_slot s))"
    using k by (simp add: stack_content_def take_Suc_conv_app_nth)
  then show ?thesis using k assms by (auto simp: roar_stack_pop_def Let_def stack_ok_def stack_content_def)
qed

interpretation roar: bounded_lifo stack_ok stack_content ROAR_STACK_SIZE push_result pop_result
proof (unfold_locales, goal_cases)
  case (1 s x)
  then show ?case using push_refines [of s x] by (auto simp: push_result_def)
next
  case (2 s x)
  then show ?case using push_refines [of s x] by (auto simp: push_result_def)
next
  case (3 s x xs)
  then show ?case using pop_refines [of s] by (auto simp: pop_result_def)
next
  case (4 s)
  then show ?case using pop_refines [of s] by (auto simp: pop_result_def)
qed

subsection \<open>Properties\<close>

text \<open>C26: The stack refines a list of at most 32 elements. On a well-formed stack \<open>roar_stack_push\<close>
  puts the element in front or, when 32 are held, fails without a change; \<open>roar_stack_pop\<close>
  removes and returns the front element or fails, storing a null pointer; \<open>roar_stack_get_cur\<close>
  returns what a pop would. Well-formedness is kept.\<close>

theorem stack_refines_list:
  assumes "stack_ok s"
  shows "(if length (stack_content s) < ROAR_STACK_SIZE
      then \<exists>s'. roar_stack_push (Some s) p = (0, Some s') \<and> stack_ok s' \<and> stack_content s' = p # stack_content s
      else roar_stack_push (Some s) p = (-1, Some s)) \<and>
    (case stack_content s of
       [] \<Rightarrow> roar_stack_pop (Some s) True = (-1, Some s, Some NULL) \<and> roar_stack_get_cur (Some s) True = (-1, Some NULL)
     | x # xs \<Rightarrow> (\<exists>s'. roar_stack_pop (Some s) True = (0, Some s', Some x) \<and> stack_ok s' \<and> stack_content s' = xs)
        \<and> roar_stack_get_cur (Some s) True = (0, Some x))"
proof -
  have "roar_stack_get_cur (Some s) True = (case roar_stack_pop (Some s) True of (r, _, v) \<Rightarrow> (r, v))"
    by (simp add: roar_stack_get_cur_def roar_stack_pop_def Let_def)
  then show ?thesis using push_refines [OF assms, of p] pop_refines [OF assms] by (auto split: list.splits)
qed

lemma stack_new_ok: "roar_stack_new f (Some s) = (0, Some s') \<Longrightarrow> stack_ok s' \<and> stack_content s' = []"
  by (auto simp: roar_stack_new_def stack_zero_def stack_ok_def stack_content_def)

theorem stack_refines_list_witness:
  "\<exists>s'. roar_stack_push (Some (stack_zero\<lparr>st_flags := 2\<rparr>)) 77 = (0, Some s') \<and> stack_content s' = [77]"
proof -
  have "stack_ok (stack_zero\<lparr>st_flags := 2\<rparr>)" "stack_content (stack_zero\<lparr>st_flags := 2\<rparr>) = []" by code_simp+
  then show ?thesis using stack_refines_list [of "stack_zero\<lparr>st_flags := 2\<rparr>" 77] by (auto simp: ROAR_STACK_SIZE_def)
qed

text \<open>Elements come back in reverse order: after pushing a list that fits, as many pops return
  it reversed and leave the content as it was.\<close>

theorem stack_lifo:
  assumes "stack_ok s" "length (stack_content s) + length ps \<le> ROAR_STACK_SIZE"
  shows "\<exists>s' s''. push_all push_result s ps = Some s' \<and> pop_n pop_result (length ps) s' = Some (s'', rev ps)
    \<and> stack_content s'' = stack_content s"
  by (rule roar.lifo_order [OF assms])

theorem stack_lifo_witness:
  "\<exists>s' s''. push_all push_result stack_zero [7, 8, 9] = Some s' \<and> pop_n pop_result 3 s' = Some (s'', [9, 8, 7])"
proof -
  have "stack_ok stack_zero" "length (stack_content stack_zero) + length [7, 8, 9 :: ptr] \<le> ROAR_STACK_SIZE" by code_simp+
  from stack_lifo [OF this] show ?thesis by (auto simp: numeral_3_eq_3)
qed

lemma for_up_collect: "for_up n (\<lambda>i l. l @ [f (nat i)]) [] = map f [0..<n]"
  by (induction n) auto

text \<open>A stack from \<open>roar_stack_newalloc\<close> owns itself and its elements: freeing it hands every held
  element, bottom first, to the release function and releases the structure. Clearing the data flag
  first (\<open>roar_stack_set_flag\<close> with \<open>reset\<close>) leaves the elements alone.\<close>

theorem stack_free_releases:
  assumes "roar_stack_newalloc libc_free mem = Some s0" "libc_free \<noteq> NULL" "stack_ok s"
    and "st_flags s = st_flags s0" "st_free s = st_free s0"
  shows "roar_stack_free (Some s) = (0, None, map (Pair libc_free) (rev (stack_content s)))
    \<and> roar_stack_free (snd (roar_stack_set_flag (Some s) FLAG_FREE_DATA True)) = (0, None, [])"
proof -
  have s: "st_flags s = 3" "st_free s = libc_free"
    using assms(1,4,5) by (auto simp: roar_stack_newalloc_def roar_stack_new_def roar_stack_set_flag_def
      stack_zero_def FLAG_FREE_SELF_def FLAG_FREE_DATA_def split: option.splits)
  have "map (\<lambda>i. (libc_free, st_slot s ! i)) [0..<nat (st_next s)] = map (Pair libc_free) (take (nat (st_next s)) (st_slot s))"
    using assms(3) by (intro nth_equalityI) (auto simp: stack_ok_def)
  then show ?thesis
    using s assms(2) for_up_collect [of "nat (st_next s)" "\<lambda>i. (libc_free, st_slot s ! i)"]
    by (simp add: roar_stack_free_def roar_stack_set_flag_def FLAG_FREE_SELF_def FLAG_FREE_DATA_def stack_content_def Let_def)
qed

theorem stack_free_releases_witness:
  "snd (snd (roar_stack_free (Some (stack_zero\<lparr>st_next := 2, st_flags := 3, st_free := 9, st_slot := [50, 60] @ replicate 30 0\<rparr>))))
    = [(9, 50), (9, 60)]"
proof -
  let ?s = "stack_zero\<lparr>st_next := 2, st_flags := 3, st_free := 9, st_slot := [50, 60] @ replicate 30 0\<rparr>"
  let ?new = "stack_zero\<lparr>st_flags := 3, st_free := 9\<rparr>"
  have a: "roar_stack_newalloc 9 (Some stack_zero) = Some ?new"
    by (simp add: roar_stack_newalloc_def roar_stack_new_def roar_stack_set_flag_def stack_zero_def FLAG_FREE_SELF_def FLAG_FREE_DATA_def)
  have b: "stack_ok ?s"
    by (simp add: stack_ok_def stack_zero_def ROAR_STACK_SIZE_def)
  have c: "rev (stack_content ?s) = [50, 60]" by (simp add: stack_content_def stack_zero_def)
  show ?thesis using stack_free_releases [OF a _ b] c by simp
qed

end
