(* ===== verification/Roar_Buffer.thy ===== *)
theory Roar_Buffer
  imports Memory_Model "HOL-Library.Monad_Syntax"
begin

text \<open>
  Buffers and buffer rings, \<open>src/libroar/buffer.c\<close>. A buffer is a node on the heap with a data block,
  the window of the block the user sees, flags, meta data and the next buffer of its chain. The heap
  holds the nodes by address, the bytes, the allocated data blocks with their sizes, and an allocator
  that hands out increasing addresses while allocations are left. Every operation is partial:
  \<open>None\<close> is an access to a node that is not allocated, a release of a block that is not allocated, or a
  loop that does not end, and the loops over a chain are partial functions. A \<open>size_t\<close> is an
  integer reduced modulo \<open>2 ^ 64\<close> where the source subtracts.

  The union \<open>meta\<close> is its two 64 bit words: \<open>vp\<close>, \<open>i32\<close> and \<open>ring.read_pos\<close> overlay the first,
  \<open>ring.write_pos\<close> is the second.
\<close>

unbundle bit_operations_syntax

record roar_buffer =
  rb_len :: int
  rb_user_len :: int
  rb_flags :: "32 word"
  rb_data :: ptr
  rb_user_data :: ptr
  rb_meta0 :: int
  rb_meta1 :: int
  rb_next :: ptr

record heap =
  bh_bufs :: "ptr \<rightharpoonup> roar_buffer"
  bh_mem :: mem
  bh_blocks :: "ptr \<rightharpoonup> int"
  bh_brk :: ptr
  bh_left :: nat

definition FLAG_NOFREE :: "32 word" where "FLAG_NOFREE = 1"
definition FLAG_RING :: "32 word" where "FLAG_RING = 2"
definition FLAG_FREE_RUNNING :: "32 word" where "FLAG_FREE_RUNNING = 4"

subsection \<open>The allocator\<close>

definition mm_malloc :: "heap \<Rightarrow> int \<Rightarrow> ptr \<times> heap" where
  "mm_malloc h n =
     (if bh_left h = 0 then (NULL, h)
      else (bh_brk h, h\<lparr>bh_blocks := (bh_blocks h)(bh_brk h \<mapsto> n), bh_brk := bh_brk h + n + 1, bh_left := bh_left h - 1\<rparr>))"

definition mm_free :: "heap \<Rightarrow> ptr \<Rightarrow> heap option" where
  "mm_free h p =
     (if p = NULL then Some h
      else case bh_blocks h p of None \<Rightarrow> None
        | Some _ \<Rightarrow> Some (h\<lparr>bh_blocks := (bh_blocks h)(p := None)\<rparr>))"

definition mm_realloc :: "heap \<Rightarrow> ptr \<Rightarrow> int \<Rightarrow> (ptr \<times> heap) option" where
  "mm_realloc h p n =
     (case bh_blocks h p of None \<Rightarrow> None
      | Some old \<Rightarrow>
        let (q, h') = mm_malloc h n in
        if q = NULL then Some (NULL, h)
        else Some (q, h'\<lparr>bh_mem := memcpy (bh_mem h') q p (min old n), bh_blocks := (bh_blocks h')(p := None)\<rparr>))"

text \<open>A node: its allocation, its release, an access to a field.\<close>

definition node_new :: "heap \<Rightarrow> roar_buffer \<Rightarrow> ptr \<times> heap" where
  "node_new h b =
     (if bh_left h = 0 then (NULL, h)
      else (bh_brk h, h\<lparr>bh_bufs := (bh_bufs h)(bh_brk h \<mapsto> b), bh_brk := bh_brk h + 64, bh_left := bh_left h - 1\<rparr>))"

definition node_free :: "heap \<Rightarrow> ptr \<Rightarrow> heap option" where
  "node_free h p = (case bh_bufs h p of None \<Rightarrow> None | Some _ \<Rightarrow> Some (h\<lparr>bh_bufs := (bh_bufs h)(p := None)\<rparr>))"

definition node_set :: "heap \<Rightarrow> ptr \<Rightarrow> roar_buffer \<Rightarrow> heap" where
  "node_set h p b = h\<lparr>bh_bufs := (bh_bufs h)(p \<mapsto> b)\<rparr>"

subsection \<open>Fields\<close>

definition roar_buffer_set_flag :: "heap \<Rightarrow> ptr \<Rightarrow> 32 word \<Rightarrow> bool \<Rightarrow> (c_int \<times> heap) option" where
  "roar_buffer_set_flag h buf flag reset =
     (if buf = NULL then Some (-1, h)
      else do {
        b \<leftarrow> bh_bufs h buf;
        let fl = rb_flags b OR flag;
        let fl = (if reset then fl - flag else fl);
        Some (0, node_set h buf (b\<lparr>rb_flags := fl\<rparr>))
      })"

definition roar_buffer_get_flag :: "heap \<Rightarrow> ptr \<Rightarrow> 32 word \<Rightarrow> c_int option" where
  "roar_buffer_get_flag h buf flag =
     (if buf = NULL then Some (-1) else do { b \<leftarrow> bh_bufs h buf; Some (sint (rb_flags b AND flag)) })"

definition roar_buffer_get_data :: "heap \<Rightarrow> ptr \<Rightarrow> (c_int \<times> ptr option) option" where
  "roar_buffer_get_data h buf =
     (if buf = NULL then Some (-1, None) else do { b \<leftarrow> bh_bufs h buf; Some (0, Some (rb_user_data b)) })"

definition roar_buffer_get_len :: "heap \<Rightarrow> ptr \<Rightarrow> (c_int \<times> int option) option" where
  "roar_buffer_get_len h buf =
     (if buf = NULL then Some (-1, None) else do { b \<leftarrow> bh_bufs h buf; Some (0, Some (rb_user_len b)) })"

definition roar_buffer_get_next :: "heap \<Rightarrow> ptr \<Rightarrow> (c_int \<times> ptr option) option" where
  "roar_buffer_get_next h buf =
     (if buf = NULL then Some (-1, None) else do { b \<leftarrow> bh_bufs h buf; Some (0, Some (rb_next b)) })"

definition roar_buffer_set_offset :: "heap \<Rightarrow> ptr \<Rightarrow> int \<Rightarrow> (c_int \<times> heap) option" where
  "roar_buffer_set_offset h buf off =
     (if buf = NULL then Some (-1, h)
      else do {
        b \<leftarrow> bh_bufs h buf;
        Some (0, node_set h buf (b\<lparr>rb_user_len := wrap_u 64 (rb_user_len b - off), rb_user_data := rb_user_data b + off\<rparr>))
      })"

definition roar_buffer_set_meta :: "heap \<Rightarrow> ptr \<Rightarrow> int \<Rightarrow> (c_int \<times> heap) option" where
  "roar_buffer_set_meta h buf meta =
     (if buf = NULL then Some (-1, h)
      else do { b \<leftarrow> bh_bufs h buf; Some (0, node_set h buf (b\<lparr>rb_meta0 := wrap_u 64 meta\<rparr>)) })"

definition roar_buffer_get_meta :: "heap \<Rightarrow> ptr \<Rightarrow> bool \<Rightarrow> (c_int \<times> int option) option" where
  "roar_buffer_get_meta h buf want =
     (if buf = NULL \<or> \<not> want then Some (-1, None) else do { b \<leftarrow> bh_bufs h buf; Some (0, Some (rb_meta0 b)) })"

definition roar_buffer_set_meta_i32 :: "heap \<Rightarrow> ptr \<Rightarrow> int \<Rightarrow> (c_int \<times> heap) option" where
  "roar_buffer_set_meta_i32 h buf meta =
     (if buf = NULL then Some (-1, h)
      else do {
        b \<leftarrow> bh_bufs h buf;
        Some (0, node_set h buf (b\<lparr>rb_meta0 := rb_meta0 b - rb_meta0 b mod 2 ^ 32 + wrap_u 32 meta\<rparr>))
      })"

definition roar_buffer_get_meta_i32 :: "heap \<Rightarrow> ptr \<Rightarrow> bool \<Rightarrow> (c_int \<times> int option) option" where
  "roar_buffer_get_meta_i32 h buf want =
     (if buf = NULL \<or> \<not> want then Some (-1, None) else do { b \<leftarrow> bh_bufs h buf; Some (0, Some (wrap_s 32 (rb_meta0 b))) })"

definition roar_buffer_set_len :: "heap \<Rightarrow> ptr \<Rightarrow> int \<Rightarrow> (c_int \<times> heap) option" where
  "roar_buffer_set_len h buf len =
     (if buf = NULL then Some (-1, h)
      else do {
        b \<leftarrow> bh_bufs h buf;
        let b = (if len \<noteq> 0 \<and> rb_user_len b = 0 then b\<lparr>rb_user_data := rb_data b, rb_user_len := rb_len b\<rparr> else b);
        let h = node_set h buf b;
        if len > rb_user_len b then
          if rb_flags b AND FLAG_NOFREE \<noteq> 0 then Some (-1, h)
          else do {
            let totlen = wrap_u 64 (rb_len b - rb_user_len b + len);
            (newbuf, h') \<leftarrow> mm_realloc h (rb_data b) totlen;
            if newbuf = NULL then Some (-1, h')
            else Some (0, node_set h' buf (b\<lparr>rb_data := newbuf, rb_user_len := len\<rparr>))
          }
        else Some (0, node_set h buf (b\<lparr>rb_user_len := len\<rparr>))
      })"

subsection \<open>Creation and release\<close>

text \<open>The second component of a result is what \<open>*buf\<close> holds afterwards, \<open>None\<close> when it is not assigned;
  \<open>want\<close> says that the pointer \<open>buf\<close> itself is not null.\<close>

definition roar_buffer_new_no_ma :: "heap \<Rightarrow> bool \<Rightarrow> int \<Rightarrow> ptr \<Rightarrow> (c_int \<times> ptr option \<times> heap) option" where
  "roar_buffer_new_no_ma h want len dat =
     (if \<not> want \<or> dat = NULL then Some (-1, None, h)
      else let (new, h') = node_new h \<lparr>rb_len = len, rb_user_len = len, rb_flags = FLAG_NOFREE, rb_data = dat,
                 rb_user_data = dat, rb_meta0 = 0, rb_meta1 = 0, rb_next = NULL\<rparr>
           in if new = NULL then Some (-1, Some NULL, h') else Some (0, Some new, h'))"

partial_function (option) roar_buffer_free_loop :: "heap \<Rightarrow> ptr \<Rightarrow> heap option" where
  "roar_buffer_free_loop h buf = do {
     b \<leftarrow> bh_bufs h buf;
     let nxt = rb_next b;
     fl \<leftarrow> roar_buffer_get_flag h buf FLAG_NOFREE;
     h1 \<leftarrow> (if fl \<noteq> 1 then mm_free h (rb_data b) else Some h);
     h2 \<leftarrow> node_free h1 buf;
     if nxt \<noteq> NULL then roar_buffer_free_loop h2 nxt else Some h2
   }"

definition roar_buffer_free :: "heap \<Rightarrow> ptr \<Rightarrow> (c_int \<times> heap) option" where
  "roar_buffer_free h buf =
     (if buf = NULL then Some (-1, h) else do { h' \<leftarrow> roar_buffer_free_loop h buf; Some (0, h') })"

definition roar_buffer_delete :: "heap \<Rightarrow> ptr \<Rightarrow> bool \<Rightarrow> (c_int \<times> ptr option \<times> heap) option" where
  "roar_buffer_delete h buf want =
     (if buf = NULL then Some (-1, if want then Some NULL else None, h)
      else do {
        b \<leftarrow> bh_bufs h buf;
        fl \<leftarrow> roar_buffer_get_flag h buf FLAG_NOFREE;
        h1 \<leftarrow> (if fl \<noteq> 1 then mm_free h (rb_data b) else Some h);
        h2 \<leftarrow> node_free h1 buf;
        Some (0, if want then Some (rb_next b) else None, h2)
      })"

definition roar_buffer_new_data :: "heap \<Rightarrow> bool \<Rightarrow> int \<Rightarrow> (c_int \<times> ptr option \<times> ptr \<times> heap) option" where
  "roar_buffer_new_data h want len =
     (let (bufdata, h) = mm_malloc h len in
      if bufdata = NULL then Some (-1, None, NULL, h)
      else do {
        (r, new, h) \<leftarrow> roar_buffer_new_no_ma h want len bufdata;
        if r = -1 then do { h \<leftarrow> mm_free h bufdata; Some (-1, new, NULL, h) }
        else do {
          (r, h) \<leftarrow> roar_buffer_set_flag h (the new) FLAG_NOFREE True;
          if r = -1 then do {
            (_, h) \<leftarrow> roar_buffer_free h (the new);
            h \<leftarrow> mm_free h bufdata;
            Some (-1, new, NULL, h)
          }
          else Some (0, new, bufdata, h)
        }
      })"

definition roar_buffer_new :: "heap \<Rightarrow> bool \<Rightarrow> int \<Rightarrow> (c_int \<times> ptr option \<times> heap) option" where
  "roar_buffer_new h want len = do {
     (r, new, _, h) \<leftarrow> roar_buffer_new_data h want len;
     Some (r, new, h)
   }"

subsection \<open>Chains\<close>

text \<open>The walk to the last buffer; meeting \<open>next\<close> on the way is reported but does not end the walk.\<close>

partial_function (option) roar_buffer_last :: "heap \<Rightarrow> ptr \<Rightarrow> ptr option" where
  "roar_buffer_last h buf = do {
     b \<leftarrow> bh_bufs h buf;
     if rb_next b \<noteq> NULL then roar_buffer_last h (rb_next b) else Some buf
   }"

definition roar_buffer_add :: "heap \<Rightarrow> ptr \<Rightarrow> ptr \<Rightarrow> (c_int \<times> heap) option" where
  "roar_buffer_add h buf nxt =
     (if buf = NULL then Some (-1, h)
      else do {
        b \<leftarrow> bh_bufs h buf;
        if rb_flags b AND FLAG_RING \<noteq> 0 then Some (-1, h)
        else if buf = nxt then Some (-1, h)
        else do {
          lst \<leftarrow> roar_buffer_last h buf;
          bl \<leftarrow> bh_bufs h lst;
          Some (0, node_set h lst (bl\<lparr>rb_next := nxt\<rparr>))
        }
      })"

text \<open>The loop of \<open>roar_buffer_shift_out\<close>. The result is the return value, what is left of the chain
  (\<open>*buf\<close>), the byte count (\<open>*len\<close>) and the heap.\<close>

partial_function (option) shift_out_loop ::
  "heap \<Rightarrow> ptr \<Rightarrow> ptr \<Rightarrow> int \<Rightarrow> int \<Rightarrow> (c_int \<times> ptr \<times> int \<times> heap) option" where
  "shift_out_loop h cur dat todo len =
     (if todo = 0 \<or> cur = NULL then Some (0, cur, len, h)
      else do {
        (_, clo) \<leftarrow> roar_buffer_get_len h cur;
        let cl = the clo;
        (_, cdo) \<leftarrow> roar_buffer_get_data h cur;
        let cd = the cdo;
        if cl > todo then do {
          let h1 = h\<lparr>bh_mem := memcpy (bh_mem h) dat cd todo\<rparr>;
          (_, h2) \<leftarrow> roar_buffer_set_offset h1 cur todo;
          shift_out_loop h2 cur (dat + todo) (todo - todo) (len + todo)
        }
        else do {
          let h1 = h\<lparr>bh_mem := memcpy (bh_mem h) dat cd cl\<rparr>;
          (_, nxt, h2) \<leftarrow> roar_buffer_delete h1 cur True;
          shift_out_loop h2 (the nxt) (dat + cl) (todo - cl) (len + cl)
        }
      })"

definition roar_buffer_shift_out ::
  "heap \<Rightarrow> ptr option \<Rightarrow> ptr \<Rightarrow> int option \<Rightarrow> (c_int \<times> ptr option \<times> int option \<times> heap) option" where
  "roar_buffer_shift_out h buf dat len =
     (if len = None \<or> buf = None \<or> dat = NULL then Some (-1, buf, len, h)
      else if the buf = NULL then Some (-1, buf, len, h)
      else do {
        (r, cur, n, h) \<leftarrow> shift_out_loop h (the buf) dat (the len) 0;
        Some (r, Some cur, Some n, h)
      })"

text \<open>The loop of \<open>roar_buffer_duplicate\<close>; \<open>copy\<close> is \<open>*copy\<close>.\<close>

partial_function (option) duplicate_loop :: "heap \<Rightarrow> ptr \<Rightarrow> ptr \<Rightarrow> (c_int \<times> ptr \<times> heap) option" where
  "duplicate_loop h cur copy =
     (if cur = NULL then Some (0, copy, h)
      else do {
        b \<leftarrow> bh_bufs h cur;
        (r, new, h1) \<leftarrow> roar_buffer_new h True (rb_user_len b);
        if r = -1 then do { (_, h2) \<leftarrow> roar_buffer_free h1 copy; Some (-1, copy, h2) }
        else do {
          let copy = (if copy = NULL then the new else copy);
          (_, od) \<leftarrow> roar_buffer_get_data h1 cur;
          (_, nd) \<leftarrow> roar_buffer_get_data h1 (the new);
          let h2 = h1\<lparr>bh_mem := memcpy (bh_mem h1) (the nd) (the od) (rb_user_len b)\<rparr>;
          (_, h3) \<leftarrow> roar_buffer_add h2 copy (the new);
          b' \<leftarrow> bh_bufs h3 cur;
          duplicate_loop h3 (rb_next b') copy
        }
      })"

definition roar_buffer_duplicate :: "heap \<Rightarrow> ptr \<Rightarrow> (c_int \<times> ptr \<times> heap) option" where
  "roar_buffer_duplicate h buf = duplicate_loop h buf NULL"

record roar_buffer_stats =
  bs_parts :: int
  bs_bytes :: int
  bs_memory_usage :: int

partial_function (option) ring_stats_loop :: "heap \<Rightarrow> ptr \<Rightarrow> roar_buffer_stats \<Rightarrow> roar_buffer_stats option" where
  "ring_stats_loop h buf stats =
     (if buf = NULL then Some stats
      else do {
        b \<leftarrow> bh_bufs h buf;
        ring_stats_loop h (rb_next b) \<lparr>bs_parts = wrap_s 32 (bs_parts stats + 1),
          bs_bytes = wrap_s 32 (bs_bytes stats + rb_user_len b),
          bs_memory_usage = wrap_s 32 (bs_memory_usage stats + rb_len b + 64)\<rparr>
      })"

definition roar_buffer_ring_stats :: "heap \<Rightarrow> ptr \<Rightarrow> (c_int \<times> roar_buffer_stats option) option" where
  "roar_buffer_ring_stats h buf =
     (if buf = NULL then Some (-1, None)
      else do {
        s \<leftarrow> ring_stats_loop h buf \<lparr>bs_parts = 0, bs_bytes = 0, bs_memory_usage = 0\<rparr>;
        Some (0, Some s)
      })"

subsection \<open>Rings\<close>

definition roar_buffer_ring_new :: "heap \<Rightarrow> bool \<Rightarrow> int \<Rightarrow> bool \<Rightarrow> (c_int \<times> ptr option \<times> heap) option" where
  "roar_buffer_ring_new h want len free_running =
     (if \<not> want \<or> len = 0 then Some (-1, None, h)
      else if \<not> free_running then Some (-1, Some NULL, h)
      else do {
        (r, n, h) \<leftarrow> roar_buffer_new h True len;
        if r = -1 then Some (-1, Some NULL, h)
        else do {
          b \<leftarrow> bh_bufs h (the n);
          let fl = rb_flags b OR FLAG_RING;
          let fl = (if free_running then fl OR FLAG_FREE_RUNNING else fl);
          let b = b\<lparr>rb_flags := fl, rb_meta0 := 0, rb_meta1 := 0\<rparr>;
          let h = (node_set h (the n) b)\<lparr>bh_mem := memset (bh_mem h) (rb_data b) 0 (rb_len b)\<rparr>;
          Some (0, n, h)
        }
      })"

definition roar_buffer_ring_read :: "heap \<Rightarrow> ptr \<Rightarrow> ptr \<Rightarrow> int option \<Rightarrow> (c_int \<times> heap) option" where
  "roar_buffer_ring_read h buf dat len =
     (if buf = NULL \<or> len = None then Some (-1, h)
      else if dat = NULL \<and> the len \<noteq> 0 then Some (-1, h)
      else do {
        b \<leftarrow> bh_bufs h buf;
        let n = the len;
        if rb_flags b AND FLAG_RING = 0 then Some (-1, h)
        else if n = 0 then Some (0, h)
        else if n > rb_user_len b then Some (-1, h)
        else do {
          let u = rb_user_len b;
          let r = (if rb_meta0 b \<ge> u then rb_meta0 b - u else rb_meta0 b);
          if wrap_u 64 (n + r) > u then do {
            let m = memcpy (bh_mem h) dat (rb_user_data b + r) (wrap_u 64 (u - r));
            let m = memcpy m dat (rb_user_data b) (wrap_u 64 (n + r - u));
            Some (0, (node_set h buf (b\<lparr>rb_meta0 := wrap_u 64 (r + n - u)\<rparr>))\<lparr>bh_mem := m\<rparr>)
          }
          else
            Some (0, (node_set h buf (b\<lparr>rb_meta0 := wrap_u 64 (r + n)\<rparr>))
              \<lparr>bh_mem := memcpy (bh_mem h) dat (rb_user_data b + r) n\<rparr>)
        }
      })"

definition roar_buffer_ring_write :: "heap \<Rightarrow> ptr \<Rightarrow> ptr \<Rightarrow> int option \<Rightarrow> (c_int \<times> heap) option" where
  "roar_buffer_ring_write h buf dat len =
     (if buf = NULL \<or> len = None then Some (-1, h)
      else if dat = NULL \<and> the len \<noteq> 0 then Some (-1, h)
      else do {
        b \<leftarrow> bh_bufs h buf;
        let n = the len;
        if rb_flags b AND FLAG_RING = 0 then Some (-1, h)
        else if n = 0 then Some (0, h)
        else if n > rb_user_len b then Some (-1, h)
        else do {
          let u = rb_user_len b;
          let w = (if rb_meta1 b \<ge> u then rb_meta1 b - u else rb_meta1 b);
          if wrap_u 64 (n + w) > u then do {
            let m = memcpy (bh_mem h) (rb_user_data b + w) dat (wrap_u 64 (u - w));
            let m = memcpy m (rb_user_data b) dat (wrap_u 64 (n + w - u));
            Some (0, (node_set h buf (b\<lparr>rb_meta1 := wrap_u 64 (w + n - u)\<rparr>))\<lparr>bh_mem := m\<rparr>)
          }
          else
            Some (0, (node_set h buf (b\<lparr>rb_meta1 := wrap_u 64 (w + n)\<rparr>))
              \<lparr>bh_mem := memcpy (bh_mem h) (rb_user_data b + w) dat n\<rparr>)
        }
      })"

subsection \<open>Chains as lists of bytes\<close>

fun chain :: "heap \<Rightarrow> ptr \<Rightarrow> ptr list \<Rightarrow> bool" where
  "chain h p [] \<longleftrightarrow> p = NULL"
| "chain h p (a # as) \<longleftrightarrow> p = a \<and> a \<noteq> NULL \<and> (case bh_bufs h a of None \<Rightarrow> False | Some b \<Rightarrow> chain h (rb_next b) as)"

definition bytes :: "mem \<Rightarrow> ptr \<Rightarrow> int \<Rightarrow> byte list" where
  "bytes m p n = map (\<lambda>i. m (p + int i)) [0..<nat n]"

definition node :: "heap \<Rightarrow> ptr \<Rightarrow> roar_buffer" where
  "node h a = the (bh_bufs h a)"

definition node_bytes :: "heap \<Rightarrow> ptr \<Rightarrow> byte list" where
  "node_bytes h a = bytes (bh_mem h) (rb_user_data (node h a)) (rb_user_len (node h a))"

definition content :: "heap \<Rightarrow> ptr list \<Rightarrow> byte list" where
  "content h as = concat (map (node_bytes h) as)"

text \<open>A buffer whose data block can be released: it is not owned, null, or allocated.\<close>

definition releasable :: "heap \<Rightarrow> roar_buffer \<Rightarrow> bool" where
  "releasable h b \<longleftrightarrow> sint (rb_flags b AND FLAG_NOFREE) = 1 \<or> rb_data b = NULL \<or> bh_blocks h (rb_data b) \<noteq> None"

definition chain_ok :: "heap \<Rightarrow> ptr list \<Rightarrow> bool" where
  "chain_ok h as \<longleftrightarrow> distinct as \<and> distinct (map (\<lambda>a. rb_data (node h a)) as) \<and>
     (\<forall>a \<in> set as. bh_bufs h a \<noteq> None \<and> releasable h (node h a) \<and> 0 \<le> rb_user_len (node h a) \<and> rb_user_len (node h a) < 2 ^ 64)"

text \<open>The windows of the chain lie outside of the \<open>n\<close> bytes at \<open>p\<close>.\<close>

definition windows_apart :: "heap \<Rightarrow> ptr list \<Rightarrow> ptr \<Rightarrow> int \<Rightarrow> bool" where
  "windows_apart h as p n \<longleftrightarrow> (\<forall>a \<in> set as.
     p + n \<le> rb_user_data (node h a) \<or> rb_user_data (node h a) + rb_user_len (node h a) \<le> p)"

lemma bytes_nth [simp]: "i < nat n \<Longrightarrow> bytes m p n ! i = m (p + int i)"
  by (simp add: bytes_def)

lemma bytes_length [simp]: "length (bytes m p n) = nat n"
  by (simp add: bytes_def)

lemma bytes_0 [simp]: "bytes m p 0 = []"
  by (simp add: bytes_def)

lemma bytes_cong: "(\<And>x. p \<le> x \<Longrightarrow> x < p + n \<Longrightarrow> m x = m' x) \<Longrightarrow> bytes m p n = bytes m' p n"
  by (rule nth_equalityI) auto

lemma bytes_split:
  assumes "0 \<le> k" "k \<le> n"
  shows "bytes m p n = bytes m p k @ bytes m (p + k) (n - k)"
  by (rule nth_equalityI) (use assms in \<open>auto simp: nth_append nat_diff_distrib algebra_simps\<close>)

lemma bytes_memcpy: "bytes (memcpy m d s n) d n = bytes m s n"
  by (rule nth_equalityI) (auto simp: memcpy_def)

lemma memcpy_other: "x < d \<or> d + n \<le> x \<Longrightarrow> memcpy m d s n x = m x"
  by (auto simp: memcpy_def)

lemma chain_cong:
  "(\<And>a. a \<in> set as \<Longrightarrow> bh_bufs h' a = bh_bufs h a) \<Longrightarrow> chain h' p as = chain h p as"
  by (induction as arbitrary: p) (auto split: option.splits)

lemma chain_alloc: "chain h p as \<Longrightarrow> a \<in> set as \<Longrightarrow> bh_bufs h a \<noteq> None"
  by (induction as arbitrary: p) (auto split: option.splits)

lemma node_bytes_cong:
  assumes "bh_bufs h' a = bh_bufs h a"
    and "\<And>x. rb_user_data (node h a) \<le> x \<Longrightarrow> x < rb_user_data (node h a) + rb_user_len (node h a) \<Longrightarrow> bh_mem h' x = bh_mem h x"
  shows "node_bytes h' a = node_bytes h a"
  unfolding node_bytes_def using assms by (auto simp: node_def intro: bytes_cong)

lemma content_cong:
  assumes "\<And>a. a \<in> set as \<Longrightarrow> bh_bufs h' a = bh_bufs h a"
    and "windows_apart h as p n" "\<And>x. x < p \<or> p + n \<le> x \<Longrightarrow> bh_mem h' x = bh_mem h x"
  shows "content h' as = content h as"
proof -
  have "node_bytes h' a = node_bytes h a" if "a \<in> set as" for a
    by (rule node_bytes_cong) (use assms that in \<open>auto simp: windows_apart_def\<close>)
  then show ?thesis by (simp add: content_def cong: map_cong)
qed

text \<open>Removing the first buffer: its node goes, its data block may go, nothing else changes.\<close>

definition drop_node :: "heap \<Rightarrow> ptr \<Rightarrow> heap \<Rightarrow> bool" where
  "drop_node h a h' \<longleftrightarrow> bh_bufs h' = (bh_bufs h)(a := None) \<and> bh_mem h' = bh_mem h \<and> bh_brk h' = bh_brk h \<and>
     bh_left h' = bh_left h \<and> (\<forall>p. p \<noteq> rb_data (node h a) \<longrightarrow> bh_blocks h' p = bh_blocks h p)"

lemma delete_ok:
  assumes "a \<noteq> NULL" "bh_bufs h a = Some b" "releasable h b"
  shows "\<exists>h'. roar_buffer_delete h a True = Some (0, Some (rb_next b), h') \<and> drop_node h a h'"
proof -
  have "\<exists>h1. (if sint (rb_flags b AND FLAG_NOFREE) \<noteq> 1 then mm_free h (rb_data b) else Some h) = Some h1 \<and>
      bh_bufs h1 = bh_bufs h \<and> bh_mem h1 = bh_mem h \<and> bh_brk h1 = bh_brk h \<and> bh_left h1 = bh_left h \<and>
      (\<forall>p. p \<noteq> rb_data b \<longrightarrow> bh_blocks h1 p = bh_blocks h p)"
    using assms(3) by (auto simp: releasable_def mm_free_def)
  then obtain h1 where "(if sint (rb_flags b AND FLAG_NOFREE) \<noteq> 1 then mm_free h (rb_data b) else Some h) = Some h1"
    "bh_bufs h1 = bh_bufs h" "bh_mem h1 = bh_mem h" "bh_brk h1 = bh_brk h" "bh_left h1 = bh_left h"
    "\<forall>p. p \<noteq> rb_data b \<longrightarrow> bh_blocks h1 p = bh_blocks h p" by metis
  then show ?thesis
    using assms(1,2) by (auto simp: roar_buffer_delete_def roar_buffer_get_flag_def node_free_def drop_node_def node_def)
qed

lemma drop_node_chain_ok:
  assumes "chain_ok h (a # as)" "drop_node h a h'"
  shows "chain_ok h' as" "\<And>x. x \<in> set as \<Longrightarrow> bh_bufs h' x = bh_bufs h x"
proof -
  show b: "bh_bufs h' x = bh_bufs h x" if "x \<in> set as" for x
    using that assms by (auto simp: chain_ok_def drop_node_def)
  then have n: "node h' x = node h x" if "x \<in> set as" for x using that by (simp add: node_def)
  have "releasable h' (node h x)" if "x \<in> set as" for x
  proof -
    have "rb_data (node h x) \<noteq> rb_data (node h a)" using assms(1) that by (auto simp: chain_ok_def image_iff)
    then show ?thesis using assms that by (auto simp: releasable_def drop_node_def chain_ok_def)
  qed
  moreover have "distinct (map (\<lambda>a. rb_data (node h' a)) as)" using n assms(1) by (simp add: chain_ok_def cong: map_cong)
  ultimately show "chain_ok h' as" using assms(1) b n by (auto simp: chain_ok_def)
qed

subsection \<open>Shifting data out\<close>

text \<open>What a call that moves \<open>k\<close> bytes from the front of a chain to \<open>dat\<close> leaves behind: the buffers
  that stay are buffers of the chain with a window that ends where it ended.\<close>

definition trimmed :: "heap \<Rightarrow> ptr list \<Rightarrow> heap \<Rightarrow> ptr list \<Rightarrow> bool" where
  "trimmed h as h' as' \<longleftrightarrow> bh_brk h' = bh_brk h \<and> bh_left h' = bh_left h \<and> (\<forall>a \<in> set as'. a \<in> set as \<and>
     rb_flags (node h' a) = rb_flags (node h a) \<and> rb_data (node h' a) = rb_data (node h a) \<and>
     rb_user_data (node h a) \<le> rb_user_data (node h' a) \<and>
     rb_user_data (node h' a) + rb_user_len (node h' a) = rb_user_data (node h a) + rb_user_len (node h a))"

lemma trimmed_trans: "trimmed h as h1 as1 \<Longrightarrow> trimmed h1 as1 h2 as2 \<Longrightarrow> trimmed h as h2 as2"
  by (fastforce simp: trimmed_def)

definition shifted :: "heap \<Rightarrow> ptr list \<Rightarrow> ptr \<Rightarrow> nat \<Rightarrow> heap \<Rightarrow> ptr \<Rightarrow> bool" where
  "shifted h as dat k h' cur' \<longleftrightarrow> (\<exists>as'. chain h' cur' as' \<and> chain_ok h' as' \<and> content h' as' = drop k (content h as) \<and> trimmed h as h' as') \<and>
     bytes (bh_mem h') dat (int k) = take k (content h as) \<and> (\<forall>x. x < dat \<or> dat + int k \<le> x \<longrightarrow> bh_mem h' x = bh_mem h x)"

lemma shifted_0: "chain h p as \<Longrightarrow> chain_ok h as \<Longrightarrow> shifted h as dat 0 h p"
  by (auto simp: shifted_def trimmed_def)

lemma content_Cons: "content h (a # as) = node_bytes h a @ content h as"
  by (simp add: content_def)

lemma node_bytes_length: "length (node_bytes h a) = nat (rb_user_len (node h a))"
  by (simp add: node_bytes_def)

text \<open>The two branches of the loop body.\<close>

lemma shift_part:
  assumes "chain h p (a # as)" "chain_ok h (a # as)" "windows_apart h (a # as) dat n" "0 < n" "n < rb_user_len (node h a)"
    and "b = node h a" "h1 = h\<lparr>bh_mem := memcpy (bh_mem h) dat (rb_user_data b) n\<rparr>"
    and "h2 = node_set h1 a (b\<lparr>rb_user_len := wrap_u 64 (rb_user_len b - n), rb_user_data := rb_user_data b + n\<rparr>)"
  shows "shifted h (a # as) dat (nat n) h2 a"
proof -
  have len: "rb_user_len b < 2 ^ 64" "n < rb_user_len b" using assms(2,5,6) by (auto simp: chain_ok_def)
  then have w: "wrap_u 64 (rb_user_len b - n) = rb_user_len b - n" using assms(4) by (intro wrap_u_id) auto
  have a: "bh_bufs h a = Some b" "a \<notin> set as" using assms(1,2,6) by (auto simp: node_def chain_ok_def split: option.splits)
  have mem2: "bh_mem h2 = memcpy (bh_mem h) dat (rb_user_data b) n" by (simp add: assms(7,8) node_set_def)
  have blocks: "bh_blocks h2 = bh_blocks h" by (simp add: assms(7,8) node_set_def)
  have bufs: "bh_bufs h2 x = (if x = a then Some (b\<lparr>rb_user_len := rb_user_len b - n, rb_user_data := rb_user_data b + n\<rparr>) else bh_bufs h x)" for x
    by (simp add: assms(7,8) node_set_def w)
  have rest: "x \<in> set as \<Longrightarrow> bh_bufs h2 x = bh_bufs h x" for x using a(2) by (auto simp: bufs)
  have out: "x < dat \<or> dat + n \<le> x \<Longrightarrow> bh_mem h2 x = bh_mem h x" for x by (simp add: mem2 memcpy_other)
  have ch: "chain h2 a (a # as)"
    using assms(1) a chain_cong [of as h2 h "rb_next b"] rest by (auto simp: bufs split: option.splits)
  have nodes: "node h2 x = (if x = a then b\<lparr>rb_user_len := rb_user_len b - n, rb_user_data := rb_user_data b + n\<rparr> else node h x)" for x
    by (simp add: node_def bufs)
  have "map (\<lambda>a. rb_data (node h2 a)) (a # as) = map (\<lambda>a. rb_data (node h a)) (a # as)"
    using assms(6) by (auto simp: nodes)
  moreover have "distinct (map (\<lambda>a. rb_data (node h a)) (a # as))" using assms(2) unfolding chain_ok_def by blast
  ultimately have d: "distinct (map (\<lambda>a. rb_data (node h2 a)) (a # as))" by (simp only:)
  have "releasable h2 (node h2 x)" if "x \<in> set (a # as)" for x
    using assms(2,6) that by (auto simp: chain_ok_def releasable_def nodes blocks)
  then have ok: "chain_ok h2 (a # as)"
    unfolding chain_ok_def using d assms(2,4,6) len
    by (intro conjI ballI) (auto simp: chain_ok_def bufs nodes simp del: list.map)
  have win: "rb_user_data b + rb_user_len b \<le> dat \<or> dat + n \<le> rb_user_data b"
    using assms(3,6) by (auto simp: windows_apart_def)
  have "bytes (bh_mem h) (rb_user_data b) (rb_user_len b) = bytes (bh_mem h) (rb_user_data b) n @ bytes (bh_mem h) (rb_user_data b + n) (rb_user_len b - n)"
    by (rule bytes_split) (use assms(4) len in auto)
  then have nb: "node_bytes h a = bytes (bh_mem h) (rb_user_data b) n @ bytes (bh_mem h) (rb_user_data b + n) (rb_user_len b - n)"
    by (simp add: node_bytes_def assms(6))
  have "node_bytes h2 a = bytes (bh_mem h) (rb_user_data b + n) (rb_user_len b - n)"
    unfolding node_bytes_def nodes by (simp, rule bytes_cong, rule out) (use win assms(4) len in auto)
  moreover have "content h2 as = content h as"
    by (rule content_cong [OF rest _ out]) (use assms(3) in \<open>auto simp: windows_apart_def\<close>)
  ultimately have "content h2 (a # as) = drop (nat n) (content h (a # as))" by (simp add: content_Cons nb)
  moreover have "bytes (bh_mem h2) dat n = take (nat n) (content h (a # as))" by (simp add: mem2 bytes_memcpy content_Cons nb)
  moreover have "trimmed h (a # as) h2 (a # as)"
    using assms(4,6) len by (auto simp: trimmed_def nodes) (simp_all add: assms(7,8) node_set_def)
  ultimately show ?thesis
    unfolding shifted_def using ch ok out assms(4) by (intro conjI exI [of _ "a # as"]) auto
qed

lemma shift_whole:
  assumes "chain h p (a # as)" "chain_ok h (a # as)" "windows_apart h (a # as) dat n" "rb_user_len (node h a) \<le> n"
    and "b = node h a" "h1 = h\<lparr>bh_mem := memcpy (bh_mem h) dat (rb_user_data b) (rb_user_len b)\<rparr>" "drop_node h1 a h2"
  shows "chain h2 (rb_next b) as" "chain_ok h2 as" "content h2 as = content h as"
    "windows_apart h2 as (dat + rb_user_len b) (n - rb_user_len b)"
    "bytes (bh_mem h2) dat (rb_user_len b) = node_bytes h a"
    "\<And>x. x < dat \<or> dat + rb_user_len b \<le> x \<Longrightarrow> bh_mem h2 x = bh_mem h x"
    "trimmed h (a # as) h2 as"
proof -
  have len: "0 \<le> rb_user_len b" using assms(2,5) by (auto simp: chain_ok_def)
  have h1: "bh_bufs h1 = bh_bufs h" "node h1 = node h" "bh_blocks h1 = bh_blocks h" by (auto simp: assms(6) node_def fun_eq_iff)
  then have "chain_ok h1 (a # as)" using assms(2) by (simp add: chain_ok_def releasable_def)
  then have ok: "chain_ok h2 as" "\<And>x. x \<in> set as \<Longrightarrow> bh_bufs h2 x = bh_bufs h x"
    using drop_node_chain_ok [OF _ assms(7)] h1 by auto
  then have nodes: "x \<in> set as \<Longrightarrow> node h2 x = node h x" for x by (simp add: node_def)
  have mem2: "bh_mem h2 = memcpy (bh_mem h) dat (rb_user_data b) (rb_user_len b)"
    using assms(6,7) by (simp add: drop_node_def)
  show "chain_ok h2 as" by (rule ok)
  show "chain h2 (rb_next b) as"
    using assms(1,5) chain_cong [of as h2 h "rb_next b"] ok(2) by (auto simp: node_def split: option.splits)
  show out: "\<And>x. x < dat \<or> dat + rb_user_len b \<le> x \<Longrightarrow> bh_mem h2 x = bh_mem h x" by (simp add: mem2 memcpy_other)
  have "windows_apart h as dat (rb_user_len b)"
    using assms(3-5) by (force simp: windows_apart_def)
  from content_cong [OF ok(2) this out] show "content h2 as = content h as" by blast
  show "windows_apart h2 as (dat + rb_user_len b) (n - rb_user_len b)"
    using assms(3) nodes len by (force simp: windows_apart_def)
  show "bytes (bh_mem h2) dat (rb_user_len b) = node_bytes h a"
    by (simp add: mem2 bytes_memcpy node_bytes_def assms(5))
  show "trimmed h (a # as) h2 as"
    using assms(6,7) nodes by (simp add: trimmed_def drop_node_def)
qed

lemma shifted_whole:
  assumes "content h2 as = content h as" "bytes (bh_mem h2) dat u = node_bytes h a"
    and "\<And>x. x < dat \<or> dat + u \<le> x \<Longrightarrow> bh_mem h2 x = bh_mem h x" "0 \<le> u \<and> rb_user_len (node h a) = u"
    and "shifted h2 as (dat + u) k h' cur'" "n = nat u + k" "trimmed h (a # as) h2 as"
  shows "shifted h (a # as) dat n h' cur'"
proof -
  have n: "int n = u + int k" using assms(4,6) by simp
  have l: "length (node_bytes h a) = nat u" using assms(4) by (simp add: node_bytes_length)
  have h': "\<And>x. x < dat + u \<or> dat + u + int k \<le> x \<Longrightarrow> bh_mem h' x = bh_mem h2 x"
    "bytes (bh_mem h') (dat + u) (int k) = take k (content h as)"
    using assms(1,5) by (auto simp: shifted_def)
  have "bytes (bh_mem h') dat (int n) = bytes (bh_mem h') dat u @ bytes (bh_mem h') (dat + u) (int k)"
    using bytes_split [of u "int n" "bh_mem h'" dat] assms(4) n by simp
  also have "bytes (bh_mem h') dat u = bytes (bh_mem h2) dat u" by (rule bytes_cong) (use h'(1) in auto)
  finally have "bytes (bh_mem h') dat (int n) = take n (content h (a # as))"
    using assms(2,6) h'(2) l by (simp add: content_Cons)
  moreover have "bh_mem h' x = bh_mem h x" if "x < dat \<or> dat + int n \<le> x" for x
    using that h'(1) [of x] assms(3) [of x] assms(4) n by auto
  moreover have "drop n (content h (a # as)) = drop k (content h2 as)" using assms(1,6) l by (simp add: content_Cons)
  ultimately show ?thesis
    using assms(5) trimmed_trans [OF assms(7)] unfolding shifted_def by (fastforce simp del: drop_append take_append)
qed

lemma shift_out_loop_done: "todo = 0 \<or> cur = NULL \<Longrightarrow> shift_out_loop h cur dat todo len = Some (0, cur, len, h)"
  by (subst shift_out_loop.simps) auto

lemma shift_out_loop_ok:
  assumes "chain h cur as" "chain_ok h as" "windows_apart h as dat todo" "0 \<le> todo"
  shows "\<exists>h' cur'. shift_out_loop h cur dat todo len = Some (0, cur', len + int (min (nat todo) (length (content h as))), h')
    \<and> shifted h as dat (min (nat todo) (length (content h as))) h' cur'"
  using assms
proof (induction as arbitrary: h cur dat todo len)
  case Nil
  then show ?case by (auto simp: shift_out_loop_done content_def intro!: shifted_0)
next
  case (Cons a as)
  let ?b = "node h a"
  let ?h1 = "h\<lparr>bh_mem := memcpy (bh_mem h) dat (rb_user_data ?b) (min todo (rb_user_len ?b))\<rparr>"
  have a: "cur = a" "a \<noteq> NULL" "bh_bufs h a = Some ?b" "bh_bufs ?h1 a = Some ?b" "releasable ?h1 ?b" "0 \<le> rb_user_len ?b"
    using Cons.prems by (auto simp: node_def chain_ok_def releasable_def split: option.splits)
  consider "todo = 0" | "0 < todo" "todo < rb_user_len ?b" | "0 < todo" "rb_user_len ?b \<le> todo"
    using Cons.prems(4) by linarith
  then show ?case
  proof cases
    case 1
    then show ?thesis using Cons.prems by (simp add: shift_out_loop_done shifted_0)
  next
    case 2
    let ?h2 = "node_set ?h1 a (?b\<lparr>rb_user_len := wrap_u 64 (rb_user_len ?b - todo), rb_user_data := rb_user_data ?b + todo\<rparr>)"
    have m: "min todo (rb_user_len ?b) = todo" using 2 by simp
    have "shift_out_loop h cur dat todo len = Some (0, a, len + todo, ?h2)"
      using a 2 by (subst shift_out_loop.simps)
        (simp add: roar_buffer_get_len_def roar_buffer_get_data_def roar_buffer_set_offset_def m shift_out_loop_done)
    moreover have "shifted h (a # as) dat (nat todo) ?h2 a"
      by (rule shift_part [OF Cons.prems(1-3) 2 refl _ refl]) (simp add: m)
    moreover have "min (nat todo) (length (content h (a # as))) = nat todo"
      using 2 by (simp add: content_Cons node_bytes_length)
    ultimately show ?thesis using 2 by simp
  next
    case 3
    have m: "min todo (rb_user_len ?b) = rb_user_len ?b" using 3 by simp
    obtain h2 where del: "roar_buffer_delete ?h1 a True = Some (0, Some (rb_next ?b), h2)" "drop_node ?h1 a h2"
      using delete_ok [OF a(2,4,5)] by blast
    note w = shift_whole [OF Cons.prems(1-3) 3(2) refl _ del(2)[unfolded m], OF refl]
    let ?k = "min (nat (todo - rb_user_len ?b)) (length (content h2 as))"
    obtain h' cur' where l: "shift_out_loop h2 (rb_next ?b) (dat + rb_user_len ?b) (todo - rb_user_len ?b) (len + rb_user_len ?b)
        = Some (0, cur', len + rb_user_len ?b + int ?k, h')"
      and s: "shifted h2 as (dat + rb_user_len ?b) ?k h' cur'"
      using Cons.IH [OF w(1,2,4), of "len + rb_user_len ?b"] 3 by auto
    have "shift_out_loop h cur dat todo len = Some (0, cur', len + rb_user_len ?b + int ?k, h')"
      using a 3 del(1) l by (subst shift_out_loop.simps) (simp add: roar_buffer_get_len_def roar_buffer_get_data_def m Let_def)
    moreover have k: "min (nat todo) (length (content h (a # as))) = nat (rb_user_len ?b) + ?k"
    proof -
      have "length (content h (a # as)) = nat (rb_user_len ?b) + length (content h2 as)"
        using w(3) by (simp add: content_Cons node_bytes_length)
      moreover have "nat todo = nat (rb_user_len ?b) + nat (todo - rb_user_len ?b)" using 3 a(6) by simp
      ultimately show ?thesis by (simp only: min_def) simp
    qed
    moreover have "shifted h (a # as) dat (nat (rb_user_len ?b) + ?k) h' cur'"
      by (rule shifted_whole [OF w(3,5,6) _ s refl w(7)]) (use a(6) in auto)
    ultimately show ?thesis using a(6) by (auto simp: k)
  qed
qed

lemma shift_out_shifted:
  assumes "chain h buf as" "chain_ok h as" "buf \<noteq> NULL" "dat \<noteq> NULL" "0 \<le> n" "windows_apart h as dat n"
    and "k = min (nat n) (length (content h as))"
  shows "\<exists>h' buf'. roar_buffer_shift_out h (Some buf) dat (Some n) = Some (0, Some buf', Some (int k), h') \<and> shifted h as dat k h' buf'"
proof -
  obtain h' buf' where "shift_out_loop h buf dat n 0 = Some (0, buf', int k, h')" "shifted h as dat k h' buf'"
    using shift_out_loop_ok [OF assms(1,2,6,5), of 0] assms(7) by auto
  then show ?thesis using assms(3,4) by (auto simp: roar_buffer_shift_out_def)
qed

subsection \<open>Release and concatenation\<close>

lemma free_loop_ok:
  assumes "chain h p as" "chain_ok h as" "as \<noteq> []"
  shows "\<exists>h'. roar_buffer_free_loop h p = Some h' \<and> bh_mem h' = bh_mem h \<and> (\<forall>a. bh_bufs h' a = (if a \<in> set as then None else bh_bufs h a))
    \<and> (\<forall>q. q \<notin> (\<lambda>a. rb_data (node h a)) ` set as \<longrightarrow> bh_blocks h' q = bh_blocks h q)"
  using assms
proof (induction as arbitrary: h p)
  case (Cons a as)
  let ?b = "node h a"
  have a: "p = a" "a \<noteq> NULL" "bh_bufs h a = Some ?b" "releasable h ?b"
    using Cons.prems by (auto simp: node_def chain_ok_def split: option.splits)
  obtain h2 where del: "roar_buffer_delete h a True = Some (0, Some (rb_next ?b), h2)" "drop_node h a h2"
    using delete_ok [OF a(2,3,4)] by blast
  note ok = drop_node_chain_ok [OF Cons.prems(2) del(2)]
  have step: "roar_buffer_free_loop h p = (if rb_next ?b \<noteq> NULL then roar_buffer_free_loop h2 (rb_next ?b) else Some h2)"
    using del(1) a by (subst roar_buffer_free_loop.simps)
      (auto simp: roar_buffer_delete_def Let_def bind_eq_Some_conv roar_buffer_get_flag_def split: option.splits bind_splits)
  have bufs: "bh_bufs h2 = (bh_bufs h)(a := None)" "bh_mem h2 = bh_mem h" "\<And>q. q \<noteq> rb_data ?b \<Longrightarrow> bh_blocks h2 q = bh_blocks h q"
    using del(2) by (simp_all add: drop_node_def)
  have dat: "(\<lambda>x. rb_data (node h2 x)) ` set as = (\<lambda>x. rb_data (node h x)) ` set as"
    using ok(2) by (intro image_cong) (simp_all add: node_def)
  have ch: "chain h2 (rb_next ?b) as"
    using Cons.prems(1) a chain_cong [of as h2 h "rb_next ?b"] ok(2) by auto
  show ?case
  proof (cases as)
    case Nil
    then show ?thesis using step ch bufs by auto
  next
    case (Cons x xs)
    then have "rb_next ?b \<noteq> NULL" using ch by auto
    then obtain h' where "roar_buffer_free_loop h p = Some h'" "bh_mem h' = bh_mem h2"
      "\<forall>x. bh_bufs h' x = (if x \<in> set as then None else bh_bufs h2 x)"
      "\<forall>q. q \<notin> (\<lambda>x. rb_data (node h2 x)) ` set as \<longrightarrow> bh_blocks h' q = bh_blocks h2 q"
      using Cons.IH [OF ch ok(1)] step Cons by auto
    then show ?thesis using bufs unfolding dat by auto
  qed
qed simp

lemma last_ok:
  assumes "chain h p as" "as \<noteq> []"
  shows "roar_buffer_last h p = Some (last as)"
  using assms
proof (induction as arbitrary: p)
  case (Cons a as)
  then obtain b where b: "bh_bufs h a = Some b" "chain h (rb_next b) as" "p = a" by (auto split: option.splits)
  show ?case
  proof (cases as)
    case Nil
    then show ?thesis using b by (subst roar_buffer_last.simps) simp
  next
    case (Cons x xs)
    then have "rb_next b \<noteq> NULL" using b by auto
    then show ?thesis using b Cons.IH [OF b(2)] Cons by (subst roar_buffer_last.simps) simp
  qed
qed simp

lemma chain_link:
  assumes "chain h p as" "as \<noteq> []" "distinct as" "last as = l" "chain h q cs" "l \<notin> set cs"
    and "h' = node_set h l ((node h l)\<lparr>rb_next := q\<rparr>)"
  shows "chain h' p (as @ cs)"
  using assms(1-4)
proof (induction as arbitrary: p)
  case (Cons a as)
  have cs: "chain h' q cs"
    using assms(5) chain_cong [of cs h' h q] assms(6) by (fastforce simp: assms(7) node_set_def)
  obtain b where b: "bh_bufs h a = Some b" "chain h (rb_next b) as" "p = a" "a \<noteq> NULL" using Cons.prems(1) by (auto split: option.splits)
  show ?case
  proof (cases "as = []")
    case True
    then show ?thesis using Cons.prems(4) b cs by (simp add: assms(7) node_set_def)
  next
    case False
    then have "last as = l" "l \<noteq> a" using Cons.prems(3,4) by auto
    then show ?thesis using Cons.IH [OF b(2) False] Cons.prems(3) b by (simp add: assms(7) node_set_def)
  qed
qed simp

text \<open>A link changes no window and no byte.\<close>

lemma link_content:
  assumes "h' = node_set h l ((node h l)\<lparr>rb_next := q\<rparr>)"
  shows "content h' as = content h as"
proof -
  have "node_bytes h' a = node_bytes h a" for a by (simp add: node_bytes_def node_def assms node_set_def)
  then show ?thesis by (simp add: content_def cong: map_cong)
qed

subsection \<open>Duplication\<close>

text \<open>Nodes and windows of a chain lie below the allocator's break.\<close>

definition below :: "heap \<Rightarrow> ptr list \<Rightarrow> bool" where
  "below h as \<longleftrightarrow> (\<forall>a \<in> set as. a < bh_brk h \<and> 0 \<le> rb_user_len (node h a)
     \<and> rb_user_data (node h a) + rb_user_len (node h a) \<le> bh_brk h)"

definition fresh_buffer :: "ptr \<Rightarrow> int \<Rightarrow> roar_buffer" where
  "fresh_buffer dat len = \<lparr>rb_len = len, rb_user_len = len, rb_flags = 0, rb_data = dat, rb_user_data = dat,
     rb_meta0 = 0, rb_meta1 = 0, rb_next = NULL\<rparr>"

lemma buffer_new_data_ok:
  assumes "2 \<le> bh_left h" "0 < bh_brk h" "0 \<le> len"
  shows "roar_buffer_new_data h True len = Some (0, Some (bh_brk h + len + 1), bh_brk h,
    h\<lparr>bh_bufs := (bh_bufs h)(bh_brk h + len + 1 \<mapsto> fresh_buffer (bh_brk h) len),
      bh_blocks := (bh_blocks h)(bh_brk h \<mapsto> len), bh_brk := bh_brk h + len + 65, bh_left := bh_left h - 2\<rparr>)"
  using assms
  by (simp add: roar_buffer_new_data_def mm_malloc_def roar_buffer_new_no_ma_def node_new_def
      roar_buffer_set_flag_def FLAG_NOFREE_def node_set_def fresh_buffer_def Let_def)

lemma buffer_new_ok:
  assumes "2 \<le> bh_left h" "0 < bh_brk h" "0 \<le> len"
  shows "roar_buffer_new h True len = Some (0, Some (bh_brk h + len + 1),
    h\<lparr>bh_bufs := (bh_bufs h)(bh_brk h + len + 1 \<mapsto> fresh_buffer (bh_brk h) len),
      bh_blocks := (bh_blocks h)(bh_brk h \<mapsto> len), bh_brk := bh_brk h + len + 65, bh_left := bh_left h - 2\<rparr>)"
  by (simp add: roar_buffer_new_def buffer_new_data_ok [OF assms])

text \<open>A new buffer at the end of the chain \<open>cs\<close>, filled with the \<open>len\<close> bytes at \<open>src\<close>: what an
  iteration of the duplication and a write to a pipe do.\<close>

definition fill_new :: "heap \<Rightarrow> ptr \<Rightarrow> int \<Rightarrow> heap" where
  "fill_new h src len =
      h\<lparr>bh_bufs := (bh_bufs h)(bh_brk h + len + 1 \<mapsto> fresh_buffer (bh_brk h) len), bh_blocks := (bh_blocks h)(bh_brk h \<mapsto> len),
        bh_brk := bh_brk h + len + 65, bh_left := bh_left h - 2, bh_mem := memcpy (bh_mem h) (bh_brk h) src len\<rparr>"

definition append_new :: "heap \<Rightarrow> ptr \<Rightarrow> int \<Rightarrow> ptr list \<Rightarrow> heap" where
  "append_new h src len cs =
     (if cs = [] then fill_new h src len
      else node_set (fill_new h src len) (last cs) ((node h (last cs))\<lparr>rb_next := bh_brk h + len + 1\<rparr>))"

lemma fill_new_fields:
  "bh_bufs (fill_new h src len) x = (if x = bh_brk h + len + 1
     then Some (fresh_buffer (bh_brk h) (len)) else bh_bufs h x)"
  "bh_mem (fill_new h src len) = memcpy (bh_mem h) (bh_brk h) (src) (len)"
  "bh_brk (fill_new h src len) = bh_brk h + len + 65" "bh_left (fill_new h src len) = bh_left h - 2"
  by (simp_all add: fill_new_def Let_def)

lemma append_new_add:
  assumes "chain h copy cs" "below h cs" "\<forall>c \<in> set cs. rb_flags (node h c) = 0" "0 \<le> len" "0 < bh_brk h"
    and "new = bh_brk h + len + 1"
  shows "roar_buffer_add (fill_new h src len) (if cs = [] then new else copy) new = Some (if cs = [] then -1 else 0, append_new h src len cs)"
proof (cases cs)
  case Nil
  then show ?thesis using assms(4-6) by (simp add: roar_buffer_add_def append_new_def fill_new_fields fresh_buffer_def)
next
  case (Cons c cs')
  have old: "x \<noteq> new \<and> bh_bufs (fill_new h src len) x = bh_bufs h x" if "x \<in> set cs" for x
    using assms(2,4,6) that by (auto simp: below_def fill_new_fields)
  have alloc: "bh_bufs h x = Some (node h x)" if "x \<in> set cs" for x
    using chain_alloc [OF assms(1) that] by (auto simp: node_def)
  have lst: "last cs \<in> set cs" and c: "c \<in> set cs" "copy = c" "c \<noteq> NULL" using Cons assms(1) by auto
  have "chain (fill_new h src len) copy cs" using assms(1) chain_cong [of cs "fill_new h src len" h copy] old by blast
  then have "roar_buffer_last (fill_new h src len) c = Some (last cs)" using last_ok c(2) Cons by blast
  moreover have "append_new h src len cs = node_set (fill_new h src len) (last cs) ((node h (last cs))\<lparr>rb_next := new\<rparr>)"
    using Cons assms(6) by (simp add: append_new_def)
  ultimately have "roar_buffer_add (fill_new h src len) c new = Some (0, append_new h src len cs)"
    using old [OF c(1)] old [OF lst] alloc [OF c(1)] alloc [OF lst] assms(3) c by (simp add: roar_buffer_add_def)
  then show ?thesis using Cons c(2) by simp
qed

text \<open>What an iteration keeps of an existing chain whose last link it does not set, and how the copy grows.\<close>

lemma append_new_keeps:
  assumes "below h as" "set as \<inter> set cs = {}" "0 \<le> len"
  shows "x \<in> set as \<Longrightarrow> bh_bufs (append_new h src len cs) x = bh_bufs h x"
    and "chain (append_new h src len cs) p as = chain h p as" "below (append_new h src len cs) as"
    and "content (append_new h src len cs) as = content h as"
    and "x < bh_brk h \<Longrightarrow> bh_mem (append_new h src len cs) x = bh_mem h x"
    and "bh_brk (append_new h src len cs) = bh_brk h + len + 65" "bh_left (append_new h src len cs) = bh_left h - 2"
proof -
  let ?h = "append_new h src len cs"
  have mem: "bh_mem ?h = bh_mem (fill_new h src len)" by (simp add: append_new_def node_set_def)
  show brk: "bh_brk ?h = bh_brk h + len + 65" "bh_left ?h = bh_left h - 2"
    by (simp_all add: append_new_def node_set_def fill_new_fields)
  have bufs: "bh_bufs ?h x = bh_bufs h x" if "x \<in> set as" for x
    using that assms by (cases "cs = []") (auto simp: append_new_def node_set_def fill_new_fields below_def)
  then show "x \<in> set as \<Longrightarrow> bh_bufs ?h x = bh_bufs h x" .
  show "chain ?h p as = chain h p as" by (rule chain_cong) (rule bufs)
  show "below ?h as" using assms(1,3) bufs brk(1) by (fastforce simp: below_def node_def)
  show "x < bh_brk h \<Longrightarrow> bh_mem ?h x = bh_mem h x" by (simp add: mem fill_new_fields memcpy_other)
  show "content ?h as = content h as"
    by (rule content_cong [of _ _ _ "bh_brk h" "len"])
       (use assms bufs in \<open>auto simp: windows_apart_def below_def mem fill_new_fields memcpy_other\<close>)
qed

definition is_copy :: "heap \<Rightarrow> ptr \<Rightarrow> ptr list \<Rightarrow> bool" where
  "is_copy h copy cs \<longleftrightarrow> chain h copy cs \<and> distinct cs \<and> below h cs \<and> (\<forall>c \<in> set cs. rb_flags (node h c) = 0)"

lemma append_new_grows:
  assumes "is_copy h copy cs" "0 \<le> len" "0 < bh_brk h"
    and "new = bh_brk h + len + 1" "h' = append_new h src len cs"
  shows "is_copy h' (if cs = [] then new else copy) (cs @ [new])"
    and "content h' (cs @ [new]) = content h cs @ bytes (bh_mem h) src len"
proof -
  let ?f = "fill_new h src len"
  have cs: "chain h copy cs" "distinct cs" "below h cs" "\<And>c. c \<in> set cs \<Longrightarrow> rb_flags (node h c) = 0"
    using assms(1) by (auto simp: is_copy_def)
  have old: "x \<noteq> new \<and> bh_bufs ?f x = bh_bufs h x" if "x \<in> set cs" for x
    using cs(3) assms(2,4) that by (auto simp: below_def fill_new_fields)
  then have new: "new \<notin> set cs" by auto
  have fchain: "chain ?f copy cs" using cs(1) chain_cong [of cs ?f h copy] old by blast
  have fnew: "chain ?f new [new]" "node ?f new = fresh_buffer (bh_brk h) len"
    using assms(2,3,4) by (simp_all add: fill_new_fields fresh_buffer_def node_def)
  have fnode: "node ?f x = node h x" if "x \<in> set cs" for x using old [OF that] by (simp add: node_def)
  have fmem: "bh_mem ?f x = bh_mem h x" if "x < bh_brk h" for x using that by (simp add: fill_new_fields memcpy_other)
  have fcont: "content ?f cs = content h cs"
    by (rule content_cong [of _ _ _ "bh_brk h" "len"])
       (use cs(3) old in \<open>auto simp: windows_apart_def below_def fill_new_fields memcpy_other\<close>)
  have fbytes: "content ?f [new] = bytes (bh_mem h) src len"
    by (simp add: content_def node_bytes_def fnew(2) fresh_buffer_def fill_new_fields bytes_memcpy)
  have link: "h' = (if cs = [] then ?f else node_set ?f (last cs) ((node ?f (last cs))\<lparr>rb_next := new\<rparr>))"
    using fnode assms(4,5) by (auto simp: append_new_def)
  have "content h' (cs @ [new]) = content ?f (cs @ [new])"
    using link_content [of _ ?f "last cs" new "cs @ [new]"] link by (cases "cs = []") auto
  then show "content h' (cs @ [new]) = content h cs @ bytes (bh_mem h) src len"
    using fcont fbytes by (simp add: content_def)
  have "chain h' (if cs = [] then new else copy) (cs @ [new])"
  proof (cases "cs = []")
    case False
    then have "last cs \<notin> set [new]" using new last_in_set [OF False] by auto
    then show ?thesis using chain_link [OF fchain False cs(2) refl fnew(1)] False link by auto
  qed (use link fnew(1) in auto)
  moreover have "below h' (cs @ [new])"
  proof -
    have b: "bh_brk h' = bh_brk h + len + 65" by (simp add: link fill_new_fields node_set_def)
    have n: "rb_user_len (node h' x) = rb_user_len (node ?f x)" "rb_user_data (node h' x) = rb_user_data (node ?f x)" for x
      by (auto simp: link node_def node_set_def)
    show ?thesis
      using cs(3) assms(2,4) b n fnode fnew(2) by (fastforce simp: below_def fresh_buffer_def)
  qed
  moreover have "rb_flags (node h' x) = 0" if "x \<in> set (cs @ [new])" for x
  proof -
    have "rb_flags (node h' x) = rb_flags (node ?f x)" by (auto simp: link node_def node_set_def)
    then show ?thesis using that cs(4) fnode fnew(2) by (auto simp: fresh_buffer_def)
  qed
  ultimately show "is_copy h' (if cs = [] then new else copy) (cs @ [new])" using cs(2) new by (simp add: is_copy_def)
qed

lemma append_new_chain_ok:
  assumes "is_copy h copy cs" "chain_ok h cs" "\<forall>c \<in> set cs. rb_data (node h c) < bh_brk h" "0 \<le> len" "len < 2 ^ 64"
    and "new = bh_brk h + len + 1" "h' = append_new h src len cs"
  shows "chain_ok h' (cs @ [new])" "\<And>x. x \<in> set (cs @ [new]) \<Longrightarrow> rb_data (node h' x) < bh_brk h'"
    "\<And>x. x \<in> set cs \<Longrightarrow> rb_user_data (node h' x) = rb_user_data (node h x)" "rb_user_data (node h' new) = bh_brk h"
proof -
  have cs: "distinct cs" "below h cs" "new \<notin> set cs" using assms(1,4,6) by (auto simp: is_copy_def below_def)
  have lst: "cs \<noteq> [] \<Longrightarrow> last cs \<noteq> new" using cs(3) last_in_set by blast
  have brk: "bh_brk h' = bh_brk h + len + 65" by (simp add: assms(7) append_new_def fill_new_def node_set_def)
  have new: "node h' new = fresh_buffer (bh_brk h) len" "bh_bufs h' new \<noteq> None"
    using lst by (auto simp: assms(6,7) append_new_def fill_new_def node_set_def node_def)
  have old: "node h' x = node h x \<or> node h' x = (node h x)\<lparr>rb_next := new\<rparr>" "bh_bufs h' x \<noteq> None" if "x \<in> set cs" for x
  proof -
    have "x \<noteq> new" "bh_bufs h x \<noteq> None" using cs(3) that assms(2) by (auto simp: chain_ok_def)
    then show "node h' x = node h x \<or> node h' x = (node h x)\<lparr>rb_next := new\<rparr>" "bh_bufs h' x \<noteq> None"
      by (auto simp: assms(6,7) append_new_def fill_new_def node_set_def node_def)
  qed
  then have fields: "rb_data (node h' x) = rb_data (node h x)" "rb_user_len (node h' x) = rb_user_len (node h x)"
    "rb_user_data (node h' x) = rb_user_data (node h x)" "rb_flags (node h' x) = rb_flags (node h x)" if "x \<in> set cs" for x
    using that by (metis (no_types, lifting) roar_buffer.select_convs roar_buffer.surjective roar_buffer.update_convs)+
  show "\<And>x. x \<in> set cs \<Longrightarrow> rb_user_data (node h' x) = rb_user_data (node h x)" by (rule fields)
  show "rb_user_data (node h' new) = bh_brk h" by (simp add: new fresh_buffer_def)
  show "rb_data (node h' x) < bh_brk h'" if "x \<in> set (cs @ [new])" for x
    using that assms(3,4) fields(1) brk new by (fastforce simp: fresh_buffer_def)
  have blocks: "bh_blocks h' = (bh_blocks h)(bh_brk h \<mapsto> len)" by (simp add: assms(7) append_new_def fill_new_def node_set_def)
  have rel: "releasable h' (node h' x)" if "x \<in> set (cs @ [new])" for x
  proof (cases "x = new")
    case True
    then show ?thesis by (simp add: releasable_def blocks new fresh_buffer_def)
  next
    case False
    then show ?thesis using that assms(2) fields by (auto simp: chain_ok_def releasable_def blocks)
  qed
  have "map (\<lambda>a. rb_data (node h' a)) cs = map (\<lambda>a. rb_data (node h a)) cs" using fields(1) by simp
  moreover have "distinct (map (\<lambda>a. rb_data (node h a)) cs)" using assms(2) by (simp add: chain_ok_def)
  ultimately have "distinct (map (\<lambda>a. rb_data (node h' a)) cs)" by (simp only:)
  moreover have "rb_data (node h' new) \<noteq> rb_data (node h' x)" if "x \<in> set cs" for x
    using that assms(3) new(1) fields(1) by (auto simp: fresh_buffer_def)
  ultimately have "distinct (map (\<lambda>a. rb_data (node h' a)) (cs @ [new]))" by auto
  then show "chain_ok h' (cs @ [new])"
    unfolding chain_ok_def using cs rel old(2) new assms(2,4,5) fields(2) by (auto simp: chain_ok_def fresh_buffer_def)
qed

lemma dup_append_loop:
  assumes "chain h copy cs" "below h cs" "\<forall>c \<in> set cs. rb_flags (node h c) = 0"
    and "bh_bufs h a = Some b" "a \<noteq> NULL" "a < bh_brk h" "a \<notin> set cs" "0 \<le> rb_user_len b" "2 \<le> bh_left h" "0 < bh_brk h"
  shows "duplicate_loop h a copy = duplicate_loop (append_new h (rb_user_data b) (rb_user_len b) cs) (rb_next b) (if cs = [] then bh_brk h + rb_user_len b + 1 else copy)"
proof -
  let ?new = "bh_brk h + rb_user_len b + 1"
  have na: "node h a = b" using assms(4) by (simp add: node_def)
  note add = append_new_add [OF assms(1-3,8,10) refl, of "rb_user_data b"]
  have nxt: "bh_bufs (append_new h (rb_user_data b) (rb_user_len b) cs) a = Some b"
    using assms(4,6-8) na by (cases "cs = []") (auto simp: append_new_def fill_new_fields node_set_def)
  obtain h1 where h1: "roar_buffer_new h True (rb_user_len b) = Some (0, Some ?new, h1)"
    "h1\<lparr>bh_mem := memcpy (bh_mem h) (bh_brk h) (rb_user_data b) (rb_user_len b)\<rparr> = fill_new h (rb_user_data b) (rb_user_len b)"
    "bh_mem h1 = bh_mem h" "bh_bufs h1 a = Some b" "bh_bufs h1 ?new = Some (fresh_buffer (bh_brk h) (rb_user_len b))"
    using buffer_new_ok [OF assms(9,10,8)] na assms(4,6,8) by (simp add: fill_new_def Let_def)
  have "(copy = NULL) = (cs = [])" using assms(1) by (cases cs) auto
  then show ?thesis
    using assms(4,5,8,10) h1 add nxt
    by (cases "cs = []"; subst duplicate_loop.simps) (simp_all add: roar_buffer_get_data_def fresh_buffer_def Let_def)
qed

lemma duplicate_loop_ok:
  assumes "chain h cur as" "below h as" "is_copy h copy cs" "set as \<inter> set cs = {}" "2 * length as \<le> bh_left h" "0 < bh_brk h"
    and "below h os" "set os \<inter> set cs = {}" "distinct as"
  shows "\<exists>h' copy' cs'. duplicate_loop h cur copy = Some (0, copy', h') \<and> is_copy h' copy' cs' \<and>
    content h' cs' = content h cs @ content h as \<and> set os \<inter> set cs' = {} \<and>
    content h' os = content h os \<and> (\<forall>q. chain h' q os = chain h q os)"
  using assms
proof (induction as arbitrary: h cur copy cs)
  case Nil
  then have "duplicate_loop h cur copy = Some (0, copy, h)" by (subst duplicate_loop.simps) simp
  then show ?case using Nil.prems by (auto simp: content_def)
next
  case (Cons a as)
  obtain b where b: "bh_bufs h a = Some b" "chain h (rb_next b) as" "cur = a" "a \<noteq> NULL" "node h a = b"
    using Cons.prems(1) by (auto simp: node_def split: option.splits)
  have ab: "below h [a]" "below h as" "a < bh_brk h" "0 \<le> rb_user_len b" "a \<notin> set cs"
    using Cons.prems(2,4) b(5) by (auto simp: below_def)
  let ?h = "append_new h (rb_user_data b) (rb_user_len b) cs" and ?new = "bh_brk h + rb_user_len b + 1"
  let ?copy = "if cs = [] then ?new else copy"
  note g = append_new_grows [OF Cons.prems(3) ab(4) Cons.prems(6) refl refl, of "rb_user_data b"]
  have sub: "set as \<inter> set cs = {}" using Cons.prems(4) by auto
  note ka = append_new_keeps [OF ab(2) sub ab(4), of "rb_user_data b"] and ko = append_new_keeps [OF Cons.prems(7,8) ab(4), of "rb_user_data b"]
  have new: "?new \<notin> set as" "?new \<notin> set os" using ab(2,4) Cons.prems(7) by (auto simp: below_def)
  have loop: "duplicate_loop h cur copy = duplicate_loop ?h (rb_next b) ?copy"
    unfolding b(3) by (rule dup_append_loop) (use Cons.prems b ab in \<open>auto simp: is_copy_def\<close>)
  have "\<exists>h' copy' cs'. duplicate_loop ?h (rb_next b) ?copy = Some (0, copy', h') \<and> is_copy h' copy' cs' \<and>
    content h' cs' = content ?h (cs @ [?new]) @ content ?h as \<and> set os \<inter> set cs' = {} \<and>
    content h' os = content ?h os \<and> (\<forall>q. chain h' q os = chain ?h q os)"
    by (rule Cons.IH [OF _ ka(3) g(1)]) (use b(2) ka ko Cons.prems new ab(4) sub in auto)
  then show ?case using loop g(2) ka(4) ko(2,4) by (simp add: content_Cons node_bytes_def b(5))
qed

subsection \<open>Properties\<close>

text \<open>A chain of two buffers, of two and three bytes, for the examples.\<close>

definition two_buffers :: heap where
  "two_buffers = \<lparr>
     bh_bufs = [10 \<mapsto> \<lparr>rb_len = 2, rb_user_len = 2, rb_flags = 0, rb_data = 100, rb_user_data = 100, rb_meta0 = 0, rb_meta1 = 0, rb_next = 20\<rparr>,
                20 \<mapsto> \<lparr>rb_len = 3, rb_user_len = 3, rb_flags = 0, rb_data = 110, rb_user_data = 110, rb_meta0 = 0, rb_meta1 = 0, rb_next = 0\<rparr>],
     bh_mem = (\<lambda>_. 0)(100 := 1, 101 := 2, 110 := 3, 111 := 4, 112 := 5),
     bh_blocks = [100 \<mapsto> 2, 110 \<mapsto> 3], bh_brk = 1000, bh_left = 10\<rparr>"

lemma two_buffers_ok:
  "chain two_buffers 10 [10, 20]" "chain_ok two_buffers [10, 20]" "content two_buffers [10, 20] = [1, 2, 3, 4, 5]"
  "windows_apart two_buffers [10, 20] 200 4"
  by (simp_all add: two_buffers_def chain_ok_def node_def releasable_def content_def node_bytes_def bytes_def
      windows_apart_def upt_rec)

text \<open>C23: \<open>roar_buffer_shift_out\<close> takes bytes from the front of the chain, whatever the buffer
  boundaries: on a chain of allocated buffers whose windows do not overlap the destination it
  terminates and returns 0, \<open>*len\<close> is the smaller of the request and the chain's length, the
  destination holds that prefix of the chain's bytes and no other byte changes, and the chain that
  is left holds the rest and is well-formed.\<close>

theorem shift_out_fifo:
  assumes "chain h buf as" "chain_ok h as" "buf \<noteq> NULL" "dat \<noteq> NULL" "0 \<le> n" "windows_apart h as dat n"
    and "k = min (nat n) (length (content h as))"
  shows "\<exists>h' buf' as'. roar_buffer_shift_out h (Some buf) dat (Some n) = Some (0, Some buf', Some (int k), h')
    \<and> bytes (bh_mem h') dat (int k) = take k (content h as)
    \<and> chain h' buf' as' \<and> chain_ok h' as' \<and> content h' as' = drop k (content h as)
    \<and> (\<forall>x. x < dat \<or> dat + int k \<le> x \<longrightarrow> bh_mem h' x = bh_mem h x)"
  using shift_out_shifted [OF assms] by (fastforce simp: shifted_def)

theorem shift_out_fifo_witness:
  "\<exists>h' buf'. roar_buffer_shift_out two_buffers (Some 10) 200 (Some 4) = Some (0, Some buf', Some 4, h')
     \<and> bytes (bh_mem h') 200 4 = [1, 2, 3, 4]"
  using shift_out_fifo [OF two_buffers_ok(1,2) _ _ _ two_buffers_ok(4) refl]
  by (auto simp: two_buffers_ok(3))

text \<open>\<open>roar_buffer_free\<close> terminates on every well-formed chain, returns 0 and releases exactly the
  nodes of the chain.\<close>

theorem buffer_free_chain:
  assumes "chain h buf as" "chain_ok h as" "buf \<noteq> NULL"
  shows "\<exists>h'. roar_buffer_free h buf = Some (0, h') \<and> (\<forall>a. bh_bufs h' a = (if a \<in> set as then None else bh_bufs h a))"
proof -
  have "as \<noteq> []" using assms(1,3) by auto
  then show ?thesis using free_loop_ok [OF assms(1,2)] assms(3) by (auto simp: roar_buffer_free_def)
qed

theorem buffer_free_chain_witness:
  "\<exists>h'. roar_buffer_free two_buffers 10 = Some (0, h') \<and> bh_bufs h' 20 = None"
  using buffer_free_chain [OF two_buffers_ok(1,2)] by auto

text \<open>\<open>roar_buffer_add\<close> concatenates two chains that share no buffer: the content of the result is
  the content of the first followed by that of the second. When \<open>next\<close> is a later buffer of the
  same chain, the loop is noticed but the call goes on: it returns 0 and closes the chain to a
  cycle, the last buffer pointing back to \<open>next\<close>.\<close>

theorem buffer_add_concat:
  assumes "chain h buf (a # as)" "distinct (a # as)" "rb_flags (node h buf) AND FLAG_RING = 0" "nxt \<noteq> buf"
  shows "(\<forall>cs. chain h nxt cs \<and> set cs \<inter> set (a # as) = {} \<longrightarrow>
      (\<exists>h'. roar_buffer_add h buf nxt = Some (0, h') \<and> chain h' buf (a # as @ cs)
        \<and> content h' (a # as @ cs) = content h (a # as) @ content h cs)) \<and>
    (nxt \<in> set as \<longrightarrow>
      (\<exists>h'. roar_buffer_add h buf nxt = Some (0, h') \<and> rb_next (node h' (last (a # as))) = nxt))"
proof -
  let ?l = "last (a # as)"
  let ?h' = "node_set h ?l ((node h ?l)\<lparr>rb_next := nxt\<rparr>)"
  have b: "bh_bufs h buf = Some (node h buf)" "buf \<noteq> NULL" "buf = a" using assms(1) by (auto simp: node_def split: option.splits)
  have "bh_bufs h ?l = Some (node h ?l)" using chain_alloc [OF assms(1), of ?l] by (simp add: node_def)
  then have add: "roar_buffer_add h buf nxt = Some (0, ?h')"
    using b assms(3,4) last_ok [OF assms(1)] by (simp add: roar_buffer_add_def)
  have "chain ?h' buf ((a # as) @ cs) \<and> content ?h' ((a # as) @ cs) = content h (a # as) @ content h cs"
    if "chain h nxt cs" "set cs \<inter> set (a # as) = {}" for cs
  proof
    have "?l \<notin> set cs" using that(2) last_in_set [of "a # as"] by auto
    then show "chain ?h' buf ((a # as) @ cs)" by (intro chain_link [OF assms(1) _ assms(2) refl that(1) _ refl]) simp
    show "content ?h' ((a # as) @ cs) = content h (a # as) @ content h cs"
      by (simp only: link_content [OF refl]) (simp add: content_def)
  qed
  moreover have "rb_next (node ?h' ?l) = nxt" by (simp add: node_def node_set_def)
  ultimately show ?thesis using add by auto
qed

theorem buffer_add_concat_witness:
  "\<exists>h'. roar_buffer_add two_buffers 10 20 = Some (0, h') \<and> rb_next (node h' 20) = 20"
proof -
  have "rb_flags (node two_buffers 10) AND FLAG_RING = 0" by (simp add: two_buffers_def node_def)
  then show ?thesis using buffer_add_concat [OF two_buffers_ok(1), of 20] by simp
qed

text \<open>\<open>roar_buffer_duplicate\<close> of a chain of \<open>n\<close> buffers, when \<open>2 * n\<close> allocations succeed:
  it terminates and returns 0, \<open>*copy\<close> is a chain of distinct new buffers with the same bytes, and
  the original chain and its bytes are as before.\<close>

theorem buffer_duplicate_copies:
  assumes "chain h buf as" "distinct as" "below h as" "2 * length as \<le> bh_left h" "0 < bh_brk h"
  shows "\<exists>h' copy cs. roar_buffer_duplicate h buf = Some (0, copy, h') \<and> chain h' copy cs \<and> distinct cs
    \<and> set as \<inter> set cs = {} \<and> content h' cs = content h as \<and> chain h' buf as \<and> content h' as = content h as"
proof -
  have "is_copy h NULL []" by (simp add: is_copy_def below_def)
  from duplicate_loop_ok [OF assms(1,3) this _ assms(4,5,3) _ assms(2)] assms(1) show ?thesis
    by (fastforce simp: roar_buffer_duplicate_def is_copy_def content_def)
qed

theorem buffer_duplicate_copies_witness:
  "\<exists>h' copy cs. roar_buffer_duplicate two_buffers 10 = Some (0, copy, h') \<and> content h' cs = [1, 2, 3, 4, 5]"
proof -
  have "distinct [10, 20 :: ptr]" "below two_buffers [10, 20]" "2 * length [10, 20 :: ptr] \<le> bh_left two_buffers" "0 < bh_brk two_buffers"
    by (simp_all add: below_def two_buffers_def node_def)
  from buffer_duplicate_copies [OF two_buffers_ok(1) this] show ?thesis by (auto simp: two_buffers_ok(3))
qed

text \<open>A ring read that does not reach the end of the ring copies the next \<open>n\<close> bytes and advances
  the position. A read that wraps copies the tail of the ring and then overwrites it: the second
  copy starts at the destination again, so the destination begins with the head of the ring, and
  the last bytes of the request are never stored.\<close>

theorem ring_read_wrapped:
  assumes "bh_bufs h buf = Some b" "buf \<noteq> NULL" "rb_flags b AND FLAG_RING \<noteq> 0" "dat \<noteq> NULL"
    and "0 \<le> rb_meta0 b" "rb_meta0 b < rb_user_len b" "0 < n" "n \<le> rb_user_len b" "rb_user_len b < 2 ^ 63"
    and "dat + rb_user_len b \<le> rb_user_data b \<or> rb_user_data b + rb_user_len b \<le> dat"
    and "0 \<le> j" "j < n" "r = rb_meta0 b" "u = rb_user_len b"
  shows "\<exists>h'. roar_buffer_ring_read h buf dat (Some n) = Some (0, h') \<and>
    rb_meta0 (node h' buf) = (if n + r > u then r + n - u else r + n) \<and>
    bh_mem h' (dat + j) =
      (if n + r \<le> u then bh_mem h (rb_user_data b + r + j)
       else if j < n + r - u then bh_mem h (rb_user_data b + j)
       else if j < u - r then bh_mem h (rb_user_data b + r + j)
       else bh_mem h (dat + j))"
proof -
  have w: "wrap_u 64 (n + r) = n + r" "wrap_u 64 (r + n) = r + n" "wrap_u 64 (u - r) = u - r"
    using assms(5-9,13,14) by (auto intro!: wrap_u_id)
  have w2: "n + r > u \<Longrightarrow> wrap_u 64 (n + r - u) = n + r - u" "n + r > u \<Longrightarrow> wrap_u 64 (r + n - u) = r + n - u"
    using assms(5-9,13,14) by (auto intro!: wrap_u_id)
  have r: "(if rb_meta0 b \<ge> rb_user_len b then rb_meta0 b - rb_user_len b else rb_meta0 b) = r" using assms(6,13) by simp
  show ?thesis
  proof (cases "n + r > u")
    case True
    let ?m = "memcpy (memcpy (bh_mem h) dat (rb_user_data b + r) (u - r)) dat (rb_user_data b) (n + r - u)"
    have "roar_buffer_ring_read h buf dat (Some n) = Some (0, (node_set h buf (b\<lparr>rb_meta0 := r + n - u\<rparr>))\<lparr>bh_mem := ?m\<rparr>)"
      using assms(1-4,7,8,14) r w w2 True by (simp add: roar_buffer_ring_read_def Let_def)
    moreover have "?m (dat + j) = (if j < n + r - u then bh_mem h (rb_user_data b + j)
        else if j < u - r then bh_mem h (rb_user_data b + r + j) else bh_mem h (dat + j))"
      using assms(5-8,10-14) True by (auto simp: memcpy_def algebra_simps)
    ultimately show ?thesis using True by (simp add: node_def node_set_def)
  next
    case False
    then have "roar_buffer_ring_read h buf dat (Some n) = Some (0, (node_set h buf (b\<lparr>rb_meta0 := r + n\<rparr>))
        \<lparr>bh_mem := memcpy (bh_mem h) dat (rb_user_data b + r) n\<rparr>)"
      using assms(1-4,7,8,14) r w by (simp add: roar_buffer_ring_read_def Let_def)
    then show ?thesis using False assms(11,12) by (simp add: node_def node_set_def memcpy_def)
  qed
qed

theorem ring_read_wrapped_witness:
  "\<exists>h'. roar_buffer_ring_read
      (two_buffers\<lparr>bh_bufs := [20 \<mapsto> \<lparr>rb_len = 3, rb_user_len = 3, rb_flags = 2, rb_data = 110, rb_user_data = 110,
         rb_meta0 = 2, rb_meta1 = 0, rb_next = 0\<rparr>]\<rparr>) 20 200 (Some 2) = Some (0, h')
    \<and> bh_mem h' 200 = 3"
proof -
  let ?b = "\<lparr>rb_len = 3, rb_user_len = 3, rb_flags = 2, rb_data = 110, rb_user_data = 110, rb_meta0 = 2, rb_meta1 = 0, rb_next = 0\<rparr>"
  let ?h = "two_buffers\<lparr>bh_bufs := [20 \<mapsto> ?b]\<rparr>"
  have "bh_bufs ?h 20 = Some ?b" "bh_mem ?h 110 = 3" by (simp_all add: two_buffers_def)
  then show ?thesis
    using ring_read_wrapped [of ?h 20 ?b 200 2 0 2 3] by (auto simp: FLAG_RING_def)
qed

lemma ring_write_plain:
  assumes "bh_bufs h buf = Some b" "buf \<noteq> NULL" "rb_flags b AND FLAG_RING \<noteq> 0" "src \<noteq> NULL"
    and "0 \<le> rb_meta1 b" "0 < n" "rb_meta1 b + n \<le> rb_user_len b" "rb_user_len b < 2 ^ 63"
  shows "roar_buffer_ring_write h buf src (Some n) = Some (0, (node_set h buf (b\<lparr>rb_meta1 := rb_meta1 b + n\<rparr>))
    \<lparr>bh_mem := memcpy (bh_mem h) (rb_user_data b + rb_meta1 b) src n\<rparr>)"
proof -
  have "wrap_u 64 (n + rb_meta1 b) = n + rb_meta1 b" "wrap_u 64 (rb_meta1 b + n) = rb_meta1 b + n"
    using assms(5-8) by (auto intro!: wrap_u_id)
  then show ?thesis using assms by (simp add: roar_buffer_ring_write_def Let_def)
qed

lemma ring_read_plain:
  assumes "bh_bufs h buf = Some b" "buf \<noteq> NULL" "rb_flags b AND FLAG_RING \<noteq> 0" "dst \<noteq> NULL"
    and "0 \<le> rb_meta0 b" "0 < n" "rb_meta0 b + n \<le> rb_user_len b" "rb_user_len b < 2 ^ 63"
  shows "roar_buffer_ring_read h buf dst (Some n) = Some (0, (node_set h buf (b\<lparr>rb_meta0 := rb_meta0 b + n\<rparr>))
    \<lparr>bh_mem := memcpy (bh_mem h) dst (rb_user_data b + rb_meta0 b) n\<rparr>)"
proof -
  have "wrap_u 64 (n + rb_meta0 b) = n + rb_meta0 b" "wrap_u 64 (rb_meta0 b + n) = rb_meta0 b + n"
    using assms(5-8) by (auto intro!: wrap_u_id)
  then show ?thesis using assms by (simp add: roar_buffer_ring_read_def Let_def)
qed

text \<open>C34: What is written to a ring is read back: with the two positions equal and room for \<open>n\<close> bytes
  before the end of the ring, a write of \<open>n\<close> bytes followed by a read of \<open>n\<close> bytes delivers them to the
  destination, both calls return 0, and the positions are equal again.\<close>

theorem ring_write_read:
  assumes "bh_bufs h buf = Some b" "buf \<noteq> NULL" "rb_flags b AND FLAG_RING \<noteq> 0" "src \<noteq> NULL" "dst \<noteq> NULL"
    and "rb_meta0 b = rb_meta1 b" "0 \<le> rb_meta0 b" "0 < n" "rb_meta0 b + n \<le> rb_user_len b" "rb_user_len b < 2 ^ 63"
  shows "\<exists>h1 h2. roar_buffer_ring_write h buf src (Some n) = Some (0, h1) \<and> roar_buffer_ring_read h1 buf dst (Some n) = Some (0, h2)
    \<and> bytes (bh_mem h2) dst n = bytes (bh_mem h) src n \<and> rb_meta0 (node h2 buf) = rb_meta1 (node h2 buf)"
proof -
  let ?b1 = "b\<lparr>rb_meta1 := rb_meta1 b + n\<rparr>"
  let ?h1 = "(node_set h buf ?b1)\<lparr>bh_mem := memcpy (bh_mem h) (rb_user_data b + rb_meta1 b) src n\<rparr>"
  let ?h2 = "(node_set ?h1 buf (?b1\<lparr>rb_meta0 := rb_meta0 ?b1 + n\<rparr>))\<lparr>bh_mem := memcpy (bh_mem ?h1) dst (rb_user_data ?b1 + rb_meta0 ?b1) n\<rparr>"
  have "roar_buffer_ring_write h buf src (Some n) = Some (0, ?h1)" by (rule ring_write_plain) (use assms in auto)
  moreover have "roar_buffer_ring_read ?h1 buf dst (Some n) = Some (0, ?h2)"
    by (rule ring_read_plain) (use assms in \<open>auto simp: node_set_def\<close>)
  moreover have "bytes (bh_mem ?h2) dst n = bytes (bh_mem h) src n"
    using assms(6) by (simp add: bytes_memcpy)
  ultimately show ?thesis using assms(6) by (force simp: node_def node_set_def)
qed

theorem ring_write_read_witness:
  "\<exists>h1 h2. roar_buffer_ring_write
      (two_buffers\<lparr>bh_bufs := [20 \<mapsto> \<lparr>rb_len = 3, rb_user_len = 3, rb_flags = 2, rb_data = 110, rb_user_data = 110,
         rb_meta0 = 1, rb_meta1 = 1, rb_next = 0\<rparr>]\<rparr>) 20 100 (Some 2) = Some (0, h1)
    \<and> roar_buffer_ring_read h1 20 200 (Some 2) = Some (0, h2) \<and> bytes (bh_mem h2) 200 2 = [1, 2]"
proof -
  let ?b = "\<lparr>rb_len = 3, rb_user_len = 3, rb_flags = 2, rb_data = 110, rb_user_data = 110, rb_meta0 = 1, rb_meta1 = 1, rb_next = 0\<rparr>"
  let ?h = "two_buffers\<lparr>bh_bufs := [20 \<mapsto> ?b]\<rparr>"
  have b: "bh_bufs ?h 20 = Some ?b" "bytes (bh_mem ?h) 100 2 = [1, 2]" by (simp_all add: two_buffers_def bytes_def upt_rec)
  show ?thesis
    using ring_write_read [OF b(1), of 100 200 2] b(2) by (auto simp: FLAG_RING_def)
qed

end
