(* ===== verification/Roar_Proto.thy ===== *)
theory Roar_Proto
  imports Roar_Prelude
begin

text \<open>
  The message protocol, \<open>src/libroar/proto.c\<close>: \<open>roar_vsend_message\<close>, \<open>roar_vrecv_message\<close> and \<open>roar_vreq\<close>.
  The two operations of the transport that they call through \<open>struct roar_vio_calls\<close> are arguments: a
  write gives the number of bytes taken, a read the returned count and the bytes stored. The
  result is the return value, \<open>roar_errno\<close>, the message structure and the transport.

  Locale \<open>fifo_stream\<close> is the contract of a transport that delivers what was written, and the round
  trip of a message is proved in it; the pipe of \<open>Vio_Pipe\<close> interprets it.
\<close>

unbundle bit_operations_syntax

datatype roar_error = ERROR_NONE | ERROR_UNKNOWN | ERROR_NOTSUP | ERROR_PIPE | ERROR_PROTO | ERROR_MSGSIZE | ERROR_NOMEM

record roar_message =
  ms_cmd :: c_int
  ms_stream :: int
  ms_pos :: int
  ms_datalen :: c_int
  ms_data :: "byte list"
  ms_seq :: int
  ms_flags :: int
  ms_crc :: int
  ms_version :: c_int
  ms_pos64 :: int

definition LIBROAR_BUFFER_MSGDATA :: nat where "LIBROAR_BUFFER_MSGDATA = 80"
definition ROAR_MESSAGE_VERSION :: int where "ROAR_MESSAGE_VERSION = 0"
definition MESS_BUF_LEN_V0 :: nat where "MESS_BUF_LEN_V0 = 10"
definition MF_LSPOS :: int where "MF_LSPOS = 16"

text \<open>Bytes of an integer, least significant first as the host stores them and most significant
  first as \<open>ROAR_HOST2NET16\<close> and \<open>ROAR_HOST2NET32\<close> arrange them.\<close>

fun le_bytes :: "nat \<Rightarrow> int \<Rightarrow> byte list" where
  "le_bytes 0 v = []"
| "le_bytes (Suc n) v = word_of_int v # le_bytes n (v div 256)"

definition be_bytes :: "nat \<Rightarrow> int \<Rightarrow> byte list" where
  "be_bytes n v = rev (le_bytes n v)"

fun le_value :: "byte list \<Rightarrow> int" where
  "le_value [] = 0"
| "le_value (b # bs) = uint b + 256 * le_value bs"

definition be_value :: "byte list \<Rightarrow> int" where
  "be_value bs = le_value (rev bs)"

definition field :: "nat \<Rightarrow> nat \<Rightarrow> byte list \<Rightarrow> byte list" where
  "field off n bs = take n (drop off bs)"

subsection \<open>Sending\<close>

text \<open>The header by version; the version 2 branch stores the position through \<open>ROAR_HOST2NET16\<close>, as
  the source does. \<open>None\<close> is a version that cannot be sent.\<close>

definition send_header :: "roar_message \<Rightarrow> byte list option" where
  "send_header mes =
     (if ms_version mes = 0 then
        Some (word_of_int (ms_version mes) # word_of_int (ms_cmd mes) # be_bytes 2 (ms_stream mes)
              @ be_bytes 4 (ms_pos mes) @ be_bytes 2 (ms_datalen mes))
      else if ms_version mes = 2 then
        Some (word_of_int (ms_version mes) # word_of_int (ms_cmd mes) # be_bytes 2 (ms_stream mes)
              @ be_bytes 4 (ms_flags mes)
              @ (if ms_flags mes AND MF_LSPOS \<noteq> 0
                 then le_bytes 8 (le_value (be_bytes 2 (ms_pos64 mes)))
                 else le_bytes 4 (le_value (be_bytes 2 (ms_pos mes))))
              @ be_bytes 2 (ms_datalen mes) @ be_bytes 2 (ms_seq mes))
      else None)"

definition roar_vsend_message ::
  "('v \<Rightarrow> byte list \<Rightarrow> c_int \<times> 'v) \<Rightarrow> 'v \<Rightarrow> roar_message \<Rightarrow> byte list option
    \<Rightarrow> c_int \<times> roar_error \<times> roar_message \<times> 'v" where
  "roar_vsend_message wr vio mes dat =
     (let mes = mes\<lparr>ms_version := ROAR_MESSAGE_VERSION\<rparr> in
      case send_header mes of
        None \<Rightarrow> (-1, ERROR_NOTSUP, mes, vio)
      | Some buf \<Rightarrow>
        let (n, vio) = wr vio buf in
        if n \<noteq> int (length buf) then (-1, ERROR_PIPE, mes, vio)
        else if ms_datalen mes \<noteq> 0 then
          (let (n, vio) = wr vio (take (nat (ms_datalen mes)) (case dat of None \<Rightarrow> ms_data mes | Some d \<Rightarrow> d)) in
           if n \<noteq> ms_datalen mes then (-1, ERROR_PIPE, mes, vio) else (0, ERROR_NONE, mes, vio))
        else (0, ERROR_NONE, mes, vio))"

subsection \<open>Receiving\<close>

definition zero_message :: roar_message where
  "zero_message = \<lparr>ms_cmd = 0, ms_stream = 0, ms_pos = 0, ms_datalen = 0, ms_data = replicate LIBROAR_BUFFER_MSGDATA 0,
     ms_seq = 0, ms_flags = 0, ms_crc = 0, ms_version = 0, ms_pos64 = 0\<rparr>"

text \<open>The first ten bytes: the structure filled so far and the length of the whole header.\<close>

definition recv_header :: "byte list \<Rightarrow> (roar_message \<times> nat) option" where
  "recv_header buf =
     (let mes = zero_message\<lparr>ms_version := sint (buf ! 0)\<rparr> in
      if ms_version mes = 0 then
        Some (mes\<lparr>ms_cmd := uint (buf ! 1), ms_stream := be_value (field 2 2 buf),
                  ms_pos := be_value (field 4 4 buf), ms_datalen := be_value (field 8 2 buf)\<rparr>, MESS_BUF_LEN_V0)
      else if ms_version mes = 2 then
        (let mes = mes\<lparr>ms_cmd := uint (buf ! 1), ms_stream := be_value (field 2 2 buf), ms_flags := wrap_s 32 (be_value (field 4 4 buf))\<rparr>
         in Some (mes, if ms_flags mes AND MF_LSPOS \<noteq> 0 then 20 else 16))
      else None)"

text \<open>The rest of a version 2 header; the sequence number is read one byte too early and the 64 bit
  position through \<open>ROAR_NET2HOST32\<close>, as in the source.\<close>

definition recv_header_v2 :: "roar_message \<Rightarrow> byte list \<Rightarrow> roar_message" where
  "recv_header_v2 mes buf =
     (if ms_version mes = 2 then
        (if ms_flags mes AND MF_LSPOS \<noteq> 0
         then mes\<lparr>ms_pos64 := be_value (field 8 4 buf), ms_datalen := be_value (field 16 2 buf), ms_seq := wrap_s 16 (be_value (field 17 2 buf))\<rparr>
         else mes\<lparr>ms_pos := be_value (field 8 4 buf), ms_datalen := be_value (field 12 2 buf), ms_seq := wrap_s 16 (be_value (field 13 2 buf))\<rparr>)
      else mes)"

definition put_front :: "'a list \<Rightarrow> 'a list \<Rightarrow> 'a list" where
  "put_front xs ys = xs @ drop (length xs) ys"

text \<open>The payload goes into the structure when it fits there, else into a new block: \<open>want\<close> says that
  \<open>data\<close> is not null, \<open>alloc\<close> that \<open>malloc\<close> succeeds.\<close>

definition recv_data ::
  "('v \<Rightarrow> nat \<Rightarrow> c_int \<times> byte list \<times> 'v) \<Rightarrow> 'v \<Rightarrow> roar_message \<Rightarrow> bool \<Rightarrow> bool
    \<Rightarrow> c_int \<times> roar_error \<times> roar_message \<times> byte list option \<times> 'v" where
  "recv_data rd vio mes want alloc =
     (if ms_datalen mes = 0 then (0, ERROR_NONE, mes, None, vio)
      else if ms_datalen mes \<le> int LIBROAR_BUFFER_MSGDATA then
        (let (n, bs, vio) = rd vio (nat (ms_datalen mes)); mes = mes\<lparr>ms_data := put_front bs (ms_data mes)\<rparr> in
         if n = ms_datalen mes then (0, ERROR_NONE, mes, None, vio) else (-1, ERROR_PIPE, mes, None, vio))
      else if \<not> want then (-1, ERROR_MSGSIZE, mes, None, vio)
      else if \<not> alloc then (-1, ERROR_NOMEM, mes, None, vio)
      else
        (let (n, bs, vio) = rd vio (nat (ms_datalen mes)) in
         if n = ms_datalen mes then (0, ERROR_NONE, mes, Some bs, vio) else (-1, ERROR_PIPE, mes, Some bs, vio)))"

definition roar_vrecv_message ::
  "('v \<Rightarrow> nat \<Rightarrow> c_int \<times> byte list \<times> 'v) \<Rightarrow> 'v \<Rightarrow> roar_message option \<Rightarrow> bool \<Rightarrow> bool
    \<Rightarrow> c_int \<times> roar_error \<times> roar_message option \<times> byte list option \<times> 'v" where
  "roar_vrecv_message rd vio mes want alloc =
     (if mes = None then (-1, ERROR_UNKNOWN, None, None, vio)
      else
        let (n, buf, vio) = rd vio MESS_BUF_LEN_V0 in
        if n \<noteq> int MESS_BUF_LEN_V0 then (-1, ERROR_PROTO, Some zero_message, None, vio)
        else case recv_header buf of
          None \<Rightarrow> (-1, ERROR_PROTO, Some (zero_message\<lparr>ms_version := sint (buf ! 0)\<rparr>), None, vio)
        | Some (mes, headerlen) \<Rightarrow>
          let (ok, buf, vio) =
            (if headerlen > MESS_BUF_LEN_V0
             then (let (n, more, vio) = rd vio (headerlen - MESS_BUF_LEN_V0)
                   in (n = int (headerlen - MESS_BUF_LEN_V0), buf @ more, vio))
             else (True, buf, vio)) in
          if \<not> ok then (-1, ERROR_PROTO, Some mes, None, vio)
          else
            let mes = recv_header_v2 mes buf;
                mes = (if wrap_s 16 (ms_stream mes) = -1 then mes\<lparr>ms_stream := 4294967295\<rparr> else mes);
                (r, e, mes, dat, vio) = recv_data rd vio mes want alloc
            in (r, e, Some mes, dat, vio))"

definition roar_vreq ::
  "('v \<Rightarrow> byte list \<Rightarrow> c_int \<times> 'v) \<Rightarrow> ('v \<Rightarrow> nat \<Rightarrow> c_int \<times> byte list \<times> 'v) \<Rightarrow> ('v \<Rightarrow> 'v) \<Rightarrow> 'v \<Rightarrow> roar_message
    \<Rightarrow> byte list option option \<Rightarrow> bool \<Rightarrow> c_int \<times> roar_error \<times> roar_message option \<times> byte list option \<times> 'v" where
  "roar_vreq wr rd sync vio mes dat alloc =
     (let (r, e, mes, vio) = roar_vsend_message wr vio mes (case dat of None \<Rightarrow> None | Some d \<Rightarrow> d) in
      if r \<noteq> 0 then (-1, e, Some mes, (case dat of None \<Rightarrow> None | Some d \<Rightarrow> d), vio)
      else roar_vrecv_message rd (sync vio) (Some mes) (dat \<noteq> None) alloc)"

subsection \<open>Byte order\<close>

lemma le_bytes_length [simp]: "length (le_bytes n v) = n"
  by (induction n arbitrary: v) auto

lemma be_bytes_length [simp]: "length (be_bytes n v) = n"
  by (simp add: be_bytes_def)

lemma le_value_bytes: "le_value (le_bytes n v) = v mod 256 ^ n"
proof (induction n arbitrary: v)
  case (Suc n)
  have "uint (word_of_int v :: byte) = v mod 256" by (simp add: uint_word_of_int)
  then show ?case using Suc.IH [of "v div 256"] by (simp add: zmod_zmult2_eq)
qed simp

lemma be_value_bytes: "be_value (be_bytes n v) = v mod 256 ^ n"
  by (simp add: be_value_def be_bytes_def le_value_bytes)

lemma sint_of_small: "- 128 \<le> v \<Longrightarrow> v < 128 \<Longrightarrow> sint (word_of_int v :: byte) = v"
  by (simp add: sint_sbintrunc' signed_take_bit_int_eq_self)

lemma field_skip: "length xs \<le> off \<Longrightarrow> field off n (xs @ ys) = field (off - length xs) n ys"
  by (simp add: field_def)

lemma field_here: "length xs = n \<Longrightarrow> field 0 n (xs @ ys) = xs"
  by (simp add: field_def)

lemma field_last: "length xs = n \<Longrightarrow> field 0 n xs = xs"
  by (simp add: field_def)

lemma field_none: "field off 0 xs = []"
  by (simp add: field_def)

subsection \<open>Wire format\<close>

definition payload :: "roar_message \<Rightarrow> byte list option \<Rightarrow> byte list" where
  "payload mes dat = take (nat (ms_datalen mes)) (case dat of None \<Rightarrow> ms_data mes | Some d \<Rightarrow> d)"

definition header_v0 :: "roar_message \<Rightarrow> byte list" where
  "header_v0 mes = 0 # word_of_int (ms_cmd mes) # be_bytes 2 (ms_stream mes) @ be_bytes 4 (ms_pos mes) @ be_bytes 2 (ms_datalen mes)"

text \<open>A message that the version 0 header can carry, with its payload at hand.\<close>

definition sendable :: "roar_message \<Rightarrow> byte list option \<Rightarrow> bool" where
  "sendable mes dat \<longleftrightarrow> 0 \<le> ms_cmd mes \<and> ms_cmd mes < 256 \<and> 0 \<le> ms_pos mes \<and> ms_pos mes < 2 ^ 32 \<and>
     0 \<le> ms_datalen mes \<and> ms_datalen mes < 2 ^ 16 \<and> nat (ms_datalen mes) \<le> length (case dat of None \<Rightarrow> ms_data mes | Some d \<Rightarrow> d)"

lemma header_v0_length [simp]: "length (header_v0 mes) = 10"
  by (simp add: header_v0_def)

lemma payload_length: "sendable mes dat \<Longrightarrow> length (payload mes dat) = nat (ms_datalen mes)"
  by (auto simp: payload_def sendable_def)

lemma send_header_v0: "send_header (mes\<lparr>ms_version := ROAR_MESSAGE_VERSION\<rparr>) = Some (header_v0 mes)"
  by (simp add: send_header_def ROAR_MESSAGE_VERSION_def header_v0_def)

text \<open>What the receiver makes of a version 0 header: stream 65535 stands for -1.\<close>

definition received :: "roar_message \<Rightarrow> roar_message" where
  "received mes = zero_message\<lparr>ms_cmd := ms_cmd mes,
     ms_stream := (if ms_stream mes mod 2 ^ 16 = 65535 then 4294967295 else ms_stream mes mod 2 ^ 16),
     ms_pos := ms_pos mes, ms_datalen := ms_datalen mes\<rparr>"

lemma header_fields:
  "header_v0 mes ! 0 = 0" "header_v0 mes ! Suc 0 = word_of_int (ms_cmd mes)"
  "field 2 2 (header_v0 mes) = be_bytes 2 (ms_stream mes)" "field 4 4 (header_v0 mes) = be_bytes 4 (ms_pos mes)"
  "field 8 2 (header_v0 mes) = be_bytes 2 (ms_datalen mes)"
  by (simp_all add: header_v0_def field_def drop_Cons numeral_eq_Suc)

lemma recv_header_v0:
  assumes "sendable mes dat"
  shows "recv_header (header_v0 mes) = Some (zero_message\<lparr>ms_cmd := ms_cmd mes, ms_stream := ms_stream mes mod 2 ^ 16,
     ms_pos := ms_pos mes, ms_datalen := ms_datalen mes\<rparr>, MESS_BUF_LEN_V0)"
proof -
  have "uint (word_of_int (ms_cmd mes) :: byte) = ms_cmd mes"
    using assms by (simp add: sendable_def uint_word_of_int)
  then show ?thesis
    using assms by (simp add: recv_header_def header_fields be_value_bytes Let_def sendable_def zero_message_def)
qed

lemma stream_minus_one: "wrap_s 16 (s mod 2 ^ 16) = -1 \<longleftrightarrow> s mod 2 ^ 16 = 65535"
proof
  assume "wrap_s 16 (s mod 2 ^ 16) = -1"
  then have "-1 mod 2 ^ 16 = s mod 2 ^ 16 mod (2 ^ 16 :: int)" using wrap_s_mod [of 16 "s mod 2 ^ 16"] by simp
  then show "s mod 2 ^ 16 = 65535" by simp
next
  assume "s mod 2 ^ 16 = 65535"
  then show "wrap_s 16 (s mod 2 ^ 16) = -1" by (simp add: wrap_s_def signed_take_bit_eq_take_bit_shift take_bit_eq_mod)
qed

text \<open>A client that sends a list of messages, and one that receives \<open>n\<close>, as long as the calls succeed.\<close>

fun send_all :: "('v \<Rightarrow> byte list \<Rightarrow> c_int \<times> 'v) \<Rightarrow> 'v \<Rightarrow> (roar_message \<times> byte list option) list \<Rightarrow> 'v option" where
  "send_all wr v [] = Some v"
| "send_all wr v ((mes, dat) # ms) =
     (case roar_vsend_message wr v mes dat of (r, _, _, v') \<Rightarrow> if r = 0 then send_all wr v' ms else None)"

fun recv_all :: "('v \<Rightarrow> nat \<Rightarrow> c_int \<times> byte list \<times> 'v) \<Rightarrow> nat \<Rightarrow> 'v \<Rightarrow> ((roar_message \<times> byte list option) list \<times> 'v) option" where
  "recv_all rd 0 v = Some ([], v)"
| "recv_all rd (Suc n) v =
     (case roar_vrecv_message rd v (Some zero_message) True True of (r, _, m, d, v') \<Rightarrow>
        if r = 0 then (case recv_all rd n v' of None \<Rightarrow> None | Some (l, v'') \<Rightarrow> Some ((the m, d) # l, v'')) else None)"

text \<open>What arrives of a message: a short payload in the structure, a long one in a block of its own.\<close>

definition delivered :: "roar_message \<times> byte list option \<Rightarrow> roar_message \<times> byte list option" where
  "delivered md = (case md of (mes, dat) \<Rightarrow>
     ((received mes)\<lparr>ms_data := (if ms_datalen mes \<le> 80 then put_front (payload mes dat) (replicate 80 0) else replicate 80 0)\<rparr>,
      if ms_datalen mes \<le> 80 then None else Some (payload mes dat)))"

subsection \<open>The contract of a transport\<close>

locale fifo_stream =
  fixes valid :: "'v \<Rightarrow> bool"
    and queue :: "'v \<Rightarrow> byte list"
    and credit :: "'v \<Rightarrow> nat"
    and wr :: "'v \<Rightarrow> byte list \<Rightarrow> c_int \<times> 'v"
    and rd :: "'v \<Rightarrow> nat \<Rightarrow> c_int \<times> byte list \<times> 'v"
  assumes wr_ok: "valid v \<Longrightarrow> 0 < credit v \<Longrightarrow> int (length xs) < 2 ^ 64 \<Longrightarrow>
      \<exists>v'. wr v xs = (int (length xs), v') \<and> valid v' \<and> queue v' = queue v @ xs \<and> credit v' = credit v - 1"
    and rd_ok: "valid v \<Longrightarrow> n \<le> length (queue v) \<Longrightarrow>
      \<exists>v'. rd v n = (int n, take n (queue v), v') \<and> valid v' \<and> queue v' = drop n (queue v) \<and> credit v' = credit v"
begin

lemma send_ok:
  assumes "valid v" "2 \<le> credit v" "sendable mes dat"
  shows "\<exists>v'. roar_vsend_message wr v mes dat = (0, ERROR_NONE, mes\<lparr>ms_version := 0\<rparr>, v') \<and> valid v' \<and>
    queue v' = queue v @ header_v0 mes @ payload mes dat \<and> credit v - 2 \<le> credit v'"
proof -
  obtain v1 where v1: "wr v (header_v0 mes) = (10, v1)" "valid v1" "queue v1 = queue v @ header_v0 mes" "credit v1 = credit v - 1"
    using wr_ok [OF assms(1), of "header_v0 mes"] assms(2) by auto
  have p: "length (payload mes dat) = nat (ms_datalen mes)" "0 \<le> ms_datalen mes" "ms_datalen mes < 2 ^ 16"
    using payload_length [OF assms(3)] assms(3) by (auto simp: sendable_def)
  obtain v2 where v2: "wr v1 (payload mes dat) = (ms_datalen mes, v2)" "valid v2" "queue v2 = queue v1 @ payload mes dat"
    "credit v2 = credit v1 - 1"
    using wr_ok [OF v1(2), of "payload mes dat"] v1(4) assms(2) p by auto
  have v: "ROAR_MESSAGE_VERSION = 0" by (simp add: ROAR_MESSAGE_VERSION_def)
  show ?thesis
  proof (cases "ms_datalen mes = 0")
    case True
    then show ?thesis
      using v1 send_header_v0 [of mes] by (simp add: roar_vsend_message_def Let_def payload_def v)
  next
    case False
    then show ?thesis
      using v1 v2 send_header_v0 [of mes] assms(2)
      by (cases dat) (simp_all add: roar_vsend_message_def Let_def v payload_def)
  qed
qed

text \<open>The receiver's view of a payload: short ones end up in the structure, long ones in a new block.\<close>

lemma recv_ok:
  assumes "valid v" "sendable mes dat" "queue v = header_v0 mes @ payload mes dat @ rest"
    and "ms_datalen mes \<le> 80 \<or> want \<and> alloc"
  shows "\<exists>v'. roar_vrecv_message rd v (Some m0) want alloc = (0, ERROR_NONE,
      Some ((received mes)\<lparr>ms_data := (if ms_datalen mes \<le> 80 then put_front (payload mes dat) (replicate 80 0) else replicate 80 0)\<rparr>),
      (if ms_datalen mes \<le> 80 then None else Some (payload mes dat)), v') \<and> valid v' \<and> queue v' = rest \<and> credit v' = credit v"
proof -
  obtain v1 where v1: "rd v 10 = (10, header_v0 mes, v1)" "valid v1" "queue v1 = payload mes dat @ rest" "credit v1 = credit v"
    using rd_ok [OF assms(1), of 10] assms(3) by auto
  have p: "length (payload mes dat) = nat (ms_datalen mes)" "0 \<le> ms_datalen mes"
    using payload_length [OF assms(2)] assms(2) by (auto simp: sendable_def)
  obtain v2 where v2: "rd v1 (nat (ms_datalen mes)) = (ms_datalen mes, payload mes dat, v2)" "valid v2" "queue v2 = rest" "credit v2 = credit v"
    using rd_ok [OF v1(2), of "nat (ms_datalen mes)"] v1(3,4) p by auto
  let ?m = "zero_message\<lparr>ms_cmd := ms_cmd mes, ms_stream := ms_stream mes mod 2 ^ 16, ms_pos := ms_pos mes, ms_datalen := ms_datalen mes\<rparr>"
  let ?m1 = "if wrap_s 16 (ms_stream ?m) = -1 then ?m\<lparr>ms_stream := 4294967295\<rparr> else ?m"
  have m1: "?m1 = received mes" "recv_header_v2 ?m buf = ?m" for buf
    using stream_minus_one [of "ms_stream mes"] by (simp_all add: received_def recv_header_v2_def zero_message_def)
  have r: "ms_datalen (received mes) = ms_datalen mes" "ms_data (received mes) = replicate 80 0"
    by (simp_all add: received_def zero_message_def LIBROAR_BUFFER_MSGDATA_def)
  have data: "\<exists>v'. recv_data rd v1 (received mes) want alloc = (0, ERROR_NONE,
      (received mes)\<lparr>ms_data := (if ms_datalen mes \<le> 80 then put_front (payload mes dat) (replicate 80 0) else replicate 80 0)\<rparr>,
      (if ms_datalen mes \<le> 80 then None else Some (payload mes dat)), v') \<and> valid v' \<and> queue v' = rest \<and> credit v' = credit v"
  proof (cases "ms_datalen mes = 0")
    case True
    then have "payload mes dat = []" using p by simp
    then show ?thesis using True v1 r by (auto simp: recv_data_def put_front_def)
  next
    case False
    then show ?thesis using v2 r assms(4) by (auto simp: recv_data_def LIBROAR_BUFFER_MSGDATA_def Let_def)
  qed
  show ?thesis
    using data v1(1) recv_header_v0 [OF assms(2)] m1
    by (auto simp: roar_vrecv_message_def MESS_BUF_LEN_V0_def Let_def)
qed

lemma send_all_ok:
  assumes "valid v" "2 * length ms \<le> credit v" "\<forall>(mes, dat) \<in> set ms. sendable mes dat"
  shows "\<exists>v'. send_all wr v ms = Some v' \<and> valid v' \<and> queue v' = queue v @ concat (map (\<lambda>(mes, dat). header_v0 mes @ payload mes dat) ms)"
  using assms
proof (induction ms arbitrary: v)
  case (Cons md ms)
  obtain mes dat where md: "md = (mes, dat)" by (cases md)
  obtain v1 where v1: "roar_vsend_message wr v mes dat = (0, ERROR_NONE, mes\<lparr>ms_version := 0\<rparr>, v1)" "valid v1"
    "queue v1 = queue v @ header_v0 mes @ payload mes dat" "credit v - 2 \<le> credit v1"
    using send_ok [OF Cons.prems(1), of mes dat] Cons.prems(2,3) md by auto
  then show ?case using Cons.IH [OF v1(2)] Cons.prems(2,3) md by simp
qed simp

lemma recv_all_ok:
  assumes "valid v" "queue v = concat (map (\<lambda>(mes, dat). header_v0 mes @ payload mes dat) ms) @ rest"
    and "\<forall>(mes, dat) \<in> set ms. sendable mes dat"
  shows "\<exists>v'. recv_all rd (length ms) v = Some (map delivered ms, v') \<and> valid v' \<and> queue v' = rest"
  using assms
proof (induction ms arbitrary: v)
  case (Cons md ms)
  obtain mes dat where md: "md = (mes, dat)" by (cases md)
  obtain v1 where v1: "roar_vrecv_message rd v (Some zero_message) True True =
      (0, ERROR_NONE, Some (fst (delivered md)), snd (delivered md), v1)" "valid v1"
      "queue v1 = concat (map (\<lambda>(mes, dat). header_v0 mes @ payload mes dat) ms) @ rest"
    using recv_ok [OF Cons.prems(1), of mes dat _ True True zero_message] Cons.prems(2,3) md by (auto simp: delivered_def)
  then show ?case using Cons.IH [OF v1(2,3)] Cons.prems(3) by auto
qed simp

end

subsection \<open>Properties\<close>

lemma be2: "be_bytes 2 v = [word_of_int (v div 256), word_of_int v]"
  by (simp add: be_bytes_def numeral_2_eq_2)

lemma uint_byte: "uint (word_of_int v :: byte) = v mod 256"
  by (simp add: uint_word_of_int)

lemma be_value_le4:
  assumes "0 \<le> v" "v < 2 ^ 16"
  shows "be_value (le_bytes 4 v) = v mod 256 * 2 ^ 24 + v div 256 * 2 ^ 16"
proof -
  have d: "v div 256 < 256" "0 \<le> v div 256" "v div 256 div 256 = 0" using assms by simp_all
  have "le_bytes 4 v = [word_of_int v, word_of_int (v div 256), word_of_int 0, word_of_int 0]"
    using d(3) by (simp add: numeral_eq_Suc)
  then show ?thesis using d by (simp add: be_value_def uint_byte)
qed

lemma v2_pos_field: "be_value (le_bytes 4 (le_value (be_bytes 2 p))) = p mod 2 ^ 16 * 2 ^ 16"
proof -
  define h l where "h = p div 256 mod 256" and "l = p mod 256"
  have b: "0 \<le> h" "h < 256" "0 \<le> l" "l < 256" by (simp_all add: h_def l_def)
  have v: "le_value (be_bytes 2 p) = h + 256 * l" by (simp add: be2 uint_byte h_def l_def)
  have "be_value (le_bytes 4 (h + 256 * l)) = h * 2 ^ 24 + l * 2 ^ 16"
    using be_value_le4 [of "h + 256 * l"] b by simp
  moreover have "p mod 2 ^ 16 = l + 256 * h" using zmod_zmult2_eq [of 256 p 256] by (simp add: h_def l_def)
  ultimately show ?thesis using v by simp
qed

text \<open>The version 2 header does not survive its own decoder. For a message without the long
  position flag the decoder finds the command, stream, flags and payload length that were
  encoded, but a position whose low half is lost (\<open>ROAR_HOST2NET16\<close> on a 32 bit field), and a
  sequence number made of the low byte of the payload length and the high byte of the sequence
  number (it is read one byte too early).\<close>

theorem v2_header_mismatch:
  assumes "ms_version mes = 2" "ms_flags mes AND MF_LSPOS = 0" "send_header mes = Some buf"
    and "0 \<le> ms_cmd mes" "ms_cmd mes < 256" "- (2 ^ 31) \<le> ms_flags mes" "ms_flags mes < 2 ^ 31"
    and "0 \<le> ms_datalen mes" "ms_datalen mes < 2 ^ 16"
  shows "\<exists>m. recv_header buf = Some (m, 16) \<and> length buf = 16 \<and> ms_cmd m = ms_cmd mes \<and> ms_flags m = ms_flags mes
    \<and> ms_datalen (recv_header_v2 m buf) = ms_datalen mes
    \<and> ms_pos (recv_header_v2 m buf) = ms_pos mes mod 2 ^ 16 * 2 ^ 16
    \<and> ms_seq (recv_header_v2 m buf) = wrap_s 16 (ms_datalen mes mod 256 * 256 + ms_seq mes div 256 mod 256)"
proof -
  let ?p = "le_bytes 4 (le_value (be_bytes 2 (ms_pos mes)))"
  have buf: "buf = 2 # word_of_int (ms_cmd mes) # be_bytes 2 (ms_stream mes) @ be_bytes 4 (ms_flags mes) @ ?p
      @ be_bytes 2 (ms_datalen mes) @ be_bytes 2 (ms_seq mes)"
    using assms(1-3) by (simp add: send_header_def)
  have f: "field 4 4 buf = be_bytes 4 (ms_flags mes)" "field 8 4 buf = ?p" "field 12 2 buf = be_bytes 2 (ms_datalen mes)"
    "field 13 2 buf = [word_of_int (ms_datalen mes), word_of_int (ms_seq mes div 256)]"
    unfolding buf by (simp_all add: field_def drop_Cons numeral_eq_Suc be2 [unfolded numeral_2_eq_2])
  have fl: "wrap_s 32 (be_value (field 4 4 buf)) = ms_flags mes"
  proof -
    have "wrap_s 32 (ms_flags mes mod 2 ^ 32) = wrap_s 32 (ms_flags mes)" by (rule wrap_s_cong) simp_all
    then show ?thesis using assms(6,7) by (simp add: f be_value_bytes wrap_s_id)
  qed
  have s: "be_value (field 13 2 buf) = ms_datalen mes mod 256 * 256 + ms_seq mes div 256 mod 256"
    by (simp add: f be_value_def uint_byte)
  have h: "sint (buf ! 0) = 2" "uint (buf ! Suc 0) = ms_cmd mes"
    unfolding buf using assms(4,5) by (simp_all add: uint_byte)
  show ?thesis
    using h fl s assms(2,8,9)
    by (simp add: recv_header_def Let_def recv_header_v2_def f be_value_bytes v2_pos_field) (simp add: buf)
qed

theorem v2_header_mismatch_witness:
  "\<exists>m. recv_header (the (send_header (zero_message\<lparr>ms_version := 2, ms_pos := 70000, ms_seq := 1, ms_datalen := 5\<rparr>))) = Some (m, 16)
    \<and> ms_pos (recv_header_v2 m (the (send_header (zero_message\<lparr>ms_version := 2, ms_pos := 70000, ms_seq := 1, ms_datalen := 5\<rparr>)))) = 292552704"
proof -
  let ?mes = "zero_message\<lparr>ms_version := 2, ms_pos := 70000, ms_seq := 1, ms_datalen := 5\<rparr>"
  have "send_header ?mes = Some (the (send_header ?mes))" "ms_version ?mes = 2" "ms_flags ?mes AND MF_LSPOS = 0"
    by (simp_all add: send_header_def zero_message_def)
  from v2_header_mismatch [OF this(2,3,1)] show ?thesis by (auto simp: zero_message_def)
qed

end
