(* ===== verification/Vio_Pipe.thy ===== *)
theory Vio_Pipe
  imports Roar_Buffer Roar_Proto
begin

text \<open>
  The two-ended pipe, \<open>src/libroar/vio_pipe.c\<close>. A pipe of type \<open>BUFFER\<close> keeps one chain of buffers per
  direction; the other types pass the calls on to the operating system, whose \<open>read\<close> and \<open>write\<close> are
  arguments. The end is told by comparing the handle with \<open>s0\<close>. A result has the returned count, whether
  \<open>SIGPIPE\<close> was raised, the pipe and the heap; \<open>None\<close> is undefined behaviour of the buffer code.

  \<open>pipe_put\<close> and \<open>pipe_get\<close> are a client that writes and reads byte strings through a scratch area,
  and interpret \<open>fifo_stream\<close>: what one end writes, the other end reads.
\<close>

record roar_vio_pipe =
  vp_refcount :: c_int
  vp_type :: c_int
  vp_flags :: c_int
  vp_b :: "ptr list"
  vp_p :: "c_int list"
  vp_s0 :: ptr

definition PIPE_TYPE_AUTO :: int where "PIPE_TYPE_AUTO = -1"
definition PIPE_TYPE_BUFFER :: int where "PIPE_TYPE_BUFFER = 1"
definition PIPE_TYPE_PIPE :: int where "PIPE_TYPE_PIPE = 2"
definition PIPE_TYPE_SOCKET :: int where "PIPE_TYPE_SOCKET = 3"

lemmas pipe_types = PIPE_TYPE_AUTO_def PIPE_TYPE_BUFFER_def PIPE_TYPE_PIPE_def PIPE_TYPE_SOCKET_def

definition O_RDONLY :: int where "O_RDONLY = 0"
definition O_WRONLY :: int where "O_WRONLY = 1"
definition O_RDWR :: int where "O_RDWR = 2"

definition access_mode :: "c_int \<Rightarrow> c_int" where
  "access_mode flags = flags AND 3"

definition PIPE_S :: "roar_vio_pipe \<Rightarrow> ptr \<Rightarrow> nat" where
  "PIPE_S self vio = (if vp_s0 self = vio then 0 else 1)"

definition PIPE_SR :: "roar_vio_pipe \<Rightarrow> ptr \<Rightarrow> nat" where
  "PIPE_SR self vio = (if vp_s0 self = vio then 1 else 0)"

subsection \<open>Opening and closing\<close>

datatype os_call = Os_Close c_int | Os_Shutdown_RD c_int | Os_Shutdown_WR c_int

text \<open>\<open>mem\<close> says whether the structure can be allocated; \<open>pipe1\<close>, \<open>pipe2\<close> and \<open>pair\<close> are what the two
  calls of \<open>pipe\<close> and the call of \<open>socketpair\<close> give, \<open>None\<close> for failure.\<close>

definition roar_vio_open_pipe ::
  "bool \<Rightarrow> (c_int \<times> c_int) option \<Rightarrow> (c_int \<times> c_int) option \<Rightarrow> (c_int \<times> c_int) option \<Rightarrow> ptr \<Rightarrow> ptr \<Rightarrow> c_int \<Rightarrow> c_int
    \<Rightarrow> c_int \<times> roar_vio_pipe option \<times> os_call list" where
  "roar_vio_open_pipe mem pipe1 pipe2 pair s0 s1 type flags =
     (let rw = access_mode flags;
          type = (if type = PIPE_TYPE_AUTO then PIPE_TYPE_SOCKET else type);
          self = \<lparr>vp_refcount = 2, vp_type = type, vp_flags = flags, vp_b = [NULL, NULL], vp_p = [0, 0, 0, 0], vp_s0 = s0\<rparr>
      in
      if s0 = NULL \<or> s1 = NULL then (-1, None, [])
      else if \<not> mem then (-1, None, [])
      else if type = PIPE_TYPE_BUFFER then (-1, None, [])
      else if type = PIPE_TYPE_PIPE then
        (let one = (if rw = O_RDWR \<or> rw = O_RDONLY then pipe1 else Some (-1, -1)) in
         case one of None \<Rightarrow> (-1, None, [])
         | Some (a, b) \<Rightarrow>
           (let two = (if rw = O_RDWR \<or> rw = O_WRONLY then pipe2 else Some (-1, -1)) in
            case two of None \<Rightarrow> (-1, None, [Os_Close a, Os_Close b])
            | Some (c, d) \<Rightarrow> (0, Some (self\<lparr>vp_p := [a, b, c, d]\<rparr>), [])))
      else if type = PIPE_TYPE_SOCKET then
        (case pair of None \<Rightarrow> (-1, None, [])
         | Some (a, b) \<Rightarrow>
           (0, Some (self\<lparr>vp_p := [a, b, 0, 0]\<rparr>),
            if rw = O_RDONLY then [Os_Shutdown_WR a, Os_Shutdown_RD b]
            else if rw = O_WRONLY then [Os_Shutdown_RD a, Os_Shutdown_WR b] else []))
      else (-1, None, []))"

text \<open>The pipe after the call, \<open>None\<close> when it was released; closing detaches the end from the pipe.\<close>

definition roar_vio_pipe_close :: "ptr \<Rightarrow> roar_vio_pipe option \<Rightarrow> c_int \<times> roar_vio_pipe option \<times> os_call list" where
  "roar_vio_pipe_close vio inst =
     (if vio = NULL then (-1, inst, [])
      else case inst of None \<Rightarrow> (-1, None, [])
      | Some self \<Rightarrow>
        let self = self\<lparr>vp_refcount := vp_refcount self - 1\<rparr>;
            p = vp_p self;
            (self, calls) =
              (if vp_type self = PIPE_TYPE_PIPE then
                 (if PIPE_S self vio = 0
                  then (self\<lparr>vp_p := p[0 := -1, 3 := -1]\<rparr>, [Os_Close (p ! 0), Os_Close (p ! 3)])
                  else (self\<lparr>vp_p := p[1 := -1, 2 := -1]\<rparr>, [Os_Close (p ! 1), Os_Close (p ! 2)]))
               else if vp_type self = PIPE_TYPE_SOCKET then
                 (self\<lparr>vp_p := p[PIPE_S self vio := -1]\<rparr>, [Os_Close (p ! PIPE_S self vio)])
               else (self, []))
        in (0, if vp_refcount self = 0 then None else Some self, calls))"

definition roar_vio_pipe_sync :: "ptr \<Rightarrow> c_int" where
  "roar_vio_pipe_sync vio = 0"

subsection \<open>Reading and writing\<close>

type_synonym os_io = "c_int \<Rightarrow> ptr \<Rightarrow> int \<Rightarrow> heap \<Rightarrow> c_int \<times> heap"
type_synonym pipe_result = "c_int \<times> bool \<times> roar_vio_pipe option \<times> heap"

definition roar_vio_pipe_read ::
  "os_io \<Rightarrow> heap \<Rightarrow> ptr \<Rightarrow> roar_vio_pipe option \<Rightarrow> ptr \<Rightarrow> int \<Rightarrow> pipe_result option" where
  "roar_vio_pipe_read os_read h vio inst buf count =
     (if vio = NULL then Some (-1, False, inst, h)
      else case inst of None \<Rightarrow> Some (-1, False, None, h)
      | Some self \<Rightarrow>
        if vp_type self = PIPE_TYPE_BUFFER then
          (let idx = PIPE_S self vio in
           if (if idx = 0 then O_WRONLY else O_RDONLY) = access_mode (vp_flags self) then Some (-1, True, inst, h)
           else if vp_b self ! idx = NULL then Some (0, False, inst, h)
           else do {
             (r, b, n, h) \<leftarrow> roar_buffer_shift_out h (Some (vp_b self ! idx)) buf (Some count);
             let self = self\<lparr>vp_b := (vp_b self)[idx := the b]\<rparr>;
             if r = -1 then Some (-1, False, Some self, h) else Some (the n, False, Some self, h)
           })
        else if vp_type self = PIPE_TYPE_PIPE then
          (let (r, h) = os_read (vp_p self ! (PIPE_S self vio * 2)) buf count h in Some (r, False, inst, h))
        else if vp_type self = PIPE_TYPE_SOCKET then
          (let (r, h) = os_read (vp_p self ! PIPE_S self vio) buf count h in Some (r, False, inst, h))
        else Some (-1, False, inst, h))"

definition roar_vio_pipe_write ::
  "os_io \<Rightarrow> heap \<Rightarrow> ptr \<Rightarrow> roar_vio_pipe option \<Rightarrow> ptr \<Rightarrow> int \<Rightarrow> pipe_result option" where
  "roar_vio_pipe_write os_write h vio inst buf count =
     (if vio = NULL then Some (-1, False, inst, h)
      else case inst of None \<Rightarrow> Some (-1, False, None, h)
      | Some self \<Rightarrow>
        if vp_type self = PIPE_TYPE_BUFFER then
          (if vp_refcount self < 2 then Some (-1, True, inst, h)
           else let idx = PIPE_SR self vio in
             if (if idx = 0 then O_WRONLY else O_RDONLY) = access_mode (vp_flags self) then Some (-1, True, inst, h)
             else do {
               (r, nxt, dat, h) \<leftarrow> roar_buffer_new_data h True count;
               if r = -1 then Some (-1, False, inst, h)
               else do {
                 let h = h\<lparr>bh_mem := memcpy (bh_mem h) dat buf count\<rparr>;
                 if vp_b self ! idx = NULL then
                   Some (count, False, Some (self\<lparr>vp_b := (vp_b self)[idx := the nxt]\<rparr>), h)
                 else do {
                   (r, h) \<leftarrow> roar_buffer_add h (vp_b self ! idx) (the nxt);
                   if r = -1 then do { (_, h) \<leftarrow> roar_buffer_free h (the nxt); Some (-1, False, inst, h) }
                   else Some (count, False, inst, h)
                 }
               }
             })
        else if vp_type self = PIPE_TYPE_PIPE then
          (let (r, h) = os_write (vp_p self ! (PIPE_SR self vio * 2 + 1)) buf count h in Some (r, False, inst, h))
        else if vp_type self = PIPE_TYPE_SOCKET then
          (let (r, h) = os_write (vp_p self ! PIPE_S self vio) buf count h in Some (r, False, inst, h))
        else Some (-1, False, inst, h))"

subsection \<open>A byte stream through a buffer pipe\<close>

text \<open>The state of a direction: the pipe, the heap, and the handles of the writing and of the reading end.
  The scratch area lies below address 0, apart from everything the allocator hands out.\<close>

record pipe_state =
  ps_pipe :: roar_vio_pipe
  ps_heap :: heap
  ps_writer :: ptr
  ps_reader :: ptr

definition pipe_put :: "os_io \<Rightarrow> pipe_state \<Rightarrow> byte list \<Rightarrow> c_int \<times> pipe_state" where
  "pipe_put os v xs =
     (let buf = - int (length xs) - 1; h = (ps_heap v)\<lparr>bh_mem := store_bytes (bh_mem (ps_heap v)) buf xs\<rparr> in
      case roar_vio_pipe_write os h (ps_writer v) (Some (ps_pipe v)) buf (int (length xs)) of
        None \<Rightarrow> (-1, v)
      | Some (r, _, p, h) \<Rightarrow> (r, v\<lparr>ps_pipe := the p, ps_heap := h\<rparr>))"

definition pipe_get :: "os_io \<Rightarrow> pipe_state \<Rightarrow> nat \<Rightarrow> c_int \<times> byte list \<times> pipe_state" where
  "pipe_get os v n =
     (let buf = - int n - 1 in
      case roar_vio_pipe_read os (ps_heap v) (ps_reader v) (Some (ps_pipe v)) buf (int n) of
        None \<Rightarrow> (-1, [], v)
      | Some (r, _, p, h) \<Rightarrow> (r, bytes (bh_mem h) buf r, v\<lparr>ps_pipe := the p, ps_heap := h\<rparr>))"

subsection \<open>The pipe keeps what was written\<close>

partial_function (option) chain_nodes :: "heap \<Rightarrow> ptr \<Rightarrow> ptr list option" where
  "chain_nodes h p = (if p = NULL then Some [] else do {
     b \<leftarrow> bh_bufs h p; rest \<leftarrow> chain_nodes h (rb_next b); Some (p # rest) })"

lemma chain_nodes_chain: "chain h p as \<Longrightarrow> chain_nodes h p = Some as"
proof (induction as arbitrary: p)
  case Nil
  then show ?case by (subst chain_nodes.simps) simp
next
  case (Cons a as)
  then show ?case by (subst chain_nodes.simps) (auto split: option.splits)
qed

text \<open>The direction's chain, what it holds, and how many more writes the allocator allows.\<close>

definition ps_idx :: "pipe_state \<Rightarrow> nat" where
  "ps_idx v = PIPE_S (ps_pipe v) (ps_reader v)"

definition ps_buf :: "pipe_state \<Rightarrow> ptr" where
  "ps_buf v = vp_b (ps_pipe v) ! ps_idx v"

definition pipe_queue :: "pipe_state \<Rightarrow> byte list" where
  "pipe_queue v = content (ps_heap v) (the (chain_nodes (ps_heap v) (ps_buf v)))"

definition pipe_credit :: "pipe_state \<Rightarrow> nat" where
  "pipe_credit v = bh_left (ps_heap v) div 2"

definition chain_inv :: "heap \<Rightarrow> ptr \<Rightarrow> ptr list \<Rightarrow> bool" where
  "chain_inv h p as \<longleftrightarrow> is_copy h p as \<and> chain_ok h as \<and> 0 < bh_brk h \<and>
     (\<forall>a \<in> set as. rb_data (node h a) < bh_brk h \<and> 0 \<le> rb_user_data (node h a))"

definition ends_ok :: "pipe_state \<Rightarrow> bool" where
  "ends_ok v \<longleftrightarrow> vp_type (ps_pipe v) = PIPE_TYPE_BUFFER \<and> 2 \<le> vp_refcount (ps_pipe v) \<and>
     access_mode (vp_flags (ps_pipe v)) = O_RDWR \<and> length (vp_b (ps_pipe v)) = 2 \<and> ps_writer v \<noteq> NULL \<and> ps_reader v \<noteq> NULL \<and>
     PIPE_SR (ps_pipe v) (ps_writer v) = PIPE_S (ps_pipe v) (ps_reader v)"

definition pipe_valid :: "pipe_state \<Rightarrow> bool" where
  "pipe_valid v \<longleftrightarrow> ends_ok v \<and> (\<exists>as. chain_inv (ps_heap v) (ps_buf v) as)"

lemma chain_inv_chain: "chain_inv h p as \<Longrightarrow> chain h p as"
  by (simp add: chain_inv_def is_copy_def)

lemma pipe_queue_chain: "chain_inv (ps_heap v) (ps_buf v) as \<Longrightarrow> pipe_queue v = content (ps_heap v) as"
  by (simp add: pipe_queue_def chain_nodes_chain [OF chain_inv_chain])

text \<open>Storing into the scratch area below 0 disturbs no chain.\<close>

lemma scratch_store:
  assumes "chain_inv h p as" "h1 = h\<lparr>bh_mem := store_bytes (bh_mem h) (- int (length xs) - 1) xs\<rparr>"
  shows "chain_inv h1 p as" "content h1 as = content h as" "bytes (bh_mem h1) (- int (length xs) - 1) (int (length xs)) = xs"
proof -
  have n: "node h1 = node h" "bh_bufs h1 = bh_bufs h" "bh_blocks h1 = bh_blocks h" "bh_brk h1 = bh_brk h"
    by (simp_all add: assms(2) node_def fun_eq_iff)
  have "chain h1 p as = chain h p as" by (rule chain_cong) (simp add: n)
  moreover have "releasable h1 b = releasable h b" for b by (simp add: releasable_def n)
  ultimately show "chain_inv h1 p as"
    using assms(1) n by (simp add: chain_inv_def is_copy_def chain_ok_def below_def)
  show "content h1 as = content h as"
    by (rule content_cong [of _ _ _ "- int (length xs) - 1" "int (length xs)"])
       (use assms(1) in \<open>auto simp: chain_inv_def windows_apart_def assms(2) store_bytes_def\<close>)
  show "bytes (bh_mem h1) (- int (length xs) - 1) (int (length xs)) = xs"
    by (rule nth_equalityI) (auto simp: assms(2) store_bytes_def)
qed

lemma chain_inv_append:
  assumes "chain_inv h p as" "0 \<le> len" "len < 2 ^ 64" "new = bh_brk h + len + 1" "h' = append_new h src len as"
  shows "chain_inv h' (if as = [] then new else p) (as @ [new])" "content h' (as @ [new]) = content h as @ bytes (bh_mem h) src len"
    "bh_left h' = bh_left h - 2"
proof -
  have h: "is_copy h p as" "chain_ok h as" "0 < bh_brk h" "\<forall>c \<in> set as. rb_data (node h c) < bh_brk h"
    "\<And>a. a \<in> set as \<Longrightarrow> 0 \<le> rb_user_data (node h a)" using assms(1) by (auto simp: chain_inv_def)
  note g = append_new_grows [OF h(1) assms(2) h(3) assms(4,5)]
  note c = append_new_chain_ok [OF h(1,2,4) assms(2-5)]
  show "content h' (as @ [new]) = content h as @ bytes (bh_mem h) src len" by (rule g)
  have "bh_brk h' = bh_brk h + len + 65" by (simp add: assms(5) append_new_def fill_new_def node_set_def)
  then show "chain_inv h' (if as = [] then new else p) (as @ [new])"
    unfolding chain_inv_def using g(1) c h(3,5) assms(2) by auto
  show "bh_left h' = bh_left h - 2" by (simp add: assms(5) append_new_def fill_new_def node_set_def)
qed

lemma pipe_put_ok:
  assumes "pipe_valid v" "0 < pipe_credit v" "int (length xs) < 2 ^ 64"
  shows "\<exists>v'. pipe_put os v xs = (int (length xs), v') \<and> pipe_valid v' \<and> pipe_queue v' = pipe_queue v @ xs \<and> pipe_credit v' = pipe_credit v - 1"
proof -
  obtain as where e: "ends_ok v" and inv: "chain_inv (ps_heap v) (ps_buf v) as" using assms(1) by (auto simp: pipe_valid_def)
  let ?n = "int (length xs)" and ?i = "ps_idx v" and ?p = "ps_pipe v"
  let ?src = "- ?n - 1"
  define h where "h = (ps_heap v)\<lparr>bh_mem := store_bytes (bh_mem (ps_heap v)) ?src xs\<rparr>"
  note s = scratch_store [OF inv h_def]
  have left: "2 \<le> bh_left h" "bh_left h = bh_left (ps_heap v)" using assms(2) by (auto simp: pipe_credit_def h_def)
  have brk: "0 < bh_brk h" using s(1) by (simp add: chain_inv_def)
  let ?new = "bh_brk h + ?n + 1"
  let ?h' = "append_new h ?src ?n as"
  let ?v' = "v\<lparr>ps_pipe := ?p\<lparr>vp_b := (vp_b ?p)[?i := if as = [] then ?new else ps_buf v]\<rparr>, ps_heap := ?h'\<rparr>"
  note a = chain_inv_append [OF s(1) _ assms(3) refl refl, of ?src]
  have idx: "PIPE_SR ?p (ps_writer v) = ?i" "vp_b ?p ! ?i = ps_buf v" "?i < 2"
    using e by (auto simp: ends_ok_def ps_idx_def ps_buf_def PIPE_S_def)
  have mode: "(if ?i = 0 then O_WRONLY else O_RDONLY) \<noteq> access_mode (vp_flags ?p)"
    using e by (auto simp: ends_ok_def O_WRONLY_def O_RDONLY_def O_RDWR_def)
  have null: "ps_buf v = NULL \<longleftrightarrow> as = []" using chain_inv_chain [OF inv] by (cases as) auto
  have copy: "chain h (ps_buf v) as" "below h as" "\<forall>c \<in> set as. rb_flags (node h c) = 0"
    using s(1) by (auto simp: chain_inv_def is_copy_def)
  have add: "as \<noteq> [] \<Longrightarrow> roar_buffer_add (fill_new h ?src ?n) (ps_buf v) ?new = Some (0, ?h')"
    using append_new_add [OF copy _ brk refl, of ?n ?src] by simp
  have same: "?p\<lparr>vp_b := (vp_b ?p)[?i := ps_buf v]\<rparr> = ?p" using idx(2) by (metis list_update_id roar_vio_pipe.surjective roar_vio_pipe.update_convs(4))
  have "roar_vio_pipe_write os h (ps_writer v) (Some ?p) ?src ?n = Some (?n, False, Some (?p\<lparr>vp_b := (vp_b ?p)[?i := if as = [] then ?new else ps_buf v]\<rparr>), ?h')"
    using e mode idx null add buffer_new_data_ok [OF left(1) brk, of ?n] same
    by (cases "as = []") (auto simp: roar_vio_pipe_write_def ends_ok_def Let_def fill_new_def append_new_def)
  then have put: "pipe_put os v xs = (?n, ?v')" by (simp add: pipe_put_def Let_def h_def)
  have len: "length (vp_b ?p) = 2" using e by (simp add: ends_ok_def)
  have buf': "ps_buf ?v' = (if as = [] then ?new else ps_buf v)" "ends_ok ?v'" "ps_heap ?v' = ?h'"
    using e idx(3) len by (auto simp: ps_buf_def ps_idx_def ends_ok_def PIPE_S_def PIPE_SR_def)
  have inv': "chain_inv (ps_heap ?v') (ps_buf ?v') (as @ [?new])" unfolding buf' using a(1) by simp
  have "pipe_queue ?v' = pipe_queue v @ xs"
    using pipe_queue_chain [OF inv'] pipe_queue_chain [OF inv] a(2) s(2,3) buf'(3) by simp
  moreover have "pipe_credit ?v' = pipe_credit v - 1" using a(3) left by (simp add: pipe_credit_def buf')
  ultimately show ?thesis using put inv' buf'(2) by (auto simp: pipe_valid_def)
qed

lemma chain_inv_trimmed:
  assumes "chain_inv h p as" "chain h' p' as'" "chain_ok h' as'" "trimmed h as h' as'"
  shows "chain_inv h' p' as'"
proof -
  have "a \<in> set as \<and> rb_flags (node h' a) = 0 \<and> rb_data (node h' a) < bh_brk h' \<and> 0 \<le> rb_user_data (node h' a) \<and> a < bh_brk h' \<and>
      0 \<le> rb_user_len (node h' a) \<and> rb_user_data (node h' a) + rb_user_len (node h' a) \<le> bh_brk h'" if "a \<in> set as'" for a
    using assms(1,3,4) that by (fastforce simp: chain_inv_def is_copy_def below_def trimmed_def chain_ok_def)
  then show ?thesis
    using assms by (auto simp: chain_inv_def is_copy_def below_def trimmed_def chain_ok_def)
qed

lemma pipe_get_ok:
  assumes "pipe_valid v" "n \<le> length (pipe_queue v)"
  shows "\<exists>v'. pipe_get os v n = (int n, take n (pipe_queue v), v') \<and> pipe_valid v' \<and> pipe_queue v' = drop n (pipe_queue v) \<and> pipe_credit v' = pipe_credit v"
proof -
  obtain as where e: "ends_ok v" and inv: "chain_inv (ps_heap v) (ps_buf v) as" using assms(1) by (auto simp: pipe_valid_def)
  let ?h = "ps_heap v" and ?i = "ps_idx v" and ?p = "ps_pipe v" and ?buf = "- int n - 1"
  note q = pipe_queue_chain [OF inv]
  have idx: "PIPE_S ?p (ps_reader v) = ?i" "vp_b ?p ! ?i = ps_buf v" "?i < 2"
    by (auto simp: ps_idx_def ps_buf_def PIPE_S_def)
  have mode: "(if ?i = 0 then O_WRONLY else O_RDONLY) \<noteq> access_mode (vp_flags ?p)"
    using e by (auto simp: ends_ok_def O_WRONLY_def O_RDONLY_def O_RDWR_def)
  have len: "length (vp_b ?p) = 2" using e by (simp add: ends_ok_def)
  show ?thesis
  proof (cases as)
    case Nil
    then have "ps_buf v = NULL" "pipe_queue v = []" using chain_inv_chain [OF inv] q by (auto simp: content_def)
    then have "pipe_get os v n = (int n, [], v)"
      using assms(2) e mode idx by (auto simp: pipe_get_def roar_vio_pipe_read_def ends_ok_def Let_def)
    then show ?thesis using assms \<open>pipe_queue v = []\<close> by simp
  next
    case (Cons a as0)
    have c: "chain ?h (ps_buf v) as" "chain_ok ?h as" "ps_buf v \<noteq> NULL" "windows_apart ?h as ?buf (int n)"
      using inv Cons chain_inv_chain [OF inv] by (auto simp: chain_inv_def windows_apart_def)
    have k: "n = min (nat (int n)) (length (content ?h as))" using assms(2) q by simp
    obtain h' b' where s: "roar_buffer_shift_out ?h (Some (ps_buf v)) ?buf (Some (int n)) = Some (0, Some b', Some (int n), h')"
      "shifted ?h as ?buf n h' b'"
      using shift_out_shifted [OF c(1-3) _ _ c(4) k] by auto
    then obtain as' where as': "chain h' b' as'" "chain_ok h' as'" "content h' as' = drop n (content ?h as)" "trimmed ?h as h' as'"
      "bytes (bh_mem h') ?buf (int n) = take n (content ?h as)" by (auto simp: shifted_def)
    let ?v' = "v\<lparr>ps_pipe := ?p\<lparr>vp_b := (vp_b ?p)[?i := b']\<rparr>, ps_heap := h'\<rparr>"
    have get: "pipe_get os v n = (int n, take n (pipe_queue v), ?v')"
      using s(1) e mode idx c(3) as'(5) q by (auto simp: pipe_get_def roar_vio_pipe_read_def ends_ok_def Let_def)
    have v': "ps_buf ?v' = b'" "ends_ok ?v'" "ps_heap ?v' = h'"
      using e idx(3) len by (auto simp: ps_buf_def ps_idx_def ends_ok_def PIPE_S_def PIPE_SR_def)
    have inv': "chain_inv (ps_heap ?v') (ps_buf ?v') as'" unfolding v' by (rule chain_inv_trimmed [OF inv as'(1,2,4)])
    have "pipe_queue ?v' = drop n (pipe_queue v)" using pipe_queue_chain [OF inv'] as'(3) q v'(3) by simp
    moreover have "pipe_credit ?v' = pipe_credit v" using as'(4) by (simp add: pipe_credit_def trimmed_def)
    ultimately show ?thesis using get inv' v'(2) by (auto simp: pipe_valid_def)
  qed
qed

interpretation pipe: fifo_stream pipe_valid pipe_queue pipe_credit "pipe_put os" "pipe_get os'" for os os'
  by unfold_locales (rule pipe_put_ok, assumption+, rule pipe_get_ok, assumption+)

end
