(* ===== verification/Roar_Notify.thy ===== *)
theory Roar_Notify
  imports Roar_Proto
begin

text \<open>
  Event notification, \<open>src/libroar/notify.c\<close>: cores with a hash table of subscribers, and the network
  form of an event. A chained list of subscribers is a list of records, each with its address; the
  state has the cores by address, the global core, the addresses of the subscriber records that are
  allocated, and an allocator. Callbacks are addresses; emitting an event returns the calls it makes,
  in order, and callbacks do not change the tables while an event is delivered.
\<close>

record roar_event =
  ev_flags :: "32 word"
  ev_event :: "32 word"
  ev_event_proxy :: "32 word"
  ev_emitter :: c_int
  ev_target :: c_int
  ev_target_type :: c_int
  ev_arg0 :: c_int
  ev_arg1 :: c_int
  ev_arg2 :: "byte list option"
  ev_arg2_len :: int

record roar_subscriber =
  sb_addr :: ptr
  sb_event :: "32 word"
  sb_emitter :: c_int
  sb_target :: c_int
  sb_target_type :: c_int
  sb_cb :: ptr
  sb_userdata :: ptr
  sb_hash :: nat

record roar_notify_core =
  nc_refc :: nat
  nc_lists :: "roar_subscriber list list"
  nc_proxy :: ptr
  nc_proxy_userdata :: ptr

record notify_state =
  ns_cores :: "ptr \<rightharpoonup> roar_notify_core"
  ns_global :: ptr
  ns_live :: "ptr list"
  ns_brk :: ptr
  ns_left :: nat

definition NOTIFY_SPECIAL :: "32 word" where "NOTIFY_SPECIAL = 0xffffffff"
definition EVENT_FLAG_NETTRANS :: "32 word" where "EVENT_FLAG_NETTRANS = 1"
definition EVENT_FLAG_PROXYEVENT :: "32 word" where "EVENT_FLAG_PROXYEVENT = 2"

definition hash_event :: "nat \<Rightarrow> 32 word \<Rightarrow> nat" where
  "hash_event listc ev =
     (let hash = 0 XOR drop_bit 0 ev;
          hash = hash XOR drop_bit 8 ev;
          hash = hash XOR drop_bit 16 ev;
          hash = hash XOR drop_bit 24 ev
      in unat (hash AND (word_of_nat listc - 1)))"

subsection \<open>Cores\<close>

definition ns_alloc :: "notify_state \<Rightarrow> (ptr \<times> notify_state) option" where
  "ns_alloc s = (if ns_left s = 0 then None else Some (ns_brk s, s\<lparr>ns_brk := ns_brk s + 64, ns_left := ns_left s - 1\<rparr>))"

definition list_counts :: "int list" where
  "list_counts = [1, 2, 4, 8, 16, 32, 64, 128, 256, 512, 1024]"

definition roar_notify_core_new :: "notify_state \<Rightarrow> int \<Rightarrow> ptr \<times> notify_state" where
  "roar_notify_core_new s nlists =
     (let nlists = (if nlists = -1 then 16 else nlists) in
      if \<not> List.member list_counts nlists then (NULL, s)
      else case ns_alloc s of None \<Rightarrow> (NULL, s)
        | Some (core, s1) \<Rightarrow>
          (case ns_alloc s1 of None \<Rightarrow> (NULL, s1)
           | Some (_, s2) \<Rightarrow>
             (core, s2\<lparr>ns_cores := (ns_cores s2)(core \<mapsto> \<lparr>nc_refc = 1, nc_lists = replicate (nat nlists) [],
                nc_proxy = NULL, nc_proxy_userdata = NULL\<rparr>)\<rparr>)))"

text \<open>\<open>_CKRCORE\<close>: a null core stands for the global one.\<close>

definition the_core :: "notify_state \<Rightarrow> ptr \<Rightarrow> ptr option" where
  "the_core s core = (if core = NULL then if ns_global s = NULL then None else Some (ns_global s) else Some core)"

definition roar_notify_core_ref :: "notify_state \<Rightarrow> ptr \<Rightarrow> (c_int \<times> notify_state) option" where
  "roar_notify_core_ref s core =
     (case the_core s core of None \<Rightarrow> Some (-1, s)
      | Some core \<Rightarrow> (case ns_cores s core of None \<Rightarrow> None
        | Some c \<Rightarrow> Some (0, s\<lparr>ns_cores := (ns_cores s)(core \<mapsto> c\<lparr>nc_refc := nc_refc c + 1\<rparr>)\<rparr>)))"

definition roar_notify_core_unref :: "notify_state \<Rightarrow> ptr \<Rightarrow> (c_int \<times> notify_state) option" where
  "roar_notify_core_unref s core =
     (case the_core s core of None \<Rightarrow> Some (-1, s)
      | Some core \<Rightarrow> (case ns_cores s core of None \<Rightarrow> None
        | Some c \<Rightarrow>
          let refc = (if nc_refc c = 0 then 1 else nc_refc c) - 1 in
          if refc > 0 then Some (0, s\<lparr>ns_cores := (ns_cores s)(core \<mapsto> c\<lparr>nc_refc := refc\<rparr>)\<rparr>)
          else
            let addrs = map sb_addr (concat (nc_lists c))
            in Some (0, s\<lparr>ns_global := (if core = ns_global s then NULL else ns_global s),
                          ns_live := filter (\<lambda>a. a \<notin> set addrs) (ns_live s),
                          ns_cores := (ns_cores s)(core := None)\<rparr>)))"

definition roar_notify_core_new_global :: "notify_state \<Rightarrow> int \<Rightarrow> c_int \<times> notify_state" where
  "roar_notify_core_new_global s nlists =
     (if ns_global s \<noteq> NULL then (-1, s)
      else let (core, s) = roar_notify_core_new s nlists in
        if core = NULL then (-1, s) else (0, s\<lparr>ns_global := core\<rparr>))"

definition roar_notify_core_register_proxy :: "notify_state \<Rightarrow> ptr \<Rightarrow> ptr \<Rightarrow> ptr \<Rightarrow> (c_int \<times> notify_state) option" where
  "roar_notify_core_register_proxy s core cb userdata =
     (case the_core s core of None \<Rightarrow> Some (-1, s)
      | Some core \<Rightarrow> (case ns_cores s core of None \<Rightarrow> None
        | Some c \<Rightarrow> Some (0, s\<lparr>ns_cores := (ns_cores s)(core \<mapsto> c\<lparr>nc_proxy := cb, nc_proxy_userdata := userdata\<rparr>)\<rparr>)))"

subsection \<open>Subscribers\<close>

definition new_subscriber :: "ptr \<Rightarrow> roar_event \<Rightarrow> ptr \<Rightarrow> ptr \<Rightarrow> nat \<Rightarrow> roar_subscriber" where
  "new_subscriber subs e cb userdata h =
     \<lparr>sb_addr = subs, sb_event = ev_event e, sb_emitter = ev_emitter e, sb_target = ev_target e,
      sb_target_type = ev_target_type e, sb_cb = cb, sb_userdata = userdata, sb_hash = h\<rparr>"

text \<open>The result is the address of the subscriber, or null.\<close>

definition roar_notify_core_subscribe ::
  "notify_state \<Rightarrow> ptr \<Rightarrow> roar_event option \<Rightarrow> ptr \<Rightarrow> ptr \<Rightarrow> (ptr \<times> notify_state) option" where
  "roar_notify_core_subscribe s core event cb userdata =
     (case the_core s core of None \<Rightarrow> Some (NULL, s)
      | Some core \<Rightarrow>
        if event = None \<or> cb = NULL then Some (NULL, s)
        else (case ns_cores s core of None \<Rightarrow> None
        | Some c \<Rightarrow> (case ns_alloc s of None \<Rightarrow> Some (NULL, s)
          | Some (subs, s) \<Rightarrow>
            let h = hash_event (length (nc_lists c)) (ev_event (the event));
                sb = new_subscriber subs (the event) cb userdata h
            in Some (subs, s\<lparr>ns_live := subs # ns_live s,
                 ns_cores := (ns_cores s)(core \<mapsto> c\<lparr>nc_lists := (nc_lists c)[h := nc_lists c ! h @ [sb]]\<rparr>)\<rparr>))))"

fun remove_sub :: "ptr \<Rightarrow> roar_subscriber list \<Rightarrow> roar_subscriber list" where
  "remove_sub a [] = []"
| "remove_sub a (y # ys) = (if sb_addr y = a then ys else y # remove_sub a ys)"

text \<open>The head of a list is unlinked without being released; another subscriber is released.\<close>

definition roar_notify_core_unsubscribe ::
  "notify_state \<Rightarrow> ptr \<Rightarrow> roar_subscriber option \<Rightarrow> (c_int \<times> notify_state) option" where
  "roar_notify_core_unsubscribe s core subscriber =
     (case the_core s core of None \<Rightarrow> Some (-1, s)
      | Some core \<Rightarrow> (case subscriber of None \<Rightarrow> Some (-1, s)
        | Some sb \<Rightarrow> (case ns_cores s core of None \<Rightarrow> None
          | Some c \<Rightarrow>
            let h = sb_hash sb; l = nc_lists c ! h in
            (case l of
               [] \<Rightarrow> Some (-1, s)
             | x # xs \<Rightarrow>
               if sb_addr x = sb_addr sb
               then Some (0, s\<lparr>ns_cores := (ns_cores s)(core \<mapsto> c\<lparr>nc_lists := (nc_lists c)[h := xs]\<rparr>)\<rparr>)
               else if \<not> list_ex (\<lambda>y. sb_addr y = sb_addr sb) xs then Some (-1, s)
               else Some (0, s\<lparr>ns_live := filter (\<lambda>a. a \<noteq> sb_addr sb) (ns_live s),
                      ns_cores := (ns_cores s)(core \<mapsto> c\<lparr>nc_lists := (nc_lists c)[h := x # remove_sub (sb_addr sb) xs]\<rparr>)\<rparr>)))))"

definition sub_matches :: "roar_subscriber \<Rightarrow> roar_event \<Rightarrow> bool" where
  "sub_matches cur event \<longleftrightarrow>
     (sb_event cur = NOTIFY_SPECIAL \<or> sb_event cur = ev_event event) \<and>
     (sb_emitter cur = -1 \<or> sb_emitter cur = ev_emitter event) \<and>
     (sb_target cur = -1 \<or> sb_target cur = ev_target event) \<and>
     (sb_target_type cur = -1 \<or> sb_target_type cur = ev_target_type event)"

text \<open>The calls of an event: callback and user data, the proxy first.\<close>

fun emit_loop :: "roar_subscriber list \<Rightarrow> roar_event \<Rightarrow> (ptr \<times> ptr) list" where
  "emit_loop [] event = []"
| "emit_loop (cur # rest) event =
     (if \<not> sub_matches cur event then emit_loop rest event
      else if sb_cb cur = NULL then emit_loop rest event
      else (sb_cb cur, sb_userdata cur) # emit_loop rest event)"

definition roar_notify_core_emit :: "notify_state \<Rightarrow> ptr \<Rightarrow> roar_event option \<Rightarrow> (c_int \<times> (ptr \<times> ptr) list) option" where
  "roar_notify_core_emit s core event =
     (case the_core s core of None \<Rightarrow> Some (-1, [])
      | Some core \<Rightarrow> (case event of None \<Rightarrow> Some (-1, [])
        | Some e \<Rightarrow> (case ns_cores s core of None \<Rightarrow> None
          | Some c \<Rightarrow>
            Some (0, (if nc_proxy c \<noteq> NULL \<and> ev_flags e AND EVENT_FLAG_PROXYEVENT = 0
                      then [(nc_proxy c, nc_proxy_userdata c)] else [])
                     @ emit_loop (nc_lists c ! hash_event (length (nc_lists c)) (ev_event e)) e))))"

definition roar_notify_core_emit_simple ::
  "notify_state \<Rightarrow> 32 word \<Rightarrow> c_int \<Rightarrow> c_int \<Rightarrow> c_int \<Rightarrow> c_int \<Rightarrow> c_int \<Rightarrow> byte list option \<Rightarrow> int
    \<Rightarrow> (c_int \<times> (ptr \<times> ptr) list) option" where
  "roar_notify_core_emit_simple s event emitter target target_type arg0 arg1 arg2 arg2_len =
     roar_notify_core_emit s NULL (Some \<lparr>
       ev_flags = (if arg2 = None \<and> (arg2_len = 0 \<or> arg2_len = -1) then EVENT_FLAG_NETTRANS else 0),
       ev_event = event, ev_event_proxy = 0, ev_emitter = emitter, ev_target = target, ev_target_type = target_type,
       ev_arg0 = arg0, ev_arg1 = arg1, ev_arg2 = arg2, ev_arg2_len = arg2_len\<rparr>)"

subsection \<open>Events on the network\<close>

text \<open>\<open>cap\<close> is \<open>*len\<close>, the size of the blob. The result is the return value, the bytes stored and \<open>*len\<close>;
  \<open>None\<close> is the final \<open>memcpy\<close> leaving the blob or the data: a negative length, a length beyond the data
  at \<open>arg2\<close>, or data that the length calculation did not count.\<close>

definition roar_event_to_blob :: "roar_event option \<Rightarrow> bool \<Rightarrow> nat option \<Rightarrow> (c_int \<times> byte list \<times> nat) option" where
  "roar_event_to_blob event blob_null len =
     (if event = None \<or> blob_null \<or> len = None then Some (-1, [], 0)
      else let e = the event; cap = the len in
      if cap = 0 then Some (-1, [], cap)
      else
        let proxy = ev_flags e AND EVENT_FLAG_PROXYEVENT \<noteq> 0; nettrans = ev_flags e AND EVENT_FLAG_NETTRANS \<noteq> 0 in
        if nettrans \<and> ev_arg2_len e > 32768 then Some (-1, [], cap)
        else
          let off = (if nettrans \<and> ev_arg2_len e > 0 then nat (ev_arg2_len e) else 0);
              needed = 16 + (if proxy then 4 else 0) + (if nettrans then 4 else 0) + off in
          if cap < needed then Some (-1, [], cap)
          else
            let fl = (if proxy then 2 else 0) + (if nettrans then 1 else 0);
                head = be_bytes 4 fl @ be_bytes 4 (uint (ev_event e))
                  @ (if proxy then be_bytes 4 (uint (ev_event_proxy e)) else [])
                  @ be_bytes 2 (ev_emitter e) @ be_bytes 2 (ev_target e) @ be_bytes 2 (ev_target_type e)
                  @ (if nettrans then be_bytes 2 (ev_arg2_len e) @ be_bytes 2 (ev_arg0 e) @ be_bytes 2 (ev_arg1 e) else be_bytes 2 0);
                dat = (case ev_arg2 e of None \<Rightarrow> [] | Some d \<Rightarrow> d)
            in if ev_arg2_len e < 0 \<or> int (length dat) < ev_arg2_len e \<or> cap < needed - off + nat (ev_arg2_len e) then None
               else Some (0, head @ take (nat (ev_arg2_len e)) dat, needed))"

definition from16 :: "int \<Rightarrow> int" where
  "from16 v = (if v = 65535 then -1 else v)"

definition zero_event :: roar_event where
  "zero_event = \<lparr>ev_flags = 0, ev_event = 0, ev_event_proxy = 0, ev_emitter = 0, ev_target = 0, ev_target_type = 0,
     ev_arg0 = 0, ev_arg1 = 0, ev_arg2 = None, ev_arg2_len = 0\<rparr>"

text \<open>The blob holds the \<open>*len\<close> bytes received. The event is \<open>None\<close> where it is not assigned.\<close>

definition roar_event_from_blob :: "byte list \<Rightarrow> c_int \<times> roar_event option \<times> nat" where
  "roar_event_from_blob blob =
     (let len = length blob in
      if len < 16 then (-1, None, len)
      else
        let flags = be_value (field 0 4 blob);
            proxy = flags AND 2 \<noteq> 0; dat = flags AND 1 \<noteq> 0;
            o16 = (if proxy then 12 else 8);
            needed = 16 + (if proxy then 4 else 0) + (if dat then 4 else 0) in
        if len < needed then (-1, None, len)
        else
          let alen = be_value (field (o16 + 6) 2 blob); needed = needed + nat alen in
          if len < needed then (-1, None, len)
          else
            let e = zero_event\<lparr>ev_flags := (if proxy then EVENT_FLAG_PROXYEVENT else 0) OR (if dat then EVENT_FLAG_NETTRANS else 0)\<rparr>;
                left = flags - (if proxy then 2 else 0) - (if dat then 1 else 0) in
            if left \<noteq> 0 then (-1, Some e, 0)
            else
              let e = e\<lparr>ev_event := word_of_int (be_value (field 4 4 blob)),
                        ev_event_proxy := (if proxy then word_of_int (be_value (field 8 4 blob)) else 0),
                        ev_emitter := from16 (be_value (field o16 2 blob)),
                        ev_target := from16 (be_value (field (o16 + 2) 2 blob)),
                        ev_target_type := from16 (be_value (field (o16 + 4) 2 blob)),
                        ev_arg2_len := alen\<rparr>;
                  e = (if dat
                       then e\<lparr>ev_arg0 := from16 (be_value (field (o16 + 8) 2 blob)), ev_arg1 := from16 (be_value (field (o16 + 10) 2 blob)),
                              ev_arg2 := Some (field (needed - nat alen) (nat alen) blob)\<rparr>
                       else e\<lparr>ev_arg0 := -1, ev_arg1 := -1, ev_arg2 := None\<rparr>)
              in (0, Some e, needed))"

subsection \<open>The hash table\<close>

lemma hash_bound:
  assumes "int n \<in> set list_counts"
  shows "hash_event n ev < n"
proof -
  have le: "hash_event n ev \<le> unat (word_of_nat n - 1 :: 32 word)"
    unfolding hash_event_def Let_def by (simp only: word_le_nat_alt [symmetric] word_and_le1)
  have "n = 1 \<or> n = 2 \<or> n = 4 \<or> n = 8 \<or> n = 16 \<or> n = 32 \<or> n = 64 \<or> n = 128 \<or> n = 256 \<or> n = 512 \<or> n = 1024"
    using assms by (auto simp: list_counts_def)
  then have "unat (word_of_nat n - 1 :: 32 word) < n" by (elim disjE) simp_all
  then show ?thesis using le by simp
qed

definition core_ok :: "roar_notify_core \<Rightarrow> bool" where
  "core_ok c \<longleftrightarrow> int (length (nc_lists c)) \<in> set list_counts \<and>
     (\<forall>h < length (nc_lists c). \<forall>sb \<in> set (nc_lists c ! h).
        sb_hash sb = h \<and> h = hash_event (length (nc_lists c)) (sb_event sb))"

definition notify_ok :: "notify_state \<Rightarrow> bool" where
  "notify_ok s \<longleftrightarrow> (\<forall>core c. ns_cores s core = Some c \<longrightarrow> core_ok c)"

lemma core_ok_update:
  assumes "core_ok c" "h < length (nc_lists c)"
    and "\<And>sb. sb \<in> set l \<Longrightarrow> sb_hash sb = h \<and> h = hash_event (length (nc_lists c)) (sb_event sb)"
  shows "core_ok (c\<lparr>nc_lists := (nc_lists c)[h := l]\<rparr>)"
  using assms by (auto simp: core_ok_def nth_list_update split: if_splits)

lemma notify_ok_update:
  "notify_ok s \<Longrightarrow> core_ok c \<Longrightarrow> ns_cores s' = (ns_cores s)(core \<mapsto> c) \<Longrightarrow> notify_ok s'"
  by (auto simp: notify_ok_def)

lemma remove_sub_set: "set (remove_sub a l) \<subseteq> set l"
  by (induction l) auto

lemma add_sub_ok:
  assumes "core_ok c" "h = hash_event (length (nc_lists c)) (ev_event e)"
  shows "core_ok (c\<lparr>nc_lists := (nc_lists c)[h := nc_lists c ! h @ [new_subscriber subs e cb userdata h]]\<rparr>)"
proof (rule core_ok_update [OF assms(1)])
  show h: "h < length (nc_lists c)" using assms hash_bound by (simp add: core_ok_def)
  show "sb_hash sb = h \<and> h = hash_event (length (nc_lists c)) (sb_event sb)"
    if "sb \<in> set (nc_lists c ! h @ [new_subscriber subs e cb userdata h])" for sb
    using that assms h by (auto simp: core_ok_def new_subscriber_def)
qed

lemma remove_sub_ok:
  assumes "core_ok c" "h < length (nc_lists c)" "set l \<subseteq> set (nc_lists c ! h)"
  shows "core_ok (c\<lparr>nc_lists := (nc_lists c)[h := l]\<rparr>)"
  by (rule core_ok_update [OF assms(1,2)]) (use assms in \<open>auto simp: core_ok_def\<close>)

lemma subscribe_ok:
  assumes "notify_ok s" "roar_notify_core_subscribe s core event cb userdata = Some (subs, s')"
  shows "notify_ok s'"
  using assms add_sub_ok
  by (fastforce simp: roar_notify_core_subscribe_def notify_ok_def ns_alloc_def Let_def split: option.splits if_splits)

lemma unsubscribe_ok:
  assumes "notify_ok s" "roar_notify_core_unsubscribe s core (Some sb) = Some (r, s')"
    and "\<And>k c. the_core s core = Some k \<Longrightarrow> ns_cores s k = Some c \<Longrightarrow> sb_hash sb < length (nc_lists c)"
  shows "notify_ok s'"
proof (cases "the_core s core")
  case None
  then show ?thesis using assms(1,2) by (simp add: roar_notify_core_unsubscribe_def)
next
  case (Some k)
  show ?thesis
  proof (cases "ns_cores s k")
    case None
    then show ?thesis using assms(2) Some by (simp add: roar_notify_core_unsubscribe_def)
  next
    case c: (Some c)
    let ?h = "sb_hash sb"
    have ok: "core_ok c" "?h < length (nc_lists c)" using assms(1,3) Some c by (auto simp: notify_ok_def)
    have rm: "nc_lists c ! ?h = x # xs \<Longrightarrow> set (x # remove_sub (sb_addr sb) xs) \<subseteq> set (nc_lists c ! ?h)"
      "nc_lists c ! ?h = x # xs \<Longrightarrow> set xs \<subseteq> set (nc_lists c ! ?h)" for x xs
      using remove_sub_set [of "sb_addr sb" xs] by auto
    show ?thesis
    proof (cases "nc_lists c ! ?h")
      case Nil
      then show ?thesis using assms(1,2) Some c by (simp add: roar_notify_core_unsubscribe_def Let_def)
    next
      case (Cons x xs)
      then show ?thesis
        using assms(1,2) Some c remove_sub_ok [OF ok rm(1) [OF Cons]] remove_sub_ok [OF ok rm(2) [OF Cons]]
        by (auto simp: roar_notify_core_unsubscribe_def Let_def notify_ok_def split: if_splits)
    qed
  qed
qed

lemma core_new_ok: "notify_ok s \<Longrightarrow> notify_ok (snd (roar_notify_core_new s n))"
proof -
  assume s: "notify_ok s"
  have "core_ok \<lparr>nc_refc = 1, nc_lists = replicate (nat k) [], nc_proxy = 0, nc_proxy_userdata = 0\<rparr>" if "k \<in> set list_counts" for k
    using that by (auto simp: core_ok_def list_counts_def)
  from this this [of 16, simplified] show ?thesis using s
    by (auto simp: roar_notify_core_new_def ns_alloc_def notify_ok_def Let_def split: option.splits)
qed

lemma core_admin_ok:
  "notify_ok s \<Longrightarrow> roar_notify_core_ref s core = Some (r, s') \<Longrightarrow> notify_ok s'"
  "notify_ok s \<Longrightarrow> roar_notify_core_unref s core = Some (r, s') \<Longrightarrow> notify_ok s'"
  "notify_ok s \<Longrightarrow> roar_notify_core_register_proxy s core cb ud = Some (r, s') \<Longrightarrow> notify_ok s'"
  by (auto simp: roar_notify_core_ref_def roar_notify_core_unref_def roar_notify_core_register_proxy_def notify_ok_def core_ok_def Let_def
      split: option.splits if_splits)

text \<open>Selecting one hash value from all subscribers gives one list of the table.\<close>

lemma select_hash:
  assumes "core_ok c" "h < length (nc_lists c)"
  shows "filter (\<lambda>sb. sb_hash sb = h) (concat (nc_lists c)) = nc_lists c ! h"
proof -
  let ?L = "nc_lists c" and ?P = "\<lambda>sb. sb_hash sb = h"
  have none: "filter ?P (concat xs) = []" if "\<And>l. l \<in> set xs \<Longrightarrow> \<exists>i < length ?L. i \<noteq> h \<and> l = ?L ! i" for xs
  proof -
    have "\<not> ?P sb" if "l \<in> set xs" "sb \<in> set l" for l sb
      using \<open>\<And>l. l \<in> set xs \<Longrightarrow> \<exists>i < length ?L. i \<noteq> h \<and> l = ?L ! i\<close> [OF that(1)] that(2) assms(1) by (auto simp: core_ok_def)
    then show ?thesis by (auto simp: filter_empty_conv)
  qed
  have all: "filter ?P (?L ! h) = ?L ! h" using assms by (auto simp: core_ok_def filter_id_conv)
  have "concat ?L = concat (take h ?L) @ ?L ! h @ concat (drop (Suc h) ?L)"
    by (subst id_take_nth_drop [OF assms(2)]) simp
  moreover have "filter ?P (concat (take h ?L)) = []"
  proof (rule none)
    fix l assume "l \<in> set (take h ?L)"
    then obtain i where "i < h" "l = ?L ! i" using assms(2) by (auto simp: in_set_conv_nth)
    then show "\<exists>i < length ?L. i \<noteq> h \<and> l = ?L ! i" using assms(2) by (intro exI [of _ i]) simp
  qed
  moreover have "filter ?P (concat (drop (Suc h) ?L)) = []"
  proof (rule none)
    fix l assume "l \<in> set (drop (Suc h) ?L)"
    then obtain i where "i < length ?L - Suc h" "l = drop (Suc h) ?L ! i" by (auto simp: in_set_conv_nth)
    then have "Suc h + i < length ?L" "l = ?L ! (Suc h + i)" by auto
    then show "\<exists>i < length ?L. i \<noteq> h \<and> l = ?L ! i" by (intro exI [of _ "Suc h + i"]) simp
  qed
  ultimately show ?thesis using all by simp
qed

lemma emit_loop_filter:
  "emit_loop l e = map (\<lambda>sb. (sb_cb sb, sb_userdata sb)) (filter (\<lambda>sb. sub_matches sb e \<and> sb_cb sb \<noteq> NULL) l)"
  by (induction l) auto

subsection \<open>Reachable states\<close>

definition addrs :: "roar_notify_core \<Rightarrow> ptr list" where
  "addrs c = map sb_addr (concat (nc_lists c))"

definition cores_apart :: "(ptr \<rightharpoonup> roar_notify_core) \<Rightarrow> bool" where
  "cores_apart m \<longleftrightarrow> (\<forall>k c k' c'. m k = Some c \<and> m k' = Some c' \<and> k' \<noteq> k \<longrightarrow> set (addrs c) \<inter> set (addrs c') = {})"

definition tables_ok :: "notify_state \<Rightarrow> bool" where
  "tables_ok s \<longleftrightarrow> 0 < ns_brk s \<and> (ns_global s = NULL \<or> ns_cores s (ns_global s) \<noteq> None) \<and>
     (\<forall>a \<in> set (ns_live s). a < ns_brk s) \<and>
     (\<forall>k c. ns_cores s k = Some c \<longrightarrow> k \<noteq> NULL \<and> k < ns_brk s \<and> distinct (addrs c) \<and> set (addrs c) \<subseteq> set (ns_live s)) \<and>
     cores_apart (ns_cores s)"

text \<open>The calls of the interface. A subscriber is unsubscribed from a core that holds it.\<close>

inductive notify_step :: "notify_state \<Rightarrow> notify_state \<Rightarrow> bool" where
  step_new: "roar_notify_core_new s n = (core, s') \<Longrightarrow> notify_step s s'"
| step_new_global: "roar_notify_core_new_global s n = (r, s') \<Longrightarrow> notify_step s s'"
| step_ref: "roar_notify_core_ref s core = Some (r, s') \<Longrightarrow> notify_step s s'"
| step_unref: "roar_notify_core_unref s core = Some (r, s') \<Longrightarrow> notify_step s s'"
| step_proxy: "roar_notify_core_register_proxy s core cb ud = Some (r, s') \<Longrightarrow> notify_step s s'"
| step_subscribe: "roar_notify_core_subscribe s core event cb ud = Some (subs, s') \<Longrightarrow> notify_step s s'"
| step_unsubscribe: "the_core s core = Some k \<Longrightarrow> ns_cores s k = Some c \<Longrightarrow> sb \<in> set (concat (nc_lists c)) \<Longrightarrow>
    roar_notify_core_unsubscribe s core (Some sb) = Some (r, s') \<Longrightarrow> notify_step s s'"

inductive notify_reach :: "notify_state \<Rightarrow> bool" where
  reach_init: "0 < brk \<Longrightarrow>
    notify_reach \<lparr>ns_cores = Map.empty, ns_global = NULL, ns_live = [], ns_brk = brk, ns_left = left\<rparr>"
| reach_step: "notify_reach s \<Longrightarrow> notify_step s s' \<Longrightarrow> notify_reach s'"

lemma addrs_update:
  assumes "h < length (nc_lists c)"
  shows "\<exists>A B. addrs c = A @ map sb_addr (nc_lists c ! h) @ B \<and>
    (\<forall>l. addrs (c\<lparr>nc_lists := (nc_lists c)[h := l]\<rparr>) = A @ map sb_addr l @ B)"
proof (intro exI conjI allI)
  let ?L = "nc_lists c"
  have "concat ?L = concat (take h ?L) @ ?L ! h @ concat (drop (Suc h) ?L)"
    by (subst id_take_nth_drop [OF assms]) simp
  then show "addrs c = map sb_addr (concat (take h ?L)) @ map sb_addr (?L ! h) @ map sb_addr (concat (drop (Suc h) ?L))"
    by (simp add: addrs_def)
  show "addrs (c\<lparr>nc_lists := ?L[h := l]\<rparr>) = map sb_addr (concat (take h ?L)) @ map sb_addr l @ map sb_addr (concat (drop (Suc h) ?L))" for l
    using assms by (simp add: addrs_def upd_conv_take_nth_drop)
qed

lemma cores_apart_update:
  assumes "cores_apart m" and "\<And>k' c'. m k' = Some c' \<Longrightarrow> k' \<noteq> k \<Longrightarrow> set (addrs c) \<inter> set (addrs c') = {}"
  shows "cores_apart (m(k \<mapsto> c))"
  unfolding cores_apart_def
proof (intro allI impI)
  fix k1 c1 k2 c2 assume "(m(k \<mapsto> c)) k1 = Some c1 \<and> (m(k \<mapsto> c)) k2 = Some c2 \<and> k2 \<noteq> k1"
  then show "set (addrs c1) \<inter> set (addrs c2) = {}"
    using assms(1) [unfolded cores_apart_def, rule_format, of k1 c1 k2 c2] assms(2) [of k1 c1] assms(2) [of k2 c2]
    by (cases "k1 = k"; cases "k2 = k") (auto simp: Int_commute)
qed

lemma cores_apart_remove: "cores_apart m \<Longrightarrow> cores_apart (m(k := None))"
  by (simp add: cores_apart_def)

lemma tables_live: "tables_ok s \<Longrightarrow> ns_cores s k = Some c \<Longrightarrow> set (addrs c) \<subseteq> set (ns_live s)"
  by (simp add: tables_ok_def)

lemma tables_apart:
  "tables_ok s \<Longrightarrow> ns_cores s k = Some c \<Longrightarrow> ns_cores s k' = Some c' \<Longrightarrow> k' \<noteq> k \<Longrightarrow> set (addrs c) \<inter> set (addrs c') = {}"
  unfolding tables_ok_def cores_apart_def by blast

text \<open>A core whose address list changes keeps the tables sound when the new list is distinct, allocated and
  new to the other cores.\<close>

lemma tables_update:
  assumes "tables_ok s" "ns_cores s k = Some c" "distinct (addrs c')" "set (addrs c') \<subseteq> set lv"
    and "set (addrs c') \<subseteq> set (addrs c) \<union> fresh" "fresh \<inter> set (ns_live s) = {}"
    and "\<And>k' c''. ns_cores s k' = Some c'' \<Longrightarrow> k' \<noteq> k \<Longrightarrow> set (addrs c'') \<subseteq> set lv"
    and "\<forall>a \<in> set lv. a < b" "ns_brk s \<le> b"
    and "ns_cores s' = (ns_cores s)(k \<mapsto> c')" "ns_live s' = lv" "ns_brk s' = b" "ns_global s' = ns_global s"
  shows "tables_ok s'"
proof -
  have "cores_apart ((ns_cores s)(k \<mapsto> c'))"
  proof (rule cores_apart_update)
    fix k' c'' assume k': "ns_cores s k' = Some c''" "k' \<noteq> k"
    then have "set (addrs c'') \<subseteq> set (ns_live s)" using assms(1) by (auto simp: tables_ok_def)
    then show "set (addrs c') \<inter> set (addrs c'') = {}"
      using tables_apart [OF assms(1,2) k'] assms(5,6) by blast
  qed (use assms(1) in \<open>simp add: tables_ok_def\<close>)
  moreover have "k'' \<noteq> NULL \<and> k'' < b" if "ns_cores s k'' = Some d" for k'' d
    using assms(1,9) that by (fastforce simp: tables_ok_def)
  moreover have "0 < b" "ns_global s = NULL \<or> ns_cores s' (ns_global s) \<noteq> None"
    using assms(1,9,10) by (auto simp: tables_ok_def)
  moreover have "distinct (addrs d)" if "ns_cores s k'' = Some d" for k'' d
    using assms(1) that by (auto simp: tables_ok_def)
  ultimately show ?thesis
    unfolding tables_ok_def assms(10-13) using assms(2-4,7,8) by (auto split: if_splits)
qed

lemma tables_same:
  assumes "tables_ok s" "ns_cores s k = Some c" "nc_lists c' = nc_lists c"
  shows "tables_ok (s\<lparr>ns_cores := (ns_cores s)(k \<mapsto> c')\<rparr>)"
proof -
  have a: "addrs c' = addrs c" using assms(3) by (simp add: addrs_def)
  have "distinct (addrs c)" "set (addrs c) \<subseteq> set (ns_live s)" using assms(1,2) by (auto simp: tables_ok_def)
  then show ?thesis using assms(1)
    by (intro tables_update [OF assms(1,2), where c' = c' and lv = "ns_live s" and b = "ns_brk s" and fresh = "{}"]) (auto simp: a tables_ok_def)
qed

lemma tables_alloc: "tables_ok s \<Longrightarrow> ns_brk s \<le> b \<Longrightarrow> tables_ok (s\<lparr>ns_brk := b, ns_left := l\<rparr>)"
  by (fastforce simp: tables_ok_def)

lemma tables_empty_core:
  assumes "tables_ok s" "k \<noteq> NULL" "k < ns_brk s" "addrs c = []"
  shows "tables_ok (s\<lparr>ns_cores := (ns_cores s)(k \<mapsto> c)\<rparr>)"
  using assms cores_apart_update [of "ns_cores s" k c] by (auto simp: tables_ok_def)

lemma tables_new:
  assumes "tables_ok s" "roar_notify_core_new s n = (core, s')"
  shows "tables_ok s' \<and> (core \<noteq> NULL \<longrightarrow> ns_cores s' core \<noteq> None)"
proof -
  let ?s1 = "s\<lparr>ns_brk := ns_brk s + 64, ns_left := ns_left s - 1\<rparr>"
  let ?s2 = "s\<lparr>ns_brk := ns_brk s + 64 + 64, ns_left := ns_left s - 1 - 1\<rparr>"
  have "tables_ok ?s1" "tables_ok ?s2" by (auto intro: tables_alloc [OF assms(1)])
  moreover have "tables_ok (?s2\<lparr>ns_cores := (ns_cores ?s2)(ns_brk s \<mapsto> c)\<rparr>)" if "addrs c = []" for c
    by (rule tables_empty_core) (use calculation(2) that assms(1) in \<open>auto simp: tables_ok_def\<close>)
  ultimately show ?thesis using assms
    by (auto simp: roar_notify_core_new_def ns_alloc_def addrs_def Let_def split: if_splits)
qed

lemma new_global_same: "roar_notify_core_new s n = (core, s') \<Longrightarrow> ns_global s' = ns_global s"
  by (auto simp: roar_notify_core_new_def ns_alloc_def Let_def split: option.splits if_splits)

lemma tables_new_global:
  assumes "tables_ok s" "roar_notify_core_new_global s n = (r, s')"
  shows "tables_ok s'"
proof -
  obtain core s1 where n: "roar_notify_core_new s n = (core, s1)" by fastforce
  have "tables_ok s1" "core \<noteq> NULL \<Longrightarrow> ns_cores s1 core \<noteq> None" using tables_new [OF assms(1) n] by auto
  then have "tables_ok s1" "core \<noteq> NULL \<Longrightarrow> tables_ok (s1\<lparr>ns_global := core\<rparr>)" by (auto simp: tables_ok_def)
  then show ?thesis using assms n by (auto simp: roar_notify_core_new_global_def split: if_splits)
qed

lemma tables_unref:
  assumes "tables_ok s" "roar_notify_core_unref s core = Some (r, s')"
  shows "tables_ok s'"
proof (cases "the_core s core")
  case None
  then show ?thesis using assms by (simp add: roar_notify_core_unref_def)
next
  case (Some k)
  then obtain c where c: "ns_cores s k = Some c" using assms(2) by (auto simp: roar_notify_core_unref_def split: option.splits)
  let ?free = "s\<lparr>ns_global := (if k = ns_global s then NULL else ns_global s),
     ns_live := filter (\<lambda>a. a \<notin> set (addrs c)) (ns_live s), ns_cores := (ns_cores s)(k := None)\<rparr>"
  have "set (addrs c') \<inter> set (addrs c) = {}" if "ns_cores s k' = Some c'" "k' \<noteq> k" for k' c'
    using tables_apart [OF assms(1) c that] by (simp add: Int_commute)
  then have "tables_ok ?free" using assms(1) cores_apart_remove [of "ns_cores s" k] by (fastforce simp: tables_ok_def)
  moreover have "tables_ok (s\<lparr>ns_cores := (ns_cores s)(k \<mapsto> c\<lparr>nc_refc := n\<rparr>)\<rparr>)" for n
    by (rule tables_same [OF assms(1) c]) simp
  ultimately show ?thesis using assms(2) Some c
    by (auto simp: roar_notify_core_unref_def Let_def addrs_def split: if_splits)
qed

lemma tables_subscribe:
  assumes "tables_ok s" "notify_ok s" "roar_notify_core_subscribe s core event cb ud = Some (subs, s')"
  shows "tables_ok s'"
proof (cases "s' = s")
  case False
  then obtain k c e where k: "the_core s core = Some k" "ns_cores s k = Some c" "event = Some e" "ns_left s \<noteq> 0"
    using assms(3) by (auto simp: roar_notify_core_subscribe_def ns_alloc_def split: option.splits if_splits)
  define h where "h = hash_event (length (nc_lists c)) (ev_event e)"
  let ?sb = "new_subscriber (ns_brk s) e cb ud h"
  let ?c = "c\<lparr>nc_lists := (nc_lists c)[h := nc_lists c ! h @ [?sb]]\<rparr>"
  have h: "h < length (nc_lists c)" using assms(2) k hash_bound by (auto simp: h_def notify_ok_def core_ok_def)
  have s': "s' = s\<lparr>ns_brk := ns_brk s + 64, ns_left := ns_left s - 1, ns_live := ns_brk s # ns_live s,
      ns_cores := (ns_cores s)(k \<mapsto> ?c)\<rparr>"
    using assms(3) k False by (auto simp: roar_notify_core_subscribe_def ns_alloc_def Let_def h_def split: if_splits)
  have new: "ns_brk s \<notin> set (ns_live s)" "distinct (addrs c)" "set (addrs c) \<subseteq> set (ns_live s)"
    using assms(1) k by (auto simp: tables_ok_def)
  then have "distinct (addrs ?c)" "set (addrs ?c) = insert (ns_brk s) (set (addrs c))"
    using addrs_update [OF h] by (auto simp: new_subscriber_def)
  then show ?thesis unfolding s' using new assms(1)
    by (intro tables_update [OF assms(1) k(2), where c' = ?c and lv = "ns_brk s # ns_live s" and b = "ns_brk s + 64"
          and fresh = "{ns_brk s}"])
       (auto simp: tables_ok_def dest: tables_live [OF assms(1), THEN subsetD])
qed (use assms in simp)

lemma remove_sub_addrs:
  "distinct (map sb_addr l) \<Longrightarrow> distinct (map sb_addr (remove_sub a l)) \<and> set (map sb_addr (remove_sub a l)) = set (map sb_addr l) - {a}"
  by (induction l) (auto, metis imageI)

lemma subscriber_list:
  assumes "core_ok c" "sb \<in> set (concat (nc_lists c))"
  shows "sb_hash sb < length (nc_lists c) \<and> sb \<in> set (nc_lists c ! sb_hash sb)"
proof -
  obtain l where "l \<in> set (nc_lists c)" "sb \<in> set l" using assms(2) by auto
  then obtain i where "i < length (nc_lists c)" "sb \<in> set (nc_lists c ! i)" by (metis in_set_conv_nth)
  then show ?thesis using assms(1) by (auto simp: core_ok_def)
qed

lemma tables_unsubscribe:
  assumes "tables_ok s" "notify_ok s" "the_core s core = Some k" "ns_cores s k = Some c" "sb \<in> set (concat (nc_lists c))"
    and "roar_notify_core_unsubscribe s core (Some sb) = Some (r, s')"
  shows "tables_ok s'"
proof -
  let ?h = "sb_hash sb" and ?a = "sb_addr sb"
  let ?upd = "\<lambda>l. c\<lparr>nc_lists := (nc_lists c)[?h := l]\<rparr>"
  have h: "?h < length (nc_lists c)" and "sb \<in> set (nc_lists c ! ?h)"
    using subscriber_list [OF _ assms(5)] assms(2,4) by (auto simp: notify_ok_def)
  then obtain x xs where l: "nc_lists c ! ?h = x # xs" by (cases "nc_lists c ! ?h") auto
  obtain A B where AB: "addrs c = A @ map sb_addr (x # xs) @ B" "\<And>l. addrs (?upd l) = A @ map sb_addr l @ B"
    using addrs_update [OF h] l by auto
  have ok: "distinct (addrs c)" "set (addrs c) \<subseteq> set (ns_live s)" "\<forall>a \<in> set (ns_live s). a < ns_brk s"
    using assms(1,4) by (auto simp: tables_ok_def)
  have sb: "?a \<in> set (addrs c)" using assms(5) by (auto simp: addrs_def)
  have other: "?a \<notin> set (addrs c')" "set (addrs c') \<subseteq> set (ns_live s)" if "ns_cores s k' = Some c'" "k' \<noteq> k" for k' c'
    using tables_apart [OF assms(1,4) that] tables_live [OF assms(1) that(1)] sb by auto
  have "tables_ok (s\<lparr>ns_cores := (ns_cores s)(k \<mapsto> ?upd xs)\<rparr>)"
    by (rule tables_update [OF assms(1,4), where c' = "?upd xs" and lv = "ns_live s" and b = "ns_brk s" and fresh = "{}"])
       (use ok AB other in auto)
  moreover have "tables_ok (s\<lparr>ns_live := filter (\<lambda>a. a \<noteq> ?a) (ns_live s), ns_cores := (ns_cores s)(k \<mapsto> ?upd (x # remove_sub ?a xs))\<rparr>)"
    if "sb_addr x \<noteq> ?a" "y \<in> set xs" "sb_addr y = ?a" for y
  proof (rule tables_update [OF assms(1,4), where c' = "?upd (x # remove_sub ?a xs)"
        and lv = "filter (\<lambda>a. a \<noteq> ?a) (ns_live s)" and b = "ns_brk s" and fresh = "{}"])
    have AB': "distinct (map sb_addr xs)" "?a \<notin> set A" "?a \<notin> set B" using ok(1) imageI [OF that(2), of sb_addr] that(3) unfolding AB(1) by auto
    then have rm: "distinct (map sb_addr (remove_sub ?a xs))" "set (map sb_addr (remove_sub ?a xs)) = set (map sb_addr xs) - {?a}"
      using remove_sub_addrs by auto
    then have rest: "distinct (addrs (?upd (x # remove_sub ?a xs)))" "set (addrs (?upd (x # remove_sub ?a xs))) = set (addrs c) - {?a}"
      unfolding AB(2) using ok(1) rm that(1) AB'(2,3) unfolding AB(1) by auto
    show "distinct (addrs (?upd (x # remove_sub ?a xs)))" by (rule rest)
    show "set (addrs (?upd (x # remove_sub ?a xs))) \<subseteq> set (filter (\<lambda>a. a \<noteq> ?a) (ns_live s))"
      "set (addrs (?upd (x # remove_sub ?a xs))) \<subseteq> set (addrs c) \<union> {}" using rest(2) ok(2) by auto
    show "set (addrs c') \<subseteq> set (filter (\<lambda>a. a \<noteq> ?a) (ns_live s))" if "ns_cores s k' = Some c'" "k' \<noteq> k" for k' c'
      using other [OF that] by auto
  qed (use ok(3) in auto)
  ultimately show ?thesis using assms(1,3,4,6) l
    by (auto simp: roar_notify_core_unsubscribe_def Let_def list_ex_iff split: if_splits)
qed

lemma step_ok:
  assumes "notify_step s s'" "notify_ok s" "tables_ok s"
  shows "notify_ok s' \<and> tables_ok s'"
  using assms(1)
proof cases
  case (step_new n core)
  then show ?thesis using core_new_ok [OF assms(2), of n] tables_new [OF assms(3)] by (metis snd_conv)
next
  case (step_new_global n r)
  then have "notify_ok s'" using core_new_ok [OF assms(2), of n] assms(2)
    by (auto simp: roar_notify_core_new_global_def notify_ok_def split: prod.splits if_splits)
  then show ?thesis using step_new_global tables_new_global [OF assms(3)] by blast
next
  case (step_ref core r)
  then show ?thesis using core_admin_ok(1) [OF assms(2)] assms(3)
    by (auto simp: roar_notify_core_ref_def intro: tables_same split: option.splits)
next
  case (step_proxy core cb ud r)
  then show ?thesis using core_admin_ok(3) [OF assms(2)] assms(3)
    by (auto simp: roar_notify_core_register_proxy_def intro: tables_same split: option.splits)
next
  case (step_unsubscribe core k c sb r)
  moreover have "sb_hash sb < length (nc_lists c)"
    using subscriber_list [of c sb] step_unsubscribe assms(2) by (auto simp: notify_ok_def)
  ultimately show ?thesis using unsubscribe_ok [OF assms(2)] tables_unsubscribe [OF assms(3,2)]
    by (metis option.inject)
next
  case (step_subscribe core event cb ud subs)
  then show ?thesis using subscribe_ok [OF assms(2)] tables_subscribe [OF assms(3,2)] by blast
next
  case (step_unref core r)
  then show ?thesis using core_admin_ok(2) [OF assms(2)] tables_unref [OF assms(3)] by blast
qed

lemma reach_ok: "notify_reach s \<Longrightarrow> notify_ok s \<and> tables_ok s"
proof (induction rule: notify_reach.induct)
  case (reach_init brk left)
  then show ?case by (simp add: notify_ok_def tables_ok_def cores_apart_def)
qed (use step_ok in blast)

subsection \<open>Properties\<close>

text \<open>C29: In every state that calls of the interface can reach from the empty one (unsubscribing only
  what is subscribed), the tables are sound: every core has an allowed number of lists with each subscriber
  in the list of its event's hash; no core links a subscriber record that is not allocated and no
  record is linked twice, in one core or in two; and the global core, where there is one, is allocated,
  so emitting to it never faults.\<close>

theorem notify_reachable_sound:
  assumes "notify_reach s"
  shows "notify_ok s \<and>
    (\<forall>k c. ns_cores s k = Some c \<longrightarrow> set (addrs c) \<subseteq> set (ns_live s) \<and> distinct (addrs c) \<and>
       (\<forall>k' c'. ns_cores s k' = Some c' \<and> k' \<noteq> k \<longrightarrow> set (addrs c) \<inter> set (addrs c') = {})) \<and>
    roar_notify_core_emit s NULL e \<noteq> None"
proof -
  have "notify_ok s" "tables_ok s" using reach_ok [OF assms] by auto
  then show ?thesis by (auto simp: tables_ok_def cores_apart_def roar_notify_core_emit_def the_core_def split: option.splits)
qed

text \<open>A global core with one subscriber is reachable and sound.\<close>

theorem notify_reachable_sound_witness:
  "\<exists>(s :: notify_state) c. ns_global s \<noteq> NULL \<and> ns_cores s (ns_global s) = Some c \<and> addrs c = [1128] \<and> set (addrs c) \<subseteq> set (ns_live s)"
proof -
  let ?s0 = "\<lparr>ns_cores = Map.empty, ns_global = NULL, ns_live = [], ns_brk = 1000, ns_left = 5\<rparr> :: notify_state"
  let ?s1 = "snd (roar_notify_core_new_global ?s0 1)"
  let ?r = "roar_notify_core_subscribe ?s1 NULL (Some zero_event) 7 8"
  define sn where "sn = snd (the ?r)"
  have g: "ns_global sn = 1000" and "map_option addrs (ns_cores sn 1000) = Some [1128]" unfolding sn_def by code_simp+
  then obtain c where c: "ns_cores sn 1000 = Some c" "addrs c = [1128]" by auto
  have "map_option fst ?r = Some 1128" by code_simp
  then have r: "?r = Some (1128, sn)" by (auto simp: sn_def)
  have "notify_reach ?s0" by (rule reach_init) simp
  then have "notify_reach ?s1" by (rule reach_step) (rule step_new_global, rule prod.collapse [symmetric])
  then have "notify_reach sn" by (rule reach_step) (rule step_subscribe, rule r)
  from notify_reachable_sound [OF this] have "set (addrs c) \<subseteq> set (ns_live sn)" using c by blast
  then have "ns_global sn \<noteq> NULL \<and> ns_cores sn (ns_global sn) = Some c \<and> addrs c = [1128] \<and> set (addrs c) \<subseteq> set (ns_live sn)"
    using g c by simp
  then show ?thesis by blast
qed



text \<open>Unsubscribing a subscriber of a core removes it from its list and leaves the other lists as they
  are. Its record is released only when it was not the first of its list: the record of a list's head
  stays allocated with no list referring to it.\<close>

theorem notify_unsubscribe:
  assumes "ns_cores s core = Some c" "core \<noteq> NULL" "h < length (nc_lists c)" "nc_lists c ! h = x # xs"
    and "sb \<in> set (x # xs)" "sb_hash sb = h" "distinct (map sb_addr (x # xs))" "sb_addr sb \<in> set (ns_live s)"
  shows "\<exists>s' c'. roar_notify_core_unsubscribe s core (Some sb) = Some (0, s') \<and> ns_cores s' core = Some c'
    \<and> set (nc_lists c' ! h) = set (x # xs) - {sb} \<and> (\<forall>i < length (nc_lists c). i \<noteq> h \<longrightarrow> nc_lists c' ! i = nc_lists c ! i)
    \<and> (sb_addr sb \<in> set (ns_live s') \<longleftrightarrow> sb = x)"
proof -
  have rm: "distinct (map sb_addr l) \<Longrightarrow> sb \<in> set l \<Longrightarrow> set (remove_sub (sb_addr sb) l) = set l - {sb}" for l
    by (induction l) (auto simp: rev_image_eqI)
  show ?thesis
  proof (cases "sb = x")
    case True
    then show ?thesis using assms by (auto simp: roar_notify_core_unsubscribe_def the_core_def Let_def)
  next
    case False
    then have "sb \<in> set xs" "sb_addr x \<noteq> sb_addr sb" "distinct (map sb_addr xs)" using assms(5,7) by (auto simp: rev_image_eqI)
    then show ?thesis
      using assms False rm [of xs]
      by (auto simp: roar_notify_core_unsubscribe_def the_core_def Let_def list_ex_iff)
  qed
qed

theorem notify_unsubscribe_witness:
  "\<exists>s'. roar_notify_core_unsubscribe
     \<lparr>ns_cores = [8 \<mapsto> \<lparr>nc_refc = 1, nc_lists = [[new_subscriber 30 zero_event 50 60 0]], nc_proxy = 0, nc_proxy_userdata = 0\<rparr>],
      ns_global = 8, ns_live = [30], ns_brk = 1000, ns_left = 5\<rparr> 8 (Some (new_subscriber 30 zero_event 50 60 0)) = Some (0, s')
    \<and> 30 \<in> set (ns_live s')"
proof -
  let ?c = "\<lparr>nc_refc = 1, nc_lists = [[new_subscriber 30 zero_event 50 60 0]], nc_proxy = 0, nc_proxy_userdata = 0\<rparr>"
  let ?s = "\<lparr>ns_cores = [8 \<mapsto> ?c], ns_global = 8, ns_live = [30], ns_brk = 1000, ns_left = 5\<rparr>"
  show ?thesis
    using notify_unsubscribe [of ?s 8 ?c 0 "new_subscriber 30 zero_event 50 60 0" "[]" "new_subscriber 30 zero_event 50 60 0"]
    by (auto simp: new_subscriber_def)
qed

lemma from16_mod: "- 1 \<le> v \<Longrightarrow> v < 65535 \<Longrightarrow> from16 (v mod 65536) = v"
  by (cases "v = -1") (auto simp: from16_def)

lemma be_word: "word_of_int (uint w mod 4294967296) = (w :: 32 word)"
  using uint_lt2p [of w] by simp

text \<open>An event that the network form can carry: its numbers fit 16 bits with 65535 for -1, and data and
  arguments are there only with the flag for them.\<close>

definition network_event :: "roar_event \<Rightarrow> bool" where
  "network_event e \<longleftrightarrow> ev_flags e \<in> {0, 1, 2, 3} \<and>
     (\<forall>v \<in> {ev_emitter e, ev_target e, ev_target_type e, ev_arg0 e, ev_arg1 e}. - 1 \<le> v \<and> v < 65535) \<and>
     (ev_flags e AND EVENT_FLAG_PROXYEVENT = 0 \<longrightarrow> ev_event_proxy e = 0) \<and>
     (if ev_flags e AND EVENT_FLAG_NETTRANS = 0 then ev_arg2 e = None \<and> ev_arg2_len e = 0 \<and> ev_arg0 e = -1 \<and> ev_arg1 e = -1
      else \<exists>d. ev_arg2 e = Some d \<and> ev_arg2_len e = int (length d) \<and> length d \<le> 32768)"

definition blob_size :: "roar_event \<Rightarrow> nat" where
  "blob_size e = 16 + (if ev_flags e AND EVENT_FLAG_PROXYEVENT \<noteq> 0 then 4 else 0)
     + (if ev_flags e AND EVENT_FLAG_NETTRANS \<noteq> 0 then 4 else 0) + nat (ev_arg2_len e)"

lemmas event_blob_defs =
  roar_event_to_blob_def roar_event_from_blob_def network_event_def blob_size_def zero_event_def Let_def

lemmas event_fields = field_skip field_here field_last field_none from16_mod be_word be_value_bytes EVENT_FLAG_PROXYEVENT_def EVENT_FLAG_NETTRANS_def

text \<open>C30: Events survive the network: an event whose fields fit is encoded by \<open>roar_event_to_blob\<close> into
  a blob of sufficient size, and \<open>roar_event_from_blob\<close> gives back the same event and the same length.\<close>

theorem event_blob_roundtrip:
  assumes "network_event e" "blob_size e \<le> cap"
  shows "\<exists>blob. roar_event_to_blob (Some e) False (Some cap) = Some (0, blob, blob_size e)
    \<and> roar_event_from_blob blob = (0, Some e, blob_size e)"
proof -
  obtain fl ev ep em ta tt a0 a1 a2 al where e: "e = \<lparr>ev_flags = fl, ev_event = ev, ev_event_proxy = ep, ev_emitter = em,
      ev_target = ta, ev_target_type = tt, ev_arg0 = a0, ev_arg1 = a1, ev_arg2 = a2, ev_arg2_len = al\<rparr>"
    by (cases e)
  consider "fl = 0" | "fl = 1" | "fl = 2" | "fl = 3" using assms(1) by (auto simp: network_event_def e)
  then show ?thesis
  proof cases
    case 1
    then show ?thesis using assms by (simp add: e event_blob_defs event_fields)
  next
    case 2
    then show ?thesis using assms by (auto simp: e event_blob_defs event_fields)
  next
    case 3
    then show ?thesis using assms by (simp add: e event_blob_defs event_fields)
  next
    case 4
    then show ?thesis using assms by (auto simp: e event_blob_defs event_fields)
  qed
qed

text \<open>A proxied event with two bytes of data.\<close>

theorem event_blob_roundtrip_witness:
  "\<exists>e blob. ev_arg2 e = Some [7, 9] \<and> roar_event_to_blob (Some e) False (Some 64) = Some (0, blob, 26)
     \<and> roar_event_from_blob blob = (0, Some e, 26)"
proof -
  let ?e = "\<lparr>ev_flags = 3, ev_event = 5, ev_event_proxy = 6, ev_emitter = -1, ev_target = 4, ev_target_type = 2,
      ev_arg0 = 1, ev_arg1 = -1, ev_arg2 = Some [7, 9], ev_arg2_len = 2\<rparr>"
  have ok: "network_event ?e" and size: "blob_size ?e = 26"
    by (simp_all add: network_event_def blob_size_def EVENT_FLAG_PROXYEVENT_def EVENT_FLAG_NETTRANS_def)
  obtain blob where "roar_event_to_blob (Some ?e) False (Some 64) = Some (0, blob, blob_size ?e)"
      "roar_event_from_blob blob = (0, Some ?e, blob_size ?e)"
    using event_blob_roundtrip [of ?e 64] ok by (auto simp: size)
  then show ?thesis unfolding size by (intro exI [of _ ?e] exI [of _ blob]) simp
qed

end
