(* ===== verification/Roar_Nnode.thy ===== *)
theory Roar_Nnode
  imports Roar_Proto
begin

text \<open>
  Node addresses, \<open>src/libroar/nnode.c\<close>: construction, the network form and comparison. The address is the union of the
  structure, 16 bytes; a DECnet address is two 32 bit integers in its first 8 bytes. A null pointer is \<open>None\<close>. A
  blob is the block of \<open>*len\<close> bytes the caller gives; the result has the return value, the structure or blob, and
  \<open>*len\<close>. \<open>roar_nnode_new_from_sockaddr\<close> and \<open>roar_nnode_new_from_fh\<close> read structures of the system and are left out, and so
  is the printer \<open>roar_nnode_to_str\<close>.
\<close>

record roar_nnode =
  nn_socktype :: c_int
  nn_addr :: "byte list"

definition SOCKET_TYPE_UNKNOWN :: int where "SOCKET_TYPE_UNKNOWN = 0"
definition SOCKET_TYPE_INET :: int where "SOCKET_TYPE_INET = 1"
definition SOCKET_TYPE_UNIX :: int where "SOCKET_TYPE_UNIX = 2"
definition SOCKET_TYPE_DECNET :: int where "SOCKET_TYPE_DECNET = 7"
definition SOCKET_TYPE_INET6 :: int where "SOCKET_TYPE_INET6 = 8"

lemmas socket_types = SOCKET_TYPE_UNKNOWN_def SOCKET_TYPE_INET_def SOCKET_TYPE_UNIX_def SOCKET_TYPE_DECNET_def SOCKET_TYPE_INET6_def

definition put_at :: "nat \<Rightarrow> 'a list \<Rightarrow> 'a list \<Rightarrow> 'a list" where
  "put_at off xs ys = take off ys @ xs @ drop (off + length xs) ys"

definition decnet_area :: "roar_nnode \<Rightarrow> int" where
  "decnet_area n = wrap_s 32 (le_value (field 0 4 (nn_addr n)))"

definition decnet_node :: "roar_nnode \<Rightarrow> int" where
  "decnet_node n = wrap_s 32 (le_value (field 4 4 (nn_addr n)))"

definition roar_nnode_new :: "roar_nnode option \<Rightarrow> c_int \<Rightarrow> c_int \<times> roar_nnode option" where
  "roar_nnode_new nnode socktype =
     (case nnode of None \<Rightarrow> (-1, None) | Some _ \<Rightarrow> (0, Some \<lparr>nn_socktype = socktype, nn_addr = replicate 16 0\<rparr>))"

definition roar_nnode_free :: "roar_nnode option \<Rightarrow> c_int" where
  "roar_nnode_free nnode = (if nnode = None then -1 else 0)"

definition roar_nnode_get_socktype :: "roar_nnode option \<Rightarrow> c_int" where
  "roar_nnode_get_socktype nnode = (case nnode of None \<Rightarrow> -1 | Some n \<Rightarrow> nn_socktype n)"

definition roar_nnode_from_blob :: "roar_nnode option \<Rightarrow> byte list option \<Rightarrow> c_int \<times> roar_nnode option \<times> nat" where
  "roar_nnode_from_blob nnode blob =
     (case (nnode, blob) of
        (Some _, Some b) \<Rightarrow>
          let len = length b in
          if len < 2 then (-1, nnode, len)
          else let socktype = be_value (field 0 2 b); n = the (snd (roar_nnode_new nnode socktype)) in
            if socktype = SOCKET_TYPE_UNIX then (0, Some n, 2)
            else if socktype = SOCKET_TYPE_INET then
              if len < 6 then (-1, Some n, len) else (0, Some (n\<lparr>nn_addr := put_at 0 (field 2 4 b) (nn_addr n)\<rparr>), 6)
            else if socktype = SOCKET_TYPE_DECNET then
              if len < 4 then (-1, Some n, len)
              else (0, Some (n\<lparr>nn_addr := put_at 0 (le_bytes 4 (uint (b ! 3) div 4) @ le_bytes 4 (uint (b ! 3) mod 4 * 256)) (nn_addr n)\<rparr>), 4)
            else if socktype = SOCKET_TYPE_INET6 then
              if len < 18 then (-1, Some n, len) else (0, Some (n\<lparr>nn_addr := put_at 0 (field 2 16 b) (nn_addr n)\<rparr>), 18)
            else (-1, Some n, len)
      | _ \<Rightarrow> (-1, nnode, case blob of None \<Rightarrow> 0 | Some b \<Rightarrow> length b))"

definition roar_nnode_to_blob :: "roar_nnode option \<Rightarrow> byte list option \<Rightarrow> c_int \<times> byte list option \<times> nat" where
  "roar_nnode_to_blob nnode blob =
     (case (nnode, blob) of
        (Some n, Some b) \<Rightarrow>
          let len = length b in
          if len < 2 then (-1, Some b, len)
          else let b = put_at 0 (be_bytes 2 (nn_socktype n)) b in
            if nn_socktype n = SOCKET_TYPE_UNIX then (0, Some b, 2)
            else if nn_socktype n = SOCKET_TYPE_INET then
              if len < 6 then (-1, Some b, len) else (0, Some (put_at 2 (field 0 4 (nn_addr n)) b), 6)
            else if nn_socktype n = SOCKET_TYPE_DECNET then
              if len < 4 then (-1, Some b, len)
              else (-1, Some (put_at 2 [word_of_int (decnet_node n), word_of_int (decnet_node n div 256 mod 4 + decnet_area n * 4)] b), 4)
            else if nn_socktype n = SOCKET_TYPE_INET6 then
              if len < 18 then (-1, Some b, len) else (0, Some (put_at 2 (field 0 16 (nn_addr n)) b), 18)
            else (-1, Some b, len)
      | _ \<Rightarrow> (-1, blob, case blob of None \<Rightarrow> 0 | Some b \<Rightarrow> length b))"

definition roar_nnode_cmp :: "roar_nnode option \<Rightarrow> roar_nnode option \<Rightarrow> c_int" where
  "roar_nnode_cmp n0 n1 =
     (case (n0, n1) of
        (Some a, Some b) \<Rightarrow>
          if nn_socktype a \<noteq> nn_socktype b then 1
          else if nn_socktype a = SOCKET_TYPE_UNIX then 0
          else if nn_socktype a = SOCKET_TYPE_INET then if field 0 4 (nn_addr a) \<noteq> field 0 4 (nn_addr b) then 1 else 0
          else if nn_socktype a = SOCKET_TYPE_DECNET then
            if decnet_area a \<noteq> decnet_area b \<or> decnet_node a \<noteq> decnet_node b then 1 else 0
          else if nn_socktype a = SOCKET_TYPE_INET6 then if field 0 16 (nn_addr a) \<noteq> field 0 16 (nn_addr b) then 1 else 0
          else -1
      | _ \<Rightarrow> -1)"

subsection \<open>Reading and writing at an offset\<close>

lemma put_at_length [simp]: "off + length xs \<le> length ys \<Longrightarrow> length (put_at off xs ys) = length ys"
  by (simp add: put_at_def)

lemma field_put_same: "off + length xs \<le> length ys \<Longrightarrow> n = length xs \<Longrightarrow> field off n (put_at off xs ys) = xs"
  by (simp add: put_at_def field_def)

lemma field_put_before: "a + n \<le> off \<Longrightarrow> off + length xs \<le> length ys \<Longrightarrow> field a n (put_at off xs ys) = field a n ys"
  by (simp add: put_at_def field_def take_drop)

lemma field_put_after: "off + length xs \<le> a \<Longrightarrow> off + length xs \<le> length ys \<Longrightarrow> field a n (put_at off xs ys) = field a n ys"
  by (simp add: put_at_def field_def)

lemma field_length [simp]: "off + n \<le> length xs \<Longrightarrow> length (field off n xs) = n"
  by (simp add: field_def)

lemma field_field: "b + m \<le> n \<Longrightarrow> field b m (field a n xs) = field (a + b) m xs"
  by (simp add: field_def drop_take add.commute min_def)

lemma field_whole: "n = length xs \<Longrightarrow> field 0 n xs = xs"
  by (simp add: field_def)

lemmas field_put = field_put_same field_put_before field_put_after

subsection \<open>Round trip\<close>

definition nnode_ok :: "roar_nnode \<Rightarrow> bool" where
  "nnode_ok n \<longleftrightarrow> length (nn_addr n) = 16 \<and> nn_socktype n \<in> {SOCKET_TYPE_UNIX, SOCKET_TYPE_INET, SOCKET_TYPE_INET6}"

definition nnode_len :: "roar_nnode \<Rightarrow> nat" where
  "nnode_len n = (if nn_socktype n = SOCKET_TYPE_INET then 6 else if nn_socktype n = SOCKET_TYPE_INET6 then 18 else 2)"

text \<open>An address of a local, IPv4 or IPv6 node that is written to a blob with room for it is read back as an equal
  address, and both report the length that was used; a shorter blob is refused by both.\<close>

theorem nnode_blob_roundtrip:
  assumes "nnode_ok n" "nnode_len n \<le> length b"
  shows "\<exists>b' m. roar_nnode_to_blob (Some n) (Some b) = (0, Some b', nnode_len n) \<and> length b' = length b \<and>
    roar_nnode_from_blob (Some x) (Some b') = (0, Some m, nnode_len n) \<and> roar_nnode_cmp (Some n) (Some m) = 0"
proof -
  have len: "length (nn_addr n) = 16" and st: "nn_socktype n = 1 \<or> nn_socktype n = 2 \<or> nn_socktype n = 8"
    using assms(1) by (auto simp: nnode_ok_def socket_types)
  from st assms(2) len show ?thesis
    by (elim disjE) (simp_all add: roar_nnode_to_blob_def roar_nnode_from_blob_def roar_nnode_cmp_def roar_nnode_new_def
      nnode_len_def socket_types field_put be_value_bytes Let_def)
qed

theorem nnode_blob_roundtrip_witness:
  "\<exists>b' m. roar_nnode_to_blob (Some \<lparr>nn_socktype = 1, nn_addr = [127, 0, 0, 1] @ replicate 12 0\<rparr>) (Some (replicate 8 0)) = (0, Some b', 6) \<and>
     roar_nnode_from_blob (Some \<lparr>nn_socktype = 0, nn_addr = []\<rparr>) (Some b') = (0, Some m, 6)"
proof -
  let ?n = "\<lparr>nn_socktype = 1, nn_addr = [127, 0, 0, 1] @ replicate 12 0\<rparr> :: roar_nnode"
  have "nnode_ok ?n" by (simp add: nnode_ok_def socket_types)
  moreover have l: "nnode_len ?n = 6" by (simp add: nnode_len_def socket_types)
  ultimately show ?thesis using nnode_blob_roundtrip [of ?n "replicate 8 0" "\<lparr>nn_socktype = 0, nn_addr = []\<rparr>"] unfolding l by auto
qed


end
