(* ===== verification/Server_Auth.thy ===== *)
theory Server_Auth
  imports Roar_Nnode Channel_Map
begin

text \<open>
  Authentication: the messages of \<open>src/libroar/auth.c\<close> and the keyring of \<open>src/roard/auth.c\<close>.

  A message carries its data in the structure or, when they do not fit there, in a block of its own (\<open>None\<close> is the null
  pointer). The keyring has \<open>AUTH_KEYRING_LEN\<close> places; the access levels are numbered in the order of their
  enumeration. A result of \<open>None\<close> is undefined behaviour or, for the argument lists of \<open>auth_addkey_trust\<close>, a loop that
  does not end.
\<close>

definition CMD_AUTH :: int where "CMD_AUTH = 2"

definition AUTH_T_AUTO :: int where "AUTH_T_AUTO = -1"
definition AUTH_T_NONE :: int where "AUTH_T_NONE = 0"
definition AUTH_T_COOKIE :: int where "AUTH_T_COOKIE = 1"
definition AUTH_T_TRUST :: int where "AUTH_T_TRUST = 2"
definition AUTH_T_PASSWORD :: int where "AUTH_T_PASSWORD = 3"

lemmas auth_types = AUTH_T_AUTO_def AUTH_T_NONE_def AUTH_T_COOKIE_def AUTH_T_TRUST_def AUTH_T_PASSWORD_def

definition AT_TRUST_MAX_ENTRYS :: nat where "AT_TRUST_MAX_ENTRYS = 8"
definition AUTH_KEYRING_LEN :: nat where "AUTH_KEYRING_LEN = 8"

subsection \<open>Messages\<close>

record roar_auth_message =
  am_type :: c_int
  am_stage :: c_int
  am_reserved :: "byte list"
  am_data :: "byte list"

text \<open>\<open>memcpy\<close> reads as many bytes as the message has, so a negative length is an overflow.\<close>

definition roar_auth_from_mes :: "roar_message \<Rightarrow> byte list option \<Rightarrow> (c_int \<times> roar_auth_message) option" where
  "roar_auth_from_mes mes dat =
     (let ibuf = (case dat of None \<Rightarrow> ms_data mes | Some d \<Rightarrow> d); n = ms_datalen mes in
      if n < 0 \<or> n > int (length ibuf) then None
      else let header = take (min (nat n) 4) ibuf @ replicate (4 - min (nat n) 4) 0 in
        Some (0, \<lparr>am_type = sint (header ! 0), am_stage = sint (header ! 1), am_reserved = [header ! 2, header ! 3],
                  am_data = (if n > 4 then field 4 (nat n - 4) ibuf else [])\<rparr>))"

text \<open>The data are copied behind eight bytes although the header has four. \<open>want\<close> says that \<open>data\<close> is not null, \<open>alloc\<close>
  that \<open>malloc\<close> succeeds.\<close>

definition roar_auth_to_mes :: "bool \<Rightarrow> bool \<Rightarrow> roar_auth_message \<Rightarrow> (c_int \<times> roar_message \<times> byte list option) option" where
  "roar_auth_to_mes want alloc ames =
     (let mes = zero_message\<lparr>ms_cmd := CMD_AUTH\<rparr>; len = length (am_data ames);
          header = [word_of_int (am_type ames), word_of_int (am_stage ames)] @ am_reserved ames in
      if len + 4 > LIBROAR_BUFFER_MSGDATA then
        if \<not> want then None
        else if \<not> alloc then Some (-1, mes, None)
        else None
      else if 8 + len > LIBROAR_BUFFER_MSGDATA then None
      else Some (0, mes\<lparr>ms_data := put_at 8 (am_data ames) (put_at 0 header (ms_data mes)), ms_datalen := int len + 4\<rparr>, None))"

text \<open>The caller copies the data behind the header itself; \<open>len\<close> is the length it has set.\<close>

definition roar_auth_init_mes :: "roar_message \<Rightarrow> roar_auth_message \<Rightarrow> nat \<Rightarrow> c_int \<times> roar_message" where
  "roar_auth_init_mes mes ames len =
     (if len + 4 > LIBROAR_BUFFER_MSGDATA then (-1, mes)
      else (0, zero_message\<lparr>ms_cmd := CMD_AUTH, ms_datalen := int len + 4,
        ms_data := put_at 0 ([word_of_int (am_type ames), word_of_int (am_stage ames)] @ am_reserved ames) (ms_data zero_message)\<rparr>))"

definition g_authts :: "(int \<times> string) list" where
  "g_authts = [(0, ''none''), (1, ''cookie''), (2, ''trust''), (3, ''password''), (4, ''sysuser''), (5, ''openpgp''), (6, ''openpgp''),
     (7, ''openpgp''), (8, ''kerberos''), (9, ''rhost''), (10, ''xauth''), (11, ''ident'')]"

definition roar_str2autht :: "string \<Rightarrow> c_int" where
  "roar_str2autht str = (case find (\<lambda>(_, name). same_nocase name str) g_authts of None \<Rightarrow> -1 | Some (t, _) \<Rightarrow> t)"

definition roar_autht2str :: "c_int \<Rightarrow> string" where
  "roar_autht2str auth = (case find (\<lambda>(t, _). t = auth) g_authts of None \<Rightarrow> ''(UNKNOWN)'' | Some (_, name) \<Rightarrow> name)"

subsection \<open>The keyring\<close>

datatype auth_data = At_Zero | At_Cookie "byte list" | At_Trust "int list" "int list" "int list" | At_Password "byte list"

record auth_key =
  ak_type :: c_int
  ak_acclev :: nat
  ak_data :: auth_data

definition auth_init :: "auth_key list" where
  "auth_init = replicate AUTH_KEYRING_LEN \<lparr>ak_type = AUTH_T_AUTO, ak_acclev = 0, ak_data = At_Zero\<rparr>"

text \<open>The place of the new key.\<close>

fun free_key :: "auth_key list \<Rightarrow> nat option" where
  "free_key [] = None"
| "free_key (k # ks) = (if ak_type k = AUTH_T_AUTO then Some 0 else map_option Suc (free_key ks))"

definition auth_regkey_simple :: "auth_key list \<Rightarrow> c_int \<Rightarrow> nat \<Rightarrow> nat option \<times> auth_key list" where
  "auth_regkey_simple ring type acclev =
     (case free_key ring of None \<Rightarrow> (None, ring)
      | Some i \<Rightarrow> (Some i, ring[i := \<lparr>ak_type = type, ak_acclev = acclev, ak_data = At_Zero\<rparr>]))"

definition set_key_data :: "auth_data \<Rightarrow> nat option \<times> auth_key list \<Rightarrow> c_int \<times> auth_key list" where
  "set_key_data dat = (\<lambda>(i, ring). case i of None \<Rightarrow> (-1, ring) | Some i \<Rightarrow> (0, ring[i := (ring ! i)\<lparr>ak_data := dat\<rparr>]))"

definition auth_addkey_anonymous :: "auth_key list \<Rightarrow> nat \<Rightarrow> c_int \<times> auth_key list" where
  "auth_addkey_anonymous ring acclev = set_key_data At_Zero (auth_regkey_simple ring AUTH_T_NONE acclev)"

definition auth_addkey_password :: "auth_key list \<Rightarrow> nat \<Rightarrow> byte list \<Rightarrow> c_int \<times> auth_key list" where
  "auth_addkey_password ring acclev password = set_key_data (At_Password password) (auth_regkey_simple ring AUTH_T_PASSWORD acclev)"

definition auth_addkey_cookie :: "auth_key list \<Rightarrow> nat \<Rightarrow> byte list \<Rightarrow> c_int \<times> auth_key list" where
  "auth_addkey_cookie ring acclev cookie = set_key_data (At_Cookie cookie) (auth_regkey_simple ring AUTH_T_COOKIE acclev)"

text \<open>One of the three lists of arguments that end with -1. The mark is stored and counted like the numbers before it. After
  \<open>AT_TRUST_MAX_ENTRYS\<close> numbers without the mark the loop spins: its \<open>continue\<close> goes to the test of a variable that does not
  change any more.\<close>

fun trust_block :: "nat \<Rightarrow> int list \<Rightarrow> (int list \<times> int list) option" where
  "trust_block 0 vs = None"
| "trust_block (Suc n) [] = None"
| "trust_block (Suc n) (v # vs) = (if v = -1 then Some ([v], vs) else map_option (\<lambda>(a, rest). (v # a, rest)) (trust_block n vs))"

definition auth_addkey_trust :: "auth_key list \<Rightarrow> nat \<Rightarrow> int list \<Rightarrow> (c_int \<times> auth_key list) option" where
  "auth_addkey_trust ring acclev va =
     (case auth_regkey_simple ring AUTH_T_TRUST acclev of
        (None, ring) \<Rightarrow> Some (-1, ring)
      | (Some i, ring) \<Rightarrow>
        (case trust_block AT_TRUST_MAX_ENTRYS va of None \<Rightarrow> None | Some (pids, va) \<Rightarrow>
         (case trust_block AT_TRUST_MAX_ENTRYS va of None \<Rightarrow> None | Some (uids, va) \<Rightarrow>
          (case trust_block AT_TRUST_MAX_ENTRYS va of None \<Rightarrow> None | Some (gids, va) \<Rightarrow>
            Some (set_key_data (At_Trust pids uids gids) (Some i, ring))))))"

definition ck_cookie :: "byte list \<Rightarrow> roar_auth_message \<Rightarrow> c_int" where
  "ck_cookie cookie ames = (if length cookie = length (am_data ames) then if cookie \<noteq> am_data ames then -1 else 1 else -1)"

definition ck_password :: "byte list \<Rightarrow> roar_auth_message \<Rightarrow> c_int" where
  "ck_password password ames =
     (let len = length password in if len = length (am_data ames) then if password \<noteq> am_data ames then -1 else 1 else -1)"

text \<open>The numbers are of an unsigned type; so is the comparison.\<close>

definition ck_trust :: "int list \<Rightarrow> int list \<Rightarrow> c_int \<Rightarrow> c_int \<Rightarrow> c_int" where
  "ck_trust uids gids uid gid =
     (if list_ex (\<lambda>u. wrap_u 32 u = wrap_u 32 uid) uids then 1
      else if list_ex (\<lambda>g. wrap_u 32 g = wrap_u 32 gid) gids then 1
      else -1)"

text \<open>The result of the check of one key; \<open>None\<close> for a type that ends the search. The data of a key are of its type, because
  they are set together.\<close>

definition ck_key :: "auth_key \<Rightarrow> roar_auth_message \<Rightarrow> c_int \<Rightarrow> c_int \<Rightarrow> c_int option" where
  "ck_key key ames uid gid =
     (if ak_type key = AUTH_T_NONE then Some 1
      else if ak_type key = AUTH_T_PASSWORD then case ak_data key of At_Password p \<Rightarrow> Some (ck_password p ames) | _ \<Rightarrow> None
      else if ak_type key = AUTH_T_COOKIE then case ak_data key of At_Cookie c \<Rightarrow> Some (ck_cookie c ames) | _ \<Rightarrow> None
      else if ak_type key = AUTH_T_TRUST then case ak_data key of At_Trust pids uids gids \<Rightarrow> Some (ck_trust uids gids uid gid) | _ \<Rightarrow> None
      else None)"

text \<open>The return value and the new access level of the client, if it gets one.\<close>

fun auth_search :: "auth_key list \<Rightarrow> roar_auth_message \<Rightarrow> c_int \<Rightarrow> c_int \<Rightarrow> c_int \<times> nat option" where
  "auth_search [] ames uid gid = (-1, None)"
| "auth_search (key # ring) ames uid gid =
     (if ak_type key \<noteq> am_type ames then auth_search ring ames uid gid
      else case ck_key key ames uid gid of None \<Rightarrow> (-1, None)
        | Some ret \<Rightarrow> if ret = -1 then auth_search ring ames uid gid else (1, Some (ak_acclev key)))"

definition auth_client_ckeck :: "auth_key list \<Rightarrow> roar_auth_message option \<Rightarrow> (c_int \<times> c_int) option \<Rightarrow> c_int \<times> nat option" where
  "auth_client_ckeck ring ames cs =
     (case (cs, ames) of (Some (uid, gid), Some a) \<Rightarrow> auth_search ring a uid gid | _ \<Rightarrow> (-1, None))"

subsection \<open>Who is let in\<close>

text \<open>What a key asks for, and the keyrings that \<open>auth_init\<close> and the operations that add keys make.\<close>

definition accepts :: "auth_key \<Rightarrow> roar_auth_message \<Rightarrow> c_int \<Rightarrow> c_int \<Rightarrow> bool" where
  "accepts key ames uid gid \<longleftrightarrow> ak_type key = am_type ames \<and>
     (case ak_data key of At_Zero \<Rightarrow> ak_type key = AUTH_T_NONE
      | At_Cookie c \<Rightarrow> am_data ames = c
      | At_Password p \<Rightarrow> am_data ames = p
      | At_Trust pids uids gids \<Rightarrow> (\<exists>u \<in> set uids. wrap_u 32 u = wrap_u 32 uid) \<or> (\<exists>g \<in> set gids. wrap_u 32 g = wrap_u 32 gid))"

definition key_ok :: "auth_key \<Rightarrow> bool" where
  "key_ok key \<longleftrightarrow> (case ak_data key of At_Zero \<Rightarrow> ak_type key = AUTH_T_AUTO \<or> ak_type key = AUTH_T_NONE
      | At_Cookie c \<Rightarrow> ak_type key = AUTH_T_COOKIE | At_Password p \<Rightarrow> ak_type key = AUTH_T_PASSWORD
      | At_Trust pids uids gids \<Rightarrow> ak_type key = AUTH_T_TRUST)"

lemma ck_key_accepts:
  assumes "key_ok key" "ak_type key = am_type ames" "am_type ames \<noteq> AUTH_T_AUTO"
  shows "ck_key key ames uid gid = Some (if accepts key ames uid gid then 1 else -1)"
  using assms by (auto simp: key_ok_def ck_key_def accepts_def auth_types ck_cookie_def ck_password_def ck_trust_def list_ex_iff
      split: auth_data.splits)

lemma free_key_bound: "free_key ring = Some i \<Longrightarrow> i < length ring \<and> ak_type (ring ! i) = AUTH_T_AUTO"
  by (induction ring arbitrary: i) (auto split: if_splits)

lemma add_key_ok:
  assumes "list_all key_ok ring" "set_key_data dat (auth_regkey_simple ring type acclev) = (r, ring')"
    "key_ok \<lparr>ak_type = type, ak_acclev = acclev, ak_data = dat\<rparr>"
  shows "list_all key_ok ring'"
  using assms free_key_bound [of ring]
  by (auto simp: set_key_data_def auth_regkey_simple_def list_all_length nth_list_update split: option.splits if_splits)

lemma keyring_ok:
  "list_all key_ok auth_init"
  "list_all key_ok ring \<Longrightarrow> auth_addkey_anonymous ring acclev = (r, ring') \<Longrightarrow> list_all key_ok ring'"
  "list_all key_ok ring \<Longrightarrow> auth_addkey_password ring acclev p = (r, ring') \<Longrightarrow> list_all key_ok ring'"
  "list_all key_ok ring \<Longrightarrow> auth_addkey_cookie ring acclev c = (r, ring') \<Longrightarrow> list_all key_ok ring'"
  "list_all key_ok ring \<Longrightarrow> auth_addkey_trust ring acclev va = Some (r, ring') \<Longrightarrow> list_all key_ok ring'"
proof -
  show "list_all key_ok auth_init" by (simp add: auth_init_def list_all_length key_ok_def auth_types)
  show "list_all key_ok ring \<Longrightarrow> auth_addkey_anonymous ring acclev = (r, ring') \<Longrightarrow> list_all key_ok ring'"
    using add_key_ok by (force simp: auth_addkey_anonymous_def key_ok_def)
  show "list_all key_ok ring \<Longrightarrow> auth_addkey_password ring acclev p = (r, ring') \<Longrightarrow> list_all key_ok ring'"
    using add_key_ok by (force simp: auth_addkey_password_def key_ok_def)
  show "list_all key_ok ring \<Longrightarrow> auth_addkey_cookie ring acclev c = (r, ring') \<Longrightarrow> list_all key_ok ring'"
    using add_key_ok by (force simp: auth_addkey_cookie_def key_ok_def)
  show "list_all key_ok ring'" if ring: "list_all key_ok ring" and add: "auth_addkey_trust ring acclev va = Some (r, ring')"
  proof (cases "auth_regkey_simple ring AUTH_T_TRUST acclev")
    case (Pair i ring1)
    then show ?thesis
    proof (cases i)
      case None
      then show ?thesis using ring add Pair by (auto simp: auth_addkey_trust_def auth_regkey_simple_def split: option.splits)
    next
      case (Some k)
      then obtain d pids uids gids where "d = At_Trust pids uids gids" "set_key_data d (auth_regkey_simple ring AUTH_T_TRUST acclev) = (r, ring')"
        using add Pair by (auto simp: auth_addkey_trust_def split: option.splits prod.splits)
      then show ?thesis using add_key_ok [OF ring] by (simp add: key_ok_def)
    qed
  qed
qed



subsection \<open>Trust\<close>

lemma trust_block_mark: "trust_block n va = Some (a, rest) \<Longrightarrow> -1 \<in> set a"
  by (induction n va arbitrary: a rule: trust_block.induct) (auto split: if_splits)

lemma trust_block_full: "n \<le> length va \<Longrightarrow> -1 \<notin> set (take n va) \<Longrightarrow> trust_block n va = None"
  by (induction n va rule: trust_block.induct) auto

text \<open>A trust key lets in every client whose user the system does not know. Such a client has the user number -1,
  for example every client that connects over the network, and the mark -1 that ends the list of trusted users is one of
  its entries.\<close>

theorem trust_accepts_unknown:
  assumes "auth_addkey_trust auth_init acclev va = Some (0, ring)" "am_type ames = AUTH_T_TRUST"
  shows "auth_client_ckeck ring (Some ames) (Some (-1, gid)) = (1, Some acclev)"
proof -
  have i: "auth_regkey_simple auth_init AUTH_T_TRUST acclev =
      (Some 0, \<lparr>ak_type = AUTH_T_TRUST, ak_acclev = acclev, ak_data = At_Zero\<rparr> # tl auth_init)"
    by (simp add: auth_regkey_simple_def auth_init_def AUTH_KEYRING_LEN_def auth_types numeral_eq_Suc)
  then obtain pids uids gids va1 va2 where "trust_block AT_TRUST_MAX_ENTRYS va1 = Some (uids, va2)"
      "ring = \<lparr>ak_type = AUTH_T_TRUST, ak_acclev = acclev, ak_data = At_Trust pids uids gids\<rparr> # tl auth_init"
    using assms(1) by (auto simp: auth_addkey_trust_def set_key_data_def split: option.splits)
  moreover from this have "list_ex (\<lambda>u. wrap_u 32 u = wrap_u 32 (-1)) uids"
    using trust_block_mark by (fastforce simp: list_ex_iff)
  ultimately show ?thesis using assms(2) by (simp add: auth_client_ckeck_def ck_key_def ck_trust_def auth_types)
qed

theorem trust_accepts_unknown_witness:
  "\<exists>ring. auth_addkey_trust auth_init 6 [-1, 0, 1000, -1, -1] = Some (0, ring) \<and>
     auth_client_ckeck ring (Some \<lparr>am_type = 2, am_stage = 0, am_reserved = [0, 0], am_data = []\<rparr>) (Some (-1, -1)) = (1, Some 6)"
proof -
  have "\<exists>ring. auth_addkey_trust auth_init 6 [-1, 0, 1000, -1, -1] = Some (0, ring)"
    by (simp add: auth_addkey_trust_def auth_regkey_simple_def auth_init_def AUTH_KEYRING_LEN_def AT_TRUST_MAX_ENTRYS_def auth_types
        set_key_data_def numeral_eq_Suc)
  then show ?thesis using trust_accepts_unknown [of 6 "[-1, 0, 1000, -1, -1]" _ "\<lparr>am_type = 2, am_stage = 0, am_reserved = [0, 0], am_data = []\<rparr>" "-1"]
    by (auto simp: auth_types)
qed

text \<open>A list of \<open>AT_TRUST_MAX_ENTRYS\<close> trusted processes never returns.\<close>

lemma trust_list_spins:
  assumes "AT_TRUST_MAX_ENTRYS \<le> length va" "-1 \<notin> set (take AT_TRUST_MAX_ENTRYS va)" "free_key ring \<noteq> None"
  shows "auth_addkey_trust ring acclev va = None"
  using assms trust_block_full by (auto simp: auth_addkey_trust_def auth_regkey_simple_def)

subsection \<open>Messages round trip\<close>

definition auth_message_ok :: "roar_auth_message \<Rightarrow> bool" where
  "auth_message_ok ames \<longleftrightarrow> am_type ames \<in> {-128..<128} \<and> am_stage ames \<in> {-128..<128} \<and> length (am_reserved ames) = 2"

text \<open>The two ways to build an authentication message. With \<open>roar_auth_init_mes\<close>, and the data copied where it says, the
  server reads the message that was built. With \<open>roar_auth_to_mes\<close> the server reads four zero bytes before the data and
  loses their last four bytes, because they are stored behind eight bytes instead of four.\<close>

theorem auth_message_shifted:
  assumes "auth_message_ok ames" "length (am_data ames) \<le> 72"
  shows "(\<exists>mes. roar_auth_init_mes m0 ames (length (am_data ames)) = (0, mes) \<and>
      roar_auth_from_mes (mes\<lparr>ms_data := put_at 4 (am_data ames) (ms_data mes)\<rparr>) None = Some (0, ames)) \<and>
    (\<exists>mes. roar_auth_to_mes want alloc ames = Some (0, mes, None) \<and>
      roar_auth_from_mes mes None = Some (0, ames\<lparr>am_data := take (length (am_data ames)) (replicate 4 0 @ am_data ames)\<rparr>))"
proof -
  obtain a b where ab: "am_reserved ames = [a, b]" using assms(1) by (auto simp: auth_message_ok_def length_Suc_conv numeral_2_eq_2)
  let ?h = "[word_of_int (am_type ames), word_of_int (am_stage ames), a, b] :: byte list"
  have h: "sint (?h ! 0) = am_type ames" "sint (?h ! 1) = am_stage ames"
    using assms(1) by (simp_all add: auth_message_ok_def sint_of_small)
  let ?d = "am_data ames"
  have z: "length (ms_data zero_message) = 80" by (simp add: zero_message_def LIBROAR_BUFFER_MSGDATA_def)
  have p: "put_at 4 d (h @ replicate 76 0) = h @ d @ replicate (76 - length d) 0" "put_at 8 d (h @ replicate 76 0) = h @ replicate 4 0 @ d @ replicate (72 - length d) 0"
    if "length h = 4" for h d :: "byte list" using that by (simp_all add: put_at_def)
  have 0: "put_at 0 ?h (ms_data zero_message) = ?h @ replicate 76 0" by (simp add: put_at_def zero_message_def LIBROAR_BUFFER_MSGDATA_def)
  have 1: "put_at 4 ?d (put_at 0 ?h (ms_data zero_message)) = ?h @ ?d @ replicate (76 - length ?d) 0"
    and 2: "put_at 8 ?d (put_at 0 ?h (ms_data zero_message)) = ?h @ replicate 4 0 @ ?d @ replicate (72 - length ?d) 0"
    unfolding 0 by (rule p, simp)+
  have "roar_auth_from_mes (zero_message\<lparr>ms_cmd := CMD_AUTH, ms_data := ?h @ ?d @ replicate (76 - length ?d) 0, ms_datalen := int (length ?d) + 4\<rparr>) None
      = Some (0, ames)"
    using assms(2) h ab by (cases ames) (simp add: roar_auth_from_mes_def field_def nat_add_distrib)
  moreover have "roar_auth_from_mes (zero_message\<lparr>ms_cmd := CMD_AUTH, ms_data := ?h @ replicate 4 0 @ ?d @ replicate (72 - length ?d) 0,
      ms_datalen := int (length ?d) + 4\<rparr>) None = Some (0, ames\<lparr>am_data := take (length ?d) (replicate 4 0 @ ?d)\<rparr>)"
    using assms(2) h ab by (cases ames) (simp add: roar_auth_from_mes_def field_def nat_add_distrib)
  ultimately show ?thesis
    using assms(2) 1 2 by (simp add: roar_auth_init_mes_def roar_auth_to_mes_def LIBROAR_BUFFER_MSGDATA_def ab zero_message_def)
qed

theorem auth_message_shifted_witness:
  "\<exists>mes. roar_auth_to_mes True True \<lparr>am_type = 3, am_stage = 0, am_reserved = [0, 0], am_data = [115, 51, 120, 121, 122]\<rparr> = Some (0, mes, None) \<and>
     roar_auth_from_mes mes None = Some (0, \<lparr>am_type = 3, am_stage = 0, am_reserved = [0, 0], am_data = [0, 0, 0, 0, 115]\<rparr>)"
  using auth_message_shifted [of "\<lparr>am_type = 3, am_stage = 0, am_reserved = [0, 0], am_data = [115, 51, 120, 121, 122]\<rparr>" zero_message True True]
  by (simp add: auth_message_ok_def numeral_eq_Suc)

end
