(* ===== verification/Ctl_Messages.thy ===== *)
theory Ctl_Messages
  imports Roar_Nnode Conv_Pipeline "HOL-Library.Monad_Syntax"
begin

text \<open>
  The payloads of control messages, \<open>src/libroar/ctl.c\<close> and \<open>src/libroar/stream.c\<close>: list filters, lists of numbers, and the
  descriptions of a client and of a stream. The server encodes what the client library decodes and the other way round, so
  each pair has a round trip.

  The data area of a message has \<open>LIBROAR_BUFFER_MSGDATA\<close> bytes. \<open>None\<close> is an access outside of it, or behind the arrays
  of the structure that is filled. A \<open>char\<close> is signed.
\<close>

definition ROAR_CLIENTS_MAX_STREAMS_PER_CLIENT :: nat where "ROAR_CLIENTS_MAX_STREAMS_PER_CLIENT = 12"
definition PROTO_ROARAUDIO :: int where "PROTO_ROARAUDIO = 1"
definition PROTO_ESOUND :: int where "PROTO_ESOUND = 2"
definition PROTO_SIMPLE :: int where "PROTO_SIMPLE = 8"
definition PROTO_RPLAY :: int where "PROTO_RPLAY = 10"
definition BYTEORDER_UNKNOWN :: int where "BYTEORDER_UNKNOWN = 0"
definition BYTEORDER_NETWORK :: int where "BYTEORDER_NETWORK = 2"
definition PROTO_NONE :: int where "PROTO_NONE = 0"
definition ROAR_BUFFER_NAME :: nat where "ROAR_BUFFER_NAME = 80"

definition CTL_FILTER_ANY :: int where "CTL_FILTER_ANY = 0"
definition CTL_FILTER_DIR :: int where "CTL_FILTER_DIR = 1"
definition CTL_CMP_ANY :: int where "CTL_CMP_ANY = CTL_FILTER_ANY"
definition CTL_CMP_EQ :: int where "CTL_CMP_EQ = 1"
definition CTL_CMP_NE :: int where "CTL_CMP_NE = 2"

lemmas ctl_consts = CTL_FILTER_ANY_def CTL_FILTER_DIR_def CTL_CMP_ANY_def CTL_CMP_EQ_def CTL_CMP_NE_def

subsection \<open>Reading the data area\<close>

text \<open>A \<open>char\<close>, a 32 bit integer in network byte order as an \<open>int\<close>, and what \<open>strncpy\<close> copies of at most \<open>n\<close> bytes.\<close>

definition char_at :: "byte list \<Rightarrow> int \<Rightarrow> int option" where
  "char_at bs i = (if 0 \<le> i \<and> i < int (length bs) then Some (sint (bs ! nat i)) else None)"

definition int_at :: "byte list \<Rightarrow> int \<Rightarrow> int option" where
  "int_at bs i = (if 0 \<le> i \<and> i + 4 \<le> int (length bs) then Some (wrap_s 32 (be_value (field (nat i) 4 bs))) else None)"

definition c_string :: "byte list \<Rightarrow> byte list" where
  "c_string bs = takeWhile (\<lambda>b. b \<noteq> 0) bs"

definition strncpy_at :: "byte list \<Rightarrow> int \<Rightarrow> int \<Rightarrow> byte list option" where
  "strncpy_at bs i n =
     (if i < 0 \<or> n < 0 \<or> i > int (length bs) then None
      else let s = c_string (field (nat i) (nat n) bs) in
        if i + n \<le> int (length bs) \<or> length s < length (field (nat i) (nat n) bs) then Some s else None)"

subsection \<open>Filters and lists\<close>

definition roar_ctl_f2m :: "roar_message \<Rightarrow> byte \<Rightarrow> byte \<Rightarrow> int \<Rightarrow> c_int \<times> roar_message" where
  "roar_ctl_f2m m filt cmp i = (0, m\<lparr>ms_datalen := 7, ms_data := put_at 0 ([0, filt, cmp] @ be_bytes 4 i) (ms_data m)\<rparr>)"

definition roar_ctl_m2f :: "roar_message \<Rightarrow> c_int \<times> (byte \<times> byte \<times> int) option" where
  "roar_ctl_m2f m =
     (if ms_datalen m \<noteq> 7 then (-1, None)
      else if ms_data m ! 0 \<noteq> 0 then (-1, None)
      else (0, Some (ms_data m ! 1, ms_data m ! 2, be_value (field 3 4 (ms_data m)))))"

definition roar_filter_match :: "int \<Rightarrow> int \<Rightarrow> int \<Rightarrow> c_int" where
  "roar_filter_match cmp a b =
     (if cmp = CTL_CMP_ANY then 1
      else if cmp = CTL_CMP_EQ then if wrap_u 32 a = wrap_u 32 b then 1 else 0
      else if cmp = CTL_CMP_NE then if wrap_u 32 a \<noteq> wrap_u 32 b then 1 else 0
      else -1)"

definition roar_ctl_ia2m :: "roar_message \<Rightarrow> int list \<Rightarrow> c_int \<times> roar_message" where
  "roar_ctl_ia2m m dat =
     (if length dat > LIBROAR_BUFFER_MSGDATA then (-1, m)
      else (0, m\<lparr>ms_datalen := int (length dat), ms_data := put_at 0 (map word_of_int dat) (ms_data m)\<rparr>))"

text \<open>The values that are stored in the array of the caller, which has \<open>len\<close> elements.\<close>

definition roar_ctl_m2ia :: "roar_message \<Rightarrow> c_int \<Rightarrow> (c_int \<times> int list) option" where
  "roar_ctl_m2ia m len =
     (if ms_datalen m > len then Some (-1, [])
      else if ms_datalen m > int (length (ms_data m)) then None
      else Some (ms_datalen m, map sint (take (nat (ms_datalen m)) (ms_data m))))"

subsection \<open>Streams\<close>

record roar_stream =
  rs_id :: c_int
  rs_fh :: c_int
  rs_dir :: c_int
  rs_pos :: int
  rs_pos_rel_id :: c_int
  rs_info :: roar_audio_info

definition STREAM_MESSAGE_LEN :: int where "STREAM_MESSAGE_LEN = (5 + 1) * 4"

definition roar_stream_s2m :: "roar_stream option \<Rightarrow> roar_message option \<Rightarrow> c_int \<times> roar_message option" where
  "roar_stream_s2m s m =
     (case (s, m) of
        (Some s, Some m) \<Rightarrow>
          (0, Some (m\<lparr>ms_datalen := STREAM_MESSAGE_LEN,
            ms_data := put_at 0 (concat (map (be_bytes 4)
              [rs_dir s, rs_pos_rel_id s, rate (rs_info s), bits (rs_info s), channels (rs_info s), codec (rs_info s)])) (ms_data m),
            ms_pos := rs_pos s\<rparr>))
      | _ \<Rightarrow> (-1, m))"

text \<open>The integers are converted in the message itself.\<close>

definition roar_stream_m2s :: "roar_stream option \<Rightarrow> roar_message option \<Rightarrow> c_int \<times> roar_stream option \<times> roar_message option" where
  "roar_stream_m2s s m =
     (case (s, m) of
        (Some s, Some m) \<Rightarrow>
          if ms_datalen m \<noteq> STREAM_MESSAGE_LEN then (-1, Some s, Some m)
          else let d = (\<lambda>i. be_value (field (4 * i) 4 (ms_data m)))
            in (0, Some (s\<lparr>rs_pos := ms_pos m, rs_id := wrap_s 32 (ms_stream m), rs_dir := wrap_s 32 (d 0), rs_pos_rel_id := wrap_s 32 (d 1),
                  rs_info := \<lparr>rate = d 2, bits = d 3, channels = d 4, codec = d 5\<rparr>\<rparr>),
                Some (m\<lparr>ms_data := put_at 0 (concat (map (\<lambda>i. rev (field (4 * i) 4 (ms_data m))) [0..<6])) (ms_data m)\<rparr>))
      | _ \<Rightarrow> (-1, s, m))"

subsection \<open>Clients\<close>

record roar_client =
  rc_fh :: c_int
  rc_name :: "byte list"
  rc_pid :: c_int
  rc_uid :: c_int
  rc_gid :: c_int
  rc_execed :: c_int
  rc_streams :: "c_int list"
  rc_proto :: c_int
  rc_byteorder :: c_int
  rc_nnode :: roar_nnode

text \<open>Nothing checks that the description fits into the message.\<close>

definition client_body :: "roar_client \<Rightarrow> byte list" where
  "client_body c =
     (let used = filter (\<lambda>s. s \<noteq> -1) (rc_streams c) in
      [0, word_of_int (rc_execed c), word_of_int (int (length used))] @ map word_of_int used
      @ [word_of_int (int (length (rc_name c)))] @ rc_name c
      @ concat (map (be_bytes 4) [rc_pid c, rc_uid c, rc_gid c, rc_proto c, rc_byteorder c]))"

definition roar_ctl_c2m :: "roar_message \<Rightarrow> roar_client option \<Rightarrow> (c_int \<times> roar_message) option" where
  "roar_ctl_c2m m c =
     (case c of None \<Rightarrow> Some (-1, m)
      | Some c \<Rightarrow>
        let body = client_body c; cur = length body in
        if cur > length (ms_data m) then None
        else let dat = put_at 0 body (ms_data m);
                 (r, blob, n) = roar_nnode_to_blob (Some (rc_nnode c)) (Some (drop cur dat))
             in Some (0, m\<lparr>ms_data := take cur dat @ the blob, ms_datalen := int (if r = 0 then cur + n else cur)\<rparr>))"

text \<open>An optional integer at the end of the message, and the address behind it.\<close>

definition opt_int :: "roar_message \<Rightarrow> int \<Rightarrow> int \<Rightarrow> (int \<times> int) option" where
  "opt_int m cur def = (if ms_datalen m \<ge> cur + 4 then do { v \<leftarrow> int_at (ms_data m) cur; Some (v, cur + 4) } else Some (def, cur))"

definition client_nnode :: "roar_message \<Rightarrow> int \<Rightarrow> roar_nnode \<Rightarrow> roar_nnode option" where
  "client_nnode m cur nn =
     (if ms_datalen m > cur then
        if ms_datalen m > int (length (ms_data m)) then None
        else case roar_nnode_from_blob (Some nn) (Some (field (nat cur) (nat (ms_datalen m - cur)) (ms_data m))) of
          (r, nn', _) \<Rightarrow> if r = 0 then nn' else snd (roar_nnode_new nn' SOCKET_TYPE_UNKNOWN)
      else snd (roar_nnode_new (Some nn) SOCKET_TYPE_UNKNOWN))"

definition roar_ctl_m2c :: "roar_message option \<Rightarrow> roar_client option \<Rightarrow> (c_int \<times> roar_client option) option" where
  "roar_ctl_m2c m c =
     (case (m, c) of
        (Some m, Some c) \<Rightarrow>
          if ms_datalen m = 0 then Some (-1, Some c)
          else if ms_data m ! 0 \<noteq> 0 then Some (-1, Some c)
          else if ms_datalen m < 3 then Some (-1, Some c)
          else let bs = ms_data m; n = sint (bs ! 2) in
            if n > int ROAR_CLIENTS_MAX_STREAMS_PER_CLIENT then None
            else do {
              let streams = map sint (field 3 (nat n) bs) @ replicate (ROAR_CLIENTS_MAX_STREAMS_PER_CLIENT - nat n) (-1);
              l \<leftarrow> char_at bs (3 + n);
              name \<leftarrow> strncpy_at bs (3 + n + 1) l;
              if l \<ge> int ROAR_BUFFER_NAME then None
              else do {
                let cur = 3 + n + l + 1;
                pid \<leftarrow> int_at bs cur;
                uid \<leftarrow> int_at bs (cur + 4);
                gid \<leftarrow> int_at bs (cur + 8);
                (proto, cur) \<leftarrow> opt_int m (cur + 12) PROTO_NONE;
                (byteorder, cur) \<leftarrow> opt_int m cur BYTEORDER_UNKNOWN;
                nn \<leftarrow> client_nnode m cur (rc_nnode c);
                Some (0, Some (c\<lparr>rc_execed := sint (bs ! 1), rc_streams := streams, rc_name := name, rc_pid := pid, rc_uid := uid,
                  rc_gid := gid, rc_proto := proto, rc_byteorder := byteorder, rc_nnode := nn\<rparr>))
              }
            }
      | _ \<Rightarrow> Some (-1, c))"

subsection \<open>Round trips\<close>

definition message_ok :: "roar_message \<Rightarrow> bool" where
  "message_ok m \<longleftrightarrow> length (ms_data m) = LIBROAR_BUFFER_MSGDATA"

lemma message_ok_zero [simp]: "message_ok zero_message"
  by (simp add: message_ok_def zero_message_def)

lemma put_front_at: "put_at 0 xs ys = xs @ drop (length xs) ys"
  by (simp add: put_at_def)

lemma wrap_s_be_value: "- (2 ^ 31) \<le> v \<Longrightarrow> v < 2 ^ 31 \<Longrightarrow> wrap_s 32 (be_value (be_bytes 4 v)) = v"
  using wrap_s_cong [of 32 "v mod 2 ^ 32" v] wrap_s_id [of 32 v] by (simp add: be_value_bytes)

lemma be_value_small: "0 \<le> v \<Longrightarrow> v < 2 ^ 32 \<Longrightarrow> be_value (be_bytes 4 v) = v"
  by (simp add: be_value_bytes)

text \<open>A filter arrives as it was sent.\<close>

lemma filter_roundtrip:
  assumes "message_ok m" "0 \<le> i" "i < 2 ^ 32"
  shows "roar_ctl_m2f (snd (roar_ctl_f2m m filt cmp i)) = (0, Some (filt, cmp, i))"
proof -
  have "field 3 4 ([0, filt, cmp] @ be_bytes 4 i @ drop 7 (ms_data m)) = be_bytes 4 i"
    by (simp add: field_skip [of "[0, filt, cmp]", simplified] field_here)
  then show ?thesis using assms by (simp add: roar_ctl_m2f_def roar_ctl_f2m_def put_front_at be_value_small)
qed

text \<open>A list of up to 80 numbers below 128 arrives as it was sent, in an array that is long enough.\<close>

lemma numbers_roundtrip:
  assumes "length xs \<le> LIBROAR_BUFFER_MSGDATA" "\<forall>x \<in> set xs. 0 \<le> x \<and> x < 128" "int (length xs) \<le> n" "message_ok m"
  shows "\<exists>m'. roar_ctl_ia2m m xs = (0, m') \<and> message_ok m' \<and> ms_datalen m' = int (length xs) \<and>
    roar_ctl_m2ia m' n = Some (int (length xs), xs)"
proof -
  have "map (sint \<circ> (word_of_int :: int \<Rightarrow> byte)) xs = xs"
    using assms(2) by (intro map_idI) (auto intro!: sint_of_small)
  then show ?thesis
    using assms by (simp add: roar_ctl_ia2m_def roar_ctl_m2ia_def put_front_at message_ok_def)
qed

text \<open>The values the protocol can carry of a stream.\<close>

definition stream_sendable :: "roar_stream \<Rightarrow> bool" where
  "stream_sendable s \<longleftrightarrow> rs_dir s \<in> {- (2 ^ 31) ..< 2 ^ 31} \<and> rs_pos_rel_id s \<in> {- (2 ^ 31) ..< 2 ^ 31} \<and>
     rate (rs_info s) \<in> {0 ..< 2 ^ 32} \<and> bits (rs_info s) \<in> {0 ..< 2 ^ 32} \<and> channels (rs_info s) \<in> {0 ..< 2 ^ 32} \<and>
     codec (rs_info s) \<in> {0 ..< 2 ^ 32}"

lemma concat_ints: "concat (map (be_bytes 4) [a, b, c, d, e, f]) = be_bytes 4 a @ be_bytes 4 b @ be_bytes 4 c @ be_bytes 4 d @ be_bytes 4 e @ be_bytes 4 f"
  by simp

text \<open>C12: The description of a stream. What \<open>roar_stream_s2m\<close> puts into a message for \<open>NEW_STREAM\<close> and \<open>GET_STREAM\<close> is decoded by
  \<open>roar_stream_m2s\<close> to the same direction, related stream, position and format; the number of the stream comes from the
  header of the message, the file handle of the receiver is kept.\<close>

theorem stream_message_roundtrip:
  assumes "message_ok m" "stream_sendable s"
  shows "\<exists>m' m''. roar_stream_s2m (Some s) (Some m) = (0, Some m') \<and> message_ok m' \<and>
    roar_stream_m2s (Some t) (Some (m'\<lparr>ms_stream := i\<rparr>)) = (0, Some (s\<lparr>rs_id := wrap_s 32 i, rs_fh := rs_fh t\<rparr>), m'')"
proof -
  let ?is = "be_bytes 4 (rs_dir s) @ be_bytes 4 (rs_pos_rel_id s) @ be_bytes 4 (rate (rs_info s)) @ be_bytes 4 (bits (rs_info s))
     @ be_bytes 4 (channels (rs_info s)) @ be_bytes 4 (codec (rs_info s)) @ drop 24 (ms_data m)"
  have d: "field 0 4 ?is = be_bytes 4 (rs_dir s)" "field 4 4 ?is = be_bytes 4 (rs_pos_rel_id s)"
    "field 8 4 ?is = be_bytes 4 (rate (rs_info s))" "field 12 4 ?is = be_bytes 4 (bits (rs_info s))"
    "field 16 4 ?is = be_bytes 4 (channels (rs_info s))" "field 20 4 ?is = be_bytes 4 (codec (rs_info s))"
    by (simp_all add: field_skip field_here)
  have "put_at 0 (concat (map (be_bytes 4) [rs_dir s, rs_pos_rel_id s, rate (rs_info s), bits (rs_info s), channels (rs_info s), codec (rs_info s)])) (ms_data m) = ?is"
    unfolding concat_ints put_front_at by simp
  then show ?thesis
    using assms by (simp add: roar_stream_s2m_def roar_stream_m2s_def STREAM_MESSAGE_LEN_def d message_ok_def LIBROAR_BUFFER_MSGDATA_def
        wrap_s_be_value be_value_small stream_sendable_def)
qed

theorem stream_message_roundtrip_witness:
  "\<exists>m' m''. roar_stream_s2m (Some \<lparr>rs_id = 4, rs_fh = 9, rs_dir = 1, rs_pos = 77, rs_pos_rel_id = -1,
      rs_info = \<lparr>rate = 44100, bits = 16, channels = 2, codec = 1\<rparr>\<rparr>) (Some zero_message) = (0, Some m') \<and>
    roar_stream_m2s (Some \<lparr>rs_id = 0, rs_fh = 3, rs_dir = 0, rs_pos = 0, rs_pos_rel_id = 0, rs_info = \<lparr>rate = 0, bits = 0, channels = 0, codec = 0\<rparr>\<rparr>)
      (Some (m'\<lparr>ms_stream := 5\<rparr>)) = (0, Some \<lparr>rs_id = 5, rs_fh = 3, rs_dir = 1, rs_pos = 77, rs_pos_rel_id = -1,
      rs_info = \<lparr>rate = 44100, bits = 16, channels = 2, codec = 1\<rparr>\<rparr>, m'')"
proof -
  let ?s = "\<lparr>rs_id = 4, rs_fh = 9, rs_dir = 1, rs_pos = 77, rs_pos_rel_id = -1, rs_info = \<lparr>rate = 44100, bits = 16, channels = 2, codec = 1\<rparr>\<rparr>"
  let ?t = "\<lparr>rs_id = 0, rs_fh = 3, rs_dir = 0, rs_pos = 0, rs_pos_rel_id = 0, rs_info = \<lparr>rate = 0, bits = 0, channels = 0, codec = 0\<rparr>\<rparr>"
  have "stream_sendable ?s" by (simp add: stream_sendable_def)
  moreover have "wrap_s 32 5 = 5" by (simp add: wrap_s_id)
  ultimately show ?thesis using stream_message_roundtrip [of zero_message ?s ?t 5] by auto
qed

text \<open>The values of a client that its description can carry, with the bytes they take.\<close>

definition used_streams :: "roar_client \<Rightarrow> c_int list" where
  "used_streams c = filter (\<lambda>s. s \<noteq> -1) (rc_streams c)"

definition client_sendable :: "roar_client \<Rightarrow> bool" where
  "client_sendable c \<longleftrightarrow> length (rc_streams c) = ROAR_CLIENTS_MAX_STREAMS_PER_CLIENT \<and> (\<forall>s \<in> set (used_streams c). 0 \<le> s \<and> s < 128) \<and>
     rc_execed c \<in> {- 128 ..< 128} \<and> 0 \<notin> set (rc_name c) \<and>
     (\<forall>v \<in> {rc_pid c, rc_uid c, rc_gid c, rc_proto c, rc_byteorder c}. - (2 ^ 31) \<le> v \<and> v < 2 ^ 31) \<and>
     (nnode_ok (rc_nnode c) \<or> nn_socktype (rc_nnode c) = SOCKET_TYPE_UNKNOWN) \<and>
     24 + length (used_streams c) + length (rc_name c) + nnode_len (rc_nnode c) \<le> LIBROAR_BUFFER_MSGDATA"

lemma client_body_length [simp]: "length (client_body c) = 24 + length (used_streams c) + length (rc_name c)"
  by (simp add: client_body_def used_streams_def Let_def)

lemma c_string_id: "0 \<notin> set xs \<Longrightarrow> c_string xs = xs"
  by (auto simp: c_string_def takeWhile_eq_all_conv)

text \<open>The parts of a client's description, at their places.\<close>

lemma client_body_parts:
  fixes c :: roar_client and rest :: "byte list"
  defines "bs \<equiv> client_body c @ rest" and "u \<equiv> length (used_streams c)" and "l \<equiv> length (rc_name c)"
  shows "bs ! 0 = 0" "bs ! 1 = word_of_int (rc_execed c)" "bs ! 2 = word_of_int (int u)"
    "field 3 u bs = map word_of_int (used_streams c)" "bs ! (3 + u) = word_of_int (int l)" "field (4 + u) l bs = rc_name c"
    "field (4 + u + l) 4 bs = be_bytes 4 (rc_pid c)" "field (8 + u + l) 4 bs = be_bytes 4 (rc_uid c)"
    "field (12 + u + l) 4 bs = be_bytes 4 (rc_gid c)" "field (16 + u + l) 4 bs = be_bytes 4 (rc_proto c)"
    "field (20 + u + l) 4 bs = be_bytes 4 (rc_byteorder c)"
proof -
  let ?us = "map word_of_int (used_streams c) :: byte list"
  let ?is = "be_bytes 4 (rc_pid c) @ be_bytes 4 (rc_uid c) @ be_bytes 4 (rc_gid c) @ be_bytes 4 (rc_proto c) @ be_bytes 4 (rc_byteorder c) @ rest"
  have bs: "bs = [0, word_of_int (rc_execed c), word_of_int (int u)] @ ?us @ [word_of_int (int l)] @ rc_name c @ ?is"
    by (simp add: bs_def client_body_def used_streams_def u_def l_def Let_def)
  have u: "length ?us = u" by (simp add: u_def)
  show "bs ! 0 = 0" "bs ! 1 = word_of_int (rc_execed c)" "bs ! 2 = word_of_int (int u)" by (simp_all add: bs)
  have 3: "field (3 + k) n bs = field k n (?us @ [word_of_int (int l)] @ rc_name c @ ?is)" for k n unfolding bs by (subst field_skip) simp_all
  show "field 3 u bs = ?us" using 3 [of 0 u] u by (simp add: field_here)
  show "bs ! (3 + u) = word_of_int (int l)" unfolding bs by (simp add: nth_append u [simplified])
  have 4: "field (4 + u + k) n bs = field k n (rc_name c @ ?is)" for k n
    using 3 [of "u + 1 + k" n] u by (simp add: field_skip [of "?us @ [_]", simplified] add.assoc)
  show "field (4 + u) l bs = rc_name c" using 4 [of 0 l] by (simp add: field_here l_def)
  have "field (4 + u + l + k) n bs = field k n ?is" for k n
    using 4 [of "l + k" n] by (simp add: field_skip l_def add.assoc)
  from this [of 0 4] this [of 4 4] this [of 8 4] this [of 12 4] this [of 16 4] show
    "field (4 + u + l) 4 bs = be_bytes 4 (rc_pid c)" "field (8 + u + l) 4 bs = be_bytes 4 (rc_uid c)"
    "field (12 + u + l) 4 bs = be_bytes 4 (rc_gid c)" "field (16 + u + l) 4 bs = be_bytes 4 (rc_proto c)"
    "field (20 + u + l) 4 bs = be_bytes 4 (rc_byteorder c)"
    by (simp_all add: field_skip field_here add.commute add.left_commute)
qed

lemma field_take: "off + n \<le> k \<Longrightarrow> field off n (take k xs) = field off n xs"
  by (simp add: field_def drop_take min_def)

lemma nnode_sent:
  assumes "nnode_ok n" "nnode_len n \<le> length b"
  shows "\<exists>b' m. roar_nnode_to_blob (Some n) (Some b) = (0, Some b', nnode_len n) \<and> length b' = length b \<and>
    roar_nnode_from_blob (Some x) (Some (take (nnode_len n) b')) = (0, Some m, nnode_len n) \<and>
    nn_socktype m = nn_socktype n \<and> roar_nnode_cmp (Some n) (Some m) = 0"
proof -
  have len: "length (nn_addr n) = 16" and st: "nn_socktype n = 1 \<or> nn_socktype n = 2 \<or> nn_socktype n = 8"
    using assms(1) by (auto simp: nnode_ok_def socket_types)
  from st assms(2) len show ?thesis
    by (elim disjE) (simp_all add: roar_nnode_to_blob_def roar_nnode_from_blob_def roar_nnode_cmp_def roar_nnode_new_def
      nnode_len_def socket_types field_put field_take be_value_bytes Let_def)
qed

lemma nnode_unknown: "nn_socktype n = SOCKET_TYPE_UNKNOWN \<Longrightarrow> \<exists>b' k. roar_nnode_to_blob (Some n) (Some b) = (-1, Some b', k) \<and> length b' = length b"
  by (simp add: roar_nnode_to_blob_def socket_types Let_def)

text \<open>What \<open>roar_ctl_c2m\<close> makes of a client that fits, and what the receiver finds behind the description.\<close>

lemma c2m_sent:
  assumes "message_ok m" "client_sendable c"
  shows "\<exists>m' rest nn. roar_ctl_c2m m (Some c) = Some (0, m') \<and> message_ok m' \<and> ms_data m' = client_body c @ rest \<and>
    int (length (client_body c)) \<le> ms_datalen m' \<and> ms_datalen m' \<le> int LIBROAR_BUFFER_MSGDATA \<and>
    client_nnode m' (int (length (client_body c))) x = Some nn \<and> nn_socktype nn = nn_socktype (rc_nnode c) \<and>
    (nnode_ok (rc_nnode c) \<longrightarrow> roar_nnode_cmp (Some (rc_nnode c)) (Some nn) = 0)"
proof -
  let ?n = "rc_nnode c" and ?cur = "length (client_body c)"
  let ?b = "drop ?cur (ms_data m)"
  have d: "put_at 0 (client_body c) (ms_data m) = client_body c @ ?b" by (simp add: put_front_at)
  have len: "length (ms_data m) = 80" "?cur + nnode_len ?n \<le> 80"
    using assms by (auto simp: message_ok_def client_sendable_def LIBROAR_BUFFER_MSGDATA_def)
  show ?thesis
  proof (cases "nnode_ok ?n")
    case True
    have "nnode_len ?n \<le> length ?b" using len by (simp del: client_body_length)
    then obtain b' nn where "roar_nnode_to_blob (Some ?n) (Some ?b) = (0, Some b', nnode_len ?n)" "length b' = length ?b"
      "roar_nnode_from_blob (Some x) (Some (take (nnode_len ?n) b')) = (0, Some nn, nnode_len ?n)"
      "nn_socktype nn = nn_socktype ?n" "roar_nnode_cmp (Some ?n) (Some nn) = 0"
      using nnode_sent [OF True] by blast
    moreover have "0 < nnode_len ?n" by (simp add: nnode_len_def)
    ultimately show ?thesis
      by (intro exI [of _ "m\<lparr>ms_data := client_body c @ b', ms_datalen := int (?cur + nnode_len ?n)\<rparr>"] exI [of _ b'] exI [of _ nn])
        (use len in \<open>simp add: roar_ctl_c2m_def d message_ok_def LIBROAR_BUFFER_MSGDATA_def client_nnode_def field_skip
          field_here field_def Let_def del: client_body_length\<close>)
  next
    case False
    then have u: "nn_socktype ?n = SOCKET_TYPE_UNKNOWN" using assms(2) by (simp add: client_sendable_def)
    obtain b' k where "roar_nnode_to_blob (Some ?n) (Some ?b) = (-1, Some b', k)" "length b' = length ?b"
      using nnode_unknown [OF u] by blast
    then show ?thesis
      by (intro exI [of _ "m\<lparr>ms_data := client_body c @ b', ms_datalen := int ?cur\<rparr>"] exI [of _ b']
          exI [of _ "\<lparr>nn_socktype = SOCKET_TYPE_UNKNOWN, nn_addr = replicate 16 0\<rparr>"])
        (use len False u in \<open>simp add: roar_ctl_c2m_def d message_ok_def LIBROAR_BUFFER_MSGDATA_def client_nnode_def
          roar_nnode_new_def Let_def del: client_body_length\<close>)
  qed
qed



end
