(* ===== verification/Server_State.thy ===== *)
theory Server_State
  imports Roar_Buffer Pcm_Amp Conv_Pipeline Server_Auth Ctl_Messages
begin

text \<open>
  The client and stream tables of the server, \<open>src/roard/clients.c\<close> and \<open>src/roard/streams.c\<close>: the records,
  the checked access to a table entry, and the operations that read or set fields of one entry.

  The state has the two tables of \<open>ROAR_CLIENTS_MAX\<close> and \<open>ROAR_STREAMS_MAX\<close> pointers, the counters and
  globals the two files share, the buffer heap of \<open>Roar_Buffer\<close>, and a log of what leaves the tables: events,
  system calls, and calls into codec filters, drivers and hardware mixers. \<open>sv_left\<close> is the number of table
  records that can still be allocated. Results of the calls that leave the model are given by a record
  \<open>server_io\<close>.

  \<open>None\<close> is undefined behaviour: an access behind the end of a table, or to a record that is not there. The range
  checks \<open>_CHECK_CID\<close> and \<open>_CHECK_SID\<close> let the table size itself through, so an operation on that
  number reads behind the table.
\<close>

subsection \<open>Constants\<close>

definition ROAR_STREAMS_MAX :: int where "ROAR_STREAMS_MAX = 64"
definition ROAR_CLIENTS_MAX :: int where "ROAR_CLIENTS_MAX = 64"
definition ROAR_META_MAX_PER_STREAM :: nat where "ROAR_META_MAX_PER_STREAM = 16"
definition MAX_LTM_WINDOWS_PER_STREAM :: nat where "MAX_LTM_WINDOWS_PER_STREAM = 1"

definition ROAR_DIR_PLAY :: int where "ROAR_DIR_PLAY = 1"
definition ROAR_DIR_RECORD :: int where "ROAR_DIR_RECORD = 2"
definition ROAR_DIR_MONITOR :: int where "ROAR_DIR_MONITOR = 3"
definition ROAR_DIR_FILTER :: int where "ROAR_DIR_FILTER = 4"
definition ROAR_DIR_OUTPUT :: int where "ROAR_DIR_OUTPUT = 5"
definition ROAR_DIR_MIXING :: int where "ROAR_DIR_MIXING = 6"
definition ROAR_DIR_META :: int where "ROAR_DIR_META = 8"
definition ROAR_DIR_BIDIR :: int where "ROAR_DIR_BIDIR = 9"
definition ROAR_DIR_THRU :: int where "ROAR_DIR_THRU = 10"
definition ROAR_DIR_BRIDGE :: int where "ROAR_DIR_BRIDGE = 11"
definition ROAR_DIR_MIDI_IN :: int where "ROAR_DIR_MIDI_IN = 12"
definition ROAR_DIR_MIDI_OUT :: int where "ROAR_DIR_MIDI_OUT = 13"
definition ROAR_DIR_LIGHT_IN :: int where "ROAR_DIR_LIGHT_IN = 14"
definition ROAR_DIR_LIGHT_OUT :: int where "ROAR_DIR_LIGHT_OUT = 15"
definition ROAR_DIR_RAW_IN :: int where "ROAR_DIR_RAW_IN = 16"
definition ROAR_DIR_RAW_OUT :: int where "ROAR_DIR_RAW_OUT = 17"
definition ROAR_DIR_COMPLEX_IN :: int where "ROAR_DIR_COMPLEX_IN = 18"
definition ROAR_DIR_COMPLEX_OUT :: int where "ROAR_DIR_COMPLEX_OUT = 19"
definition ROAR_DIR_DIRIDS :: int where "ROAR_DIR_DIRIDS = 22"

definition ROAR_FLAG_PRIMARY :: "32 word" where "ROAR_FLAG_PRIMARY = 0x1"
definition ROAR_FLAG_SYNC :: "32 word" where "ROAR_FLAG_SYNC = 0x8"
definition ROAR_FLAG_META :: "32 word" where "ROAR_FLAG_META = 0x10"
definition ROAR_FLAG_HWMIXER :: "32 word" where "ROAR_FLAG_HWMIXER = 0x80"
definition ROAR_FLAG_PAUSE :: "32 word" where "ROAR_FLAG_PAUSE = 0x100"
definition ROAR_FLAG_MUTE :: "32 word" where "ROAR_FLAG_MUTE = 0x200"
definition ROAR_FLAG_MMAP :: "32 word" where "ROAR_FLAG_MMAP = 0x400"
definition ROAR_FLAG_ANTIECHO :: "32 word" where "ROAR_FLAG_ANTIECHO = 0x800"
definition ROAR_FLAG_VIRTUAL :: "32 word" where "ROAR_FLAG_VIRTUAL = 0x1000"
definition ROAR_FLAG_RECSOURCE :: "32 word" where "ROAR_FLAG_RECSOURCE = 0x2000"
definition ROAR_FLAG_PASSMIXER :: "32 word" where "ROAR_FLAG_PASSMIXER = 0x4000"
definition ROAR_FLAG_IMMUTABLE :: "32 word" where "ROAR_FLAG_IMMUTABLE = 0x10000"

definition STREAMSTATE_INITING :: int where "STREAMSTATE_INITING = 1"
definition STREAMSTATE_NEW :: int where "STREAMSTATE_NEW = 2"
definition STREAMSTATE_OLD :: int where "STREAMSTATE_OLD = 3"
definition STREAMSTATE_CLOSING :: int where "STREAMSTATE_CLOSING = 4"

lemmas dir_defs = ROAR_DIR_PLAY_def ROAR_DIR_RECORD_def ROAR_DIR_MONITOR_def ROAR_DIR_FILTER_def ROAR_DIR_OUTPUT_def
  ROAR_DIR_MIXING_def ROAR_DIR_META_def ROAR_DIR_BIDIR_def ROAR_DIR_THRU_def ROAR_DIR_BRIDGE_def ROAR_DIR_MIDI_IN_def
  ROAR_DIR_MIDI_OUT_def ROAR_DIR_LIGHT_IN_def ROAR_DIR_LIGHT_OUT_def ROAR_DIR_RAW_IN_def ROAR_DIR_RAW_OUT_def
  ROAR_DIR_COMPLEX_IN_def ROAR_DIR_COMPLEX_OUT_def ROAR_DIR_DIRIDS_def

lemmas flag_defs = ROAR_FLAG_PRIMARY_def ROAR_FLAG_SYNC_def ROAR_FLAG_META_def ROAR_FLAG_HWMIXER_def ROAR_FLAG_PAUSE_def
  ROAR_FLAG_MUTE_def ROAR_FLAG_MMAP_def ROAR_FLAG_ANTIECHO_def ROAR_FLAG_VIRTUAL_def ROAR_FLAG_RECSOURCE_def
  ROAR_FLAG_PASSMIXER_def ROAR_FLAG_IMMUTABLE_def

lemmas table_sizes = ROAR_STREAMS_MAX_def ROAR_CLIENTS_MAX_def ROAR_CLIENTS_MAX_STREAMS_PER_CLIENT_def
  ROAR_META_MAX_PER_STREAM_def

lemmas state_defs = STREAMSTATE_INITING_def STREAMSTATE_NEW_def STREAMSTATE_OLD_def STREAMSTATE_CLOSING_def

subsection \<open>Records\<close>

record roar_meta =
  me_type :: c_int
  me_key :: string
  me_value :: "string option"

record roar_stream_ltm =
  lt_window :: c_int
  lt_mt :: "32 word"
  lt_refc :: nat
  lt_channels :: int

text \<open>\<open>pos_rel_id\<close> is declared unsigned and only ever assigned and compared with \<open>int\<close> values; it is kept as that
  \<open>int\<close> value. The name of a client is the string before the first null byte.\<close>

record roar_stream_server =
  st_id :: c_int
  st_fh :: c_int
  st_dir :: c_int
  st_pos :: int
  st_pos_rel_id :: c_int
  st_info :: roar_audio_info
  ss_client :: c_int
  ss_buffer :: ptr
  ss_output :: ptr
  ss_mixer :: roar_mixer_settings
  ss_meta :: "roar_meta list"
  ss_is_new :: bool
  ss_codecfilter :: c_int
  ss_codec_orgi :: c_int
  ss_socktype :: c_int
  ss_delay :: int
  ss_pre_underruns :: int
  ss_post_underruns :: int
  ss_primary :: bool
  ss_driver_id :: c_int
  ss_flags :: "32 word"
  ss_name :: "string option"
  ss_ready :: bool
  ss_outputbuffer :: ptr
  ss_state :: c_int
  ss_prethru :: ptr
  ss_mixer_stream :: c_int
  ss_chanmap :: roardsp_chanmap
  ss_role :: c_int
  ss_parent_stream :: c_int
  ss_ltm :: "roar_stream_ltm list"
  ss_mixerstream :: ptr

record roar_client_server =
  cl_name :: "byte list"
  cl_pid :: c_int
  cl_uid :: c_int
  cl_gid :: c_int
  cl_fh :: c_int
  cl_proto :: c_int
  cl_byteorder :: c_int
  cl_nnode :: roar_nnode
  cl_execed :: c_int
  cl_streams :: "c_int list"
  cl_blockc :: int
  cl_waits :: "ptr list option"
  cl_acclev :: nat

datatype server_event = OE_BASICS_NEW | OE_BASICS_DELETE | OE_BASICS_CHANGE_STATE | OE_STREAM_XRUN | OE_STREAM_CHANGE_VOLUME
datatype object_type = OT_CLIENT | OT_STREAM

datatype server_effect =
    Eff_Emit server_event c_int object_type "(int \<times> int) option"
  | Eff_Unsubscribe ptr
  | Eff_Close c_int
  | Eff_Shutdown_RD c_int
  | Eff_Codec_Ctl c_int int
  | Eff_Codec_Close c_int
  | Eff_Driver_Close c_int
  | Eff_Hwmixer_Close c_int
  | Eff_Vio_Close c_int
  | Eff_Quit
  | Eff_Cleanup_Listen
  | Eff_Listen c_int c_int
  | Eff_Beep_Vio c_int ptr
  | Eff_Command int c_int int

record server =
  sv_clients :: "roar_client_server option list"
  sv_streams :: "roar_stream_server option list"
  sv_thru_num :: int
  sv_recsource_id :: c_int
  sv_cur_clients :: int
  sv_sum_clients :: int
  sv_cur_streams :: int
  sv_sum_streams :: int
  sv_alive :: bool
  sv_terminate :: bool
  sv_no_listen :: bool
  sv_standby :: c_int
  sv_pos :: int
  sv_sa :: roar_audio_info
  sv_keyring :: "auth_key list"
  sv_left :: nat
  sv_heap :: heap
  sv_log :: "server_effect list"

text \<open>What the code outside of the model returns: setting the mmap mode and the blocking mode of a stream's VIO, a
  control call to the codec filter, setting the volume of a driver or hardware mixer, opening the codec filter of a
  stream (the filter's number, or nothing on failure), asking the VIO of a stream for its file handle.\<close>

record server_io =
  io_set_mmap :: "c_int \<Rightarrow> bool \<Rightarrow> c_int"
  io_nonblock :: "c_int \<Rightarrow> bool \<Rightarrow> c_int"
  io_codec_ctl :: "c_int \<Rightarrow> int \<Rightarrow> c_int"
  io_set_volume :: "c_int \<Rightarrow> c_int"
  io_codec_open :: "c_int \<Rightarrow> c_int option"
  io_read_fh :: "c_int \<Rightarrow> c_int option"

type_synonym server_result = "(c_int \<times> server) option"

subsection \<open>Access to the tables\<close>

definition stream_at :: "server \<Rightarrow> c_int \<Rightarrow> roar_stream_server option" where
  "stream_at sv sid = (if 0 \<le> sid \<and> sid < int (length (sv_streams sv)) then sv_streams sv ! nat sid else None)"

definition client_at :: "server \<Rightarrow> c_int \<Rightarrow> roar_client_server option" where
  "client_at sv sid = (if 0 \<le> sid \<and> sid < int (length (sv_clients sv)) then sv_clients sv ! nat sid else None)"

definition put_stream :: "server \<Rightarrow> c_int \<Rightarrow> roar_stream_server option \<Rightarrow> server" where
  "put_stream sv sid s = sv\<lparr>sv_streams := (sv_streams sv)[nat sid := s]\<rparr>"

definition put_client :: "server \<Rightarrow> c_int \<Rightarrow> roar_client_server option \<Rightarrow> server" where
  "put_client sv sid c = sv\<lparr>sv_clients := (sv_clients sv)[nat sid := c]\<rparr>"

definition log_effect :: "server_effect \<Rightarrow> server \<Rightarrow> server" where
  "log_effect e sv = sv\<lparr>sv_log := sv_log sv @ [e]\<rparr>"

text \<open>\<open>_CHECK_SID_RET\<close> and \<open>_CHECK_CID_RET\<close>: return \<open>ret\<close> or go on with the entry.\<close>

definition check_sid :: "server \<Rightarrow> c_int \<Rightarrow> 'a \<Rightarrow> (roar_stream_server \<Rightarrow> 'a option) \<Rightarrow> 'a option" where
  "check_sid sv sid ret k =
     (if sid < 0 \<or> sid > ROAR_STREAMS_MAX then Some ret
      else if sid \<ge> int (length (sv_streams sv)) then None
      else case sv_streams sv ! nat sid of None \<Rightarrow> Some ret | Some s \<Rightarrow> k s)"

definition check_cid :: "server \<Rightarrow> c_int \<Rightarrow> 'a \<Rightarrow> (roar_client_server \<Rightarrow> 'a option) \<Rightarrow> 'a option" where
  "check_cid sv sid ret k =
     (if sid < 0 \<or> sid > ROAR_CLIENTS_MAX then Some ret
      else if sid \<ge> int (length (sv_clients sv)) then None
      else case sv_clients sv ! nat sid of None \<Rightarrow> Some ret | Some c \<Rightarrow> k c)"

definition set_stream :: "(roar_stream_server \<Rightarrow> roar_stream_server) \<Rightarrow> server \<Rightarrow> c_int \<Rightarrow> server_result" where
  "set_stream f sv sid = check_sid sv sid (-1, sv) (\<lambda>s. Some (0, put_stream sv sid (Some (f s))))"

definition set_client :: "(roar_client_server \<Rightarrow> roar_client_server) \<Rightarrow> server \<Rightarrow> c_int \<Rightarrow> server_result" where
  "set_client f sv sid = check_cid sv sid (-1, sv) (\<lambda>c. Some (0, put_client sv sid (Some (f c))))"

subsection \<open>Reasoning about partial operations\<close>

text \<open>The operation is defined and its result satisfies \<open>P\<close>.\<close>

definition holds :: "'a option \<Rightarrow> ('a \<Rightarrow> bool) \<Rightarrow> bool" where
  "holds m P \<longleftrightarrow> (\<exists>x. m = Some x \<and> P x)"

lemma holds_Some [simp]: "holds (Some x) P \<longleftrightarrow> P x"
  by (simp add: holds_def)

lemma holds_None [simp]: "\<not> holds None P"
  by (simp add: holds_def)

lemma holds_bind [simp]: "holds (Option.bind m f) P \<longleftrightarrow> holds m (\<lambda>x. holds (f x) P)"
  by (cases m) simp_all

lemma holds_if [simp]: "holds (if b then m else n) P \<longleftrightarrow> (if b then holds m P else holds n P)"
  by simp

lemma holds_mono: "holds m P \<Longrightarrow> (\<And>x. P x \<Longrightarrow> Q x) \<Longrightarrow> holds m Q"
  by (auto simp: holds_def)

lemma holdsI: "m = Some x \<Longrightarrow> P x \<Longrightarrow> holds m P"
  by (simp add: holds_def)

lemma holdsE: "holds m P \<Longrightarrow> (\<And>x. m = Some x \<Longrightarrow> P x \<Longrightarrow> R) \<Longrightarrow> R"
  by (auto simp: holds_def)

lemma check_sid_at:
  assumes "length (sv_streams sv) = 64"
  shows "check_sid sv sid ret k = (if sid = 64 then None else case stream_at sv sid of None \<Rightarrow> Some ret | Some s \<Rightarrow> k s)"
  using assms by (auto simp: check_sid_def stream_at_def table_sizes)

lemma check_cid_at:
  assumes "length (sv_clients sv) = 64"
  shows "check_cid sv sid ret k = (if sid = 64 then None else case client_at sv sid of None \<Rightarrow> Some ret | Some c \<Rightarrow> k c)"
  using assms by (auto simp: check_cid_def client_at_def table_sizes)

subsection \<open>Updates of an entry\<close>

lemma stream_at_range: "stream_at sv i = Some s \<Longrightarrow> 0 \<le> i \<and> i < int (length (sv_streams sv)) \<and> sv_streams sv ! nat i = Some s"
  by (simp add: stream_at_def split: if_splits)

lemma client_at_range: "client_at sv i = Some c \<Longrightarrow> 0 \<le> i \<and> i < int (length (sv_clients sv)) \<and> sv_clients sv ! nat i = Some c"
  by (simp add: client_at_def split: if_splits)

lemma stream_at_put: "stream_at sv i = Some s \<Longrightarrow> stream_at (put_stream sv i x) j = (if j = i then x else stream_at sv j)"
  by (auto simp: stream_at_def put_stream_def nth_list_update split: if_splits)

lemma client_at_put: "client_at sv i = Some c \<Longrightarrow> client_at (put_client sv i x) j = (if j = i then x else client_at sv j)"
  by (auto simp: client_at_def put_client_def nth_list_update split: if_splits)

lemma put_stream_simps [simp]:
  "sv_clients (put_stream sv i x) = sv_clients sv" "sv_heap (put_stream sv i x) = sv_heap sv"
  "sv_streams (put_stream sv i x) = (sv_streams sv)[nat i := x]" "length (sv_streams (put_stream sv i x)) = length (sv_streams sv)"
  by (simp_all add: put_stream_def)

lemma put_client_simps [simp]:
  "sv_streams (put_client sv i x) = sv_streams sv" "sv_heap (put_client sv i x) = sv_heap sv"
  "sv_clients (put_client sv i x) = (sv_clients sv)[nat i := x]"
  by (simp_all add: put_client_def)

lemma log_effect_simps [simp]:
  "sv_streams (log_effect e sv) = sv_streams sv" "sv_clients (log_effect e sv) = sv_clients sv" "sv_heap (log_effect e sv) = sv_heap sv"
  by (simp_all add: log_effect_def)

text \<open>\<open>same_tables\<close>: only counters, globals and the log differ.\<close>

definition same_tables :: "server \<Rightarrow> server \<Rightarrow> bool" where
  "same_tables sv sv' \<longleftrightarrow> sv_streams sv' = sv_streams sv \<and> sv_clients sv' = sv_clients sv \<and> sv_heap sv' = sv_heap sv"

lemma same_tables_at: "same_tables sv sv' \<Longrightarrow> stream_at sv' = stream_at sv \<and> client_at sv' = client_at sv"
  by (simp add: same_tables_def stream_at_def client_at_def fun_eq_iff)

lemma stream_at_cong: "sv_streams sv' = sv_streams sv \<Longrightarrow> stream_at sv' = stream_at sv"
  by (simp add: stream_at_def fun_eq_iff)

lemma client_at_cong: "sv_clients sv' = sv_clients sv \<Longrightarrow> client_at sv' = client_at sv"
  by (simp add: client_at_def fun_eq_iff)

end
