(* ===== verification/Server_Fields.thy ===== *)
theory Server_Fields
  imports Server_State
begin

text \<open>
  Operations on one entry of the client or stream table, \<open>src/roard/clients.c\<close>, \<open>src/roard/streams.c\<close> and
  \<open>src/roard/meta.c\<close>: creation, the accessors, flags, the subsystem and direction of a stream, its buffers, level
  meters and meta data.
\<close>

subsection \<open>Clients\<close>

definition clients_init :: "server \<Rightarrow> c_int \<times> server" where
  "clients_init sv = (0, sv\<lparr>sv_clients := replicate (nat ROAR_CLIENTS_MAX) None\<rparr>)"

definition new_client :: roar_client_server where
  "new_client = \<lparr>cl_name = [], cl_pid = -1, cl_uid = -1, cl_gid = -1, cl_fh = -1, cl_proto = PROTO_ROARAUDIO,
     cl_byteorder = BYTEORDER_NETWORK, cl_nnode = \<lparr>nn_socktype = SOCKET_TYPE_UNKNOWN, nn_addr = replicate 16 0\<rparr>, cl_execed = -1,
     cl_streams = replicate ROAR_CLIENTS_MAX_STREAMS_PER_CLIENT (-1), cl_blockc = 0, cl_waits = None, cl_acclev = 0\<rparr>"

fun first_free :: "'a option list \<Rightarrow> nat option" where
  "first_free [] = None"
| "first_free (None # xs) = Some 0"
| "first_free (Some x # xs) = map_option Suc (first_free xs)"

text \<open>The record is cleared before the result of the allocation is tested.\<close>

definition clients_new :: "server \<Rightarrow> server_result" where
  "clients_new sv =
     (case first_free (sv_clients sv) of None \<Rightarrow> Some (-1, sv)
      | Some i \<Rightarrow>
        if sv_left sv = 0 then None
        else let sv = put_client sv (int i) (Some new_client);
                 sv = sv\<lparr>sv_left := sv_left sv - 1, sv_cur_clients := sv_cur_clients sv + 1, sv_sum_clients := sv_sum_clients sv + 1\<rparr>
             in Some (int i, log_effect (Eff_Emit OE_BASICS_NEW (int i) OT_CLIENT None) sv))"

definition clients_close :: "server \<Rightarrow> c_int \<Rightarrow> bool \<Rightarrow> server_result" where
  "clients_close sv cid nocheck_exec = check_cid sv cid (-1, sv) (\<lambda>c.
     if cl_fh c = -1 then Some (0, sv)
     else if nocheck_exec \<or> cl_execed c \<noteq> -1
     then Some (0, put_client (log_effect (Eff_Close (cl_fh c)) sv) cid (Some (c\<lparr>cl_fh := -1\<rparr>)))
     else Some (0, sv))"

definition clients_get :: "server \<Rightarrow> c_int \<Rightarrow> (c_int \<times> roar_client_server option) option" where
  "clients_get sv cid = check_cid sv cid (-1, None) (\<lambda>c. Some (0, Some c))"

text \<open>\<open>cred\<close> is what the system tells of the peer of \<open>fh\<close> (\<open>SO_PEERCRED\<close>), if it does.\<close>

definition clients_set_fh :: "(c_int \<Rightarrow> (c_int \<times> c_int \<times> c_int) option) \<Rightarrow> server \<Rightarrow> c_int \<Rightarrow> c_int \<Rightarrow> server_result" where
  "clients_set_fh cred sv cid fh = set_client (\<lambda>c.
     let c = c\<lparr>cl_fh := fh\<rparr> in
     case cred fh of None \<Rightarrow> c
     | Some (pid, uid, gid) \<Rightarrow> if pid \<noteq> 0 then c\<lparr>cl_pid := pid, cl_uid := uid, cl_gid := gid\<rparr> else c) sv cid"

definition clients_get_fh :: "server \<Rightarrow> c_int \<Rightarrow> c_int option" where
  "clients_get_fh sv cid = check_cid sv cid (-1) (\<lambda>c. Some (cl_fh c))"

definition clients_set_pid :: "server \<Rightarrow> c_int \<Rightarrow> c_int \<Rightarrow> server_result" where
  "clients_set_pid sv cid pid = set_client (cl_pid_update (\<lambda>_. pid)) sv cid"

definition clients_set_uid :: "server \<Rightarrow> c_int \<Rightarrow> c_int \<Rightarrow> server_result" where
  "clients_set_uid sv cid uid = set_client (cl_uid_update (\<lambda>_. uid)) sv cid"

definition clients_set_gid :: "server \<Rightarrow> c_int \<Rightarrow> c_int \<Rightarrow> server_result" where
  "clients_set_gid sv cid gid = set_client (cl_gid_update (\<lambda>_. gid)) sv cid"

definition clients_set_proto :: "server \<Rightarrow> c_int \<Rightarrow> c_int \<Rightarrow> server_result" where
  "clients_set_proto sv cid proto = set_client (\<lambda>c.
     c\<lparr>cl_proto := proto,
       cl_byteorder := (if List.member [PROTO_ROARAUDIO, PROTO_ESOUND, PROTO_RPLAY, PROTO_SIMPLE] proto
                        then BYTEORDER_NETWORK else BYTEORDER_UNKNOWN)\<rparr>) sv cid"

definition clients_block :: "server \<Rightarrow> c_int \<Rightarrow> bool \<Rightarrow> server_result" where
  "clients_block sv cid unblock = set_client (\<lambda>c.
     c\<lparr>cl_blockc := wrap_u 64 (if unblock then cl_blockc c - 1 else cl_blockc c + 1)\<rparr>) sv cid"

text \<open>Access levels are numbered in the order of the enumeration.\<close>

definition g_acclevs :: "(nat \<times> string) list" where
  "g_acclevs = [(0, ''none''), (1, ''idented''), (2, ''conctl''), (3, ''guest''), (4, ''user''), (5, ''pwruser''), (6, ''all'')]"

definition clients_str2acclev :: "string \<Rightarrow> nat option" where
  "clients_str2acclev s = map_option fst (find (\<lambda>(_, name). same_nocase name s) g_acclevs)"

definition clients_acclev2str :: "nat \<Rightarrow> string option" where
  "clients_acclev2str lev = map_option snd (find (\<lambda>(l, _). l = lev) g_acclevs)"

subsection \<open>Creation and accessors of streams\<close>

definition streams_init :: "server \<Rightarrow> c_int \<times> server" where
  "streams_init sv = (0, sv\<lparr>sv_streams := replicate (nat ROAR_STREAMS_MAX) None\<rparr>)"

definition new_stream :: "c_int \<Rightarrow> roar_stream_server" where
  "new_stream sid = \<lparr>st_id = sid, st_fh = -1, st_dir = 0, st_pos = 0, st_pos_rel_id = -1,
     st_info = \<lparr>rate = 0, bits = 0, channels = 0, codec = 0\<rparr>, ss_client = -1, ss_buffer = NULL, ss_output = NULL,
     ss_mixer = \<lparr>scale = 65535, rpg_mul = 1, rpg_div = 1, mixer = replicate 64 65535\<rparr>,
     ss_meta = replicate ROAR_META_MAX_PER_STREAM \<lparr>me_type = 0, me_key = [], me_value = None\<rparr>,
     ss_is_new = True, ss_codecfilter = -1, ss_codec_orgi = -1, ss_socktype = 0, ss_delay = 0, ss_pre_underruns = 0, ss_post_underruns = 0,
     ss_primary = False, ss_driver_id = -1, ss_flags = 0, ss_name = None, ss_ready = False, ss_outputbuffer = NULL,
     ss_state = STREAMSTATE_INITING, ss_prethru = NULL, ss_mixer_stream = -1,
     ss_chanmap = \<lparr>cm_in = replicate 64 0, cm_out = replicate 64 0, cm_map = replicate 64 0\<rparr>,
     ss_role = -1, ss_parent_stream = -1,
     ss_ltm = replicate MAX_LTM_WINDOWS_PER_STREAM \<lparr>lt_window = 0, lt_mt = 0, lt_refc = 0, lt_channels = 0\<rparr>, ss_mixerstream = NULL\<rparr>"

definition streams_new :: "server \<Rightarrow> c_int \<times> server" where
  "streams_new sv =
     (if sv_terminate sv \<and> \<not> sv_no_listen sv then (-1, sv)
      else case first_free (sv_streams sv) of None \<Rightarrow> (-1, sv)
        | Some i \<Rightarrow>
          if sv_left sv = 0 then (-1, sv)
          else let sv = put_stream sv (int i) (Some (new_stream (int i)));
                   sv = sv\<lparr>sv_left := sv_left sv - 1, sv_cur_streams := sv_cur_streams sv + 1, sv_sum_streams := sv_sum_streams sv + 1\<rparr>
               in (int i, log_effect (Eff_Emit OE_BASICS_NEW (int i) OT_STREAM None) sv))"

text \<open>\<open>_streams_change_state\<close>, for a stream that is in the table.\<close>

definition streams_change_state :: "server \<Rightarrow> c_int \<Rightarrow> c_int \<Rightarrow> server" where
  "streams_change_state sv sid new =
     (case stream_at sv sid of None \<Rightarrow> sv
      | Some s \<Rightarrow> log_effect (Eff_Emit OE_BASICS_CHANGE_STATE (st_id s) OT_STREAM (Some (ss_state s, new)))
                   (put_stream sv sid (Some (s\<lparr>ss_state := new\<rparr>))))"

definition streams_set_client :: "server \<Rightarrow> c_int \<Rightarrow> c_int \<Rightarrow> server_result" where
  "streams_set_client sv sid cid = set_stream (ss_client_update (\<lambda>_. cid)) sv sid"

definition streams_get_client :: "server \<Rightarrow> c_int \<Rightarrow> c_int option" where
  "streams_get_client sv sid = check_sid sv sid (-1) (\<lambda>s. Some (ss_client s))"

definition streams_get_dir :: "server \<Rightarrow> c_int \<Rightarrow> c_int option" where
  "streams_get_dir sv sid = check_sid sv sid (-1) (\<lambda>s. Some (st_dir s))"

definition streams_set_mixer_stream :: "server \<Rightarrow> c_int \<Rightarrow> c_int \<Rightarrow> server_result" where
  "streams_set_mixer_stream sv sid mx = set_stream (ss_mixer_stream_update (\<lambda>_. mx)) sv sid"

definition streams_get_mixer_stream :: "server \<Rightarrow> c_int \<Rightarrow> c_int option" where
  "streams_get_mixer_stream sv sid = check_sid sv sid (-1) (\<lambda>s. Some (ss_mixer_stream s))"

definition streams_set_role :: "server \<Rightarrow> c_int \<Rightarrow> c_int \<Rightarrow> server_result" where
  "streams_set_role sv sid role = set_stream (ss_role_update (\<lambda>_. role)) sv sid"

definition streams_get_fh :: "server \<Rightarrow> c_int \<Rightarrow> c_int option" where
  "streams_get_fh sv sid = check_sid sv sid (-1) (\<lambda>s. Some (st_fh s))"

definition streams_set_null_io :: "server \<Rightarrow> c_int \<Rightarrow> server_result" where
  "streams_set_null_io sv sid = set_stream (st_fh_update (\<lambda>_. -1)) sv sid"

definition streams_get :: "server \<Rightarrow> c_int \<Rightarrow> (c_int \<times> roar_stream_server option) option" where
  "streams_get sv sid = check_sid sv sid (-1, None) (\<lambda>s. Some (0, Some s))"

definition streams_set_socktype :: "server \<Rightarrow> c_int \<Rightarrow> c_int \<Rightarrow> server_result" where
  "streams_set_socktype sv sid t = set_stream (ss_socktype_update (\<lambda>_. t)) sv sid"

definition streams_get_socktype :: "server \<Rightarrow> c_int \<Rightarrow> c_int option" where
  "streams_get_socktype sv sid = check_sid sv sid (-1) (\<lambda>s. Some (ss_socktype s))"

definition streams_is_ready :: "server \<Rightarrow> c_int \<Rightarrow> c_int option" where
  "streams_is_ready sv sid = check_sid sv sid (-1) (\<lambda>s. Some (if ss_ready s then 1 else 0))"

definition streams_set_primary :: "server \<Rightarrow> c_int \<Rightarrow> bool \<Rightarrow> server_result" where
  "streams_set_primary sv sid prim = set_stream (ss_primary_update (\<lambda>_. prim)) sv sid"

definition streams_mark_primary :: "server \<Rightarrow> c_int \<Rightarrow> server_result" where
  "streams_mark_primary sv sid = streams_set_primary sv sid True"

text \<open>\<open>dup\<close> says whether \<open>strdup\<close> succeeds.\<close>

definition streams_set_name :: "server \<Rightarrow> c_int \<Rightarrow> string \<Rightarrow> bool \<Rightarrow> server_result" where
  "streams_set_name sv sid name dup = check_sid sv sid (-1, sv) (\<lambda>s.
     if \<not> dup then Some (-1, sv) else Some (0, put_stream sv sid (Some (s\<lparr>ss_name := Some name\<rparr>))))"

definition streams_get_name :: "server \<Rightarrow> c_int \<Rightarrow> string option option" where
  "streams_get_name sv sid = check_sid sv sid None (\<lambda>s. Some (ss_name s))"

definition streams_get_mixerstream :: "server \<Rightarrow> c_int \<Rightarrow> ptr option" where
  "streams_get_mixerstream sv sid = check_sid sv sid NULL (\<lambda>s. Some (ss_mixerstream s))"

definition streams_set_mixerstream :: "server \<Rightarrow> c_int \<Rightarrow> ptr \<Rightarrow> server_result" where
  "streams_set_mixerstream sv sid m = set_stream (ss_mixerstream_update (\<lambda>_. m)) sv sid"

subsection \<open>Flags\<close>

definition streams_get_flag :: "server \<Rightarrow> c_int \<Rightarrow> 32 word \<Rightarrow> c_int option" where
  "streams_get_flag sv sid flag = check_sid sv sid (-1) (\<lambda>s. Some (if ss_flags s AND flag \<noteq> 0 then 1 else 0))"

definition streams_set_rawflag :: "server \<Rightarrow> c_int \<Rightarrow> 32 word \<Rightarrow> server_result" where
  "streams_set_rawflag sv sid flag = set_stream (ss_flags_update (\<lambda>fl. fl OR flag)) sv sid"

definition streams_set_mmap :: "server_io \<Rightarrow> server \<Rightarrow> c_int \<Rightarrow> bool \<Rightarrow> c_int option" where
  "streams_set_mmap io sv sid reset = check_sid sv sid (-1) (\<lambda>s. Some (io_set_mmap io sid (\<not> reset)))"

text \<open>On the file handle, or on the VIO where there is none.\<close>

definition streams_set_sync :: "server_io \<Rightarrow> server \<Rightarrow> c_int \<Rightarrow> bool \<Rightarrow> c_int option" where
  "streams_set_sync io sv sid sync = check_sid sv sid (-1) (\<lambda>s.
     let r = io_nonblock io sid sync in Some (if st_fh s \<noteq> -1 then if r = -1 then -1 else 0 else r))"

definition streams_reset_flag :: "server_io \<Rightarrow> server \<Rightarrow> c_int \<Rightarrow> 32 word \<Rightarrow> server_result" where
  "streams_reset_flag io sv sid flag = check_sid sv sid (-1, sv) (\<lambda>s. do {
     let flag = (if ss_flags s AND ROAR_FLAG_IMMUTABLE \<noteq> 0 then (flag OR ROAR_FLAG_PRIMARY) - ROAR_FLAG_PRIMARY else flag);
     let sv = (if flag AND ROAR_FLAG_RECSOURCE \<noteq> 0 \<and> sv_recsource_id sv = sid then sv\<lparr>sv_recsource_id := -1\<rparr> else sv);
     mm \<leftarrow> (if flag AND ROAR_FLAG_MMAP \<noteq> 0 then streams_set_mmap io sv sid True else Some 0);
     let flag = (if mm = -1 then flag - ROAR_FLAG_MMAP else flag);
     (_, sv) \<leftarrow> (if flag AND ROAR_FLAG_PRIMARY \<noteq> 0 then streams_set_primary sv sid False else Some (0, sv));
     let flag = (if flag AND ROAR_FLAG_PRIMARY \<noteq> 0 then flag - ROAR_FLAG_PRIMARY else flag);
     dir \<leftarrow> streams_get_dir sv sid;
     if flag AND ROAR_FLAG_SYNC \<noteq> 0 \<and> dir = ROAR_DIR_FILTER then Some (-1, sv)
     else do {
       _ \<leftarrow> (if flag AND ROAR_FLAG_SYNC \<noteq> 0 then streams_set_sync io sv sid False else Some 0);
       set_stream (ss_flags_update (\<lambda>fl. (fl OR flag) - flag)) sv sid
     }
   })"

subsection \<open>Subsystem, direction and channel map\<close>

definition SUBSYS_NONE :: int where "SUBSYS_NONE = 0"
definition SUBSYS_WAVEFORM :: int where "SUBSYS_WAVEFORM = 1"
definition SUBSYS_MIDI :: int where "SUBSYS_MIDI = 2"
definition SUBSYS_LIGHT :: int where "SUBSYS_LIGHT = 8"
definition SUBSYS_RAW :: int where "SUBSYS_RAW = 16"
definition SUBSYS_COMPLEX :: int where "SUBSYS_COMPLEX = 32"

definition STREAM_DIR_NONE :: int where "STREAM_DIR_NONE = 0"
definition STREAM_DIR_IN :: int where "STREAM_DIR_IN = 1"
definition STREAM_DIR_OUT :: int where "STREAM_DIR_OUT = 2"
definition STREAM_DIR_BIDIR :: int where "STREAM_DIR_BIDIR = 3"

text \<open>The entry that the range check lets through, for the two functions that call themselves: the outer \<open>None\<close> is
  the access behind the table, the inner one an unused entry or a number out of range. A stream of direction
  \<open>THRU\<close> answers with the stream it is attached to.\<close>

definition sid_entry :: "server \<Rightarrow> c_int \<Rightarrow> roar_stream_server option option" where
  "sid_entry sv sid = check_sid sv sid None (\<lambda>s. Some (Some s))"

definition subsys_of_dir :: "c_int \<Rightarrow> c_int" where
  "subsys_of_dir dir =
     (if List.member [ROAR_DIR_PLAY, ROAR_DIR_RECORD, ROAR_DIR_MONITOR, ROAR_DIR_FILTER, ROAR_DIR_OUTPUT, ROAR_DIR_BIDIR] dir
      then SUBSYS_WAVEFORM
      else if dir = ROAR_DIR_MIDI_IN \<or> dir = ROAR_DIR_MIDI_OUT then SUBSYS_MIDI
      else if dir = ROAR_DIR_LIGHT_IN \<or> dir = ROAR_DIR_LIGHT_OUT then SUBSYS_LIGHT
      else if dir = ROAR_DIR_RAW_IN \<or> dir = ROAR_DIR_RAW_OUT then SUBSYS_RAW
      else if dir = ROAR_DIR_COMPLEX_IN \<or> dir = ROAR_DIR_COMPLEX_OUT then SUBSYS_COMPLEX
      else if dir = ROAR_DIR_MIXING then SUBSYS_NONE
      else -1)"

definition ssdir_of_dir :: "c_int \<Rightarrow> c_int" where
  "ssdir_of_dir dir =
     (if List.member [ROAR_DIR_PLAY, ROAR_DIR_MIDI_IN, ROAR_DIR_LIGHT_IN, ROAR_DIR_RAW_IN, ROAR_DIR_COMPLEX_IN] dir
      then STREAM_DIR_IN
      else if List.member [ROAR_DIR_RECORD, ROAR_DIR_MONITOR, ROAR_DIR_OUTPUT, ROAR_DIR_MIDI_OUT, ROAR_DIR_LIGHT_OUT,
                           ROAR_DIR_RAW_OUT, ROAR_DIR_COMPLEX_OUT] dir then STREAM_DIR_OUT
      else if dir = ROAR_DIR_MIXING then STREAM_DIR_NONE
      else if dir = ROAR_DIR_FILTER \<or> dir = ROAR_DIR_BIDIR then STREAM_DIR_BIDIR
      else -1)"

partial_function (option) streams_get_subsys :: "server \<Rightarrow> c_int \<Rightarrow> c_int option" where
  "streams_get_subsys sv sid = do {
     e \<leftarrow> sid_entry sv sid;
     case e of None \<Rightarrow> Some (-1)
     | Some ss \<Rightarrow> if st_dir ss = ROAR_DIR_THRU then streams_get_subsys sv (st_pos_rel_id ss) else Some (subsys_of_dir (st_dir ss))
   }"

partial_function (option) streams_get_ssdir :: "server \<Rightarrow> c_int \<Rightarrow> c_int option" where
  "streams_get_ssdir sv sid = do {
     e \<leftarrow> sid_entry sv sid;
     case e of None \<Rightarrow> Some (-1)
     | Some ss \<Rightarrow> if st_dir ss = ROAR_DIR_THRU then streams_get_ssdir sv (st_pos_rel_id ss) else Some (ssdir_of_dir (st_dir ss))
   }"

text \<open>\<open>mp\<close> is the channel list the client sent, if there is one, with its length.\<close>

definition streams_set_map :: "server \<Rightarrow> c_int \<Rightarrow> (int list) option \<Rightarrow> nat \<Rightarrow> server_result" where
  "streams_set_map sv sid mp len = check_sid sv sid (-1, sv) (\<lambda>ss.
     if mp \<noteq> None \<and> channels (st_info ss) \<noteq> int len then Some (-1, sv)
     else do {
       ssdir \<leftarrow> streams_get_ssdir sv sid;
       let lst = (case mp of None \<Rightarrow> replicate 64 0 | Some l \<Rightarrow> take len l @ replicate (64 - len) 0);
       if ssdir = STREAM_DIR_IN \<or> ssdir = STREAM_DIR_NONE then
         do { let (_, cm) = roardsp_chanmap_calc (Some ((ss_chanmap ss)\<lparr>cm_in := lst\<rparr>)) CHANMAP_MAP False;
              Some (0, put_stream sv sid (Some (ss\<lparr>ss_chanmap := the cm\<rparr>))) }
       else if ssdir = STREAM_DIR_OUT then
         do { let (_, cm) = roardsp_chanmap_calc (Some ((ss_chanmap ss)\<lparr>cm_out := lst\<rparr>)) CHANMAP_MAP False;
              Some (0, put_stream sv sid (Some (ss\<lparr>ss_chanmap := the cm\<rparr>))) }
       else Some (-1, sv)
     })"

text \<open>Only the codec filter component answers a control call.\<close>

definition STREAM_CTL_COMPMASK :: "32 word" where "STREAM_CTL_COMPMASK = 0xFF000000"
definition STREAM_CTL_COMP_CF :: "32 word" where "STREAM_CTL_COMP_CF = 0x01000000"

definition streams_ctl :: "server_io \<Rightarrow> server \<Rightarrow> c_int \<Rightarrow> 32 word \<Rightarrow> server_result" where
  "streams_ctl io sv sid cmd = check_sid sv sid (-1, sv) (\<lambda>ss.
     let comp = cmd AND STREAM_CTL_COMPMASK; cmd = cmd AND NOT comp in
     if comp = STREAM_CTL_COMP_CF
     then Some (io_codec_ctl io sid (uint cmd), log_effect (Eff_Codec_Ctl sid (uint cmd)) sv)
     else Some (-1, sv))"

subsection \<open>Level meters\<close>

definition LTM_WIN_WORKBLOCK :: int where "LTM_WIN_WORKBLOCK = 0"
definition LTM_MT_RMS :: "32 word" where "LTM_MT_RMS = 0x20"
definition LTM_SST_NOOP :: int where "LTM_SST_NOOP = 0"
definition LTM_SST_REGISTER :: int where "LTM_SST_REGISTER = 1"
definition LTM_SST_UNREGISTER :: int where "LTM_SST_UNREGISTER = 2"

fun ltm_join :: "c_int \<Rightarrow> 32 word \<Rightarrow> roar_stream_ltm list \<Rightarrow> roar_stream_ltm list option" where
  "ltm_join window mt [] = None"
| "ltm_join window mt (l # ls) =
     (if lt_refc l \<noteq> 0 \<and> lt_window l = window then Some (l\<lparr>lt_refc := lt_refc l + 1, lt_mt := lt_mt l OR mt\<rparr> # ls)
      else map_option ((#) l) (ltm_join window mt ls))"

text \<open>\<open>ok\<close> says whether the block for the values can be allocated; without it the entry stays unused.\<close>

fun ltm_new :: "c_int \<Rightarrow> 32 word \<Rightarrow> int \<Rightarrow> bool \<Rightarrow> roar_stream_ltm list \<Rightarrow> c_int \<times> roar_stream_ltm list" where
  "ltm_new window mt chans ok [] = (-1, [])"
| "ltm_new window mt chans ok (l # ls) =
     (if lt_refc l = 0
      then (if ok then 0 else -1, \<lparr>lt_window = window, lt_mt = mt, lt_refc = (if ok then 1 else 0), lt_channels = chans\<rparr> # ls)
      else let (r, ls') = ltm_new window mt chans ok ls in (r, l # ls'))"

text \<open>The walk goes on behind an entry that stays in use, and then returns -1.\<close>

fun ltm_leave :: "c_int \<Rightarrow> roar_stream_ltm list \<Rightarrow> c_int \<times> roar_stream_ltm list" where
  "ltm_leave window [] = (-1, [])"
| "ltm_leave window (l # ls) =
     (if lt_refc l \<noteq> 0 \<and> lt_window l = window
      then if lt_refc l = 1 then (0, l\<lparr>lt_refc := 0\<rparr> # ls)
           else let (r, ls') = ltm_leave window ls in (r, l\<lparr>lt_refc := lt_refc l - 1\<rparr> # ls')
      else let (r, ls') = ltm_leave window ls in (r, l # ls'))"

definition streams_ltm_ctl :: "bool \<Rightarrow> server \<Rightarrow> c_int \<Rightarrow> 32 word \<Rightarrow> c_int \<Rightarrow> c_int \<Rightarrow> server_result" where
  "streams_ltm_ctl alloc sv sid mt window cmd = check_sid sv sid (-1, sv) (\<lambda>ss.
     if window \<noteq> LTM_WIN_WORKBLOCK then Some (-1, sv)
     else if (mt OR LTM_MT_RMS) - LTM_MT_RMS \<noteq> 0 then Some (-1, sv)
     else if cmd = LTM_SST_NOOP then Some (0, sv)
     else if cmd = LTM_SST_REGISTER then
       (case ltm_join window mt (ss_ltm ss) of
          Some ls \<Rightarrow> Some (0, put_stream sv sid (Some (ss\<lparr>ss_ltm := ls\<rparr>)))
        | None \<Rightarrow> let (r, ls) = ltm_new window mt (channels (st_info ss)) alloc (ss_ltm ss)
                  in Some (r, put_stream sv sid (Some (ss\<lparr>ss_ltm := ls\<rparr>))))
     else if cmd = LTM_SST_UNREGISTER then
       let (r, ls) = ltm_leave window (ss_ltm ss) in Some (r, put_stream sv sid (Some (ss\<lparr>ss_ltm := ls\<rparr>)))
     else Some (-1, sv))"

definition streams_ltm_get :: "server \<Rightarrow> c_int \<Rightarrow> 32 word \<Rightarrow> c_int \<Rightarrow> roar_stream_ltm option option" where
  "streams_ltm_get sv sid mt window = check_sid sv sid None (\<lambda>ss.
     Some (case find (\<lambda>l. lt_refc l \<noteq> 0 \<and> lt_window l = window) (ss_ltm ss) of None \<Rightarrow> None
           | Some l \<Rightarrow> if lt_mt l AND mt \<noteq> mt then None else Some l))"

subsection \<open>Buffers of a stream\<close>

definition stream_add_buffer :: "server \<Rightarrow> c_int \<Rightarrow> ptr \<Rightarrow> server_result" where
  "stream_add_buffer sv sid buf = check_sid sv sid (-1, sv) (\<lambda>s.
     if ss_buffer s = NULL then Some (0, put_stream sv sid (Some (s\<lparr>ss_buffer := buf\<rparr>)))
     else do { (r, h) \<leftarrow> roar_buffer_add (sv_heap sv) (ss_buffer s) buf; Some (r, sv\<lparr>sv_heap := h\<rparr>) })"

text \<open>The result has the new \<open>*len\<close>.\<close>

definition stream_shift_out_buffer :: "server \<Rightarrow> c_int \<Rightarrow> ptr \<Rightarrow> int \<Rightarrow> (c_int \<times> int \<times> server) option" where
  "stream_shift_out_buffer sv sid dat len = check_sid sv sid (-1, len, sv) (\<lambda>s.
     if ss_buffer s = NULL then Some (-1, len, sv)
     else do {
       (r, buf, n, h) \<leftarrow> roar_buffer_shift_out (sv_heap sv) (Some (ss_buffer s)) dat (Some len);
       Some (r, the n, put_stream (sv\<lparr>sv_heap := h\<rparr>) sid (Some (s\<lparr>ss_buffer := the buf\<rparr>)))
     })"

definition stream_shift_buffer :: "server \<Rightarrow> c_int \<Rightarrow> (c_int \<times> ptr \<times> server) option" where
  "stream_shift_buffer sv sid = check_sid sv sid (-1, NULL, sv) (\<lambda>s.
     if ss_buffer s = NULL then Some (0, NULL, sv)
     else do {
       (_, nxt) \<leftarrow> roar_buffer_get_next (sv_heap sv) (ss_buffer s);
       Some (0, ss_buffer s, put_stream sv sid (Some (s\<lparr>ss_buffer := the nxt\<rparr>)))
     })"

definition stream_unshift_buffer :: "server \<Rightarrow> c_int \<Rightarrow> ptr \<Rightarrow> server_result" where
  "stream_unshift_buffer sv sid buf = check_sid sv sid (-1, sv) (\<lambda>s.
     if ss_buffer s = NULL then Some (0, put_stream sv sid (Some (s\<lparr>ss_buffer := buf\<rparr>)))
     else do {
       b \<leftarrow> bh_bufs (sv_heap sv) buf;
       (_, h) \<leftarrow> roar_buffer_add (node_set (sv_heap sv) buf (b\<lparr>rb_next := NULL\<rparr>)) buf (ss_buffer s);
       Some (0, put_stream (sv\<lparr>sv_heap := h\<rparr>) sid (Some (s\<lparr>ss_buffer := buf\<rparr>)))
     })"

text \<open>The block for the mixed output of a stream is allocated once; the result has its address.\<close>

definition streams_get_outputbuffer :: "server \<Rightarrow> c_int \<Rightarrow> int \<Rightarrow> (c_int \<times> ptr option \<times> server) option" where
  "streams_get_outputbuffer sv sid siz = check_sid sv sid (-1, None, sv) (\<lambda>ss.
     if ss_output ss \<noteq> NULL then Some (0, Some (ss_output ss), sv)
     else let (p, h) = mm_malloc (sv_heap sv) siz;
              sv = put_stream (sv\<lparr>sv_heap := h\<rparr>) sid (Some (ss\<lparr>ss_output := p\<rparr>))
          in if p = NULL then Some (-1, None, sv) else Some (0, Some p, sv))"

text \<open>The result has \<open>*buf\<close>. The buffer in place is used when it is long enough, and shortened when it is longer.\<close>

definition outputbuffer_reuse :: "heap \<Rightarrow> ptr \<Rightarrow> int \<Rightarrow> (bool \<times> heap) option" where
  "outputbuffer_reuse h out len = do {
     (r, n) \<leftarrow> roar_buffer_get_len h out;
     if r = 0 \<and> n = Some len then Some (True, h)
     else if r = 0 \<and> the n > len then do { (r, h) \<leftarrow> roar_buffer_set_len h out len; Some (r = 0, h) }
     else Some (False, h)
   }"

definition outputbuffer_renew :: "server \<Rightarrow> c_int \<Rightarrow> roar_stream_server \<Rightarrow> int \<Rightarrow> (c_int \<times> ptr \<times> server) option" where
  "outputbuffer_renew sv sid ss len = do {
     (r, new, h) \<leftarrow> roar_buffer_new (sv_heap sv) True len;
     let out = (case new of None \<Rightarrow> ss_outputbuffer ss | Some p \<Rightarrow> p);
     let sv = put_stream (sv\<lparr>sv_heap := h\<rparr>) sid (Some (ss\<lparr>ss_outputbuffer := out\<rparr>));
     if r = -1 then Some (-1, NULL, sv)
     else do {
       (r, dat) \<leftarrow> roar_buffer_get_data h out;
       if r = -1 then do {
         (_, h) \<leftarrow> roar_buffer_free h out;
         Some (-1, NULL, put_stream (sv\<lparr>sv_heap := h\<rparr>) sid (Some (ss\<lparr>ss_outputbuffer := NULL\<rparr>)))
       }
       else Some (0, out, sv\<lparr>sv_heap := h\<lparr>bh_mem := memset (bh_mem h) (the dat) 0 len\<rparr>\<rparr>)
     }
   }"

definition stream_outputbuffer_request :: "server \<Rightarrow> c_int \<Rightarrow> int \<Rightarrow> (c_int \<times> ptr \<times> server) option" where
  "stream_outputbuffer_request sv sid len = check_sid sv sid (-1, NULL, sv) (\<lambda>ss.
     if ss_outputbuffer ss = NULL then outputbuffer_renew sv sid ss len
     else do {
       (ok, h) \<leftarrow> outputbuffer_reuse (sv_heap sv) (ss_outputbuffer ss) len;
       if ok then Some (0, ss_outputbuffer ss, sv\<lparr>sv_heap := h\<rparr>)
       else do {
         (r, h) \<leftarrow> roar_buffer_free h (ss_outputbuffer ss);
         let ss = ss\<lparr>ss_outputbuffer := NULL\<rparr>;
         let sv = put_stream (sv\<lparr>sv_heap := h\<rparr>) sid (Some ss);
         if r = -1 then Some (-1, NULL, sv) else outputbuffer_renew sv sid ss len
       }
     })"

definition stream_outputbuffer_destroy :: "server \<Rightarrow> c_int \<Rightarrow> server_result" where
  "stream_outputbuffer_destroy sv sid = check_sid sv sid (-1, sv) (\<lambda>ss.
     if ss_outputbuffer ss \<noteq> NULL then do {
       (r, h) \<leftarrow> roar_buffer_free (sv_heap sv) (ss_outputbuffer ss);
       Some (r, put_stream (sv\<lparr>sv_heap := h\<rparr>) sid (Some (ss\<lparr>ss_outputbuffer := NULL\<rparr>)))
     } else Some (0, sv))"

definition stream_prethru_add :: "server \<Rightarrow> c_int \<Rightarrow> ptr \<Rightarrow> server_result" where
  "stream_prethru_add sv sid buf = check_sid sv sid (-1, sv) (\<lambda>ss.
     if ss_prethru ss = NULL then Some (0, put_stream sv sid (Some (ss\<lparr>ss_prethru := buf\<rparr>)))
     else do {
       (r, h) \<leftarrow> roar_buffer_add (sv_heap sv) (ss_prethru ss) buf;
       Some (if r = -1 then -1 else 0, sv\<lparr>sv_heap := h\<rparr>)
     })"

text \<open>The result has the address of the data of the new buffer.\<close>

definition stream_prethru_add_data :: "server \<Rightarrow> c_int \<Rightarrow> int \<Rightarrow> (c_int \<times> ptr option \<times> server) option" where
  "stream_prethru_add_data sv sid len = check_sid sv sid (-1, None, sv) (\<lambda>_. do {
     (r, new, h) \<leftarrow> roar_buffer_new (sv_heap sv) True len;
     let sv = sv\<lparr>sv_heap := h\<rparr>;
     if r = -1 then Some (-1, None, sv)
     else do {
       (r, dat) \<leftarrow> roar_buffer_get_data h (the new);
       if r = -1 then do { (_, h) \<leftarrow> roar_buffer_free h (the new); Some (-1, dat, sv\<lparr>sv_heap := h\<rparr>) }
       else do {
         (r, sv) \<leftarrow> stream_prethru_add sv sid (the new);
         if r = -1 then do { (_, h) \<leftarrow> roar_buffer_free (sv_heap sv) (the new); Some (-1, dat, sv\<lparr>sv_heap := h\<rparr>) }
         else Some (0, dat, sv)
       }
     }
   })"

definition stream_prethru_destroy :: "server \<Rightarrow> c_int \<Rightarrow> server_result" where
  "stream_prethru_destroy sv sid = check_sid sv sid (-1, sv) (\<lambda>ss.
     if ss_prethru ss \<noteq> NULL then do {
       (r, h) \<leftarrow> roar_buffer_free (sv_heap sv) (ss_prethru ss);
       Some (r, put_stream (sv\<lparr>sv_heap := h\<rparr>) sid (Some (ss\<lparr>ss_prethru := NULL\<rparr>)))
     } else Some (0, sv))"

end
