(* ===== verification/Server_Meta.thy ===== *)
theory Server_Meta
  imports Server_Fields
begin

text \<open>
  Meta data of streams, \<open>src/roard/meta.c\<close>: a stream has \<open>ROAR_META_MAX_PER_STREAM\<close> entries of type, key and value.
  These operations, but for \<open>stream_meta_clear\<close>, read the stream table without a range check. A key is an array of
  \<open>ROAR_META_MAX_NAMELEN\<close> characters filled by \<open>strncpy\<close>; \<open>dup\<close> says whether \<open>strdup\<close> succeeds.
\<close>

definition META_TYPE_NONE :: int where "META_TYPE_NONE = 0"
definition META_MAX_NAMELEN :: nat where "META_MAX_NAMELEN = 32"

definition table_entry :: "server \<Rightarrow> c_int \<Rightarrow> roar_stream_server option option" where
  "table_entry sv sid = (if 0 \<le> sid \<and> sid < int (length (sv_streams sv)) then Some (sv_streams sv ! nat sid) else None)"

fun meta_fill :: "c_int \<Rightarrow> string option \<Rightarrow> string \<Rightarrow> bool \<Rightarrow> roar_meta list \<Rightarrow> c_int \<times> roar_meta list" where
  "meta_fill ty name val dup [] = (-1, [])"
| "meta_fill ty name val dup (e # es) =
     (if me_type e = META_TYPE_NONE
      then if dup then (0, \<lparr>me_type = ty, me_key = (case name of None \<Rightarrow> [] | Some n \<Rightarrow> take META_MAX_NAMELEN n), me_value = Some val\<rparr> # es)
           else (-1, e\<lparr>me_key := []\<rparr> # es)
      else let (r, es') = meta_fill ty name val dup es in (r, e # es'))"

definition stream_meta_add :: "bool \<Rightarrow> server \<Rightarrow> c_int \<Rightarrow> c_int \<Rightarrow> string option \<Rightarrow> string \<Rightarrow> server_result" where
  "stream_meta_add dup sv sid ty name val = do {
     e \<leftarrow> table_entry sv sid;
     case e of None \<Rightarrow> Some (-1, sv)
     | Some s \<Rightarrow> let (r, me) = meta_fill ty name val dup (ss_meta s)
                 in Some (r, put_stream sv sid (Some (s\<lparr>ss_meta := me\<rparr>)))
   }"

definition meta_drop :: "c_int \<Rightarrow> roar_meta \<Rightarrow> roar_meta" where
  "meta_drop ty e = (if me_type e = ty then e\<lparr>me_type := META_TYPE_NONE, me_value := None\<rparr> else e)"

definition stream_meta_set :: "bool \<Rightarrow> server \<Rightarrow> c_int \<Rightarrow> c_int \<Rightarrow> string option \<Rightarrow> string \<Rightarrow> server_result" where
  "stream_meta_set dup sv sid ty name val = do {
     e \<leftarrow> table_entry sv sid;
     case e of None \<Rightarrow> Some (-1, sv)
     | Some s \<Rightarrow> stream_meta_add dup (put_stream sv sid (Some (s\<lparr>ss_meta := map (meta_drop ty) (ss_meta s)\<rparr>))) sid ty name val
   }"

text \<open>\<open>len\<close> is the size of the buffer for the value, with its terminating null character.\<close>

fun meta_find :: "c_int \<Rightarrow> string option \<Rightarrow> nat \<Rightarrow> roar_meta list \<Rightarrow> c_int \<times> string option" where
  "meta_find ty name len [] = (-1, None)"
| "meta_find ty name len (e # es) =
     (if me_type e \<noteq> ty then meta_find ty name len es
      else if (case name of None \<Rightarrow> False | Some n \<Rightarrow> me_key e \<noteq> take META_MAX_NAMELEN n) then meta_find ty name len es
      else case me_value e of None \<Rightarrow> (-1, None)
        | Some v \<Rightarrow> if 0 < len \<and> len - 1 < length v then (-1, None) else (0, Some v))"

definition stream_meta_get :: "server \<Rightarrow> c_int \<Rightarrow> c_int \<Rightarrow> string option \<Rightarrow> nat \<Rightarrow> (c_int \<times> string option) option" where
  "stream_meta_get sv sid ty name len = do {
     e \<leftarrow> table_entry sv sid;
     Some (case e of None \<Rightarrow> (-1, None) | Some s \<Rightarrow> meta_find ty name len (ss_meta s))
   }"

fun meta_types :: "roar_meta list \<Rightarrow> c_int list \<Rightarrow> c_int list" where
  "meta_types [] types = types"
| "meta_types (e # es) types = meta_types es (if List.member types (me_type e) then types else types @ [me_type e])"

text \<open>The result has the types stored; the type of an unused entry counts as one.\<close>

definition stream_meta_list :: "server \<Rightarrow> c_int \<Rightarrow> nat \<Rightarrow> (c_int \<times> c_int list) option" where
  "stream_meta_list sv sid len = do {
     e \<leftarrow> table_entry sv sid;
     Some (case e of None \<Rightarrow> (-1, [])
       | Some s \<Rightarrow> if len < ROAR_META_MAX_PER_STREAM then (-1, [])
                   else let types = meta_types (ss_meta s) [] in (int (length types), types))
   }"

definition stream_meta_clear :: "server \<Rightarrow> c_int \<Rightarrow> server_result" where
  "stream_meta_clear sv sid =
     (if sid < 0 \<or> sid > ROAR_STREAMS_MAX then Some (-1, sv)
      else do {
        e \<leftarrow> table_entry sv sid;
        case e of None \<Rightarrow> Some (-1, sv)
        | Some s \<Rightarrow> Some (0, put_stream sv sid (Some (s\<lparr>ss_meta :=
            map (\<lambda>_. \<lparr>me_type = META_TYPE_NONE, me_key = [], me_value = None\<rparr>) (ss_meta s)\<rparr>)))
      })"

subsection \<open>Collecting the meta data of the inputs\<close>

definition meta_input_dir :: "c_int \<Rightarrow> bool" where
  "meta_input_dir dir \<longleftrightarrow> List.member [ROAR_DIR_PLAY, ROAR_DIR_META, ROAR_DIR_FILTER, ROAR_DIR_BIDIR] dir"

definition meta_output_dir :: "c_int \<Rightarrow> bool" where
  "meta_output_dir dir \<longleftrightarrow> List.member [ROAR_DIR_MONITOR, ROAR_DIR_FILTER, ROAR_DIR_META, ROAR_DIR_BIDIR, ROAR_DIR_OUTPUT] dir"

text \<open>The entries of the input stream are read while they are copied: index \<open>k\<close> of its current list.\<close>

fun meta_copy :: "bool \<Rightarrow> c_int \<Rightarrow> c_int \<Rightarrow> nat list \<Rightarrow> server \<Rightarrow> server option" where
  "meta_copy dup ci co [] sv = Some sv"
| "meta_copy dup ci co (k # ks) sv = do {
     s \<leftarrow> stream_at sv ci;
     let e = ss_meta s ! k;
     if me_type e = META_TYPE_NONE then meta_copy dup ci co ks sv
     else case me_value e of None \<Rightarrow> None
       | Some v \<Rightarrow> do { (_, sv) \<leftarrow> stream_meta_add dup sv co (me_type e) (Some (me_key e)) v; meta_copy dup ci co ks sv }
   }"

fun meta_inputs :: "bool \<Rightarrow> c_int \<Rightarrow> nat list \<Rightarrow> server \<Rightarrow> server option" where
  "meta_inputs dup co [] sv = Some sv"
| "meta_inputs dup co (ci # cis) sv =
     (case stream_at sv (int ci) of None \<Rightarrow> meta_inputs dup co cis sv
      | Some s \<Rightarrow>
        if \<not> meta_input_dir (st_dir s) \<or> ss_flags s AND ROAR_FLAG_META = 0 then meta_inputs dup co cis sv
        else do { sv \<leftarrow> meta_copy dup (int ci) co [0..<ROAR_META_MAX_PER_STREAM] sv; meta_inputs dup co cis sv })"

definition CODECFILTER_CTL_META_UPDATE :: "32 word" where "CODECFILTER_CTL_META_UPDATE = 0x01001001"

fun meta_outputs :: "server_io \<Rightarrow> bool \<Rightarrow> nat list \<Rightarrow> server \<Rightarrow> server option" where
  "meta_outputs io dup [] sv = Some sv"
| "meta_outputs io dup (co # cos) sv =
     (case stream_at sv (int co) of None \<Rightarrow> meta_outputs io dup cos sv
      | Some s \<Rightarrow>
        if \<not> meta_output_dir (st_dir s) \<or> ss_flags s AND ROAR_FLAG_META = 0 then meta_outputs io dup cos sv
        else do {
          (_, sv) \<leftarrow> stream_meta_clear sv (int co);
          sv \<leftarrow> meta_inputs dup (int co) [0..<nat ROAR_STREAMS_MAX] sv;
          (_, sv) \<leftarrow> streams_ctl io sv (int co) CODECFILTER_CTL_META_UPDATE;
          meta_outputs io dup cos sv
        })"

definition stream_meta_finalize :: "server_io \<Rightarrow> bool \<Rightarrow> server \<Rightarrow> c_int \<Rightarrow> server_result" where
  "stream_meta_finalize io dup sv sid = do {
     fl \<leftarrow> streams_get_flag sv sid ROAR_FLAG_META;
     if fl \<noteq> 1 then Some (0, sv)
     else do {
       s \<leftarrow> stream_at sv sid;
       if \<not> meta_input_dir (st_dir s) then Some (0, sv)
       else do { sv \<leftarrow> meta_outputs io dup [0..<nat ROAR_STREAMS_MAX] sv; Some (0, sv) }
     }
   }"

end
