(* ===== verification/Buffer_Owned.thy ===== *)
theory Buffer_Owned
  imports Roar_Buffer "HOL-Library.Multiset"
begin

text \<open>
  Ownership of heap memory: a list of chain heads and a list of data blocks that do not share a buffer or a block.
  Releasing one of them leaves the others as they are. A null pointer owns nothing.
\<close>

definition owned :: "heap \<Rightarrow> ptr list \<Rightarrow> ptr list \<Rightarrow> bool" where
  "owned h ps os \<longleftrightarrow> (\<exists>ass. list_all2 (chain h) ps ass \<and> chain_ok h (concat ass) \<and>
     (\<forall>q \<in> set os. q \<noteq> NULL \<longrightarrow> bh_blocks h q \<noteq> None \<and> q \<notin> (\<lambda>a. rb_data (node h a)) ` set (concat ass))) \<and>
     distinct (filter (\<lambda>q. q \<noteq> NULL) os)"

lemma chain_ok_perm:
  assumes "mset as = mset bs" "chain_ok h as"
  shows "chain_ok h bs"
proof -
  have "mset (map f bs) = mset (map f as)" for f :: "ptr \<Rightarrow> ptr" using assms(1) by simp
  then have "distinct (map (\<lambda>a. rb_data (node h a)) bs)" using assms(2) by (metis chain_ok_def mset_eq_imp_distinct_iff)
  moreover have "set as = set bs" "distinct bs" using assms by (auto simp: chain_ok_def dest: mset_eq_setD mset_eq_imp_distinct_iff)
  ultimately show ?thesis using assms(2) by (simp add: chain_ok_def)
qed

lemma mset_concat_perm:
  assumes "mset ass = mset bss"
  shows "mset (concat ass) = mset (concat bss)"
proof -
  have "sum_list (map mset ass) = sum_mset (mset (map mset ass))" "sum_list (map mset bss) = sum_mset (mset (map mset bss))"
    by (simp_all only: sum_mset_sum_list)
  then show ?thesis using assms by (simp add: mset_concat)
qed

lemma owned_perm:
  assumes "owned h ps os" "mset ps' = mset ps" "mset os' = mset os"
  shows "owned h ps' os'"
proof -
  obtain ass where a: "list_all2 (chain h) ps ass" "chain_ok h (concat ass)"
    "\<forall>q \<in> set os. q \<noteq> NULL \<longrightarrow> bh_blocks h q \<noteq> None \<and> q \<notin> (\<lambda>a. rb_data (node h a)) ` set (concat ass)"
    "distinct (filter (\<lambda>q. q \<noteq> NULL) os)" using assms(1) by (auto simp: owned_def)
  obtain bss where b: "list_all2 (chain h) ps' bss" "mset bss = mset ass"
    using list_all2_reorder_left_invariance [OF a(1) assms(2)] by blast
  have m: "mset (concat ass) = mset (concat bss)" using b(2) by (metis mset_concat_perm)
  have s: "set (concat ass) = set (concat bss)" "set os' = set os" using m assms(3) by (metis mset_eq_setD)+
  have "mset (filter (\<lambda>q. q \<noteq> NULL) os') = mset (filter (\<lambda>q. q \<noteq> NULL) os)" using assms(3) by simp
  then have "distinct (filter (\<lambda>q. q \<noteq> NULL) os')" using a(4) by (metis mset_eq_imp_distinct_iff)
  then show ?thesis using b(1) chain_ok_perm [OF m a(2)] a(3) unfolding owned_def s by blast
qed

lemma chain_ok_append:
  "chain_ok h (as @ bs) \<Longrightarrow> chain_ok h as \<and> chain_ok h bs"
  by (auto simp: chain_ok_def)

text \<open>A chain that is apart from what was released stays well-formed.\<close>

lemma chain_ok_frame:
  assumes "chain_ok h bs" "\<And>b. b \<in> set bs \<Longrightarrow> bh_bufs h' b = bh_bufs h b"
    and "\<And>b. b \<in> set bs \<Longrightarrow> bh_blocks h' (rb_data (node h b)) = bh_blocks h (rb_data (node h b))"
  shows "chain_ok h' bs"
proof -
  have n: "node h' b = node h b" if "b \<in> set bs" for b using assms(2) that by (simp add: node_def)
  have "distinct (map (\<lambda>a. rb_data (node h' a)) bs)" using n assms(1) by (simp add: chain_ok_def cong: map_cong)
  then show ?thesis using assms n by (auto simp: chain_ok_def releasable_def)
qed

lemma list_all2_chain_frame:
  assumes "list_all2 (chain h) ps ass" "\<And>b. b \<in> set (concat ass) \<Longrightarrow> bh_bufs h' b = bh_bufs h b"
  shows "list_all2 (chain h') ps ass"
  using assms
proof (induction rule: list_all2_induct)
  case (Cons p ps a ass)
  then show ?case using chain_cong [of a h' h p] by (auto simp: image_iff)
qed simp

lemma owned_free:
  assumes "owned h (p # ps) os"
  shows "\<exists>h'. (if p \<noteq> NULL then roar_buffer_free h p else Some (0, h)) = Some (0, h') \<and> owned h' ps os"
proof -
  obtain as ass where a: "chain h p as" "list_all2 (chain h) ps ass" "chain_ok h (as @ concat ass)"
    "\<forall>q \<in> set os. q \<noteq> NULL \<longrightarrow> bh_blocks h q \<noteq> None \<and> q \<notin> (\<lambda>a. rb_data (node h a)) ` set (as @ concat ass)"
    "distinct (filter (\<lambda>q. q \<noteq> NULL) os)"
    using assms by (auto simp: owned_def list_all2_Cons1)
  note ok = chain_ok_append [OF a(3)]
  show ?thesis
  proof (cases "p = NULL")
    case True
    then show ?thesis using a ok by (auto simp: owned_def)
  next
    case False
    then have "as \<noteq> []" using a(1) by auto
    then obtain h' where h': "roar_buffer_free_loop h p = Some h'" "\<forall>a. bh_bufs h' a = (if a \<in> set as then None else bh_bufs h a)"
      "\<forall>q. q \<notin> (\<lambda>a. rb_data (node h a)) ` set as \<longrightarrow> bh_blocks h' q = bh_blocks h q"
      using free_loop_ok [OF a(1)] ok by blast
    have apart: "b \<notin> set as" "rb_data (node h b) \<notin> (\<lambda>a. rb_data (node h a)) ` set as" if "b \<in> set (concat ass)" for b
      using a(3) that unfolding chain_ok_def distinct_append map_append by (auto simp del: set_concat)
    then have n: "\<And>b. b \<in> set (concat ass) \<Longrightarrow> bh_bufs h' b = bh_bufs h b"
      "\<And>b. b \<in> set (concat ass) \<Longrightarrow> bh_blocks h' (rb_data (node h b)) = bh_blocks h (rb_data (node h b))" using h' by auto
    have nd: "(\<lambda>a. rb_data (node h' a)) ` set (concat ass) = (\<lambda>a. rb_data (node h a)) ` set (concat ass)"
      using n(1) by (intro image_cong) (simp_all add: node_def)
    have "bh_blocks h' q = bh_blocks h q \<and> bh_blocks h q \<noteq> None \<and> q \<notin> (\<lambda>a. rb_data (node h a)) ` set (concat ass)"
      if "q \<in> set os" "q \<noteq> NULL" for q
      using a(4) that h'(3) by (simp add: image_Un)
    then have "owned h' ps os"
      using list_all2_chain_frame [OF a(2) n(1)] chain_ok_frame [OF conjunct2 [OF ok] n] a(5) unfolding owned_def nd [symmetric]
      by metis
    then show ?thesis using False h'(1) by (simp add: roar_buffer_free_def)
  qed
qed

lemma owned_free_block:
  assumes "owned h ps (q # os)"
  shows "\<exists>h'. mm_free h q = Some h' \<and> owned h' ps os"
proof (cases "q = NULL")
  case True
  then show ?thesis using assms by (auto simp: owned_def mm_free_def)
next
  case False
  obtain ass where a: "list_all2 (chain h) ps ass" "chain_ok h (concat ass)"
    "\<forall>x \<in> set (q # os). x \<noteq> NULL \<longrightarrow> bh_blocks h x \<noteq> None \<and> x \<notin> (\<lambda>a. rb_data (node h a)) ` set (concat ass)"
    "distinct (filter (\<lambda>q. q \<noteq> NULL) (q # os))" using assms by (auto simp: owned_def)
  let ?h = "h\<lparr>bh_blocks := (bh_blocks h)(q := None)\<rparr>"
  have nd: "node ?h = node h" by (simp add: node_def fun_eq_iff)
  have q: "rb_data (node h b) \<noteq> q" if "b \<in> set (concat ass)" for b using a(3) False that by (auto simp del: set_concat)
  have "list_all2 (chain ?h) ps ass" by (rule list_all2_chain_frame [OF a(1)]) simp
  moreover have "chain_ok ?h (concat ass)" by (rule chain_ok_frame [OF a(2)]) (simp_all add: q del: set_concat)
  moreover have "\<forall>x \<in> set os. x \<noteq> NULL \<longrightarrow> x \<noteq> q" using a(4) False by auto
  ultimately have "owned ?h ps os" using a(3,4) False unfolding owned_def nd
    by (intro conjI exI [of _ ass]) (auto simp del: set_concat split: if_splits)
  then show ?thesis using False a(3) by (auto simp: mm_free_def)
qed

lemma owned_null: "owned h (0 # ps) os \<longleftrightarrow> owned h ps os"
proof -
  have c: "list_all2 (chain h) (0 # ps) ass \<longleftrightarrow> (\<exists>ass'. ass = [] # ass' \<and> list_all2 (chain h) ps ass')" for ass
  proof (cases ass)
    case (Cons as ass')
    have "chain h 0 as \<longleftrightarrow> as = []" by (cases as) auto
    then show ?thesis using Cons by auto
  qed simp
  show ?thesis unfolding owned_def c by (metis concat.simps(2) self_append_conv2)
qed

text \<open>Setting a link changes what follows a buffer and nothing else.\<close>

lemma chain_ok_link:
  assumes "chain_ok h as" "l \<in> set as"
  shows "chain_ok (node_set h l ((node h l)\<lparr>rb_next := q\<rparr>)) as" (is "chain_ok ?h as")
proof -
  have f: "rb_data (node ?h a) = rb_data (node h a)" "rb_user_len (node ?h a) = rb_user_len (node h a)"
    "releasable ?h (node ?h a) = releasable h (node h a)" "(bh_bufs ?h a = None) = (bh_bufs h a = None)" if "a \<in> set as" for a
    using assms that by (auto simp: node_def node_set_def releasable_def chain_ok_def)
  then have "map (\<lambda>a. rb_data (node ?h a)) as = map (\<lambda>a. rb_data (node h a)) as" by simp
  then show ?thesis using assms(1) f unfolding chain_ok_def by (metis (no_types, lifting))
qed

text \<open>Handing a chain over to the owner of another one.\<close>

lemma owned_add:
  assumes "owned h (q # p # ps) os" "p \<noteq> NULL" "q \<noteq> NULL"
  shows "\<exists>r h'. roar_buffer_add h p q = Some (r, h') \<and> owned h' (p # ps) os"
proof -
  obtain bs as ass where a: "chain h q bs" "chain h p as" "list_all2 (chain h) ps ass" "chain_ok h (bs @ as @ concat ass)"
    "\<forall>x \<in> set os. x \<noteq> NULL \<longrightarrow> bh_blocks h x \<noteq> None \<and> x \<notin> (\<lambda>a. rb_data (node h a)) ` set (bs @ as @ concat ass)"
    "distinct (filter (\<lambda>q. q \<noteq> NULL) os)"
    using assms(1) by (auto simp: owned_def list_all2_Cons1)
  have ne: "as \<noteq> []" using a(2) assms(2) by auto
  have dist: "distinct (bs @ as @ concat ass)" using a(4) by (simp add: chain_ok_def)
  have p: "p \<in> set as" "bh_bufs h p = Some (node h p)" using a(2) ne by (cases as; auto simp: node_def split: option.splits)+
  let ?l = "last as"
  let ?h = "node_set h ?l ((node h ?l)\<lparr>rb_next := q\<rparr>)"
  have l: "?l \<in> set as" using last_in_set [OF ne] .
  have apart: "set bs \<inter> set as = {}" "set as \<inter> set (concat ass) = {}" using dist unfolding distinct_append by auto
  have l2: "?l \<notin> set bs" "?l \<notin> set (concat ass)" using apart l by (blast, blast)
  have "bh_bufs h ?l = Some (node h ?l)" using chain_alloc [OF a(2) l] by (auto simp: node_def)
  then have add: "roar_buffer_add h p q = Some (-1, h) \<or> roar_buffer_add h p q = Some (0, ?h)"
    using assms(2) p(2) last_ok [OF a(2) ne] by (auto simp: roar_buffer_add_def)
  have "chain_ok h (as @ concat ass)" using chain_ok_append [OF a(4)] by simp
  then have old: "owned h (p # ps) os"
    unfolding owned_def using a(2,3,5,6) by (intro conjI exI [of _ "as # ass"]) (simp_all add: image_Un)
  have perm: "mset (as @ bs @ concat ass) = mset (bs @ as @ concat ass)" by simp
  have nodes: "rb_data (node ?h x) = rb_data (node h x)" for x by (simp add: node_def node_set_def)
  have "chain ?h p (as @ bs)" using chain_link [OF a(2) ne _ refl a(1) l2(1) refl] dist by simp
  moreover have "list_all2 (chain ?h) ps ass" by (rule list_all2_chain_frame [OF a(3)]) (use l2(2) in \<open>auto simp: node_set_def\<close>)
  moreover have "chain_ok ?h (as @ bs @ concat ass)"
    by (rule chain_ok_link [OF chain_ok_perm [OF perm [symmetric] a(4)]]) (use l in simp)
  moreover have "bh_blocks ?h = bh_blocks h" by (simp add: node_set_def)
  ultimately have "owned ?h (p # ps) os"
    unfolding owned_def nodes using a(5,6) by (intro conjI exI [of _ "(as @ bs) # ass"]) (simp_all add: image_Un)
  then show ?thesis using add old by blast
qed

text \<open>What a table of owners holds: \<open>f\<close> gives the pointers of one entry.\<close>

lemma mset_concat_update:
  "i < length xs \<Longrightarrow> mset (concat (map f (xs[i := x]))) + mset (f (xs ! i)) = mset (concat (map f xs)) + mset (f x)"
proof (induction xs arbitrary: i)
  case (Cons y ys)
  then show ?case by (cases i) (simp_all add: ac_simps)
qed simp

lemma concat_map_update_same:
  "i < length xs \<Longrightarrow> f x = f (xs ! i) \<Longrightarrow> concat (map f (xs[i := x])) = concat (map f xs)"
  by (metis list_update_id map_update)

end
