(* ===== verification/Server_Safe.thy ===== *)
theory Server_Safe
  imports Server_Delete Buffer_Owned
begin

text \<open>
  The invariant of the client and stream tables and the proof that deletion keeps it: the calls end, no released record
  is used, no memory is released twice.
\<close>

subsection \<open>The invariant\<close>

text \<open>Numbers stored in a record never equal the table size, which the range checks let through, and a used entry of
  the meta data has a value.\<close>

definition meta_ok :: "roar_meta list \<Rightarrow> bool" where
  "meta_ok ms \<longleftrightarrow> length ms = ROAR_META_MAX_PER_STREAM \<and> list_all (\<lambda>e. me_type e \<noteq> META_TYPE_NONE \<longrightarrow> me_value e \<noteq> None) ms"

definition stream_ok :: "roar_stream_server \<Rightarrow> bool" where
  "stream_ok s \<longleftrightarrow> ss_client s \<noteq> ROAR_CLIENTS_MAX \<and> st_pos_rel_id s \<noteq> ROAR_STREAMS_MAX \<and> meta_ok (ss_meta s)"

definition client_ok :: "roar_client_server \<Rightarrow> bool" where
  "client_ok c \<longleftrightarrow> length (cl_streams c) = ROAR_CLIENTS_MAX_STREAMS_PER_CLIENT \<and> ROAR_STREAMS_MAX \<notin> set (cl_streams c)"

definition stream_ptrs :: "roar_stream_server option \<Rightarrow> ptr list" where
  "stream_ptrs e = (case e of None \<Rightarrow> [] | Some s \<Rightarrow> [ss_outputbuffer s, ss_prethru s, ss_buffer s])"

definition stream_blocks :: "roar_stream_server option \<Rightarrow> ptr list" where
  "stream_blocks e = (case e of None \<Rightarrow> [] | Some s \<Rightarrow> [ss_output s])"

definition tables_ok :: "server \<Rightarrow> bool" where
  "tables_ok sv \<longleftrightarrow> length (sv_streams sv) = 64 \<and> length (sv_clients sv) = 64 \<and>
     (\<forall>i s. stream_at sv i = Some s \<longrightarrow> stream_ok s) \<and> (\<forall>i c. client_at sv i = Some c \<longrightarrow> client_ok c) \<and>
     owned (sv_heap sv) (concat (map stream_ptrs (sv_streams sv))) (concat (map stream_blocks (sv_streams sv)))"

definition open_streams :: "server \<Rightarrow> c_int set" where
  "open_streams sv = {i. \<exists>s. stream_at sv i = Some s \<and> ss_state s \<noteq> STREAMSTATE_CLOSING}"

text \<open>Every open stream with an owner is in a slot of the owner.\<close>

definition slots_agree :: "server \<Rightarrow> bool" where
  "slots_agree sv \<longleftrightarrow> (\<forall>i s. stream_at sv i = Some s \<longrightarrow> i \<in> open_streams sv \<longrightarrow> ss_client s \<noteq> -1 \<longrightarrow>
     (\<exists>c. client_at sv (ss_client s) = Some c \<and> i \<in> set (cl_streams c)))"

text \<open>What deletion may change: streams and clients go, slots are cleared. Streams that are closing stay, and so do
  clients without an executed stream, but for those in \<open>C\<close>: their records are in use further up in the recursion.\<close>

definition stream_sub :: "roar_stream_server \<Rightarrow> roar_stream_server \<Rightarrow> bool" where
  "stream_sub s s' \<longleftrightarrow> ss_client s' = ss_client s \<and> (ss_state s' = STREAMSTATE_CLOSING \<longleftrightarrow> ss_state s = STREAMSTATE_CLOSING)"

definition client_sub :: "roar_client_server \<Rightarrow> roar_client_server \<Rightarrow> bool" where
  "client_sub c c' \<longleftrightarrow> cl_execed c' = cl_execed c \<and> list_all2 (\<lambda>x y. y = x \<or> y = -1) (cl_streams c) (cl_streams c')"

lemma stream_sub_refl [simp]: "stream_sub s s"
  by (simp add: stream_sub_def)

lemma stream_sub_trans: "stream_sub s s1 \<Longrightarrow> stream_sub s1 s2 \<Longrightarrow> stream_sub s s2"
  by (simp add: stream_sub_def)

lemma client_sub_refl [simp]: "client_sub c c"
  by (simp add: client_sub_def list_all2_refl)

lemma client_sub_trans: "client_sub c c1 \<Longrightarrow> client_sub c1 c2 \<Longrightarrow> client_sub c c2"
  using list_all2_trans [of "\<lambda>x y. y = x \<or> y = -1" "\<lambda>x y. y = x \<or> y = -1" "\<lambda>x y. y = x \<or> y = (-1 :: int)"
    "cl_streams c" "cl_streams c1" "cl_streams c2"] by (auto simp: client_sub_def)

definition shrinks :: "c_int set \<Rightarrow> server \<Rightarrow> server \<Rightarrow> bool" where
  "shrinks C sv sv' \<longleftrightarrow> tables_ok sv' \<and>
     (\<forall>i s'. stream_at sv' i = Some s' \<longrightarrow> (\<exists>s. stream_at sv i = Some s \<and> stream_sub s s')) \<and>
     (\<forall>i s. stream_at sv i = Some s \<longrightarrow> ss_state s = STREAMSTATE_CLOSING \<longrightarrow> stream_at sv' i \<noteq> None) \<and>
     (\<forall>i c'. client_at sv' i = Some c' \<longrightarrow> (\<exists>c. client_at sv i = Some c \<and> client_sub c c')) \<and>
     (\<forall>i c. client_at sv i = Some c \<longrightarrow> cl_execed c = -1 \<longrightarrow> i \<notin> C \<longrightarrow> client_at sv' i \<noteq> None) \<and>
     (\<forall>i c c' x. client_at sv i = Some c \<longrightarrow> client_at sv' i = Some c' \<longrightarrow> x \<in> set (cl_streams c) \<longrightarrow>
        x \<in> open_streams sv' \<longrightarrow> x \<in> set (cl_streams c')) \<and>
     (slots_agree sv \<longrightarrow> slots_agree sv')"

lemma shrinksI:
  assumes "tables_ok sv'"
    and "\<And>i s'. stream_at sv' i = Some s' \<Longrightarrow> \<exists>s. stream_at sv i = Some s \<and> stream_sub s s'"
    and "\<And>i s. stream_at sv i = Some s \<Longrightarrow> ss_state s = STREAMSTATE_CLOSING \<Longrightarrow> stream_at sv' i \<noteq> None"
    and "\<And>i c'. client_at sv' i = Some c' \<Longrightarrow> \<exists>c. client_at sv i = Some c \<and> client_sub c c'"
    and "\<And>i c. client_at sv i = Some c \<Longrightarrow> cl_execed c = -1 \<Longrightarrow> i \<notin> C \<Longrightarrow> client_at sv' i \<noteq> None"
    and "\<And>i c c' x. client_at sv i = Some c \<Longrightarrow> client_at sv' i = Some c' \<Longrightarrow> x \<in> set (cl_streams c) \<Longrightarrow>
      x \<in> open_streams sv' \<Longrightarrow> x \<in> set (cl_streams c')"
    and "slots_agree sv \<Longrightarrow> slots_agree sv'"
  shows "shrinks C sv sv'"
  using assms unfolding shrinks_def by blast

lemma shrinks_slot:
  assumes "shrinks C sv sv'" "client_at sv i = Some c" "client_at sv' i = Some c'" "x \<in> set (cl_streams c)" "x \<in> open_streams sv'"
  shows "x \<in> set (cl_streams c')"
  using assms unfolding shrinks_def by blast

lemma shrinks_open: "shrinks C sv sv' \<Longrightarrow> open_streams sv' \<subseteq> open_streams sv"
  by (fastforce simp: open_streams_def stream_sub_def shrinks_def)

lemma shrinks_tables: "shrinks C sv sv' \<Longrightarrow> tables_ok sv'"
  by (simp add: shrinks_def)

lemma shrinks_agree: "shrinks C sv sv' \<Longrightarrow> slots_agree sv \<Longrightarrow> slots_agree sv'"
  by (simp add: shrinks_def)

lemma shrinks_stream:
  assumes "shrinks C sv sv'" "stream_at sv' i = Some s'"
  shows "\<exists>s. stream_at sv i = Some s \<and> stream_sub s s'"
  using assms by (simp add: shrinks_def)

lemma shrinks_client:
  assumes "shrinks C sv sv'" "client_at sv' i = Some c'"
  shows "\<exists>c. client_at sv i = Some c \<and> client_sub c c'"
  using assms by (simp add: shrinks_def)

text \<open>The records that stay.\<close>

lemma shrinks_closing:
  assumes "shrinks C sv sv'" "stream_at sv i = Some s" "ss_state s = STREAMSTATE_CLOSING"
  shows "\<exists>s'. stream_at sv' i = Some s' \<and> stream_sub s s'"
proof -
  obtain s' where s': "stream_at sv' i = Some s'" using assms by (fastforce simp: shrinks_def)
  then show ?thesis using shrinks_stream [OF assms(1) s'] assms(2) by auto
qed

lemma shrinks_idle:
  assumes "shrinks C sv sv'" "client_at sv i = Some c" "cl_execed c = -1" "i \<notin> C"
  shows "\<exists>c'. client_at sv' i = Some c' \<and> client_sub c c'"
proof -
  obtain c' where c': "client_at sv' i = Some c'" using assms by (fastforce simp: shrinks_def)
  then show ?thesis using shrinks_client [OF assms(1) c'] assms(2) by auto
qed

lemma shrinks_refl [simp]: "tables_ok sv \<Longrightarrow> shrinks C sv sv"
  by (rule shrinksI) simp_all

lemma shrinks_trans:
  assumes "shrinks C sv sv1" "shrinks C sv1 sv2"
  shows "shrinks C sv sv2"
proof (rule shrinksI)
  fix i s' assume "stream_at sv2 i = Some s'"
  then show "\<exists>s. stream_at sv i = Some s \<and> stream_sub s s'"
    using shrinks_stream [OF assms(1)] shrinks_stream [OF assms(2)] stream_sub_trans by blast
next
  fix i s assume "stream_at sv i = Some s" "ss_state s = STREAMSTATE_CLOSING"
  then obtain s1 where "stream_at sv1 i = Some s1" "stream_sub s s1" using shrinks_closing [OF assms(1)] by blast
  then show "stream_at sv2 i \<noteq> None"
    using shrinks_closing [OF assms(2)] \<open>ss_state s = STREAMSTATE_CLOSING\<close> by (fastforce simp: stream_sub_def)
next
  fix i c' assume "client_at sv2 i = Some c'"
  then show "\<exists>c. client_at sv i = Some c \<and> client_sub c c'"
    using shrinks_client [OF assms(1)] shrinks_client [OF assms(2)] client_sub_trans by blast
next
  fix i c assume *: "client_at sv i = Some c" "cl_execed c = -1" "i \<notin> C"
  then obtain c1 where "client_at sv1 i = Some c1" "client_sub c c1" using shrinks_idle [OF assms(1)] by blast
  then show "client_at sv2 i \<noteq> None"
    using shrinks_idle [OF assms(2)] *(2,3) by (fastforce simp: client_sub_def)
next
  fix i c c' x
  assume *: "client_at sv i = Some c" "client_at sv2 i = Some c'" "x \<in> set (cl_streams c)" "x \<in> open_streams sv2"
  then obtain c1 where "client_at sv1 i = Some c1" using shrinks_client [OF assms(2)] by blast
  then show "x \<in> set (cl_streams c')"
    using shrinks_slot [OF assms(1) *(1)] shrinks_slot [OF assms(2)] shrinks_open [OF assms(2)] * by blast
qed (use assms in \<open>simp_all add: shrinks_def\<close>)

lemma open_streams_bound: "tables_ok sv \<Longrightarrow> open_streams sv \<subseteq> {0..<64}"
  by (auto simp: open_streams_def tables_ok_def dest: stream_at_range)

lemma finite_open [simp]: "tables_ok sv \<Longrightarrow> finite (open_streams sv)"
  using open_streams_bound finite_subset by blast

lemma shrinks_card: "shrinks C sv sv' \<Longrightarrow> tables_ok sv \<Longrightarrow> card (open_streams sv') \<le> card (open_streams sv)"
  by (simp add: card_mono shrinks_open)

subsection \<open>Steps that keep the invariant\<close>

lemma tables_ok_same: "same_tables sv sv' \<Longrightarrow> tables_ok sv' = tables_ok sv"
  by (simp add: tables_ok_def same_tables_at) (simp add: same_tables_def)

lemma slots_agree_same: "same_tables sv sv' \<Longrightarrow> slots_agree sv' = slots_agree sv"
  by (simp add: slots_agree_def open_streams_def same_tables_at)

lemma shrinks_same: "same_tables sv sv' \<Longrightarrow> tables_ok sv \<Longrightarrow> shrinks C sv sv'"
  by (rule shrinksI) (simp_all add: tables_ok_same slots_agree_same same_tables_at)

lemma shrinks_same_left: "same_tables sv0 sv \<Longrightarrow> shrinks C sv sv' = shrinks C sv0 sv'"
  using slots_agree_same [of sv0 sv] by (simp add: shrinks_def same_tables_at)

lemma same_tables_log [simp]: "same_tables sv (log_effect e sv)" "same_tables sv (log_effects es sv)"
  by (simp_all add: same_tables_def log_effects_def)

text \<open>A new record of a stream that keeps its owner, its state and its memory.\<close>

definition tame :: "roar_stream_server \<Rightarrow> roar_stream_server \<Rightarrow> bool" where
  "tame s s' \<longleftrightarrow> (stream_ok s \<longrightarrow> stream_ok s') \<and> ss_client s' = ss_client s \<and> ss_state s' = ss_state s \<and>
     stream_ptrs (Some s') = stream_ptrs (Some s) \<and> stream_blocks (Some s') = stream_blocks (Some s)"

lemma tables_ok_put:
  assumes "tables_ok sv" "stream_at sv i = Some s" "stream_ok s'"
    "stream_ptrs (Some s') = stream_ptrs (Some s)" "stream_blocks (Some s') = stream_blocks (Some s)"
  shows "tables_ok (put_stream sv i (Some s'))"
proof -
  note r = stream_at_range [OF assms(2)]
  have "concat (map stream_ptrs ((sv_streams sv)[nat i := Some s'])) = concat (map stream_ptrs (sv_streams sv))"
    "concat (map stream_blocks ((sv_streams sv)[nat i := Some s'])) = concat (map stream_blocks (sv_streams sv))"
    using r assms(4,5) by (simp_all add: concat_map_update_same nat_less_iff)
  then show ?thesis
    using assms(1,3) by (simp add: tables_ok_def stream_at_put [OF assms(2)] client_at_cong [of "put_stream sv i (Some s')" sv])
qed

lemma shrinks_put:
  assumes "tables_ok sv" "stream_at sv i = Some s" "tame s s'"
  shows "shrinks C sv (put_stream sv i (Some s'))"
proof -
  note t = assms(3) [unfolded tame_def]
  have "stream_ok s" using assms(1,2) by (simp add: tables_ok_def)
  then have ok: "tables_ok (put_stream sv i (Some s'))" using tables_ok_put [OF assms(1,2)] t by simp
  have c: "client_at (put_stream sv i (Some s')) = client_at sv" by (rule client_at_cong) simp
  have "slots_agree sv \<Longrightarrow> slots_agree (put_stream sv i (Some s'))"
    unfolding slots_agree_def open_streams_def c stream_at_put [OF assms(2)] using t assms(2) by (auto split: if_splits)
  then show ?thesis
    by (intro shrinksI ok) (use t assms(2) in \<open>auto simp: c stream_at_put [OF assms(2)] stream_sub_def split: if_splits\<close>)
qed

lemma shrinks_set_stream:
  assumes "tables_ok sv" "sid \<noteq> 64" "\<And>s. tame s (f s)"
  shows "holds (set_stream f sv sid) (\<lambda>(r, sv'). shrinks C sv sv')"
  using assms by (auto simp: set_stream_def check_sid_at tables_ok_def [of sv] shrinks_put split: option.split)

lemma check_sid_ok [simp]:
  "tables_ok sv \<Longrightarrow> check_sid sv sid ret k = (if sid = 64 then None else case stream_at sv sid of None \<Rightarrow> Some ret | Some s \<Rightarrow> k s)"
  by (simp add: check_sid_at tables_ok_def)

lemma check_cid_ok [simp]:
  "tables_ok sv \<Longrightarrow> check_cid sv cid ret k = (if cid = 64 then None else case client_at sv cid of None \<Rightarrow> Some ret | Some c \<Rightarrow> k c)"
  by (simp add: check_cid_at tables_ok_def)

lemma table_entry_ok: "tables_ok sv \<Longrightarrow> 0 \<le> sid \<Longrightarrow> sid < 64 \<Longrightarrow> table_entry sv sid = Some (stream_at sv sid)"
  by (simp add: table_entry_def stream_at_def tables_ok_def)

lemma stream_bound: "tables_ok sv \<Longrightarrow> stream_at sv sid = Some s \<Longrightarrow> 0 \<le> sid \<and> sid < 64"
  using stream_at_range by (fastforce simp: tables_ok_def)

lemma client_bound: "tables_ok sv \<Longrightarrow> client_at sv cid = Some c \<Longrightarrow> 0 \<le> cid \<and> cid < 64"
  using client_at_range by (fastforce simp: tables_ok_def)

lemma stream_ok_at: "tables_ok sv \<Longrightarrow> stream_at sv sid = Some s \<Longrightarrow> stream_ok s"
  by (simp add: tables_ok_def)

lemma client_ok_at: "tables_ok sv \<Longrightarrow> client_at sv cid = Some c \<Longrightarrow> client_ok c"
  by (simp add: tables_ok_def)

lemma get_flag_ok: "tables_ok sv \<Longrightarrow> stream_at sv sid = Some s \<Longrightarrow>
    streams_get_flag sv sid flag = Some (if ss_flags s AND flag \<noteq> 0 then 1 else 0)"
  using stream_bound by (fastforce simp: streams_get_flag_def)

lemma holds_shrinks_trans:
  assumes "holds m (\<lambda>(r, sv1). shrinks C sv sv1)" "\<And>r sv1. shrinks C sv sv1 \<Longrightarrow> holds (k r sv1) (shrinks C sv1)"
  shows "holds m (\<lambda>(r, sv1). holds (k r sv1) (shrinks C sv))"
  using assms by (fastforce simp: holds_def intro: shrinks_trans)

subsection \<open>Meta data\<close>

lemma meta_fill_ok: "meta_fill ty name val dup ms = (r, ms') \<Longrightarrow> meta_ok ms \<Longrightarrow> meta_ok ms'"
proof -
  have "length ms' = length ms \<and> (list_all (\<lambda>e. me_type e \<noteq> META_TYPE_NONE \<longrightarrow> me_value e \<noteq> None) ms \<longrightarrow>
      list_all (\<lambda>e. me_type e \<noteq> META_TYPE_NONE \<longrightarrow> me_value e \<noteq> None) ms')" if "meta_fill ty name val dup ms = (r, ms')"
    using that by (induction ms arbitrary: ms' r) (auto split: if_splits prod.splits)
  then show "meta_fill ty name val dup ms = (r, ms') \<Longrightarrow> meta_ok ms \<Longrightarrow> meta_ok ms'" by (simp add: meta_ok_def)
qed

lemma tame_meta: "meta_ok ms \<Longrightarrow> tame s (s\<lparr>ss_meta := ms\<rparr>)"
  by (simp add: tame_def stream_ok_def stream_ptrs_def stream_blocks_def)

lemma meta_add_ok:
  assumes "tables_ok sv" "0 \<le> sid" "sid < 64"
  shows "holds (stream_meta_add dup sv sid ty name val) (\<lambda>(r, sv'). shrinks C sv sv')"
proof (cases "stream_at sv sid")
  case None
  then show ?thesis using assms by (simp add: stream_meta_add_def table_entry_ok)
next
  case (Some s)
  obtain r ms where m: "meta_fill ty name val dup (ss_meta s) = (r, ms)" by (cases "meta_fill ty name val dup (ss_meta s)")
  have "meta_ok ms" using meta_fill_ok [OF m] stream_ok_at [OF assms(1) Some] by (simp add: stream_ok_def)
  then show ?thesis using assms Some m
    by (simp add: stream_meta_add_def table_entry_ok shrinks_put [OF assms(1) Some] tame_meta)
qed

lemma meta_clear_ok:
  assumes "tables_ok sv" "0 \<le> sid" "sid < 64"
  shows "holds (stream_meta_clear sv sid) (\<lambda>(r, sv'). shrinks C sv sv')"
proof (cases "stream_at sv sid")
  case None
  then show ?thesis using assms by (simp add: stream_meta_clear_def table_entry_ok table_sizes)
next
  case (Some s)
  have "meta_ok (map (\<lambda>_. \<lparr>me_type = META_TYPE_NONE, me_key = [], me_value = None\<rparr>) (ss_meta s))"
    using stream_ok_at [OF assms(1) Some] by (simp add: stream_ok_def meta_ok_def list_all_iff)
  then show ?thesis using assms Some
    by (simp add: stream_meta_clear_def table_entry_ok table_sizes shrinks_put [OF assms(1) Some] tame_meta)
qed

text \<open>A stream that is copied from is closing or not the target; it stays in the table either way.\<close>

lemma meta_add_stays:
  "stream_meta_add dup sv sid ty name val = Some (r, sv') \<Longrightarrow> stream_at sv i \<noteq> None \<Longrightarrow> stream_at sv' i \<noteq> None"
  by (auto simp: stream_meta_add_def table_entry_def stream_at_def put_stream_def nth_list_update
      split: if_splits option.splits prod.splits)

lemma meta_copy_ok:
  assumes "tables_ok sv" "0 \<le> co" "co < 64" "stream_at sv ci \<noteq> None" "\<forall>k \<in> set ks. k < ROAR_META_MAX_PER_STREAM"
  shows "holds (meta_copy dup ci co ks sv) (shrinks C sv)"
  using assms
proof (induction ks arbitrary: sv)
  case (Cons k ks)
  obtain s where s: "stream_at sv ci = Some s" using Cons.prems by auto
  let ?e = "ss_meta s ! k"
  have "meta_ok (ss_meta s)" using stream_ok_at [OF Cons.prems(1) s] by (simp add: stream_ok_def)
  then have v: "me_type ?e \<noteq> META_TYPE_NONE \<longrightarrow> me_value ?e \<noteq> None"
    using Cons.prems(5) by (simp add: meta_ok_def list_all_length)
  show ?case
  proof (cases "me_type ?e = META_TYPE_NONE")
    case True
    then show ?thesis using Cons s by simp
  next
    case False
    then obtain val where val: "me_value ?e = Some val" using v by auto
    obtain r sv1 where add: "stream_meta_add dup sv co (me_type ?e) (Some (me_key ?e)) val = Some (r, sv1)" "shrinks C sv sv1"
      using meta_add_ok [OF Cons.prems(1-3)] by (fastforce simp: holds_def)
    have "holds (meta_copy dup ci co ks sv1) (shrinks C sv1)"
      using Cons meta_add_stays [OF add(1)] shrinks_tables [OF add(2)] by simp
    then show ?thesis using False s val add by (auto intro: holds_mono shrinks_trans)
  qed
qed simp

lemma meta_inputs_ok:
  assumes "tables_ok sv" "0 \<le> co" "co < 64"
  shows "holds (meta_inputs dup co is sv) (shrinks C sv)"
  using assms
proof (induction "is" arbitrary: sv)
  case (Cons i "is")
  show ?case
  proof (cases "stream_at sv (int i)")
    case (Some s)
    have "holds (meta_copy dup (int i) co [0..<ROAR_META_MAX_PER_STREAM] sv) (shrinks C sv)"
      using meta_copy_ok Cons.prems Some by simp
    then have "holds (meta_copy dup (int i) co [0..<ROAR_META_MAX_PER_STREAM] sv) (\<lambda>sv1. holds (meta_inputs dup co is sv1) (shrinks C sv))"
      by (rule holds_mono) (use Cons in \<open>blast intro: holds_mono shrinks_trans shrinks_tables\<close>)
    then show ?thesis using Cons Some by simp
  qed (use Cons in simp)
qed simp

lemma streams_ctl_ok: "tables_ok sv \<Longrightarrow> sid \<noteq> 64 \<Longrightarrow> holds (streams_ctl io sv sid cmd) (\<lambda>(r, sv'). same_tables sv sv')"
  by (auto simp: streams_ctl_def Let_def same_tables_def split: option.split)

lemma meta_outputs_ok:
  assumes "tables_ok sv" "\<forall>i \<in> set is. i < 64"
  shows "holds (meta_outputs io dup is sv) (shrinks C sv)"
  using assms
proof (induction "is" arbitrary: sv)
  case (Cons i "is")
  have IH: "holds (meta_outputs io dup is sv3) (shrinks C sv)" if "shrinks C sv sv3" for sv3
    using Cons.IH [of sv3] Cons.prems(2) that by (auto intro: holds_mono shrinks_trans dest: shrinks_tables)
  have "holds (stream_meta_clear sv (int i)) (\<lambda>(r, sv1). shrinks C sv sv1)"
    using meta_clear_ok [OF Cons.prems(1)] Cons.prems(2) by simp
  then obtain r sv1 where 1: "stream_meta_clear sv (int i) = Some (r, sv1)" "shrinks C sv sv1" by (auto simp: holds_def)
  then obtain sv2 where 2: "meta_inputs dup (int i) [0..<nat ROAR_STREAMS_MAX] sv1 = Some sv2" "shrinks C sv1 sv2"
    using meta_inputs_ok [OF shrinks_tables [OF 1(2)], of "int i" dup "[0..<nat ROAR_STREAMS_MAX]" C]
      Cons.prems(2) by (auto simp: holds_def)
  then obtain r3 sv3 where 3: "streams_ctl io sv2 (int i) CODECFILTER_CTL_META_UPDATE = Some (r3, sv3)" "same_tables sv2 sv3"
    using streams_ctl_ok [OF shrinks_tables [OF 2(2)], of "int i"] Cons.prems(2) by (fastforce simp: holds_def)
  have "shrinks C sv sv3" using 1(2) 2(2) shrinks_same [OF 3(2) shrinks_tables [OF 2(2)]] by (blast intro: shrinks_trans)
  then show ?case using 1(1) 2(1) 3(1) IH Cons by (auto split: option.split)
qed simp

lemma meta_finalize_ok:
  assumes "tables_ok sv" "stream_at sv sid = Some s"
  shows "holds (stream_meta_finalize io dup sv sid) (\<lambda>(r, sv'). shrinks C sv sv')"
  using assms meta_outputs_ok [OF assms(1), of "[0..<nat ROAR_STREAMS_MAX]"]
  by (auto simp: stream_meta_finalize_def get_flag_ok table_sizes)

subsection \<open>Removing a client\<close>

lemma tables_ok_put_client:
  assumes "tables_ok sv" "client_at sv cid = Some c" "\<And>c'. x = Some c' \<Longrightarrow> client_ok c'"
  shows "tables_ok (put_client sv cid x)"
proof -
  have "stream_at (put_client sv cid x) = stream_at sv" by (rule stream_at_cong) simp
  then show ?thesis using assms by (simp add: tables_ok_def client_at_put [OF assms(2)])
qed

lemma open_put_client [simp]: "open_streams (put_client sv cid x) = open_streams sv"
  by (simp add: open_streams_def stream_at_def)

lemma open_same: "same_tables sv sv' \<Longrightarrow> open_streams sv' = open_streams sv"
  by (simp add: open_streams_def same_tables_at)

text \<open>Before the loop over the slots: \<open>c\<close> has no executed stream any more.\<close>

lemma prepare_client:
  assumes "tables_ok sv" "same_tables sv sv0" "client_at sv cid = Some c"
  defines "sv1 \<equiv> put_client sv0 cid (Some (c\<lparr>cl_waits := None, cl_execed := -1\<rparr>))"
  shows "tables_ok sv1" "client_at sv1 cid = Some (c\<lparr>cl_waits := None, cl_execed := -1\<rparr>)" "open_streams sv1 = open_streams sv"
    "stream_at sv1 = stream_at sv" "\<And>i. i \<noteq> cid \<Longrightarrow> client_at sv1 i = client_at sv i"
proof -
  have c0: "client_at sv0 cid = Some c" using assms(2,3) by (simp add: same_tables_at)
  have "tables_ok sv0" using assms(1,2) by (simp add: tables_ok_same)
  then show "tables_ok sv1" unfolding sv1_def
    by (rule tables_ok_put_client [OF _ c0]) (use client_ok_at [OF assms(1,3)] in \<open>auto simp: client_ok_def\<close>)
  show "client_at sv1 cid = Some (c\<lparr>cl_waits := None, cl_execed := -1\<rparr>)" "\<And>i. i \<noteq> cid \<Longrightarrow> client_at sv1 i = client_at sv i"
    using assms(2) by (simp_all add: sv1_def client_at_put [OF c0] same_tables_at)
  show "open_streams sv1 = open_streams sv" using assms(2) by (simp add: sv1_def open_same)
  show "stream_at sv1 = stream_at sv"
    using assms(2) stream_at_cong [of sv1 sv0] by (simp add: sv1_def same_tables_at)
qed

text \<open>After it: no slot of the client names an open stream, and the record goes.\<close>

lemma finish_client:
  assumes "tables_ok sv" "client_at sv cid = Some c"
    and sv1: "open_streams sv1 = open_streams sv" "stream_at sv1 = stream_at sv" "\<And>i. i \<noteq> cid \<Longrightarrow> client_at sv1 i = client_at sv i"
    and c1: "client_at sv1 cid = Some c1" "cl_streams c1 = cl_streams c"
    and sv2: "shrinks {} sv1 sv2" "client_at sv2 cid = Some c2"
      "\<forall>k < ROAR_CLIENTS_MAX_STREAMS_PER_CLIENT. cl_streams c2 ! k \<notin> open_streams sv2"
    and same: "same_tables sv2 sv3"
  shows "shrinks {cid} sv (put_client sv3 cid None) \<and> client_at (put_client sv3 cid None) cid = None \<and>
    set (cl_streams c) \<inter> open_streams (put_client sv3 cid None) = {}"
proof -
  let ?sv = "put_client sv3 cid None"
  have c3: "client_at sv3 cid = Some c2" using sv2(2) same by (simp add: same_tables_at)
  have len: "length (cl_streams c2) = ROAR_CLIENTS_MAX_STREAMS_PER_CLIENT"
    using client_ok_at [OF shrinks_tables [OF sv2(1)] sv2(2)] by (simp add: client_ok_def)
  have at: "stream_at ?sv = stream_at sv2" "\<And>i. client_at ?sv i = (if i = cid then None else client_at sv2 i)"
    using same stream_at_cong [of ?sv sv3] by (simp_all add: client_at_put [OF c3] same_tables_at)
  have opn: "open_streams ?sv = open_streams sv2" using same by (simp add: open_same)
  have none: "set (cl_streams c2) \<inter> open_streams sv2 = {}" using sv2(3) len by (auto simp: in_set_conv_nth)
  have ok: "tables_ok ?sv"
    by (rule tables_ok_put_client [OF _ c3]) (use shrinks_tables [OF sv2(1)] same in \<open>simp_all add: tables_ok_same\<close>)
  have slots: "set (cl_streams c) \<inter> open_streams sv2 = {}"
    using shrinks_slot [OF sv2(1) c1(1) sv2(2)] none c1(2) by auto
  have agree: "slots_agree ?sv" if agrees: "slots_agree sv"
  proof -
    have "slots_agree sv1"
      unfolding slots_agree_def
    proof (intro allI impI)
      fix i s assume i: "stream_at sv1 i = Some s" "i \<in> open_streams sv1" "ss_client s \<noteq> -1"
      then obtain c' where c': "client_at sv (ss_client s) = Some c'" "i \<in> set (cl_streams c')"
        using agrees sv1(1,2) unfolding slots_agree_def by metis
      then show "\<exists>c. client_at sv1 (ss_client s) = Some c \<and> i \<in> set (cl_streams c)"
        using sv1(3) c1 assms(2) by (cases "ss_client s = cid") auto
    qed
    then have "slots_agree sv2" using shrinks_agree [OF sv2(1)] by blast
    then show ?thesis unfolding slots_agree_def opn at using none sv2(2) by fastforce
  qed
  have "shrinks {cid} sv ?sv"
  proof (rule shrinksI [OF ok])
    show "\<exists>s. stream_at sv i = Some s \<and> stream_sub s s'" if "stream_at ?sv i = Some s'" for i s'
      using that shrinks_stream [OF sv2(1)] sv1(2) at(1) by simp
    show "stream_at ?sv i \<noteq> None" if "stream_at sv i = Some s" "ss_state s = STREAMSTATE_CLOSING" for i s
      using that shrinks_closing [OF sv2(1)] sv1(2) at(1) by fastforce
    show "\<exists>c. client_at sv i = Some c \<and> client_sub c c'" if "client_at ?sv i = Some c'" for i c'
      using that shrinks_client [OF sv2(1)] sv1(3) at(2) by (fastforce split: if_splits)
    show "client_at ?sv i \<noteq> None" if "client_at sv i = Some x" "cl_execed x = -1" "i \<notin> {cid}" for i x
      using that shrinks_idle [OF sv2(1)] sv1(3) at(2) by fastforce
    show "x \<in> set (cl_streams c')" if "client_at sv i = Some a" "client_at ?sv i = Some c'" "x \<in> set (cl_streams a)" "x \<in> open_streams ?sv"
      for i a c' x
      using that shrinks_slot [OF sv2(1), of i a c' x] sv1(3) at(2) opn by (simp split: if_splits)
  qed (rule agree)
  then show ?thesis using at(2) opn slots by simp
qed

lemma shrinks_clear_slot:
  assumes "tables_ok sv" "client_at sv cid = Some c" "sid \<notin> open_streams sv" "k < length (cl_streams c)" "cl_streams c ! k = sid"
  shows "shrinks C sv (put_client sv cid (Some (c\<lparr>cl_streams := (cl_streams c)[k := -1]\<rparr>)))" (is "shrinks C sv ?sv")
proof -
  let ?xs = "(cl_streams c)[k := -1]"
  have st: "stream_at ?sv = stream_at sv" by (rule stream_at_cong) simp
  have sub: "client_sub c (c\<lparr>cl_streams := ?xs\<rparr>)"
    using assms(4) by (auto simp: client_sub_def list_all2_conv_all_nth nth_list_update)
  have keep: "x \<in> set ?xs" if x: "x \<in> set (cl_streams c)" "x \<in> open_streams sv" for x
  proof -
    obtain j where "j < length (cl_streams c)" "cl_streams c ! j = x" using x(1) by (auto simp: in_set_conv_nth)
    moreover have "j \<noteq> k" using assms(3,5) x calculation by auto
    ultimately show ?thesis by (metis length_list_update nth_list_update_neq nth_mem)
  qed
  have "ROAR_STREAMS_MAX \<notin> set ?xs" using client_ok_at [OF assms(1,2)] set_update_subset_insert [of "cl_streams c" k "-1"]
    by (auto simp: client_ok_def table_sizes)
  then have ok: "tables_ok ?sv"
    using client_ok_at [OF assms(1,2)] by (intro tables_ok_put_client [OF assms(1,2)]) (auto simp: client_ok_def)
  have agree: "slots_agree ?sv" if "slots_agree sv"
    using that keep unfolding slots_agree_def client_at_put [OF assms(2)] st open_put_client
    by (metis assms(2) option.inject roar_client_server.select_convs(10) roar_client_server.surjective roar_client_server.update_convs(10))
  show ?thesis
    by (rule shrinksI [OF ok])
      (use sub keep agree assms(2) in \<open>auto simp: st client_at_put [OF assms(2)] split: if_splits\<close>)
qed

lemma shrinks_busy:
  "shrinks {cid} sv sv' \<Longrightarrow> (\<And>c. client_at sv cid = Some c \<Longrightarrow> cl_execed c \<noteq> -1) \<Longrightarrow> shrinks {} sv sv'"
  unfolding shrinks_def by fastforce

lemma find_slot_nth: "find_slot sid xs = Some k \<Longrightarrow> k < length xs \<and> xs ! k = sid"
  by (induction xs arbitrary: k) (auto split: if_splits)

subsection \<open>The recursive call as an interface\<close>

text \<open>\<open>del\<close> deletes a stream of a table with fewer than \<open>n\<close> open streams. The loops and the deletion of a client rely on
  no more than this.\<close>

locale deleter =
  fixes n :: nat and del :: "server \<Rightarrow> c_int \<Rightarrow> server_result"
  assumes del_ok: "tables_ok sv \<Longrightarrow> card (open_streams sv) < n \<Longrightarrow> sid \<noteq> 64 \<Longrightarrow>
    holds (del sv sid) (\<lambda>(r, sv'). shrinks {} sv sv' \<and> sid \<notin> open_streams sv')"
begin

lemma delE:
  assumes "tables_ok sv" "card (open_streams sv) < n" "sid \<noteq> 64"
  obtains r sv' where "del sv sid = Some (r, sv')" "shrinks {} sv sv'" "sid \<notin> open_streams sv'"
  using del_ok [OF assms] by (auto simp: holds_def)

lemma delete_children_ok:
  assumes "tables_ok sv" "card (open_streams sv) < n" "\<forall>i \<in> set is. i < 64"
  shows "holds (delete_children del sid is sv) (shrinks {} sv)"
  using assms
proof (induction "is" arbitrary: sv)
  case (Cons i "is")
  have IH: "holds (delete_children del sid is sv1) (shrinks {} sv)" if "shrinks {} sv sv1" for sv1
  proof -
    have "tables_ok sv1" "card (open_streams sv1) < n" using that Cons.prems shrinks_card [OF that] by (auto dest: shrinks_tables)
    then show ?thesis using Cons.IH [of sv1] Cons.prems(3) that by (auto intro: holds_mono shrinks_trans)
  qed
  have "holds (del sv (int i)) (\<lambda>(r, sv1). shrinks {} sv sv1)"
    using del_ok [of sv "int i"] Cons.prems by (auto simp: holds_def)
  then have d: "holds (del sv (int i)) (\<lambda>(r, sv1). holds (delete_children del sid is sv1) (shrinks {} sv))"
    by (rule holds_mono) (use IH in auto)
  have "shrinks {} sv (put_stream sv (int i) (Some (s\<lparr>st_pos_rel_id := -1\<rparr>)))" if "stream_at sv (int i) = Some s" for s
    by (rule shrinks_put [OF Cons.prems(1) that]) (simp add: tame_def stream_ok_def stream_ptrs_def stream_blocks_def table_sizes)
  then show ?case using IH d Cons.prems by (auto simp: split_def split: option.split)
qed simp

lemma delete_slots_ok:
  assumes "tables_ok sv" "card (open_streams sv) < n" "client_at sv cid = Some c" "cl_execed c = -1"
    and "\<forall>k \<in> set ks. k < ROAR_CLIENTS_MAX_STREAMS_PER_CLIENT"
  shows "holds (delete_slots del cid ks sv) (\<lambda>sv'. shrinks {} sv sv' \<and>
    (\<exists>c'. client_at sv' cid = Some c' \<and> (\<forall>k \<in> set ks. cl_streams c' ! k \<notin> open_streams sv')))"
  using assms
proof (induction ks arbitrary: sv c)
  case Nil
  then show ?case by simp
next
  case (Cons k ks)
  have c: "length (cl_streams c) = ROAR_CLIENTS_MAX_STREAMS_PER_CLIENT" "64 \<notin> set (cl_streams c)"
    using client_ok_at [OF Cons.prems(1,3)] by (simp_all add: client_ok_def table_sizes)
  then have "cl_streams c ! k \<noteq> 64" using Cons.prems(5) by (metis list.set_intros(1) nth_mem)
  then obtain r sv1 where sv1: "del sv (cl_streams c ! k) = Some (r, sv1)" "shrinks {} sv sv1" "cl_streams c ! k \<notin> open_streams sv1"
    using delE [OF Cons.prems(1,2)] by blast
  obtain c1 where c1: "client_at sv1 cid = Some c1" "client_sub c c1"
    using shrinks_idle [OF sv1(2) Cons.prems(3,4)] by auto
  have s1: "tables_ok sv1" "card (open_streams sv1) < n"
    using shrinks_tables [OF sv1(2)] shrinks_card [OF sv1(2)] Cons.prems by auto
  obtain sv2 c2 where sv2: "delete_slots del cid ks sv1 = Some sv2" "shrinks {} sv1 sv2" "client_at sv2 cid = Some c2"
      "\<forall>k \<in> set ks. cl_streams c2 ! k \<notin> open_streams sv2"
    using Cons.IH [OF s1 c1(1)] c1(2) Cons.prems(4,5) by (auto simp: holds_def client_sub_def)
  have "client_sub c1 c2" using c1(1) shrinks_client [OF sv2(2,3)] by auto
  then have "client_sub c c2" using c1(2) client_sub_trans by blast
  then have "cl_streams c2 ! k = cl_streams c ! k \<or> cl_streams c2 ! k = -1"
    using Cons.prems(5) c(1) by (auto simp: client_sub_def list_all2_conv_all_nth)
  moreover have "-1 \<notin> open_streams sv2" using open_streams_bound [OF shrinks_tables [OF sv2(2)]] by auto
  ultimately have "cl_streams c2 ! k \<notin> open_streams sv2" using sv1(3) shrinks_open [OF sv2(2)] by auto
  then show ?case using sv1(1) sv2 Cons.prems(3) shrinks_trans [OF sv1(2) sv2(2)] by simp
qed

text \<open>The client is cleared of its executed stream first, so it stays until its last slot is done.\<close>

lemma clients_delete_ok:
  assumes "tables_ok sv" "card (open_streams sv) < n" "cid \<noteq> 64"
  shows "holds (clients_delete_with del sv cid) (\<lambda>(r, sv'). shrinks {cid} sv sv' \<and> client_at sv' cid = None \<and>
    (\<forall>c. client_at sv cid = Some c \<longrightarrow> set (cl_streams c) \<inter> open_streams sv' = {}) \<and> (client_at sv cid \<noteq> None \<longrightarrow> r = 0))"
proof (cases "client_at sv cid")
  case None
  then show ?thesis using assms by (simp add: clients_delete_with_def)
next
  case (Some c)
  define sv0 where "sv0 = clients_delete_notify sv cid c"
  have same: "same_tables sv sv0" by (simp add: sv0_def clients_delete_notify_def same_tables_def Let_def log_effects_def)
  let ?c = "c\<lparr>cl_waits := None, cl_execed := -1\<rparr>"
  define sv1 where "sv1 = put_client sv0 cid (Some ?c)"
  have c0: "client_at sv0 cid = Some c" using Some same by (simp add: same_tables_at)
  note sv1 = prepare_client [OF assms(1) same Some, folded sv1_def]
  have len: "length (cl_streams c) = ROAR_CLIENTS_MAX_STREAMS_PER_CLIENT"
    using client_ok_at [OF assms(1) Some] by (simp add: client_ok_def)
  obtain sv2 c2 where sv2: "delete_slots del cid [0..<ROAR_CLIENTS_MAX_STREAMS_PER_CLIENT] sv1 = Some sv2" "shrinks {} sv1 sv2"
      "client_at sv2 cid = Some c2" "\<forall>k < ROAR_CLIENTS_MAX_STREAMS_PER_CLIENT. cl_streams c2 ! k \<notin> open_streams sv2"
    using delete_slots_ok [OF sv1(1) _ sv1(2), of "[0..<ROAR_CLIENTS_MAX_STREAMS_PER_CLIENT]"] assms(2) sv1(3)
    by (auto simp: holds_def)
  define sv3 where "sv3 = (if cl_fh c2 \<noteq> -1 \<and> cl_execed c = -1 then log_effect (Eff_Close (cl_fh c2)) sv2 else sv2)"
  have "same_tables sv2 sv3" by (simp add: sv3_def same_tables_def)
  note fin = finish_client [OF assms(1) Some sv1(3,4,5,2) _ sv2(2-4) this]
  have "clients_delete_with del sv cid = Some (0, put_client sv3 cid None)"
    using Some assms sv2(1,3) by (simp add: clients_delete_with_def sv0_def [symmetric] sv1_def [symmetric] sv3_def Let_def)
  then show ?thesis using fin Some by simp
qed

lemma client_stream_delete_ok:
  assumes "tables_ok sv" "card (open_streams sv) < n" "cid \<noteq> 64" "sid \<notin> open_streams sv" "sid \<noteq> -1"
  shows "holds (client_stream_delete_with del sv cid sid) (\<lambda>(r, sv'). shrinks {} sv sv')"
proof (cases "client_at sv cid")
  case None
  then show ?thesis using assms by (simp add: client_stream_delete_with_def)
next
  case (Some c)
  show ?thesis
  proof (cases "find_slot sid (cl_streams c)")
    case None
    then show ?thesis using assms Some by (simp add: client_stream_delete_with_def)
  next
    case k: (Some k)
    define sv1 where "sv1 = put_client sv cid (Some (c\<lparr>cl_streams := (cl_streams c)[k := -1]\<rparr>))"
    have s1: "shrinks {} sv sv1"
      using shrinks_clear_slot [OF assms(1) Some assms(4)] find_slot_nth [OF k] by (simp add: sv1_def)
    have c1: "client_at sv1 cid = Some (c\<lparr>cl_streams := (cl_streams c)[k := -1]\<rparr>)" by (simp add: sv1_def client_at_put [OF Some])
    have "holds (clients_delete_with del sv1 cid) (\<lambda>(r, sv'). shrinks {} sv sv')" if "sid = cl_execed c"
      by (rule holds_mono [OF clients_delete_ok [OF shrinks_tables [OF s1] _ assms(3)]])
        (use shrinks_card [OF s1 assms(1)] assms(2,5) that c1 in \<open>auto intro!: shrinks_trans [OF s1] shrinks_busy [of cid]\<close>)
    then show ?thesis
      using assms(1,3) Some k s1 by (auto simp: client_stream_delete_with_def sv1_def [symmetric] split_def)
  qed
qed

end

subsection \<open>Releasing a stream\<close>

text \<open>\<open>delete_memory\<close> as releases on the heap, one after the other.\<close>

definition free_if :: "ptr \<Rightarrow> heap \<Rightarrow> heap option" where
  "free_if p h = (if p \<noteq> NULL then map_option snd (roar_buffer_free h p) else Some h)"

lemma free_if_null [simp]: "free_if 0 h = Some h"
  by (simp add: free_if_def)

lemma put_stream_id: "stream_at sv sid = Some s \<Longrightarrow> put_stream sv sid (Some s) = sv"
  using stream_at_range [of sv sid s] by (simp add: put_stream_def list_update_same_conv nat_less_iff)

lemma sv_heap_id [simp]: "sv\<lparr>sv_heap := sv_heap sv\<rparr> = sv"
  by (cases sv) simp

lemma null_outputbuffer: "ss_outputbuffer s = NULL \<Longrightarrow> s\<lparr>ss_outputbuffer := NULL\<rparr> = s"
  by (cases s) simp

lemma null_prethru: "ss_prethru s = NULL \<Longrightarrow> s\<lparr>ss_prethru := NULL\<rparr> = s"
  by (cases s) simp

lemma bind_snd: "(m \<bind> (\<lambda>(_, x). k x)) = map_option snd m \<bind> k"
  by (cases m) auto

lemma destroy_eq:
  assumes "length (sv_streams sv) = 64" "stream_at sv sid = Some s"
  shows "map_option snd (stream_outputbuffer_destroy sv sid) =
      do { h \<leftarrow> free_if (ss_outputbuffer s) (sv_heap sv); Some (put_stream (sv\<lparr>sv_heap := h\<rparr>) sid (Some (s\<lparr>ss_outputbuffer := NULL\<rparr>))) }"
    and "map_option snd (stream_prethru_destroy sv sid) =
      do { h \<leftarrow> free_if (ss_prethru s) (sv_heap sv); Some (put_stream (sv\<lparr>sv_heap := h\<rparr>) sid (Some (s\<lparr>ss_prethru := NULL\<rparr>))) }"
proof -
  have r: "sid \<noteq> 64" using stream_at_range [OF assms(2)] assms(1) by auto
  show "map_option snd (stream_outputbuffer_destroy sv sid) =
      do { h \<leftarrow> free_if (ss_outputbuffer s) (sv_heap sv); Some (put_stream (sv\<lparr>sv_heap := h\<rparr>) sid (Some (s\<lparr>ss_outputbuffer := NULL\<rparr>))) }"
    using r assms by (cases "ss_outputbuffer s = NULL"; cases "roar_buffer_free (sv_heap sv) (ss_outputbuffer s)")
      (auto simp: stream_outputbuffer_destroy_def check_sid_at free_if_def null_outputbuffer put_stream_id)
  show "map_option snd (stream_prethru_destroy sv sid) =
      do { h \<leftarrow> free_if (ss_prethru s) (sv_heap sv); Some (put_stream (sv\<lparr>sv_heap := h\<rparr>) sid (Some (s\<lparr>ss_prethru := NULL\<rparr>))) }"
    using r assms by (cases "ss_prethru s = NULL"; cases "roar_buffer_free (sv_heap sv) (ss_prethru s)")
      (auto simp: stream_prethru_destroy_def check_sid_at free_if_def null_prethru put_stream_id)
qed

lemma put_stream_again:
  "put_stream (put_stream sv sid x\<lparr>sv_heap := h\<rparr>) sid y = put_stream (sv\<lparr>sv_heap := h\<rparr>) sid y"
  "(put_stream sv sid x)\<lparr>sv_heap := h\<rparr> = put_stream (sv\<lparr>sv_heap := h\<rparr>) sid x"
  "put_stream (put_stream sv sid x) sid y = put_stream sv sid y"
  by (simp_all add: put_stream_def)

lemma delete_memory_heap:
  assumes "length (sv_streams sv) = 64" "stream_at sv sid = Some s"
  shows "delete_memory sv sid = do {
     h \<leftarrow> free_if (ss_outputbuffer s) (sv_heap sv);
     h \<leftarrow> free_if (ss_prethru s) h;
     h \<leftarrow> free_if (ss_buffer s) h;
     h \<leftarrow> mm_free h (ss_output s);
     Some (put_stream (sv\<lparr>sv_heap := h\<rparr>) sid (Some (s\<lparr>ss_outputbuffer := NULL, ss_prethru := NULL\<rparr>))) }"
proof -
  have at: "stream_at (put_stream (sv\<lparr>sv_heap := h\<rparr>) sid (Some x)) sid = Some x" for h x
    using stream_at_put [of "sv\<lparr>sv_heap := h\<rparr>" sid s "Some x" sid] stream_at_cong [of "sv\<lparr>sv_heap := h\<rparr>" sv] assms(2) by simp
  have len: "length (sv_streams (put_stream (sv\<lparr>sv_heap := h\<rparr>) sid x)) = 64" for h x using assms(1) by simp
  show ?thesis
    unfolding delete_memory_def bind_snd destroy_eq [OF assms]
    by (cases "ss_buffer s = NULL") (simp_all add: free_if_def [of "ss_buffer s"] destroy_eq(2) [OF len at] at put_stream_again)
qed

lemma owned_free_if: "owned h (p # ps) os \<Longrightarrow> \<exists>h'. free_if p h = Some h' \<and> owned h' ps os"
  using owned_free [of h p ps os] by (auto simp: free_if_def split: if_splits)

lemma concat_map_remove:
  assumes "i < length xs" "f None = []"
  shows "mset (f (xs ! i) @ concat (map f (xs[i := None]))) = mset (concat (map f xs))"
  using mset_concat_update [OF assms(1), of f None] assms(2) by (simp add: ac_simps)

text \<open>The stream's memory is released and its record removed; what the others own is untouched.\<close>

lemma delete_memory_ok:
  assumes "tables_ok sv" "stream_at sv sid = Some s"
  shows "\<exists>h. delete_memory sv sid = Some (put_stream (sv\<lparr>sv_heap := h\<rparr>) sid (Some (s\<lparr>ss_outputbuffer := NULL, ss_prethru := NULL\<rparr>)))
    \<and> tables_ok (put_stream (sv\<lparr>sv_heap := h\<rparr>) sid None)"
proof -
  let ?xs = "sv_streams sv" and ?ys = "(sv_streams sv)[nat sid := None]"
  have r: "nat sid < length ?xs" "?xs ! nat sid = Some s" using stream_at_range [OF assms(2)] by auto
  have p: "mset (stream_ptrs (Some s) @ concat (map stream_ptrs ?ys)) = mset (concat (map stream_ptrs ?xs))"
    "mset (stream_blocks (Some s) @ concat (map stream_blocks ?ys)) = mset (concat (map stream_blocks ?xs))"
    using concat_map_remove [OF r(1), of stream_ptrs] concat_map_remove [OF r(1), of stream_blocks] r(2)
    by (simp_all add: stream_ptrs_def stream_blocks_def)
  have "owned (sv_heap sv) (concat (map stream_ptrs ?xs)) (concat (map stream_blocks ?xs))" using assms(1) by (simp add: tables_ok_def)
  from owned_perm [OF this p]
  have "owned (sv_heap sv) (ss_outputbuffer s # ss_prethru s # ss_buffer s # concat (map stream_ptrs ?ys))
      (ss_output s # concat (map stream_blocks ?ys))" by (simp add: stream_ptrs_def stream_blocks_def)
  then obtain h1 where h1: "free_if (ss_outputbuffer s) (sv_heap sv) = Some h1"
      "owned h1 (ss_prethru s # ss_buffer s # concat (map stream_ptrs ?ys)) (ss_output s # concat (map stream_blocks ?ys))"
    using owned_free_if by blast
  then obtain h2 where h2: "free_if (ss_prethru s) h1 = Some h2"
      "owned h2 (ss_buffer s # concat (map stream_ptrs ?ys)) (ss_output s # concat (map stream_blocks ?ys))"
    using owned_free_if by blast
  then obtain h3 where h3: "free_if (ss_buffer s) h2 = Some h3"
      "owned h3 (concat (map stream_ptrs ?ys)) (ss_output s # concat (map stream_blocks ?ys))"
    using owned_free_if by blast
  then obtain h where h: "mm_free h3 (ss_output s) = Some h" "owned h (concat (map stream_ptrs ?ys)) (concat (map stream_blocks ?ys))"
    using owned_free_block by blast
  have len: "length (sv_streams sv) = 64" using assms(1) by (simp add: tables_ok_def)
  let ?sv = "put_stream (sv\<lparr>sv_heap := h\<rparr>) sid None"
  have at: "stream_at (sv\<lparr>sv_heap := h\<rparr>) = stream_at sv" "client_at ?sv = client_at sv"
    by (rule stream_at_cong, simp, rule client_at_cong, simp)
  then have "stream_at ?sv i = (if i = sid then None else stream_at sv i)" for i
    using stream_at_put [of "sv\<lparr>sv_heap := h\<rparr>" sid s None i] assms(2) by simp
  then have "tables_ok ?sv" using assms(1) h(2) at by (simp add: tables_ok_def)
  then show ?thesis
    using h1(1) h2(1) h3(1) h(1) by (intro exI [of _ h]) (simp add: delete_memory_heap [OF len assms(2)])
qed

subsection \<open>The steps of deleting a stream\<close>

lemma closing_step:
  assumes "tables_ok sv" "stream_at sv sid = Some s"
  defines "sv1 \<equiv> streams_change_state sv sid STREAMSTATE_CLOSING"
  shows "tables_ok sv1" "\<And>i. stream_at sv1 i = (if i = sid then Some (s\<lparr>ss_state := STREAMSTATE_CLOSING\<rparr>) else stream_at sv i)"
    "client_at sv1 = client_at sv" "open_streams sv1 = open_streams sv - {sid}"
proof -
  let ?s = "s\<lparr>ss_state := STREAMSTATE_CLOSING\<rparr>"
  have sv1: "same_tables (put_stream sv sid (Some ?s)) sv1" using assms(2) by (simp add: sv1_def streams_change_state_def)
  have "tables_ok (put_stream sv sid (Some ?s))"
    by (rule tables_ok_put [OF assms(1,2)]) (use stream_ok_at [OF assms(1,2)] in \<open>simp_all add: stream_ok_def stream_ptrs_def stream_blocks_def\<close>)
  then show "tables_ok sv1" using sv1 by (simp add: tables_ok_same)
  show at: "stream_at sv1 i = (if i = sid then Some ?s else stream_at sv i)" for i
    using sv1 by (simp add: same_tables_at stream_at_put [OF assms(2)])
  show "client_at sv1 = client_at sv" by (rule client_at_cong) (use sv1 in \<open>simp add: same_tables_def\<close>)
  show "open_streams sv1 = open_streams sv - {sid}" by (auto simp: open_streams_def at split: if_splits)
qed

lemma delete_shrinks:
  assumes "tables_ok sv" "stream_at sv sid = Some s" "ss_state s \<noteq> STREAMSTATE_CLOSING"
    and "shrinks {} (streams_change_state sv sid STREAMSTATE_CLOSING) sv2"
    and "tables_ok sv'" "\<And>i. stream_at sv' i = (if i = sid then None else stream_at sv2 i)" "client_at sv' = client_at sv2"
  shows "shrinks {} sv sv'" "sid \<notin> open_streams sv'"
proof -
  let ?sv1 = "streams_change_state sv sid STREAMSTATE_CLOSING"
  note c = closing_step [OF assms(1,2)]
  have o': "open_streams sv' = open_streams sv2 - {sid}" by (auto simp: open_streams_def assms(6) split: if_splits)
  have agree: "slots_agree sv'" if "slots_agree sv"
  proof -
    have "slots_agree ?sv1" using that unfolding slots_agree_def c(2-4) by auto
    then have "slots_agree sv2" using shrinks_agree [OF assms(4)] by blast
    then show ?thesis unfolding slots_agree_def assms(6,7) o' by auto
  qed
  show "shrinks {} sv sv'"
  proof (rule shrinksI [OF assms(5)])
    show "\<exists>s. stream_at sv i = Some s \<and> stream_sub s s'" if "stream_at sv' i = Some s'" for i s'
      using that shrinks_stream [OF assms(4), of i s'] by (auto simp: assms(6) c(2) split: if_splits)
    show "stream_at sv' i \<noteq> None" if "stream_at sv i = Some x" "ss_state x = STREAMSTATE_CLOSING" for i x
      using that shrinks_closing [OF assms(4), of i x] assms(2,3) by (auto simp: assms(6) c(2))
    show "\<exists>c. client_at sv i = Some c \<and> client_sub c c'" if "client_at sv' i = Some c'" for i c'
      using that shrinks_client [OF assms(4), of i c'] by (simp add: assms(7) c(3))
    show "client_at sv' i \<noteq> None" if "client_at sv i = Some x" "cl_execed x = -1" "i \<notin> {}" for i x
      using that shrinks_idle [OF assms(4), of i x] by (auto simp: assms(7) c(3))
    show "x \<in> set (cl_streams c')" if "client_at sv i = Some a" "client_at sv' i = Some c'" "x \<in> set (cl_streams a)" "x \<in> open_streams sv'"
      for i a c' x
      using that shrinks_slot [OF assms(4), of i a c' x] by (simp add: assms(7) c(3) o')
  qed (rule agree)
  show "sid \<notin> open_streams sv'" by (simp add: o')
qed

lemma tame_flags: "tame s (s\<lparr>ss_flags := fl\<rparr>)" "tame s (s\<lparr>ss_primary := b\<rparr>)" "tame s (s\<lparr>ss_codecfilter := cf, ss_driver_id := d\<rparr>)"
  by (simp_all add: tame_def stream_ok_def stream_ptrs_def stream_blocks_def)

lemma tame_flags_update: "tame s (ss_flags_update f s)" "tame s (ss_primary_update g s)"
  by (simp_all add: tame_def stream_ok_def stream_ptrs_def stream_blocks_def)

lemma reset_recsource_set:
  assumes "tables_ok sv" "stream_at sv sid = Some s"
  shows "streams_reset_flag io sv sid ROAR_FLAG_RECSOURCE = set_stream (ss_flags_update (\<lambda>fl. (fl OR ROAR_FLAG_RECSOURCE) - ROAR_FLAG_RECSOURCE))
    (if sv_recsource_id sv = sid then sv\<lparr>sv_recsource_id := -1\<rparr> else sv) sid"
proof -
  define sv1 where "sv1 = (if sv_recsource_id sv = sid then sv\<lparr>sv_recsource_id := -1\<rparr> else sv)"
  have same: "same_tables sv sv1" by (simp add: sv1_def same_tables_def)
  have s1: "tables_ok sv1" "stream_at sv1 sid = Some s" using same assms by (simp_all add: tables_ok_same same_tables_at)
  have r: "sid \<noteq> 64" using stream_bound [OF assms] by simp
  show ?thesis
    using assms s1 r by (simp add: streams_reset_flag_def streams_get_dir_def sv1_def [symmetric] flag_defs Let_def)
qed

lemma reset_recsource_ok:
  assumes "tables_ok sv" "stream_at sv sid = Some s"
  shows "holds (streams_reset_flag io sv sid ROAR_FLAG_RECSOURCE) (\<lambda>(r, sv'). shrinks C sv sv')"
proof -
  let ?sv1 = "if sv_recsource_id sv = sid then sv\<lparr>sv_recsource_id := -1\<rparr> else sv"
  have same: "same_tables sv ?sv1" by (simp add: same_tables_def)
  have "tables_ok ?sv1" using same assms(1) by (simp add: tables_ok_same)
  moreover have "sid \<noteq> 64" using stream_bound [OF assms] by simp
  ultimately show ?thesis
    unfolding reset_recsource_set [OF assms] shrinks_same_left [OF same, symmetric] by (intro shrinks_set_stream tame_flags_update)
qed

lemma delete_begin_ok:
  assumes "tables_ok sv" "stream_at sv sid = Some s"
  shows "holds (delete_begin io sv sid) (shrinks {} (streams_change_state sv sid STREAMSTATE_CLOSING))"
proof -
  let ?sv1 = "streams_change_state sv sid STREAMSTATE_CLOSING"
  note c = closing_step [OF assms]
  define sv2 where "sv2 = (let sv = log_effect (Eff_Emit OE_BASICS_DELETE sid OT_STREAM None) ?sv1 in sv\<lparr>sv_cur_streams := sv_cur_streams sv - 1\<rparr>)"
  have same: "same_tables ?sv1 sv2" by (simp add: sv2_def same_tables_def Let_def)
  have s2: "tables_ok sv2" "stream_at sv2 sid = Some (s\<lparr>ss_state := STREAMSTATE_CLOSING\<rparr>)"
    using same c by (simp_all add: tables_ok_same same_tables_at)
  have "delete_begin io sv sid = do { fl \<leftarrow> streams_get_flag sv2 sid ROAR_FLAG_RECSOURCE;
      if fl = 1 then do { (_, sv) \<leftarrow> streams_reset_flag io sv2 sid ROAR_FLAG_RECSOURCE; Some sv } else Some sv2 }"
    unfolding delete_begin_def sv2_def Let_def by (rule refl)
  moreover have "shrinks {} ?sv1 sv2" using shrinks_same [OF same c(1)] .
  ultimately show ?thesis
    using reset_recsource_ok [OF s2, of io "{}"] by (simp add: get_flag_ok [OF s2] split_def shrinks_same_left [OF same])
qed

lemma restored: "s\<lparr>st_pos_rel_id := p, ss_client := q, ss_client := ss_client s, st_pos_rel_id := st_pos_rel_id s\<rparr> = s"
  by (cases s) simp

text \<open>The parent and the owner are put aside while the parent stream is told, and put back.\<close>

lemma delete_ungroup_ok:
  assumes "tables_ok sv" "stream_at sv sid = Some s"
  shows "holds (delete_ungroup io sv sid) (same_tables sv)"
proof -
  let ?s = "s\<lparr>st_pos_rel_id := -1, ss_client := -1\<rparr>"
  define sv1 where "sv1 = put_stream sv sid (Some ?s)"
  have r: "sid \<noteq> 64" using stream_bound [OF assms] by simp
  have ok0: "tables_ok (put_stream sv sid (Some (s\<lparr>st_pos_rel_id := -1\<rparr>)))" and ok1: "tables_ok sv1"
    unfolding sv1_def by (rule tables_ok_put [OF assms]; use stream_ok_at [OF assms] in
      \<open>simp add: stream_ok_def stream_ptrs_def stream_blocks_def table_sizes\<close>)+
  have p: "st_pos_rel_id s \<noteq> 64" using stream_ok_at [OF assms] by (simp add: stream_ok_def table_sizes)
  obtain x sv2 where sv2: "streams_ctl io sv1 (st_pos_rel_id s) (CTL_VIRTUAL_DELETE OR CTL_TYPE_INT) = Some (x, sv2)" "same_tables sv1 sv2"
    using streams_ctl_ok [OF ok1 p] by (fastforce simp: holds_def)
  have s2: "tables_ok sv2" "stream_at sv2 sid = Some ?s"
    using sv2(2) ok1 by (simp_all add: tables_ok_same same_tables_at sv1_def stream_at_put [OF assms(2)])
  let ?sv = "put_stream sv2 sid (Some (s\<lparr>st_pos_rel_id := -1\<rparr>))"
  have fin: "put_stream ?sv sid (Some (s\<lparr>st_pos_rel_id := st_pos_rel_id s\<rparr>)) = put_stream sv2 sid (Some s)"
    using restored [of s "-1" "ss_client s"] by (simp add: put_stream_again)
  have "same_tables sv (put_stream sv2 sid (Some s))"
    using sv2(2) stream_at_range [OF assms(2)] by (simp add: same_tables_def sv1_def list_update_same_conv nat_less_iff)
  moreover have "delete_ungroup io sv sid =
      (if ss_flags s AND ROAR_FLAG_VIRTUAL \<noteq> 0 \<and> st_pos_rel_id s \<noteq> -1 then Some (put_stream sv2 sid (Some s)) else Some sv)"
    using assms r ok0 s2 sv2(1) fin
    by (simp add: delete_ungroup_def get_flag_ok [OF assms] Let_def streams_get_client_def streams_set_client_def set_stream_def
        stream_at_put [OF assms(2)] stream_at_put [OF s2(2)] put_stream_again sv1_def)
  ultimately show ?thesis by (simp add: same_tables_def)
qed

lemma delete_meta_ok:
  assumes "tables_ok sv" "stream_at sv sid = Some s" "ss_state s = STREAMSTATE_CLOSING"
  shows "holds (delete_meta io dup sv sid) (shrinks C sv)"
proof -
  obtain r sv1 where 1: "stream_meta_clear sv sid = Some (r, sv1)" "shrinks C sv sv1"
    using meta_clear_ok [OF assms(1), of sid C] stream_bound [OF assms(1,2)] by (fastforce simp: holds_def)
  obtain s1 where s1: "stream_at sv1 sid = Some s1" using shrinks_closing [OF 1(2) assms(2,3)] by blast
  have "holds (stream_meta_finalize io dup sv1 sid) (\<lambda>(r, sv'). shrinks C sv sv')"
    by (rule holds_mono [OF meta_finalize_ok [OF shrinks_tables [OF 1(2)] s1]]) (auto intro: shrinks_trans [OF 1(2)])
  then show ?thesis using 1(1) assms by (simp add: delete_meta_def get_flag_ok split_def)
qed

lemma delete_backends_ok:
  assumes "tables_ok sv" "stream_at sv sid = Some s"
  shows "holds (delete_backends sv sid) (shrinks C sv)"
proof -
  have "shrinks C (log_effects es sv) (put_stream (log_effects es sv) sid (Some (s\<lparr>ss_codecfilter := -1, ss_driver_id := -1\<rparr>)))" for es
    by (rule shrinks_put) (use assms tame_flags(3) in
      \<open>simp_all add: tables_ok_same [OF same_tables_log(2)] same_tables_at [OF same_tables_log(2)]\<close>)
  then show ?thesis using assms(2) by (simp add: delete_backends_def Let_def shrinks_same_left [OF same_tables_log(2)])
qed

lemma delete_end_ok:
  assumes "tables_ok sv" "stream_at sv sid = Some s"
  shows "holds (delete_memory sv sid) (\<lambda>sv1. holds (delete_end b sv1 sid) (\<lambda>sv'. tables_ok sv' \<and>
    (\<forall>i. stream_at sv' i = (if i = sid then None else stream_at sv i)) \<and> client_at sv' = client_at sv))"
proof -
  let ?s = "s\<lparr>ss_outputbuffer := NULL, ss_prethru := NULL\<rparr>"
  obtain h where h: "delete_memory sv sid = Some (put_stream (sv\<lparr>sv_heap := h\<rparr>) sid (Some ?s))" "tables_ok (put_stream (sv\<lparr>sv_heap := h\<rparr>) sid None)"
    using delete_memory_ok [OF assms] by blast
  let ?sv0 = "sv\<lparr>sv_heap := h\<rparr>"
  let ?sv1 = "put_stream ?sv0 sid (Some ?s)"
  have at0: "stream_at ?sv0 = stream_at sv" "client_at ?sv0 = client_at sv" by (rule stream_at_cong, simp, rule client_at_cong, simp)
  have at1: "stream_at ?sv1 sid = Some ?s" using stream_at_put [of ?sv0 sid s] at0 assms(2) by simp
  have "holds (delete_end b ?sv1 sid) (same_tables (put_stream ?sv0 sid None))"
    using at1 by (auto simp: delete_end_def Let_def same_tables_def)
  then have "holds (delete_end b ?sv1 sid) (\<lambda>sv'. tables_ok sv' \<and>
    (\<forall>i. stream_at sv' i = (if i = sid then None else stream_at sv i)) \<and> client_at sv' = client_at sv)"
    by (rule holds_mono) (use h(2) stream_at_put [of ?sv0 sid s None] at0 assms(2) client_at_cong [of "put_stream ?sv0 sid None" sv] in
      \<open>simp add: tables_ok_same same_tables_at\<close>)
  then show ?thesis using h(1) by simp
qed

context deleter
begin

text \<open>A stream that is marked stays until it is detached from everything.\<close>

lemma delete_detach_ok:
  assumes "tables_ok sv" "card (open_streams sv) < n" "stream_at sv sid = Some s" "ss_state s = STREAMSTATE_CLOSING"
  shows "holds (delete_detach io dup del sv sid) (\<lambda>(b, sv'). shrinks {} sv sv')"
proof -
  have stays: "\<exists>s'. stream_at sv' sid = Some s' \<and> ss_state s' = STREAMSTATE_CLOSING \<and> ss_client s' = ss_client s" if "shrinks {} sv sv'" for sv'
    using shrinks_closing [OF that assms(3,4)] assms(4) by (auto simp: stream_sub_def)
  obtain sv1 where 1: "delete_children del sid [0..<nat ROAR_STREAMS_MAX] sv = Some sv1" "shrinks {} sv sv1"
    using delete_children_ok [OF assms(1,2), of "[0..<nat ROAR_STREAMS_MAX]" sid] by (auto simp: holds_def table_sizes)
  obtain s1 where s1: "stream_at sv1 sid = Some s1" using stays [OF 1(2)] by blast
  define sv2 where "sv2 = (if st_dir s1 = ROAR_DIR_THRU then sv1\<lparr>sv_thru_num := sv_thru_num sv1 - 1\<rparr> else sv1)"
  have same: "same_tables sv1 sv2" by (simp add: sv2_def same_tables_def)
  then have s2: "tables_ok sv2" "stream_at sv2 sid = Some s1" using s1 shrinks_tables [OF 1(2)] by (simp_all add: tables_ok_same same_tables_at)
  obtain sv3 where 3: "delete_ungroup io sv2 sid = Some sv3" "same_tables sv2 sv3"
    using delete_ungroup_ok [OF s2, of io] by (auto simp: holds_def)
  have "same_tables sv1 sv3" using same 3(2) by (simp add: same_tables_def)
  then have sh3: "shrinks {} sv sv3" using 1(2) shrinks_same [OF _ shrinks_tables [OF 1(2)]] by (blast intro: shrinks_trans)
  then obtain s3 where s3: "stream_at sv3 sid = Some s3" "ss_state s3 = STREAMSTATE_CLOSING" using stays by blast
  obtain sv4 where 4: "delete_meta io dup sv3 sid = Some sv4" "shrinks {} sv3 sv4"
    using delete_meta_ok [OF shrinks_tables [OF sh3] s3, of io dup "{}"] by (auto simp: holds_def)
  have sh4: "shrinks {} sv sv4" using shrinks_trans [OF sh3 4(2)] .
  obtain s4 where s4: "stream_at sv4 sid = Some s4" using stays [OF sh4] by blast
  obtain sv5 where 5: "delete_backends sv4 sid = Some sv5" "shrinks {} sv4 sv5"
    using delete_backends_ok [OF shrinks_tables [OF sh4] s4, of "{}"] by (auto simp: holds_def)
  have sh5: "shrinks {} sv sv5" using shrinks_trans [OF sh4 5(2)] .
  have last: "holds (client_stream_delete_with del sv5 (ss_client s4) sid) (\<lambda>(r, sv'). shrinks {} sv sv')"
    by (rule holds_mono [OF client_stream_delete_ok [OF shrinks_tables [OF sh5]]])
      (use shrinks_card [OF sh5 assms(1)] assms(2) stream_ok_at [OF shrinks_tables [OF sh4] s4] stays [OF sh5] stream_bound [OF assms(1,3)]
        in \<open>auto simp: stream_ok_def table_sizes open_streams_def intro: shrinks_trans [OF sh5]\<close>)
  show ?thesis using 1(1) s1 3(1) 4(1) s4 5(1) last sh5 by (simp add: delete_detach_def Let_def sv2_def [symmetric] split_def)
qed

lemma streams_delete_step_ok:
  assumes "tables_ok sv" "card (open_streams sv) < Suc n" "sid \<noteq> 64"
  shows "holds (streams_delete_step io dup del sv sid) (\<lambda>(r, sv'). shrinks {} sv sv' \<and> sid \<notin> open_streams sv')"
proof (cases "\<exists>s. stream_at sv sid = Some s \<and> ss_state s \<noteq> STREAMSTATE_CLOSING")
  case False
  then show ?thesis using assms by (auto simp: streams_delete_step_def open_streams_def split: option.split)
next
  case True
  then obtain s where s: "stream_at sv sid = Some s" "ss_state s \<noteq> STREAMSTATE_CLOSING" by blast
  let ?sv1 = "streams_change_state sv sid STREAMSTATE_CLOSING"
  note c = closing_step [OF assms(1) s(1)]
  obtain sv2 where 2: "delete_begin io sv sid = Some sv2" "shrinks {} ?sv1 sv2"
    using delete_begin_ok [OF assms(1) s(1), of io] by (auto simp: holds_def)
  have stays: "\<exists>s'. stream_at sv' sid = Some s' \<and> ss_state s' = STREAMSTATE_CLOSING" if "shrinks {} ?sv1 sv'" for sv'
    using shrinks_closing [OF that, of sid] by (fastforce simp: c(2) stream_sub_def)
  have "sid \<in> open_streams sv" using s by (simp add: open_streams_def)
  then have "card (open_streams ?sv1) < n" using card_Diff1_less [OF finite_open [OF assms(1)]] assms(2) unfolding c(4) by fastforce
  then have small: "card (open_streams sv2) < n" using shrinks_card [OF 2(2) c(1)] by simp
  obtain s2 where s2: "stream_at sv2 sid = Some s2" "ss_state s2 = STREAMSTATE_CLOSING" using stays [OF 2(2)] by blast
  obtain b sv3 where 3: "delete_detach io dup del sv2 sid = Some (b, sv3)" "shrinks {} sv2 sv3"
    using delete_detach_ok [OF shrinks_tables [OF 2(2)] small s2, of io dup] by (auto simp: holds_def)
  have sh3: "shrinks {} ?sv1 sv3" using shrinks_trans [OF 2(2) 3(2)] .
  obtain s3 where s3: "stream_at sv3 sid = Some s3" using stays [OF sh3] by blast
  have "holds (delete_memory sv3 sid) (\<lambda>sv4. holds (delete_end b sv4 sid) (\<lambda>sv'. shrinks {} sv sv' \<and> sid \<notin> open_streams sv'))"
    by (rule holds_mono [OF delete_end_ok [OF shrinks_tables [OF sh3] s3]], erule holds_mono)
      (use delete_shrinks [OF assms(1) s sh3] in blast)
  then show ?thesis using assms(1,3) s 2(1) 3(1) by (simp add: streams_delete_step_def)
qed

end

subsection \<open>The model's own deletion\<close>

lemma deleter_fuel: "deleter n (streams_delete_fuel io dup n)"
proof (induction n)
  case 0
  then show ?case by unfold_locales simp
next
  case (Suc n)
  show ?case
    using deleter.streams_delete_step_ok [OF Suc] by unfold_locales simp
qed

interpretation full: deleter "Suc (nat ROAR_STREAMS_MAX)" "streams_delete io dup" for io dup
  using deleter_fuel [of "Suc (nat ROAR_STREAMS_MAX)" io dup] by (simp add: streams_delete_def [abs_def] del: streams_delete_fuel.simps)

lemma card_open: "tables_ok sv \<Longrightarrow> card (open_streams sv) < Suc (nat ROAR_STREAMS_MAX)"
  using card_mono [OF _ open_streams_bound, of sv] by (simp add: table_sizes)

end
