(* ===== verification/Conv_Volume.thy ===== *)
theory Conv_Volume
  imports Pcm_Amp
begin

text \<open>
  Volume settings between channel counts, \<open>roar_conv_volume\<close> of \<open>src/libroar/ctl.c\<close>. The settings of the source are
  copied when both may be the same object, so the result depends on the values alone. \<open>None\<close> is undefined behaviour: a
  division by no channels, or an index behind the \<open>ROAR_MAX_CHANNELS\<close> volumes.
\<close>

text \<open>The volumes written for two to six source channels; \<open>None\<close> where the code returns -1.\<close>

definition volume_rule :: "int \<Rightarrow> int \<Rightarrow> int list \<Rightarrow> int list option" where
  "volume_rule sc dc v =
     (let a = v ! 0; b = v ! 1; c = v ! 2; d = v ! 3; e = v ! 4; f = v ! 5 in
      if sc = 2 then
        (if dc = 3 then Some [a, b, (a + b) sdiv 2]
         else if dc = 4 then Some [a, b, a, b]
         else if dc = 5 then Some [a, b, (a + b) sdiv 2, a, b]
         else if dc = 6 then Some [a, b, (a + b) sdiv 2, (a + b) sdiv 2, a, b]
         else None)
      else if sc = 3 then
        (if dc = 2 then Some [a, b]
         else if dc = 4 then Some [a, b, a, b]
         else if dc = 5 then Some [a, b, c, a, b]
         else if dc = 6 then Some [a, b, c, c, a, b]
         else None)
      else if sc = 4 then
        (if dc = 2 then Some [(a + c) sdiv 2, (b + d) sdiv 2]
         else if dc = 3 then Some [(a + c) sdiv 2, (b + d) sdiv 2, ((a + c) sdiv 2 + (b + d) sdiv 2) sdiv 2]
         else if dc = 5 then Some [a, b, (a + c + b + d) sdiv 4, c, d]
         else if dc = 6 then Some [a, b, (a + c + b + d) sdiv 4, (a + c + b + d) sdiv 4, c, d]
         else None)
      else if sc = 5 then
        (if dc = 2 then Some [(a + d) sdiv 2, (b + e) sdiv 2]
         else if dc = 3 then Some [(a + d) sdiv 2, (b + e) sdiv 2, c]
         else if dc = 4 then Some [a, b, d, e]
         else if dc = 6 then Some [a, b, c, c, d, e]
         else None)
      else if sc = 6 then
        (if dc = 2 then Some [(a + e) sdiv 2, (b + f) sdiv 2]
         else if dc = 3 then Some [(a + e) sdiv 2, (b + f) sdiv 2, c]
         else if dc = 4 then Some [a, b, e, f]
         else if dc = 5 then Some [a, b, c, e, f]
         else None)
      else None)"

text \<open>The first entries of the destination are replaced; the scale and the replay gain come from the source.\<close>

definition volume_store :: "roar_mixer_settings \<Rightarrow> roar_mixer_settings \<Rightarrow> int list \<Rightarrow> roar_mixer_settings" where
  "volume_store dst src vs = src\<lparr>mixer := vs @ drop (length vs) (mixer dst)\<rparr>"

definition roar_conv_volume ::
    "roar_mixer_settings option \<Rightarrow> roar_mixer_settings option \<Rightarrow> c_int \<Rightarrow> c_int \<Rightarrow> (c_int \<times> roar_mixer_settings option) option" where
  "roar_conv_volume dst src dstchans srcchans =
     (if dst = None \<or> src = None \<or> dstchans < 0 \<or> srcchans < 0 then Some (-1, dst)
      else if dstchans = srcchans then Some (0, src)
      else if dstchans = 1 then
        if srcchans = 0 \<or> srcchans > 64 then None
        else let s = sum_list (take (nat srcchans) (mixer (the src)))
             in Some (0, Some (volume_store (the dst) (the src) [wrap_u 16 (wrap_u 32 s div srcchans)]))
      else if srcchans = 1 then
        if dstchans > 64 then None
        else Some (0, Some (volume_store (the dst) (the src) (replicate (nat dstchans) (mixer (the src) ! 0))))
      else case volume_rule srcchans dstchans (mixer (the src)) of None \<Rightarrow> Some (-1, dst)
        | Some vs \<Rightarrow> Some (0, Some (volume_store (the dst) (the src) vs)))"

subsection \<open>Bounds and round trips\<close>

definition volumes_ok :: "roar_mixer_settings \<Rightarrow> bool" where
  "volumes_ok st \<longleftrightarrow> length (mixer st) = 64 \<and> (\<forall>v \<in> set (mixer st). 0 \<le> v \<and> v < 2 ^ 16)"

lemma avg2: "0 \<le> lo \<Longrightarrow> lo \<le> a \<Longrightarrow> a \<le> hi \<Longrightarrow> lo \<le> b \<Longrightarrow> b \<le> hi \<Longrightarrow> lo \<le> (a + b) sdiv 2 \<and> (a + b) sdiv 2 \<le> (hi :: int)"
  by (simp add: sdiv_pos; linarith)

lemma avg4:
  "0 \<le> lo \<Longrightarrow> lo \<le> a \<Longrightarrow> a \<le> hi \<Longrightarrow> lo \<le> b \<Longrightarrow> b \<le> hi \<Longrightarrow> lo \<le> c \<Longrightarrow> c \<le> hi \<Longrightarrow> lo \<le> d \<Longrightarrow> d \<le> hi \<Longrightarrow>
    lo \<le> (a + c + b + d) sdiv 4 \<and> (a + c + b + d) sdiv 4 \<le> (hi :: int)"
  by (simp add: sdiv_pos; linarith)

definition within :: "int \<Rightarrow> int \<Rightarrow> int \<Rightarrow> bool" where
  "within lo hi x \<longleftrightarrow> 0 \<le> lo \<and> lo \<le> x \<and> x \<le> hi"

lemma within_avg2: "within lo hi a \<Longrightarrow> within lo hi b \<Longrightarrow> within lo hi ((a + b) sdiv 2)"
  using avg2 [of lo a hi b] by (simp add: within_def)

lemma within_avg4: "within lo hi a \<Longrightarrow> within lo hi b \<Longrightarrow> within lo hi c \<Longrightarrow> within lo hi d \<Longrightarrow> within lo hi ((a + c + b + d) sdiv 4)"
  using avg4 [of lo a hi b c d] by (simp add: within_def)

lemma volume_rule_within:
  assumes "volume_rule sc dc v = Some vs" "\<And>i. i < nat sc \<Longrightarrow> within lo hi (v ! i)"
  shows "length vs = nat dc \<and> list_all (within lo hi) vs"
proof -
  consider "sc = 2" | "sc = 3" | "sc = 4" | "sc = 5" | "sc = 6" using assms(1) by (auto simp: volume_rule_def Let_def split: if_splits)
  then show ?thesis
    by cases (use assms in \<open>auto simp: volume_rule_def Let_def within_avg2 within_avg4 split: if_splits\<close>)
qed

lemma sum_within:
  "list_all (within lo hi) xs \<Longrightarrow> int (length xs) * lo \<le> sum_list xs \<and> sum_list xs \<le> int (length xs) * hi"
  by (induction xs) (auto simp: within_def algebra_simps)

lemma mean_within:
  assumes "list_all (within lo hi) xs" "xs \<noteq> []"
  shows "within lo hi (sum_list xs div int (length xs))"
proof -
  have "0 \<le> lo" using assms by (cases xs) (auto simp: within_def)
  then show ?thesis
    using assms(2) sum_within [OF assms(1)] zdiv_mono1 [of "int (length xs) * lo" "sum_list xs" "int (length xs)"]
      zdiv_mono1 [of "sum_list xs" "int (length xs) * hi" "int (length xs)"] by (simp add: within_def)
qed

lemma conv_volume_defined:
  assumes "length (mixer src) = 64" "length (mixer dst) = 64" "1 \<le> sc" "sc \<le> 64" "0 \<le> dc" "dc \<le> 64"
  shows "\<exists>r res. roar_conv_volume (Some dst) (Some src) dc sc = Some (r, Some res) \<and> length (mixer res) = 64"
proof (cases "volume_rule sc dc (mixer src)")
  case None
  then show ?thesis using assms by (auto simp: roar_conv_volume_def volume_store_def Let_def)
next
  case (Some vs)
  have "length vs \<le> 64" using Some by (auto simp: volume_rule_def Let_def split: if_splits)
  then show ?thesis using Some assms by (auto simp: roar_conv_volume_def volume_store_def Let_def)
qed

text \<open>Converting volume settings between channel counts never invents a volume: for one to 64 source channels the
  call is defined; where it succeeds every destination channel has a volume between the smallest and the largest source
  volume, with the scale and the replay gain of the source, and otherwise the destination is unchanged.\<close>

theorem conv_volume_between:
  assumes "length (mixer src) = 64" "length (mixer dst) = 64" "1 \<le> sc" "sc \<le> 64" "0 \<le> dc" "dc \<le> 64"
    and "\<And>i. i < nat sc \<Longrightarrow> within lo hi (mixer src ! i)" "hi < 2 ^ 16"
  shows "\<exists>r res. roar_conv_volume (Some dst) (Some src) dc sc = Some (r, Some res) \<and> length (mixer res) = 64 \<and>
    (r = -1 \<and> res = dst \<or> r = 0 \<and> list_all (within lo hi) (take (nat dc) (mixer res)) \<and>
      scale res = scale src \<and> rpg_mul res = rpg_mul src \<and> rpg_div res = rpg_div src)"
proof -
  have src: "list_all (within lo hi) (take (nat sc) (mixer src))" using assms(1,4,7) by (simp add: list_all_length)
  consider (same) "dc = sc" | (mono) "dc \<noteq> sc" "dc = 1" | (fan) "dc \<noteq> sc" "dc \<noteq> 1" "sc = 1" | (rule) "dc \<noteq> sc" "dc \<noteq> 1" "sc \<noteq> 1" by blast
  then show ?thesis
  proof cases
    case same
    then show ?thesis using assms src by (simp add: roar_conv_volume_def)
  next
    case mono
    let ?xs = "take (nat sc) (mixer src)"
    have len: "int (length ?xs) = sc" "?xs \<noteq> []" using assms(1,3,4) by auto
    have m: "within lo hi (sum_list ?xs div sc)" using mean_within [OF src len(2)] len(1) by simp
    have "0 \<le> lo" "lo \<le> hi" using m by (simp_all add: within_def)
    then have "0 \<le> sc * lo" "sc * hi \<le> 64 * hi" using assms(3,4) by (simp_all add: mult_right_mono)
    then have "0 \<le> sum_list ?xs" "sum_list ?xs < 2 ^ 32" using sum_within [OF src] len(1) assms(8) by auto
    then have "wrap_u 16 (wrap_u 32 (sum_list ?xs) div sc) = sum_list ?xs div sc"
      using m assms(8) by (simp add: wrap_u_id within_def)
    then show ?thesis using assms mono m by (simp add: roar_conv_volume_def volume_store_def Let_def)
  next
    case fan
    then have "within lo hi (mixer src ! 0)" using assms(7) [of 0] by simp
    then show ?thesis using fan assms by (simp add: roar_conv_volume_def volume_store_def list_all_iff)
  next
    case rule
    have "length vs = nat dc \<and> list_all (within lo hi) vs" if "volume_rule sc dc (mixer src) = Some vs" for vs
      using volume_rule_within [OF that assms(7)] .
    then show ?thesis using rule assms
      by (cases "volume_rule sc dc (mixer src)") (auto simp: roar_conv_volume_def volume_store_def)
  qed
qed

text \<open>All channels of a sample setting have the volume 1000 but the second, which has 3000.\<close>

definition sample_volume :: roar_mixer_settings where
  "sample_volume = \<lparr>scale = 65535, rpg_mul = 1, rpg_div = 1, mixer = (replicate 64 1000)[1 := 3000]\<rparr>"

theorem conv_volume_between_witness:
  "\<exists>res. roar_conv_volume (Some sample_volume) (Some sample_volume) 5 2 = Some (0, Some res) \<and>
     list_all (within 1000 3000) (take 5 (mixer res))"
proof -
  have w: "within 1000 3000 (mixer sample_volume ! i)" if "i < nat 2" for i
    using that by (cases i) (auto simp: sample_volume_def within_def nth_list_update)
  have r: "fst (the (roar_conv_volume (Some sample_volume) (Some sample_volume) 5 2)) = 0"
    by (simp add: roar_conv_volume_def volume_rule_def Let_def)
  show ?thesis
    using conv_volume_between [of sample_volume sample_volume 2 5 1000 3000, OF _ _ _ _ _ _ w] r by (fastforce simp: sample_volume_def)
qed

text \<open>Stereo volumes survive a detour over three, four, five or six channels.\<close>

theorem conv_volume_roundtrip:
  assumes "length (mixer st) = 64" "length (mixer tmp) = 64" "0 \<le> mixer st ! 0" "0 \<le> mixer st ! 1" "3 \<le> n" "n \<le> 6"
  shows "\<exists>up dn. roar_conv_volume (Some tmp) (Some st) n 2 = Some (0, Some up) \<and> roar_conv_volume (Some st) (Some up) 2 n = Some (0, Some dn)
    \<and> dn = st"
proof -
  have av: "(x + x) sdiv 2 = x" if "0 \<le> x" for x :: int using that by (simp add: sdiv_pos)
  obtain a b ms where m: "mixer st = a # b # ms"
    using assms(1) by (cases "mixer st"; cases "tl (mixer st)") auto
  have st: "st = \<lparr>scale = scale st, rpg_mul = rpg_mul st, rpg_div = rpg_div st, mixer = a # b # ms\<rparr>" using m by (cases st) simp
  consider "n = 3" | "n = 4" | "n = 5" | "n = 6" using assms(5,6) by linarith
  then show ?thesis
    by cases (use assms m st av in \<open>auto simp: roar_conv_volume_def volume_rule_def volume_store_def Let_def\<close>)
qed

theorem conv_volume_roundtrip_witness:
  "\<exists>up. roar_conv_volume (Some sample_volume) (Some sample_volume) 5 2 = Some (0, Some up) \<and>
     roar_conv_volume (Some sample_volume) (Some up) 2 5 = Some (0, Some sample_volume)"
  using conv_volume_roundtrip [of sample_volume sample_volume 5] by (auto simp: sample_volume_def)

end
