(* ===== verification/Server_Ops.thy ===== *)
theory Server_Ops
  imports Server_Delete Conv_Volume
begin

text \<open>
  Operations of the client and stream tables that work on more than one entry, \<open>src/roard/clients.c\<close>,
  \<open>src/roard/streams.c\<close> and \<open>src/roard/mixer.c\<close>: ownership and executed streams, flags, volume settings, the direction of a
  stream, virtual streams and file handles. \<open>server_config\<close> has what the operations read of \<open>g_config\<close> and of the
  subsystem mixers. An access \<open>g_streams[id]->...\<close> after a call that can delete the stream is \<open>None\<close> when the entry is
  gone.
\<close>

record server_config =
  cf_flags :: "c_int \<Rightarrow> 32 word"
  cf_scale :: "c_int \<Rightarrow> int"
  cf_rpg_mul :: "c_int \<Rightarrow> int"
  cf_rpg_div :: "c_int \<Rightarrow> int"
  cf_waveform_mixer :: c_int
  cf_midi_mixer :: c_int
  cf_light_mixer :: c_int
  cf_self_client :: c_int

subsection \<open>Ownership\<close>

definition client_stream_add :: "server \<Rightarrow> c_int \<Rightarrow> c_int \<Rightarrow> server_result" where
  "client_stream_add sv cid sid = check_cid sv cid (-1, sv) (\<lambda>c.
     case find_slot (-1) (cl_streams c) of None \<Rightarrow> Some (-1, sv)
     | Some k \<Rightarrow> do {
         (_, sv) \<leftarrow> streams_set_client (put_client sv cid (Some (c\<lparr>cl_streams := (cl_streams c)[k := sid]\<rparr>))) sid cid;
         Some (0, sv)
       })"

definition client_stream_move :: "server_io \<Rightarrow> bool \<Rightarrow> server \<Rightarrow> c_int \<Rightarrow> c_int \<Rightarrow> server_result" where
  "client_stream_move io dup sv cid sid = do {
     old \<leftarrow> streams_get_client sv sid;
     (r, sv) \<leftarrow> (if old \<noteq> -1 then client_stream_delete io dup sv old sid else Some (0, sv));
     if r = -1 then Some (-1, sv) else client_stream_add sv cid sid
   }"

text \<open>\<open>peer\<close> is the address that \<open>roar_nnode_new_from_fh\<close> stores for the peer of \<open>fh\<close>.\<close>

definition clients_new_from_fh ::
    "server_io \<Rightarrow> bool \<Rightarrow> (c_int \<Rightarrow> (c_int \<times> c_int \<times> c_int) option) \<Rightarrow> (c_int \<Rightarrow> roar_nnode) \<Rightarrow> server \<Rightarrow> c_int \<Rightarrow> c_int \<Rightarrow> c_int
      \<Rightarrow> bool \<Rightarrow> server_result" where
  "clients_new_from_fh io dup cred peer sv fh proto byteorder update_nnode =
     (if fh = -1 \<or> proto \<noteq> PROTO_ROARAUDIO \<or> byteorder \<noteq> BYTEORDER_NETWORK then Some (-1, sv)
      else do {
        (cid, sv) \<leftarrow> clients_new sv;
        if cid = -1 then Some (-1, sv)
        else do {
          (r, sv) \<leftarrow> clients_set_fh cred sv cid fh;
          if r = -1 then do { (_, sv) \<leftarrow> clients_delete io dup sv cid; Some (-1, sv) }
          else do {
            (_, sv) \<leftarrow> (if update_nnode then set_client (cl_nnode_update (\<lambda>_. peer fh)) sv cid else Some (0, sv));
            Some (0, sv)
          }
        }
      })"

text \<open>\<open>subs\<close> are the results of the calls that subscribe, in order, \<open>NULL\<close> for a failed one, and \<open>ok\<close> says whether the
  list can be allocated.\<close>

definition clients_wait :: "bool \<Rightarrow> server \<Rightarrow> c_int \<Rightarrow> ptr list \<Rightarrow> server_result" where
  "clients_wait ok sv cid subs = check_cid sv cid (-1, sv) (\<lambda>c.
     if cl_waits c \<noteq> None \<or> \<not> ok then Some (-1, sv)
     else do {
       (_, sv) \<leftarrow> clients_block sv cid False;
       let done = takeWhile (\<lambda>p. p \<noteq> NULL) subs;
       if length done < length subs then do {
         (_, sv) \<leftarrow> clients_block (log_effects (map Eff_Unsubscribe done) sv) cid True;
         Some (-1, sv)
       }
       else set_client (cl_waits_update (\<lambda>_. Some done)) sv cid
     })"

subsection \<open>Flags and volume settings\<close>

definition CTL_VIRTUAL_NEW :: "32 word" where "CTL_VIRTUAL_NEW = 0x01002005"

definition set_virtual :: "server_io \<Rightarrow> bool \<Rightarrow> server \<Rightarrow> c_int \<Rightarrow> server_result" where
  "set_virtual io dup sv sid = do {
     s \<leftarrow> stream_at sv sid;
     let parent = st_pos_rel_id s;
     if parent = -1 then Some (-1, sv)
     else do {
       (r, sv) \<leftarrow> streams_ctl io sv parent (CTL_VIRTUAL_NEW OR CTL_TYPE_INT);
       if r = -1 then Some (-1, sv)
       else do { cid \<leftarrow> streams_get_client sv parent; client_stream_move io dup sv cid sid }
     }
   }"

definition set_hwmixer :: "(server \<Rightarrow> c_int \<Rightarrow> server_result) \<Rightarrow> server \<Rightarrow> c_int \<Rightarrow> 32 word \<Rightarrow> server_result" where
  "set_hwmixer set_mixer sv sid flag = do {
     (_, sv) \<leftarrow> set_stream (ss_flags_update (\<lambda>fl. fl OR flag)) sv sid;
     (r, sv) \<leftarrow> set_mixer sv sid;
     if r = -1 then do { s \<leftarrow> stream_at sv sid; Some (-1, put_stream sv sid (Some (s\<lparr>ss_flags := ss_flags s - flag\<rparr>))) }
     else Some (0, sv)
   }"

definition set_recsource :: "server_io \<Rightarrow> server \<Rightarrow> c_int \<Rightarrow> server_result" where
  "set_recsource io sv sid = do {
     (r, sv) \<leftarrow> (if sv_recsource_id sv \<noteq> -1 then streams_reset_flag io sv (sv_recsource_id sv) ROAR_FLAG_RECSOURCE else Some (0, sv));
     if r = -1 then Some (-1, sv) else Some (0, sv\<lparr>sv_recsource_id := sid\<rparr>)
   }"

text \<open>For all but \<open>BRIDGE\<close> and \<open>MIDI_OUT\<close> streams the flag \<open>SYNC\<close> makes the VIO block, unless that is done when the
  stream gets ready.\<close>

definition wants_sync :: "server_config \<Rightarrow> roar_stream_server \<Rightarrow> bool" where
  "wants_sync cfg s \<longleftrightarrow> st_dir s \<noteq> ROAR_DIR_BRIDGE \<and> st_dir s \<noteq> ROAR_DIR_MIDI_OUT \<and> \<not> ss_ready s \<and>
     cf_flags cfg (st_dir s) AND ROAR_FLAG_SYNC = 0"

definition streams_set_flag_with ::
    "server_io \<Rightarrow> bool \<Rightarrow> server_config \<Rightarrow> (server \<Rightarrow> c_int \<Rightarrow> server_result) \<Rightarrow> server \<Rightarrow> c_int \<Rightarrow> 32 word \<Rightarrow> server_result" where
  "streams_set_flag_with io dup cfg set_mixer sv sid flag = check_sid sv sid (-1, sv) (\<lambda>_. do {
     let flag = (if flag AND ROAR_FLAG_IMMUTABLE \<noteq> 0 then flag OR ROAR_FLAG_PRIMARY else flag);
     mm \<leftarrow> (if flag AND ROAR_FLAG_MMAP \<noteq> 0 then streams_set_mmap io sv sid False else Some 0);
     let flag = (if mm = -1 then flag - ROAR_FLAG_MMAP else flag);
     (_, sv) \<leftarrow> (if flag AND ROAR_FLAG_PRIMARY \<noteq> 0 then streams_set_primary sv sid True else Some (0, sv));
     let flag = (if flag AND ROAR_FLAG_PRIMARY \<noteq> 0 then flag - ROAR_FLAG_PRIMARY else flag);
     (r, sv) \<leftarrow> (if flag AND ROAR_FLAG_VIRTUAL \<noteq> 0 then set_virtual io dup sv sid else Some (0, sv));
     if r = -1 then Some (-1, sv)
     else do {
       s \<leftarrow> stream_at sv sid;
       sy \<leftarrow> (if flag AND ROAR_FLAG_SYNC \<noteq> 0 \<and> wants_sync cfg s then streams_set_sync io sv sid True else Some 0);
       let flag = (if sy = -1 then flag - ROAR_FLAG_SYNC else flag);
       (r, sv) \<leftarrow> (if flag AND ROAR_FLAG_HWMIXER \<noteq> 0 then set_hwmixer set_mixer sv sid flag else Some (0, sv));
       if r = -1 then Some (-1, sv)
       else do {
         (r, sv) \<leftarrow> (if flag AND ROAR_FLAG_RECSOURCE \<noteq> 0 then set_recsource io sv sid else Some (0, sv));
         if r = -1 then Some (-1, sv)
         else do {
           s \<leftarrow> stream_at sv sid;
           let sv = put_stream sv sid (Some (s\<lparr>ss_flags := ss_flags s OR flag\<rparr>));
           (_, sv) \<leftarrow> (if flag AND ROAR_FLAG_META \<noteq> 0 then stream_meta_finalize io dup sv sid else Some (0, sv));
           Some (0, sv)
         }
       }
     }
   })"

text \<open>A stream with the flag \<open>PASSMIXER\<close> hands its volume to the other streams of its subsystem that have it. Their flag is
  taken away for the recursive call and given back.\<close>

definition pass_volume :: "server_io \<Rightarrow> bool \<Rightarrow> server_config \<Rightarrow> (server \<Rightarrow> c_int \<Rightarrow> server_result) \<Rightarrow> c_int \<Rightarrow> server \<Rightarrow> c_int \<Rightarrow> server option" where
  "pass_volume io dup cfg rec sid sv i = do {
     ss \<leftarrow> stream_at sv sid;
     pm \<leftarrow> stream_at sv i;
     sv \<leftarrow> (if i = sid then Some sv
           else do {
             (_, mx) \<leftarrow> roar_conv_volume (Some (ss_mixer pm)) (Some (ss_mixer ss)) (channels (st_info pm)) (channels (st_info ss));
             Some (put_stream sv i (Some (pm\<lparr>ss_mixer := the mx\<rparr>)))
           });
     (_, sv) \<leftarrow> streams_reset_flag io sv i ROAR_FLAG_PASSMIXER;
     (_, sv) \<leftarrow> rec sv i;
     (_, sv) \<leftarrow> streams_set_flag_with io dup cfg rec sv i ROAR_FLAG_PASSMIXER;
     Some sv
   }"

fun pass_volumes ::
    "server_io \<Rightarrow> bool \<Rightarrow> server_config \<Rightarrow> (server \<Rightarrow> c_int \<Rightarrow> server_result) \<Rightarrow> c_int \<Rightarrow> c_int \<Rightarrow> nat list \<Rightarrow> server \<Rightarrow> server option" where
  "pass_volumes io dup cfg rec sid subsys [] sv = Some sv"
| "pass_volumes io dup cfg rec sid subsys (i # is) sv =
     (case stream_at sv (int i) of None \<Rightarrow> pass_volumes io dup cfg rec sid subsys is sv
      | Some pm \<Rightarrow>
        if ss_flags pm AND ROAR_FLAG_PASSMIXER = 0 then pass_volumes io dup cfg rec sid subsys is sv
        else do {
          tsubsys \<leftarrow> streams_get_subsys sv (int i);
          sv \<leftarrow> (if tsubsys = subsys \<or> tsubsys = SUBSYS_NONE then pass_volume io dup cfg rec sid sv (int i) else Some sv);
          pass_volumes io dup cfg rec sid subsys is sv
        })"

definition set_mixer_tail :: "server_io \<Rightarrow> server \<Rightarrow> c_int \<Rightarrow> server_result" where
  "set_mixer_tail io sv sid = do {
     let sv = log_effect (Eff_Emit OE_STREAM_CHANGE_VOLUME sid OT_STREAM None) sv;
     hw \<leftarrow> streams_get_flag sv sid ROAR_FLAG_HWMIXER;
     if hw = 0 then Some (0, sv)
     else do { s \<leftarrow> stream_at sv sid; Some (if ss_driver_id s \<noteq> -1 \<or> ss_mixerstream s \<noteq> NULL then io_set_volume io sid else 0, sv) }
   }"

definition streams_set_mixer_step ::
    "server_io \<Rightarrow> bool \<Rightarrow> server_config \<Rightarrow> (server \<Rightarrow> c_int \<Rightarrow> server_result) \<Rightarrow> server \<Rightarrow> c_int \<Rightarrow> server_result" where
  "streams_set_mixer_step io dup cfg rec sv sid = check_sid sv sid (-1, sv) (\<lambda>s.
     if ss_flags s AND ROAR_FLAG_PASSMIXER \<noteq> 0 then do {
       subsys \<leftarrow> streams_get_subsys sv sid;
       if subsys = -1 then Some (-1, sv)
       else do { sv \<leftarrow> pass_volumes io dup cfg rec sid subsys [0..<nat ROAR_STREAMS_MAX] sv; set_mixer_tail io sv sid }
     }
     else set_mixer_tail io sv sid)"

fun streams_set_mixer_fuel :: "server_io \<Rightarrow> bool \<Rightarrow> server_config \<Rightarrow> nat \<Rightarrow> server \<Rightarrow> c_int \<Rightarrow> server_result" where
  "streams_set_mixer_fuel io dup cfg 0 sv sid = None"
| "streams_set_mixer_fuel io dup cfg (Suc n) sv sid = streams_set_mixer_step io dup cfg (streams_set_mixer_fuel io dup cfg n) sv sid"

text \<open>The recursive call finds the flag \<open>PASSMIXER\<close> cleared, so two levels are enough.\<close>

definition streams_set_mixer :: "server_io \<Rightarrow> bool \<Rightarrow> server_config \<Rightarrow> server \<Rightarrow> c_int \<Rightarrow> server_result" where
  "streams_set_mixer io dup cfg sv sid = streams_set_mixer_fuel io dup cfg 2 sv sid"

definition streams_set_flag :: "server_io \<Rightarrow> bool \<Rightarrow> server_config \<Rightarrow> server \<Rightarrow> c_int \<Rightarrow> 32 word \<Rightarrow> server_result" where
  "streams_set_flag io dup cfg sv sid flag = streams_set_flag_with io dup cfg (streams_set_mixer io dup cfg) sv sid flag"

subsection \<open>Direction, virtual streams, file handles\<close>

definition set_dir_defaults :: "server_io \<Rightarrow> bool \<Rightarrow> server_config \<Rightarrow> server \<Rightarrow> c_int \<Rightarrow> c_int \<Rightarrow> server_result" where
  "set_dir_defaults io dup cfg sv sid dir =
     (if dir \<le> 0 \<or> dir \<ge> ROAR_DIR_DIRIDS then Some (-1, sv)
      else do {
        (r, sv) \<leftarrow> streams_set_flag io dup cfg sv sid (cf_flags cfg dir);
        if r = -1 then Some (-1, sv)
        else do {
          s \<leftarrow> stream_at sv sid;
          Some (0, put_stream sv sid (Some (s\<lparr>ss_mixer := (ss_mixer s)\<lparr>scale := cf_scale cfg dir,
            rpg_mul := cf_rpg_mul cfg dir, rpg_div := cf_rpg_div cfg dir\<rparr>\<rparr>)))
        }
      })"

definition init_chanmap :: "roar_stream_server \<Rightarrow> c_int \<Rightarrow> roar_stream_server" where
  "init_chanmap s mp =
     (let (_, l) = roardsp_chanlist_init (Some (cm_in (ss_chanmap s))) (channels (st_info s)) mp
      in s\<lparr>ss_chanmap := (ss_chanmap s)\<lparr>cm_in := the l\<rparr>\<rparr>)"

definition streams_set_dir :: "server_io \<Rightarrow> bool \<Rightarrow> server_config \<Rightarrow> server \<Rightarrow> c_int \<Rightarrow> c_int \<Rightarrow> bool \<Rightarrow> server_result" where
  "streams_set_dir io dup cfg sv sid dir defaults = check_sid sv sid (-1, sv) (\<lambda>ss. do {
     let sv = put_stream sv sid (Some (ss\<lparr>st_dir := dir\<rparr>));
     let sv = (if dir = ROAR_DIR_THRU then sv\<lparr>sv_thru_num := sv_thru_num sv + 1\<rparr> else sv);
     (r, sv) \<leftarrow> (if defaults then set_dir_defaults io dup cfg sv sid dir else Some (0, sv));
     if r = -1 then Some (-1, sv)
     else if dir = ROAR_DIR_MIXING then do { (_, sv) \<leftarrow> streams_set_mixer_stream sv sid sid; Some (0, sv) }
     else do {
       subsys \<leftarrow> streams_get_subsys sv sid;
       s \<leftarrow> stream_at sv sid;
       let s = (if subsys = SUBSYS_WAVEFORM then init_chanmap (s\<lparr>ss_mixer_stream := cf_waveform_mixer cfg\<rparr>) MAP_ROARAUDIO
                else if subsys = SUBSYS_MIDI then (init_chanmap s MAP_MIDI)\<lparr>ss_mixer_stream := cf_midi_mixer cfg\<rparr>
                else if subsys = SUBSYS_LIGHT then s\<lparr>ss_mixer_stream := cf_light_mixer cfg\<rparr>
                else s);
       let s = s\<lparr>ss_chanmap := (ss_chanmap s)\<lparr>cm_out := cm_in (ss_chanmap s)\<rparr>\<rparr>;
       (_, sv) \<leftarrow> streams_set_map (put_stream sv sid (Some s)) sid None 0;
       Some (0, sv)
     }
   })"

text \<open>\<open>_err()\<close>: the new stream is deleted again.\<close>

definition fail_delete :: "server_io \<Rightarrow> bool \<Rightarrow> server \<Rightarrow> c_int \<Rightarrow> server_result" where
  "fail_delete io dup sv sid = do { (_, sv) \<leftarrow> streams_delete io dup sv sid; Some (-1, sv) }"

definition streams_new_virtual :: "server_io \<Rightarrow> bool \<Rightarrow> server_config \<Rightarrow> server \<Rightarrow> c_int \<Rightarrow> server_result" where
  "streams_new_virtual io dup cfg sv parent = check_sid sv parent (-1, sv) (\<lambda>ps.
     if ss_client ps = -1 \<or> st_dir ps = -1 then Some (-1, sv)
     else let (sid, sv) = streams_new sv in
       if sid = -1 then Some (-1, sv)
       else do {
         (r, sv) \<leftarrow> client_stream_add sv (ss_client ps) sid;
         if r = -1 then fail_delete io dup sv sid
         else do {
           (r, ss) \<leftarrow> streams_get sv sid;
           if r = -1 then fail_delete io dup sv sid
           else do {
             (r, sv) \<leftarrow> streams_set_dir io dup cfg sv sid (st_dir ps) True;
             if r = -1 then fail_delete io dup sv sid
             else do {
               s \<leftarrow> stream_at sv sid;
               (r, sv) \<leftarrow> streams_set_rawflag (put_stream sv sid (Some (s\<lparr>st_pos_rel_id := parent\<rparr>))) sid ROAR_FLAG_VIRTUAL;
               if r = -1 then fail_delete io dup sv sid else Some (sid, sv)
             }
           }
         }
       })"

text \<open>Making a stream ready.\<close>

definition stream_ready :: "server \<Rightarrow> c_int \<Rightarrow> server_result" where
  "stream_ready sv sid = do {
     s \<leftarrow> stream_at sv sid;
     Some (0, streams_change_state (put_stream sv sid (Some (s\<lparr>ss_ready := True\<rparr>))) sid STREAMSTATE_NEW)
   }"

definition set_fh_mode :: "server_io \<Rightarrow> server_config \<Rightarrow> server \<Rightarrow> c_int \<Rightarrow> c_int \<Rightarrow> c_int \<Rightarrow> server_result" where
  "set_fh_mode io cfg sv sid fh dir = do {
     let sv = (if List.member [ROAR_DIR_MONITOR, ROAR_DIR_RECORD, ROAR_DIR_OUTPUT, ROAR_DIR_MIDI_OUT, ROAR_DIR_LIGHT_OUT, ROAR_DIR_RAW_OUT] dir
               then log_effect (Eff_Shutdown_RD fh) sv else sv);
     if dir \<ge> ROAR_DIR_DIRIDS then Some (-1, sv)
     else if cf_flags cfg dir AND ROAR_FLAG_SYNC \<noteq> 0 \<and> dir \<noteq> ROAR_DIR_BRIDGE \<and> dir \<noteq> ROAR_DIR_MIDI_OUT then stream_ready sv sid
     else if io_nonblock io sid False = -1 then Some (-1, sv)
     else stream_ready sv sid
   }"

definition streams_set_fh :: "server_io \<Rightarrow> bool \<Rightarrow> server_config \<Rightarrow> server \<Rightarrow> c_int \<Rightarrow> c_int \<Rightarrow> server_result" where
  "streams_set_fh io dup cfg sv sid fh = check_sid sv sid (-1, sv) (\<lambda>ss.
     if ss_ready ss then Some (-1, sv)
     else let dir = st_dir ss; ss = ss\<lparr>st_fh := fh\<rparr>; sv = put_stream sv sid (Some ss);
              plain = (dir = ROAR_DIR_THRU \<or> dir = ROAR_DIR_RAW_IN \<or> dir = ROAR_DIR_RAW_OUT)
       in if \<not> plain \<and> io_codec_open io sid = None then fail_delete io dup sv sid
       else let ss = (if plain then ss else ss\<lparr>ss_codecfilter := the (io_codec_open io sid)\<rparr>);
                fh' = (if fh = -2 then case io_read_fh io sid of None \<Rightarrow> -2 | Some f \<Rightarrow> if f < 0 then -2 else f else fh);
                sv = put_stream sv sid (Some (if fh = -2 \<and> fh' \<noteq> -2 then ss\<lparr>st_fh := fh'\<rparr> else ss))
            in if fh' = -1 \<or> fh' = -2 then stream_ready sv sid else set_fh_mode io cfg sv sid fh' dir)"

definition SOCKET_TYPE_GENSTR :: int where "SOCKET_TYPE_GENSTR = 6"

definition client_stream_exec :: "server_io \<Rightarrow> bool \<Rightarrow> server_config \<Rightarrow> server \<Rightarrow> c_int \<Rightarrow> c_int \<Rightarrow> server_result" where
  "client_stream_exec io dup cfg sv cid sid = check_cid sv cid (-1, sv) (\<lambda>c.
     if find_slot sid (cl_streams c) = None then Some (-1, sv)
     else do {
       let sv = put_client sv cid (Some (c\<lparr>cl_execed := sid\<rparr>));
       ready \<leftarrow> streams_is_ready sv sid;
       if ready = 0 then do {
         (_, sv) \<leftarrow> streams_set_fh io dup cfg sv sid (cl_fh c);
         (_, sv) \<leftarrow> streams_set_socktype sv sid SOCKET_TYPE_GENSTR;
         Some (0, sv)
       }
       else if cl_fh c \<noteq> -1 then Some (0, put_client (log_effect (Eff_Close (cl_fh c)) sv) cid (Some (c\<lparr>cl_execed := sid, cl_fh := -1\<rparr>)))
       else Some (0, sv)
     })"

definition client_stream_set_fh :: "server_io \<Rightarrow> bool \<Rightarrow> server_config \<Rightarrow> server \<Rightarrow> c_int \<Rightarrow> c_int \<Rightarrow> c_int \<Rightarrow> server_result" where
  "client_stream_set_fh io dup cfg sv cid sid fh = check_cid sv cid (-1, sv) (\<lambda>c.
     if find_slot sid (cl_streams c) = None then Some (-1, sv) else streams_set_fh io dup cfg sv sid fh)"

subsection \<open>Mixer streams\<close>

definition need_vol_change :: "c_int \<Rightarrow> roar_mixer_settings option \<Rightarrow> c_int" where
  "need_vol_change chans st =
     (case st of None \<Rightarrow> -1
      | Some st \<Rightarrow>
        if chans < 1 \<or> chans > int ROAR_MAX_CHANNELS then -1
        else if rpg_mul st \<noteq> rpg_div st then 1
        else if list_ex (\<lambda>v. v \<noteq> scale st) (take (nat chans) (mixer st)) then 1
        else 0)"

definition ROAR_OUTPUT_CFREQ :: int where "ROAR_OUTPUT_CFREQ = 100"

definition add_mixer :: "server_io \<Rightarrow> bool \<Rightarrow> server_config \<Rightarrow> server \<Rightarrow> c_int \<Rightarrow> string \<Rightarrow> server_result" where
  "add_mixer io dup cfg sv subsys name =
     (let (sid, sv) = streams_new sv in
      if sid = -1 then Some (-1, sv)
      else do {
        (r, sv) \<leftarrow> streams_set_name sv sid name dup;
        if r = -1 then fail_delete io dup sv sid
        else do {
          (r, sv) \<leftarrow> client_stream_add sv (cf_self_client cfg) sid;
          if r = -1 then fail_delete io dup sv sid
          else do {
            (r, sv) \<leftarrow> streams_set_dir io dup cfg sv sid ROAR_DIR_MIXING True;
            if r = -1 then fail_delete io dup sv sid
            else do {
              (r, sv) \<leftarrow> streams_set_rawflag sv sid ROAR_FLAG_SYNC;
              if r = -1 then fail_delete io dup sv sid
              else do {
                (r, sv) \<leftarrow> streams_set_flag io dup cfg sv sid ROAR_FLAG_IMMUTABLE;
                if r = -1 then fail_delete io dup sv sid
                else do {
                  ss \<leftarrow> stream_at sv sid;
                  let sv = (if subsys = SUBSYS_WAVEFORM
                            then put_stream sv sid (Some (ss\<lparr>ss_delay := 1000000 div ROAR_OUTPUT_CFREQ\<rparr>)) else sv);
                  Some (sid, sv)
                }
              }
            }
          }
        }
      })"

end
