(* ===== verification/Server_Run.thy ===== *)
theory Server_Run
  imports Server_Safe Server_Ops
begin

text \<open>
  The life of the client and stream tables: creation, ownership, deletion, and what holds in every state they can reach.
\<close>

subsection \<open>Deletion\<close>

lemma first_free_None: "first_free xs = Some i \<Longrightarrow> i < length xs \<and> xs ! i = None \<and> (\<forall>j < i. xs ! j \<noteq> None)"
proof (induction xs arbitrary: i rule: first_free.induct)
  case (3 x xs)
  then obtain k where k: "first_free xs = Some k" "i = Suc k" by auto
  then show ?case using "3.IH" by (auto simp: nth_Cons split: nat.splits)
qed auto

lemma first_free_full: "first_free xs = None \<longleftrightarrow> None \<notin> set xs"
  by (induction xs rule: first_free.induct) auto

lemma gone: "shrinks C sv sv' \<Longrightarrow> sid \<notin> open_streams sv' \<Longrightarrow> sid \<in> open_streams sv \<Longrightarrow> stream_at sv' sid = None"
  by (rule ccontr) (auto simp: open_streams_def stream_sub_def dest: shrinks_stream)



subsection \<open>Emptying the tables\<close>

lemma delete_all_ok:
  assumes "tables_ok sv" "\<forall>i \<in> set is. i < 64"
  shows "holds (delete_all (streams_delete io dup) (\<lambda>sv i. stream_at sv i \<noteq> None) is sv)
    (\<lambda>sv'. shrinks {} sv sv' \<and> (\<forall>i \<in> set is. int i \<notin> open_streams sv'))"
  using assms
proof (induction "is" arbitrary: sv)
  case (Cons i "is")
  show ?case
  proof (cases "stream_at sv (int i)")
    case None
    then have "int i \<notin> open_streams sv" by (simp add: open_streams_def)
    then show ?thesis using None Cons.IH [OF Cons.prems(1)] Cons.prems(2) by (fastforce simp: holds_def dest: shrinks_open)
  next
    case (Some s)
    obtain r sv1 where 1: "streams_delete io dup sv (int i) = Some (r, sv1)" "shrinks {} sv sv1" "int i \<notin> open_streams sv1"
      using full.delE [OF Cons.prems(1) card_open [OF Cons.prems(1)], of "int i" io dup] Cons.prems(2) by auto
    obtain sv2 where 2: "delete_all (streams_delete io dup) (\<lambda>sv i. stream_at sv i \<noteq> None) is sv1 = Some sv2" "shrinks {} sv1 sv2"
      "\<forall>i \<in> set is. int i \<notin> open_streams sv2"
      using Cons.IH [OF shrinks_tables [OF 1(2)]] Cons.prems(2) by (auto simp: holds_def)
    then show ?thesis using Some 1 shrinks_trans [OF 1(2) 2(2)] shrinks_open [OF 2(2)] by auto
  qed
qed simp

definition none_closing :: "server \<Rightarrow> bool" where
  "none_closing sv \<longleftrightarrow> (\<forall>i s. stream_at sv i = Some s \<longrightarrow> ss_state s \<noteq> STREAMSTATE_CLOSING)"

lemma shrinks_none_closing: "shrinks C sv sv' \<Longrightarrow> none_closing sv \<Longrightarrow> none_closing sv'"
  unfolding none_closing_def using shrinks_stream by (fastforce simp: stream_sub_def)

lemma none_closing_open: "none_closing sv \<Longrightarrow> i \<in> open_streams sv \<longleftrightarrow> stream_at sv i \<noteq> None"
  by (auto simp: none_closing_def open_streams_def)


subsection \<open>The other operations\<close>

abbreviation heads :: "server \<Rightarrow> ptr list" where
  "heads sv \<equiv> concat (map stream_ptrs (sv_streams sv))"

abbreviation outs :: "server \<Rightarrow> ptr list" where
  "outs sv \<equiv> concat (map stream_blocks (sv_streams sv))"

text \<open>What holds between two operations.\<close>

definition server_ok :: "server \<Rightarrow> bool" where
  "server_ok sv \<longleftrightarrow> tables_ok sv \<and> slots_agree sv \<and> none_closing sv"

lemma shrinks_server_ok: "shrinks C sv sv' \<Longrightarrow> server_ok sv \<Longrightarrow> server_ok sv'"
  using shrinks_tables shrinks_agree shrinks_none_closing unfolding server_ok_def by blast

lemma server_ok_same: "same_tables sv sv' \<Longrightarrow> server_ok sv \<Longrightarrow> server_ok sv'"
  using shrinks_server_ok shrinks_same unfolding server_ok_def by blast

text \<open>A new entry in a free place.\<close>

lemma new_stream_ok:
  assumes "server_ok sv" "first_free (sv_streams sv) = Some i"
  shows "server_ok (put_stream sv (int i) (Some (new_stream (int i))))" (is "server_ok ?sv")
proof -
  have i: "i < 64" "sv_streams sv ! i = None" using first_free_None [OF assms(2)] assms(1) by (auto simp: server_ok_def tables_ok_def)
  have len: "length (sv_streams sv) = 64" using assms(1) by (simp add: server_ok_def tables_ok_def)
  have at: "stream_at ?sv j = (if j = int i then Some (new_stream (int i)) else stream_at sv j)" for j
    using i len by (auto simp: stream_at_def put_stream_def nth_list_update nat_eq_iff)
  have cl: "client_at ?sv = client_at sv" by (rule client_at_cong) simp
  have ok: "stream_ok (new_stream (int i))"
    by (simp add: stream_ok_def new_stream_def meta_ok_def table_sizes list_all_iff META_TYPE_NONE_def)
  have "mset (concat (map stream_ptrs ((sv_streams sv)[i := Some (new_stream (int i))]))) = mset (0 # 0 # 0 # heads sv)"
    using mset_concat_update [of i "sv_streams sv" stream_ptrs "Some (new_stream (int i))"] i len by (simp add: stream_ptrs_def new_stream_def)
  moreover have "mset (concat (map stream_blocks ((sv_streams sv)[i := Some (new_stream (int i))]))) = mset (0 # outs sv)"
    using mset_concat_update [of i "sv_streams sv" stream_blocks "Some (new_stream (int i))"] i len by (simp add: stream_blocks_def new_stream_def)
  moreover have "owned (sv_heap sv) (0 # 0 # 0 # heads sv) (0 # outs sv)"
    using assms(1) by (simp add: owned_null server_ok_def tables_ok_def) (auto simp: owned_def)
  ultimately have "owned (sv_heap ?sv) (heads ?sv) (outs ?sv)" using owned_perm by simp
  then have "tables_ok ?sv" using assms(1) ok by (simp add: tables_ok_def server_ok_def at cl)
  moreover have "slots_agree ?sv"
    using assms(1) unfolding server_ok_def slots_agree_def open_streams_def at cl by (auto simp: new_stream_def split: if_splits)
  moreover have "none_closing ?sv"
    using assms(1) unfolding server_ok_def none_closing_def at by (auto simp: new_stream_def state_defs split: if_splits)
  ultimately show ?thesis by (simp add: server_ok_def)
qed

lemma streams_new_ok: "server_ok sv \<Longrightarrow> streams_new sv = (r, sv') \<Longrightarrow> server_ok sv'"
  by (auto simp: streams_new_def Let_def split: if_splits option.splits
      intro: server_ok_same [OF _ new_stream_ok [of sv]] simp: same_tables_def)

lemma new_client_ok:
  assumes "server_ok sv" "first_free (sv_clients sv) = Some i"
  shows "server_ok (put_client sv (int i) (Some new_client))" (is "server_ok ?sv")
proof -
  have i: "i < 64" "sv_clients sv ! i = None" using first_free_None [OF assms(2)] assms(1) by (auto simp: server_ok_def tables_ok_def)
  have len: "length (sv_clients sv) = 64" using assms(1) by (simp add: server_ok_def tables_ok_def)
  have at: "client_at ?sv j = (if j = int i then Some new_client else client_at sv j)" "client_at sv (int i) = None" for j
    using i len by (auto simp: client_at_def put_client_def nth_list_update nat_eq_iff)
  have st: "stream_at ?sv = stream_at sv" by (rule stream_at_cong) simp
  have "client_ok new_client" by (simp add: client_ok_def new_client_def table_sizes)
  then have "tables_ok ?sv" using assms(1) by (simp add: tables_ok_def server_ok_def at st)
  moreover have "slots_agree ?sv" using assms(1) at(2) unfolding server_ok_def slots_agree_def open_put_client st at(1) by fastforce
  ultimately show ?thesis using assms(1) by (simp add: server_ok_def none_closing_def st)
qed

lemma clients_new_ok: "server_ok sv \<Longrightarrow> clients_new sv = Some (r, sv') \<Longrightarrow> server_ok sv'"
  by (auto simp: clients_new_def Let_def split: if_splits option.splits
      intro: server_ok_same [OF _ new_client_ok [of sv]] simp: same_tables_def)

lemma find_slot_set: "find_slot x xs = Some k \<Longrightarrow> y \<in> set xs \<Longrightarrow> y \<noteq> x \<Longrightarrow> y \<in> set (xs[k := z])"
  by (induction xs arbitrary: k) (auto split: if_splits)

lemma client_stream_add_ok:
  assumes "server_ok sv" "stream_at sv sid = Some s" "ss_client s = -1" "client_stream_add sv cid sid = Some (r, sv')"
  shows "server_ok sv'"
proof -
  have t: "tables_ok sv" using assms(1) by (simp add: server_ok_def)
  have sid: "0 \<le> sid" "sid < 64" using stream_bound [OF t assms(2)] by auto
  consider "sv' = sv" | c k where "client_at sv cid = Some c" "find_slot (-1) (cl_streams c) = Some k"
      "sv' = put_stream (put_client sv cid (Some (c\<lparr>cl_streams := (cl_streams c)[k := sid]\<rparr>))) sid (Some (s\<lparr>ss_client := cid\<rparr>))"
  proof (cases "client_at sv cid")
    case None
    then show ?thesis using that assms(4) t by (auto simp: client_stream_add_def split: if_splits)
  next
    case (Some c)
    have ne: "cid \<noteq> 64" using client_bound [OF t Some] by auto
    show ?thesis
    proof (cases "find_slot (-1) (cl_streams c)")
      case None
      then show ?thesis using that Some assms(4) t ne by (auto simp: client_stream_add_def)
    next
      case k: (Some k)
      let ?sv1 = "put_client sv cid (Some (c\<lparr>cl_streams := (cl_streams c)[k := sid]\<rparr>))"
      have "stream_at ?sv1 = stream_at sv" by (rule stream_at_cong) simp
      then have "check_sid ?sv1 sid (-1, ?sv1) f = f s" for f :: "roar_stream_server \<Rightarrow> (c_int \<times> server) option"
        using t assms(2) sid by (simp add: check_sid_at tables_ok_def)
      then show ?thesis using that(2) [OF Some k] Some k assms(4) t ne
        by (auto simp: client_stream_add_def streams_set_client_def set_stream_def)
    qed
  qed
  then show ?thesis
  proof cases
    case 1
    then show ?thesis using assms(1) by simp
  next
    case 2
    let ?c = "c\<lparr>cl_streams := (cl_streams c)[k := sid]\<rparr>" and ?s = "s\<lparr>ss_client := cid\<rparr>"
    let ?sv1 = "put_client sv cid (Some ?c)"
    have cid: "0 \<le> cid" "cid < 64" using client_bound [OF t 2(1)] by auto
    have "ROAR_STREAMS_MAX \<notin> set (cl_streams ?c)" using client_ok_at [OF t 2(1)] set_update_subset_insert [of "cl_streams c" k sid] sid
      by (auto simp: client_ok_def table_sizes)
    then have t1: "tables_ok ?sv1"
      using client_ok_at [OF t 2(1)] by (intro tables_ok_put_client [OF t 2(1)]) (auto simp: client_ok_def)
    have s1: "stream_at ?sv1 = stream_at sv" by (rule stream_at_cong) simp
    have at1: "stream_at ?sv1 sid = Some s" using assms(2) s1 by simp
    have at: "stream_at sv' i = (if i = sid then Some ?s else stream_at sv i)" "client_at sv' j = (if j = cid then Some ?c else client_at sv j)" for i j
      using stream_at_put [OF at1, of "Some ?s" i] client_at_put [OF 2(1), of "Some ?c" j] client_at_cong [of sv' ?sv1] by (simp_all add: 2(3) s1)
    have "tables_ok sv'" unfolding 2(3)
      by (rule tables_ok_put [OF t1 at1])
        (use stream_ok_at [OF t assms(2)] cid in \<open>simp_all add: stream_ok_def stream_ptrs_def stream_blocks_def table_sizes\<close>)
    moreover have "none_closing sv'" using assms(1,2) unfolding server_ok_def none_closing_def at by auto
    moreover have "slots_agree sv'"
      unfolding slots_agree_def
    proof (intro allI impI)
      fix i s' assume i: "stream_at sv' i = Some s'" "i \<in> open_streams sv'" "ss_client s' \<noteq> -1"
      show "\<exists>c. client_at sv' (ss_client s') = Some c \<and> i \<in> set (cl_streams c)"
      proof (cases "i = sid")
        case True
        then show ?thesis using i(1) find_slot_nth [OF 2(2)] by (auto simp: at set_update_memI)
      next
        case False
        then have "stream_at sv i = Some s'" using i(1) by (simp add: at)
        moreover from this have "i \<in> open_streams sv" using assms(1) by (auto simp: server_ok_def none_closing_open)
        ultimately obtain c' where c': "client_at sv (ss_client s') = Some c'" "i \<in> set (cl_streams c')"
          using assms(1) i(3) by (auto simp: server_ok_def slots_agree_def)
        have "i \<noteq> -1" using stream_bound [OF t \<open>stream_at sv i = Some s'\<close>] by auto
        then show ?thesis using c' find_slot_set [OF 2(2)] 2(1) by (auto simp: at)
      qed
    qed
    ultimately show ?thesis by (simp add: server_ok_def)
  qed
qed

text \<open>A chain the caller owns is handed to the stream.\<close>

lemma stream_add_buffer_ok:
  assumes "server_ok sv" "stream_at sv sid = Some s" "buf \<noteq> NULL" "owned (sv_heap sv) (buf # heads sv) (outs sv)"
  shows "holds (stream_add_buffer sv sid buf) (\<lambda>(r, sv'). server_ok sv')"
proof -
  have t: "tables_ok sv" using assms(1) by (simp add: server_ok_def)
  have r: "nat sid < length (sv_streams sv)" "sv_streams sv ! nat sid = Some s" "sid \<noteq> 64"
    using stream_at_range [OF assms(2)] stream_bound [OF t assms(2)] by auto
  show ?thesis
  proof (cases "ss_buffer s = NULL")
    case True
    let ?sv = "put_stream sv sid (Some (s\<lparr>ss_buffer := buf\<rparr>))"
    have m: "mset (0 # heads ?sv) = mset (buf # heads sv)" "mset (outs ?sv) = mset (outs sv)"
      using mset_concat_update [OF r(1), of stream_ptrs "Some (s\<lparr>ss_buffer := buf\<rparr>)"]
        mset_concat_update [OF r(1), of stream_blocks "Some (s\<lparr>ss_buffer := buf\<rparr>)"] True
      by (simp_all add: r(2) stream_ptrs_def stream_blocks_def)
    have "owned (sv_heap ?sv) (heads ?sv) (outs ?sv)" using owned_perm [OF assms(4) m] by (simp add: owned_null)
    moreover have "client_at ?sv = client_at sv" by (rule client_at_cong) simp
    ultimately have "tables_ok ?sv \<and> slots_agree ?sv \<and> none_closing ?sv"
      using assms(1,2) unfolding server_ok_def tables_ok_def slots_agree_def none_closing_def open_streams_def
      by (auto simp: stream_at_put [OF assms(2)] stream_ok_def)
    then show ?thesis using True t r(3) assms(2) by (simp add: stream_add_buffer_def server_ok_def)
  next
    case False
    have "ss_buffer s \<in> set (heads sv)" using r nth_mem [OF r(1)] by (force simp: stream_ptrs_def)
    then have m: "mset (ss_buffer s # remove1 (ss_buffer s) (heads sv)) = mset (heads sv)" by simp
    have "owned (sv_heap sv) (buf # ss_buffer s # remove1 (ss_buffer s) (heads sv)) (outs sv)"
      by (rule owned_perm [OF assms(4)]) (use m in simp_all)
    then obtain r' h where h: "roar_buffer_add (sv_heap sv) (ss_buffer s) buf = Some (r', h)"
        "owned h (ss_buffer s # remove1 (ss_buffer s) (heads sv)) (outs sv)"
      using owned_add [OF _ False assms(3)] by blast
    let ?sv = "sv\<lparr>sv_heap := h\<rparr>"
    have "owned h (heads sv) (outs sv)" by (rule owned_perm [OF h(2)]) (use m in simp_all)
    moreover have "stream_at ?sv = stream_at sv" "client_at ?sv = client_at sv" by (rule stream_at_cong, simp, rule client_at_cong, simp)
    ultimately have "server_ok ?sv"
      using assms(1) by (simp add: server_ok_def tables_ok_def slots_agree_def none_closing_def open_streams_def)
    then show ?thesis using False t r(3) assms(2) h(1) by (simp add: stream_add_buffer_def)
  qed
qed

subsection \<open>Reachable states\<close>

text \<open>A run of the server as a sequence of table operations. A stream is given to a client when it has no owner yet, as
  the server does with new streams; a buffer handed to a stream belongs to the caller; between operations the heap may
  change in any way that keeps what the streams own.\<close>

inductive server_reach :: "server_io \<Rightarrow> bool \<Rightarrow> server \<Rightarrow> bool" for io :: server_io and dup :: bool where
  start: "server_reach io dup (snd (streams_init (snd (clients_init sv))))"
| new_stream: "server_reach io dup sv \<Longrightarrow> streams_new sv = (r, sv') \<Longrightarrow> server_reach io dup sv'"
| new_client: "server_reach io dup sv \<Longrightarrow> clients_new sv = Some (r, sv') \<Longrightarrow> server_reach io dup sv'"
| own: "server_reach io dup sv \<Longrightarrow> stream_at sv sid = Some s \<Longrightarrow> ss_client s = -1 \<Longrightarrow>
    client_stream_add sv cid sid = Some (r, sv') \<Longrightarrow> server_reach io dup sv'"
| rawflag: "server_reach io dup sv \<Longrightarrow> streams_set_rawflag sv sid flag = Some (r, sv') \<Longrightarrow> server_reach io dup sv'"
| meta: "server_reach io dup sv \<Longrightarrow> stream_meta_add dup sv sid ty name val = Some (r, sv') \<Longrightarrow> server_reach io dup sv'"
| queue: "server_reach io dup sv \<Longrightarrow> stream_at sv sid = Some s \<Longrightarrow> buf \<noteq> NULL \<Longrightarrow>
    owned (sv_heap sv) (buf # heads sv) (outs sv) \<Longrightarrow> stream_add_buffer sv sid buf = Some (r, sv') \<Longrightarrow> server_reach io dup sv'"
| environment: "server_reach io dup sv \<Longrightarrow> owned h (heads sv) (outs sv) \<Longrightarrow> server_reach io dup (sv\<lparr>sv_heap := h\<rparr>)"
| delete_stream: "server_reach io dup sv \<Longrightarrow> sid \<noteq> ROAR_STREAMS_MAX \<Longrightarrow> streams_delete io dup sv sid = Some (r, sv') \<Longrightarrow> server_reach io dup sv'"
| delete_client: "server_reach io dup sv \<Longrightarrow> cid \<noteq> ROAR_CLIENTS_MAX \<Longrightarrow> clients_delete io dup sv cid = Some (r, sv') \<Longrightarrow> server_reach io dup sv'"

inductive_cases server_reachE: "server_reach io dup sv"

lemma start_ok: "server_ok (snd (streams_init (snd (clients_init sv))))" (is "server_ok ?sv")
proof -
  have "stream_at ?sv i = None" "client_at ?sv i = None" for i by (auto simp: stream_at_def client_at_def streams_init_def clients_init_def)
  moreover have "heads ?sv = []" "outs ?sv = []"
    by (simp_all add: streams_init_def clients_init_def table_sizes stream_ptrs_def stream_blocks_def)
  moreover have "length (sv_streams ?sv) = 64" "length (sv_clients ?sv) = 64"
    by (simp_all add: streams_init_def clients_init_def table_sizes)
  moreover have "owned h [] []" for h by (simp add: owned_def chain_ok_def)
  then have "owned (sv_heap ?sv) (heads ?sv) (outs ?sv)" using calculation(3,4) by metis
  ultimately show ?thesis by (simp add: server_ok_def tables_ok_def slots_agree_def none_closing_def)
qed

lemma server_ok_heap:
  assumes "server_ok sv" "owned h (heads sv) (outs sv)"
  shows "server_ok (sv\<lparr>sv_heap := h\<rparr>)"
proof -
  have "stream_at (sv\<lparr>sv_heap := h\<rparr>) = stream_at sv" "client_at (sv\<lparr>sv_heap := h\<rparr>) = client_at sv"
    by (rule stream_at_cong, simp, rule client_at_cong, simp)
  then show ?thesis using assms by (simp add: server_ok_def tables_ok_def slots_agree_def none_closing_def open_streams_def)
qed

lemma rawflag_ok:
  assumes "server_ok sv" "streams_set_rawflag sv sid flag = Some (r, sv')"
  shows "server_ok sv'"
proof -
  have t: "tables_ok sv" using assms(1) by (simp add: server_ok_def)
  then have "sid \<noteq> 64" using assms(2) by (auto simp: streams_set_rawflag_def set_stream_def)
  then have "holds (streams_set_rawflag sv sid flag) (\<lambda>(r, sv'). shrinks {} sv sv')"
    unfolding streams_set_rawflag_def by (intro shrinks_set_stream [OF t] tame_flags_update)
  then show ?thesis using assms shrinks_server_ok by (auto simp: holds_def)
qed

lemma meta_ok_step:
  assumes "server_ok sv" "stream_meta_add dup sv sid ty name val = Some (r, sv')"
  shows "server_ok sv'"
proof -
  have t: "tables_ok sv" using assms(1) by (simp add: server_ok_def)
  then have "0 \<le> sid" "sid < 64" using assms(2) by (auto simp: stream_meta_add_def table_entry_def tables_ok_def bind_eq_Some_conv split: if_splits)
  then show ?thesis using meta_add_ok [OF t, of sid dup ty name val "{}"] assms shrinks_server_ok by (auto simp: holds_def)
qed

lemma delete_step_ok:
  assumes "server_ok sv"
  shows "sid \<noteq> 64 \<Longrightarrow> streams_delete io dup sv sid = Some (r, sv') \<Longrightarrow> server_ok sv'"
    and "cid \<noteq> 64 \<Longrightarrow> clients_delete io dup sv cid = Some (r, sv') \<Longrightarrow> server_ok sv'"
proof -
  have t: "tables_ok sv" using assms by (simp add: server_ok_def)
  show "server_ok sv'" if "sid \<noteq> 64" "streams_delete io dup sv sid = Some (r, sv')"
    using full.delE [OF t card_open [OF t] that(1), of io dup] that(2) shrinks_server_ok [OF _ assms] by auto
  show "server_ok sv'" if "cid \<noteq> 64" "clients_delete io dup sv cid = Some (r, sv')"
    using full.clients_delete_ok [OF t card_open [OF t] that(1), of io dup] that(2) shrinks_server_ok [OF _ assms]
    by (auto simp: clients_delete_def holds_def)
qed


subsection \<open>A sample server\<close>

text \<open>A client with two streams that are attached to each other, the first of them executed; the second is a \<open>THRU\<close>
  stream, the first has a queue of two buffers.\<close>

definition quiet_io :: server_io where
  "quiet_io = \<lparr>io_set_mmap = (\<lambda>_ _. 0), io_nonblock = (\<lambda>_ _. 0), io_codec_ctl = (\<lambda>_ _. 0), io_set_volume = (\<lambda>_. 0),
     io_codec_open = (\<lambda>_. Some (-1)), io_read_fh = (\<lambda>_. None)\<rparr>"

definition sample_stream0 :: roar_stream_server where
  "sample_stream0 = (new_stream 0)\<lparr>st_dir := ROAR_DIR_PLAY, st_pos_rel_id := 1, ss_client := 0, ss_buffer := 10\<rparr>"

definition sample_stream1 :: roar_stream_server where
  "sample_stream1 = (new_stream 1)\<lparr>st_dir := ROAR_DIR_THRU, st_pos_rel_id := 0, ss_client := 0\<rparr>"

definition sample_client :: roar_client_server where
  "sample_client = new_client\<lparr>cl_execed := 0, cl_streams := [0, 1] @ replicate 10 (-1)\<rparr>"

definition sample_server :: server where
  "sample_server = \<lparr>sv_clients = Some sample_client # replicate 63 None,
     sv_streams = Some sample_stream0 # Some sample_stream1 # replicate 62 None,
     sv_thru_num = 1, sv_recsource_id = -1, sv_cur_clients = 1, sv_sum_clients = 1, sv_cur_streams = 2, sv_sum_streams = 2,
     sv_alive = True, sv_terminate = False, sv_no_listen = False,
     sv_standby = 0, sv_pos = 0, sv_sa = \<lparr>rate = 44100, bits = 16, channels = 2, codec = 2\<rparr>, sv_keyring = auth_init, sv_left = 5, sv_heap = two_buffers, sv_log = []\<rparr>"

lemma sample_stream_at: "stream_at sample_server i = (if i = 0 then Some sample_stream0 else if i = 1 then Some sample_stream1 else None)"
  by (auto simp: stream_at_def sample_server_def nth_Cons nth_append split: nat.splits)

lemma sample_client_at: "client_at sample_server i = (if i = 0 then Some sample_client else None)"
  by (auto simp: client_at_def sample_server_def nth_Cons split: nat.splits)

lemma sample_owned: "owned two_buffers [0, 0, 10, 0, 0, 0] [0, 0]"
  unfolding owned_def
  by (intro conjI exI [of _ "[[], [], [10, 20], [], [], []]"]) (use two_buffers_ok(1,2) in simp_all)

lemma sample_ok: "tables_ok sample_server" "slots_agree sample_server" "none_closing sample_server"
proof -
  have "stream_ok sample_stream0" "stream_ok sample_stream1"
    by (simp_all add: stream_ok_def sample_stream0_def sample_stream1_def new_stream_def meta_ok_def list_all_iff META_TYPE_NONE_def table_sizes)
  moreover have "client_ok sample_client" by (simp add: client_ok_def sample_client_def new_client_def table_sizes)
  moreover have "heads sample_server = [0, 0, 10, 0, 0, 0]" "outs sample_server = [0, 0]" "sv_heap sample_server = two_buffers"
    "length (sv_streams sample_server) = 64" "length (sv_clients sample_server) = 64"
    by (simp_all add: sample_server_def stream_ptrs_def stream_blocks_def sample_stream0_def sample_stream1_def new_stream_def)
  ultimately show "tables_ok sample_server"
    using sample_owned by (simp add: tables_ok_def sample_stream_at sample_client_at)
  show "slots_agree sample_server" "none_closing sample_server"
    by (auto simp: slots_agree_def none_closing_def sample_stream_at sample_client_at sample_stream0_def sample_stream1_def
        sample_client_def new_stream_def state_defs split: if_splits)
qed





subsection \<open>Errors\<close>

lemma streams_delete_eq: "streams_delete io dup = streams_delete_step io dup (streams_delete_fuel io dup (nat ROAR_STREAMS_MAX))"
  by (simp add: streams_delete_def fun_eq_iff)

lemma find_slot_none: "x \<notin> set xs \<Longrightarrow> find_slot x xs = None"
  by (induction xs) auto

lemma find_slot_ex: "x \<in> set xs \<Longrightarrow> \<exists>k. find_slot x xs = Some k"
  by (induction xs) auto

lemma find_slot_gone: "find_slot x xs = Some k \<Longrightarrow> distinct (filter (\<lambda>y. y \<noteq> -1) xs) \<Longrightarrow> x \<noteq> -1 \<Longrightarrow> x \<notin> set (xs[k := -1])"
  by (induction xs arbitrary: k) (auto split: if_splits)




definition full_server :: server where
  "full_server = sample_server\<lparr>sv_clients := Some (sample_client\<lparr>cl_execed := -1\<rparr>) #
     Some (new_client\<lparr>cl_streams := replicate 12 5\<rparr>) # replicate 62 None\<rparr>"


end
