(* ===== verification/Server_Flags.thy ===== *)
theory Server_Flags
  imports Server_Run
begin

text \<open>
  Flags, volume settings and meta data of streams: one recording source at a time, the volume that streams with the flag
  \<open>PASSMIXER\<close> share, and that meta data is read as it was set.
\<close>

subsection \<open>Flags as bits\<close>

lemma or_minus: "(x OR f) - f = x AND NOT (f :: 'a :: len word)"
proof -
  have "(x AND NOT f) OR f = x OR f" by (rule bit_word_eqI) (auto simp: bit_simps)
  moreover have "(x AND NOT f) AND f = 0" by (rule bit_word_eqI) (auto simp: bit_simps)
  ultimately have "x OR f = (x AND NOT f) + f" using word_plus_and_or [of "x AND NOT f" f] by simp
  then show ?thesis by simp
qed

lemma or_and_self: "(x OR f) AND f = (f :: 'a :: len word)"
  by (rule bit_word_eqI) (auto simp: bit_simps)

text \<open>The two flags have no bit in common with those that \<open>streams_set_flag\<close> and \<open>streams_reset_flag\<close> treat specially.\<close>

lemma recsource_only:
  "ROAR_FLAG_RECSOURCE AND ROAR_FLAG_PRIMARY = 0" "ROAR_FLAG_RECSOURCE AND ROAR_FLAG_SYNC = 0" "ROAR_FLAG_RECSOURCE AND ROAR_FLAG_META = 0"
  "ROAR_FLAG_RECSOURCE AND ROAR_FLAG_HWMIXER = 0" "ROAR_FLAG_RECSOURCE AND ROAR_FLAG_MMAP = 0" "ROAR_FLAG_RECSOURCE AND ROAR_FLAG_VIRTUAL = 0"
  "ROAR_FLAG_RECSOURCE AND ROAR_FLAG_IMMUTABLE = 0" "ROAR_FLAG_RECSOURCE \<noteq> 0"
  "(ROAR_FLAG_RECSOURCE OR ROAR_FLAG_PRIMARY) - ROAR_FLAG_PRIMARY = ROAR_FLAG_RECSOURCE"
  by (simp_all add: flag_defs)

lemma passmixer_only:
  "ROAR_FLAG_PASSMIXER AND ROAR_FLAG_PRIMARY = 0" "ROAR_FLAG_PASSMIXER AND ROAR_FLAG_SYNC = 0" "ROAR_FLAG_PASSMIXER AND ROAR_FLAG_META = 0"
  "ROAR_FLAG_PASSMIXER AND ROAR_FLAG_HWMIXER = 0" "ROAR_FLAG_PASSMIXER AND ROAR_FLAG_MMAP = 0" "ROAR_FLAG_PASSMIXER AND ROAR_FLAG_VIRTUAL = 0"
  "ROAR_FLAG_PASSMIXER AND ROAR_FLAG_IMMUTABLE = 0" "ROAR_FLAG_PASSMIXER AND ROAR_FLAG_RECSOURCE = 0"
  "(ROAR_FLAG_PASSMIXER OR ROAR_FLAG_PRIMARY) - ROAR_FLAG_PRIMARY = ROAR_FLAG_PASSMIXER"
  by (simp_all add: flag_defs)

lemma reset_recsource_eq:
  assumes "tables_ok sv" "stream_at sv j = Some t"
  shows "streams_reset_flag io sv j ROAR_FLAG_RECSOURCE = Some (0, put_stream
    (if sv_recsource_id sv = j then sv\<lparr>sv_recsource_id := -1\<rparr> else sv) j (Some (t\<lparr>ss_flags := ss_flags t AND NOT ROAR_FLAG_RECSOURCE\<rparr>)))"
proof -
  let ?sv1 = "if sv_recsource_id sv = j then sv\<lparr>sv_recsource_id := -1\<rparr> else sv"
  have same: "same_tables sv ?sv1" by (simp add: same_tables_def)
  have s1: "tables_ok ?sv1" "stream_at ?sv1 j = Some t" using tables_ok_same [OF same] same_tables_at [OF same] assms by simp_all
  have "j \<noteq> 64" using stream_bound [OF assms] by simp
  moreover have upd: "ss_flags_update (\<lambda>fl. fl AND NOT ROAR_FLAG_RECSOURCE) t = t\<lparr>ss_flags := ss_flags t AND NOT ROAR_FLAG_RECSOURCE\<rparr>"
    by (cases t) simp
  ultimately show ?thesis
    unfolding reset_recsource_set [OF assms] or_minus set_stream_def check_sid_ok [OF s1(1)] s1(2) upd option.case(2) by simp
qed

subsection \<open>The recording source\<close>

definition recsource_ok :: "server \<Rightarrow> bool" where
  "recsource_ok sv \<longleftrightarrow> (sv_recsource_id sv = -1 \<or> stream_at sv (sv_recsource_id sv) \<noteq> None) \<and>
     (\<forall>i s. stream_at sv i = Some s \<longrightarrow> ss_flags s AND ROAR_FLAG_RECSOURCE \<noteq> 0 \<longrightarrow> i = sv_recsource_id sv)"

lemma set_recsource_ok:
  assumes "tables_ok sv" "recsource_ok sv" "stream_at sv sid = Some s"
  shows "holds (set_recsource io sv sid) (\<lambda>(r, sv'). r = 0 \<and> sv_recsource_id sv' = sid \<and>
    length (sv_streams sv') = 64 \<and> (\<forall>i. (stream_at sv' i = None) = (stream_at sv i = None)) \<and>
    (\<forall>i t. stream_at sv' i = Some t \<longrightarrow> ss_flags t AND ROAR_FLAG_RECSOURCE = 0))"
proof (cases "sv_recsource_id sv = -1")
  case True
  have "ss_flags t AND ROAR_FLAG_RECSOURCE = 0" if "stream_at sv i = Some t" for i t
    using assms(2) True that stream_bound [OF assms(1) that] by (force simp: recsource_ok_def)
  moreover have "stream_at (sv\<lparr>sv_recsource_id := sid\<rparr>) = stream_at sv" by (rule stream_at_cong) simp
  ultimately show ?thesis using True assms(1) by (simp add: set_recsource_def tables_ok_def)
next
  case False
  let ?j = "sv_recsource_id sv"
  obtain t where t: "stream_at sv ?j = Some t" using assms(2) False by (auto simp: recsource_ok_def)
  let ?t = "t\<lparr>ss_flags := ss_flags t AND NOT ROAR_FLAG_RECSOURCE\<rparr>"
  let ?sv = "put_stream (sv\<lparr>sv_recsource_id := -1\<rparr>) ?j (Some ?t)"
  have "stream_at (sv\<lparr>sv_recsource_id := -1\<rparr>) = stream_at sv" by (rule stream_at_cong) simp
  then have at: "stream_at ?sv i = (if i = ?j then Some ?t else stream_at sv i)" for i
    using stream_at_put [of "sv\<lparr>sv_recsource_id := -1\<rparr>" ?j t] t by simp
  have at2: "stream_at (?sv\<lparr>sv_recsource_id := sid\<rparr>) = stream_at ?sv" by (rule stream_at_cong) simp
  have "ss_flags u AND ROAR_FLAG_RECSOURCE = 0" if "stream_at ?sv i = Some u" for i u
    using that assms(2) by (auto simp: at recsource_ok_def and.assoc and.left_commute split: if_splits)
  then show ?thesis using False assms(1) t by (simp add: set_recsource_def reset_recsource_eq [OF assms(1) t] at2) (simp add: at tables_ok_def)
qed

text \<open>Setting the flag \<open>RECSOURCE\<close> on a stream makes it the only recording source: the stream that had the flag
  loses it and every other stream keeps not having it.\<close>

theorem recsource_moves:
  assumes "tables_ok sv" "recsource_ok sv" "stream_at sv sid = Some s"
  shows "\<exists>sv'. streams_set_flag io dup cfg sv sid ROAR_FLAG_RECSOURCE = Some (0, sv') \<and> sv_recsource_id sv' = sid \<and>
    (\<forall>i t. stream_at sv' i = Some t \<longrightarrow> (ss_flags t AND ROAR_FLAG_RECSOURCE \<noteq> 0 \<longleftrightarrow> i = sid)) \<and> recsource_ok sv'"
proof -
  obtain sv1 where 1: "set_recsource io sv sid = Some (0, sv1)" "sv_recsource_id sv1 = sid"
      "\<forall>i. (stream_at sv1 i = None) = (stream_at sv i = None)"
      "\<forall>i t. stream_at sv1 i = Some t \<longrightarrow> ss_flags t AND ROAR_FLAG_RECSOURCE = 0"
    using set_recsource_ok [OF assms, of io] by (auto simp: holds_def)
  obtain s1 where s1: "stream_at sv1 sid = Some s1" using 1(3) assms(3) by (metis not_None_eq)
  let ?sv = "put_stream sv1 sid (Some (s1\<lparr>ss_flags := ss_flags s1 OR ROAR_FLAG_RECSOURCE\<rparr>))"
  have "sid \<noteq> 64" using stream_bound [OF assms(1,3)] by simp
  then have "streams_set_flag io dup cfg sv sid ROAR_FLAG_RECSOURCE = Some (0, ?sv)"
    using assms(1,3) 1(1) s1 by (simp add: streams_set_flag_def streams_set_flag_with_def recsource_only Let_def)
  moreover have at: "stream_at ?sv i = (if i = sid then Some (s1\<lparr>ss_flags := ss_flags s1 OR ROAR_FLAG_RECSOURCE\<rparr>) else stream_at sv1 i)" for i
    by (rule stream_at_put [OF s1])
  moreover have "(x OR ROAR_FLAG_RECSOURCE) AND ROAR_FLAG_RECSOURCE \<noteq> 0" for x
    using recsource_only(8) by (simp add: or_and_self)
  ultimately show ?thesis using 1(2,4) by (auto simp: put_stream_def recsource_ok_def)
qed

definition sample_config :: server_config where
  "sample_config = \<lparr>cf_flags = (\<lambda>_. 0), cf_scale = (\<lambda>_. 65535), cf_rpg_mul = (\<lambda>_. 1), cf_rpg_div = (\<lambda>_. 1),
     cf_waveform_mixer = 0, cf_midi_mixer = -1, cf_light_mixer = -1, cf_self_client = 0\<rparr>"

theorem recsource_moves_witness:
  "\<exists>sv'. streams_set_flag quiet_io True sample_config sample_server 1 ROAR_FLAG_RECSOURCE = Some (0, sv') \<and> sv_recsource_id sv' = 1"
proof -
  have "sv_recsource_id sample_server = -1" by (simp add: sample_server_def)
  then have "recsource_ok sample_server"
    by (auto simp: recsource_ok_def sample_stream_at sample_stream0_def sample_stream1_def new_stream_def split: if_splits)
  then show ?thesis using recsource_moves [OF sample_ok(1), of 1 sample_stream1 quiet_io True sample_config] by (auto simp: sample_stream_at)
qed

subsection \<open>Shared volume\<close>

lemma passmixer_bit: "x AND ROAR_FLAG_PASSMIXER \<noteq> 0 \<longleftrightarrow> bit x 14" "bit ROAR_FLAG_PASSMIXER n \<longleftrightarrow> n = 14"
proof -
  have p: "ROAR_FLAG_PASSMIXER = 2 ^ 14" by (simp add: flag_defs)
  show "x AND ROAR_FLAG_PASSMIXER \<noteq> 0 \<longleftrightarrow> bit x 14" unfolding p and_exp_eq_0_iff_not_bit by (rule not_not)
  show "bit ROAR_FLAG_PASSMIXER n \<longleftrightarrow> n = 14" unfolding p bit_exp_iff by auto
qed

lemma passmixer_restore: "x AND ROAR_FLAG_PASSMIXER \<noteq> 0 \<Longrightarrow> (x AND NOT ROAR_FLAG_PASSMIXER) OR ROAR_FLAG_PASSMIXER = x"
  unfolding passmixer_bit(1) by (rule bit_word_eqI) (auto simp: bit_simps passmixer_bit(2))

lemma passmixer_cleared: "(x AND NOT ROAR_FLAG_PASSMIXER) AND ROAR_FLAG_PASSMIXER = 0"
  by (rule bit_word_eqI) (auto simp: bit_simps)

lemma reset_passmixer_eq:
  assumes "tables_ok sv" "stream_at sv j = Some t"
  shows "streams_reset_flag io sv j ROAR_FLAG_PASSMIXER = Some (0, put_stream sv j (Some (t\<lparr>ss_flags := ss_flags t AND NOT ROAR_FLAG_PASSMIXER\<rparr>)))"
proof -
  have r: "j \<noteq> 64" using stream_bound [OF assms] by simp
  have "streams_reset_flag io sv j ROAR_FLAG_PASSMIXER = set_stream (ss_flags_update (\<lambda>fl. (fl OR ROAR_FLAG_PASSMIXER) - ROAR_FLAG_PASSMIXER)) sv j"
    using assms r by (simp add: streams_reset_flag_def streams_get_dir_def flag_defs Let_def)
  moreover have upd: "ss_flags_update (\<lambda>fl. fl AND NOT ROAR_FLAG_PASSMIXER) t = t\<lparr>ss_flags := ss_flags t AND NOT ROAR_FLAG_PASSMIXER\<rparr>"
    by (cases t) simp
  ultimately show ?thesis using assms r unfolding or_minus set_stream_def by (simp add: upd)
qed

lemma set_passmixer_eq:
  assumes "tables_ok sv" "stream_at sv j = Some t"
  shows "streams_set_flag_with io dup cfg rec sv j ROAR_FLAG_PASSMIXER = Some (0, put_stream sv j (Some (t\<lparr>ss_flags := ss_flags t OR ROAR_FLAG_PASSMIXER\<rparr>)))"
proof -
  have "j \<noteq> 64" using stream_bound [OF assms] by simp
  then show ?thesis using assms by (simp add: streams_set_flag_with_def passmixer_only Let_def)
qed

lemma set_mixer_tail_ok:
  assumes "tables_ok sv" "stream_at sv j = Some t"
  shows "\<exists>r. set_mixer_tail io sv j = Some (r, log_effect (Eff_Emit OE_STREAM_CHANGE_VOLUME j OT_STREAM None) sv)"
proof -
  let ?sv = "log_effect (Eff_Emit OE_STREAM_CHANGE_VOLUME j OT_STREAM None) sv"
  have "tables_ok ?sv" "stream_at ?sv j = Some t"
    using assms tables_ok_same [OF same_tables_log(1)] same_tables_at [OF same_tables_log(1)] by auto
  then show ?thesis by (simp add: set_mixer_tail_def get_flag_ok Let_def)
qed

lemma set_mixer_level1:
  assumes "tables_ok sv" "stream_at sv j = Some t" "ss_flags t AND ROAR_FLAG_PASSMIXER = 0"
  shows "\<exists>r. streams_set_mixer_fuel io dup cfg (Suc 0) sv j = Some (r, log_effect (Eff_Emit OE_STREAM_CHANGE_VOLUME j OT_STREAM None) sv)"
proof -
  have "j \<noteq> 64" using stream_bound [OF assms(1,2)] by simp
  then show ?thesis using assms set_mixer_tail_ok [OF assms(1,2), of io] by (simp add: streams_set_mixer_step_def)
qed

text \<open>One round of the loop stores the converted volume; the flag is as before.\<close>

lemma pass_volume_ok:
  assumes "tables_ok sv" "stream_at sv sid = Some ss" "stream_at sv i = Some pm" "ss_flags pm AND ROAR_FLAG_PASSMIXER \<noteq> 0"
    and "i \<noteq> sid \<Longrightarrow> roar_conv_volume (Some (ss_mixer pm)) (Some (ss_mixer ss)) (channels (st_info pm)) (channels (st_info ss)) = Some (r, Some mx)"
  shows "holds (pass_volume io dup cfg (streams_set_mixer_fuel io dup cfg (Suc 0)) sid sv i)
    (same_tables (put_stream sv i (Some (if i = sid then pm else pm\<lparr>ss_mixer := mx\<rparr>))))"
proof -
  let ?pm = "if i = sid then pm else pm\<lparr>ss_mixer := mx\<rparr>"
  let ?fl = "ss_flags pm AND NOT ROAR_FLAG_PASSMIXER"
  define sv1 where "sv1 = put_stream sv i (Some ?pm)"
  have tame: "tame pm (?pm\<lparr>ss_flags := fl\<rparr>)" for fl
    by (simp add: tame_def stream_ok_def stream_ptrs_def stream_blocks_def)
  have "tame pm ?pm" by (simp add: tame_def stream_ok_def stream_ptrs_def stream_blocks_def)
  then have s1: "tables_ok sv1" "stream_at sv1 i = Some ?pm"
    using shrinks_tables [OF shrinks_put [OF assms(1,3)]] by (simp_all add: sv1_def stream_at_put [OF assms(3)])
  define sv2 where "sv2 = put_stream sv i (Some (?pm\<lparr>ss_flags := ?fl\<rparr>))"
  have 2: "streams_reset_flag io sv1 i ROAR_FLAG_PASSMIXER = Some (0, sv2)"
    unfolding reset_passmixer_eq [OF s1] by (simp add: sv1_def sv2_def put_stream_again)
  have s2: "tables_ok sv2" "stream_at sv2 i = Some (?pm\<lparr>ss_flags := ?fl\<rparr>)"
    using shrinks_tables [OF shrinks_put [OF assms(1,3) tame]] unfolding sv2_def by (blast, simp add: stream_at_put [OF assms(3)])
  let ?sv3 = "log_effect (Eff_Emit OE_STREAM_CHANGE_VOLUME i OT_STREAM None) sv2"
  obtain r3 where 3: "streams_set_mixer_fuel io dup cfg (Suc 0) sv2 i = Some (r3, ?sv3)"
    using set_mixer_level1 [OF s2, of io dup cfg] passmixer_cleared by auto
  have s3: "tables_ok ?sv3" "stream_at ?sv3 i = Some (?pm\<lparr>ss_flags := ?fl\<rparr>)"
    using s2 tables_ok_same [OF same_tables_log(1)] same_tables_at [OF same_tables_log(1)] by auto
  have rec: "?pm\<lparr>ss_flags := ?fl OR ROAR_FLAG_PASSMIXER\<rparr> = ?pm" unfolding passmixer_restore [OF assms(4)] by (cases pm) simp
  have "streams_set_flag_with io dup cfg (streams_set_mixer_fuel io dup cfg (Suc 0)) ?sv3 i ROAR_FLAG_PASSMIXER = Some (0, put_stream ?sv3 i (Some ?pm))"
    unfolding set_passmixer_eq [OF s3] using rec by simp
  moreover have "same_tables sv1 (put_stream ?sv3 i (Some ?pm))" by (simp add: same_tables_def sv1_def sv2_def)
  moreover have "(if i = sid then Some sv else do {
             (_, mx) \<leftarrow> roar_conv_volume (Some (ss_mixer pm)) (Some (ss_mixer ss)) (channels (st_info pm)) (channels (st_info ss));
             Some (put_stream sv i (Some (pm\<lparr>ss_mixer := the mx\<rparr>))) }) = Some sv1"
    using assms(5) put_stream_id [OF assms(3)] by (auto simp: sv1_def)
  ultimately show ?thesis using assms(2,3) 2 3 by (simp add: pass_volume_def sv1_def [symmetric] del: streams_set_mixer_fuel.simps)
qed

definition in_subsys :: "c_int \<Rightarrow> roar_stream_server \<Rightarrow> bool" where
  "in_subsys subsys pm \<longleftrightarrow> ss_flags pm AND ROAR_FLAG_PASSMIXER \<noteq> 0 \<and> (subsys_of_dir (st_dir pm) = subsys \<or> subsys_of_dir (st_dir pm) = SUBSYS_NONE)"

definition shared :: "c_int \<Rightarrow> c_int \<Rightarrow> roar_stream_server \<Rightarrow> c_int \<Rightarrow> roar_stream_server \<Rightarrow> roar_stream_server" where
  "shared subsys sid ss j pm =
     (if j \<noteq> sid \<and> in_subsys subsys pm
      then pm\<lparr>ss_mixer := the (snd (the (roar_conv_volume (Some (ss_mixer pm)) (Some (ss_mixer ss)) (channels (st_info pm)) (channels (st_info ss)))))\<rparr>
      else pm)"

text \<open>Streams with sound formats and volume settings as the server sets them up, none of direction \<open>THRU\<close>.\<close>

definition volumes_sane :: "server \<Rightarrow> bool" where
  "volumes_sane sv \<longleftrightarrow> (\<forall>i s. stream_at sv i = Some s \<longrightarrow> st_dir s \<noteq> ROAR_DIR_THRU \<and> length (mixer (ss_mixer s)) = 64 \<and>
     1 \<le> channels (st_info s) \<and> channels (st_info s) \<le> 64)"

lemma subsys_eq:
  assumes "tables_ok sv" "stream_at sv i = Some s" "st_dir s \<noteq> ROAR_DIR_THRU"
  shows "streams_get_subsys sv i = Some (subsys_of_dir (st_dir s))"
  using assms stream_bound [OF assms(1,2)] by (subst streams_get_subsys.simps) (simp add: sid_entry_def)

lemma shared_fields [simp]:
  "st_dir (shared subsys sid ss j pm) = st_dir pm" "st_info (shared subsys sid ss j pm) = st_info pm"
  "ss_flags (shared subsys sid ss j pm) = ss_flags pm" "shared subsys sid ss sid pm = pm"
  by (simp_all add: shared_def)

lemma pass_volumes_ok:
  assumes "tables_ok sv" "volumes_sane sv" "stream_at sv sid = Some ss" "distinct is" "\<forall>i \<in> set is. i < 64"
  shows "holds (pass_volumes io dup cfg (streams_set_mixer_fuel io dup cfg (Suc 0)) sid subsys is sv) (\<lambda>sv'. tables_ok sv' \<and>
    (\<forall>j. stream_at sv' j = (if j \<in> int ` set is then map_option (shared subsys sid ss j) (stream_at sv j) else stream_at sv j)))"
  using assms
proof (induction "is" arbitrary: sv)
  case (Cons i "is")
  let ?rec = "streams_set_mixer_fuel io dup cfg (Suc 0)"
  show ?case
  proof (cases "\<exists>pm. stream_at sv (int i) = Some pm \<and> in_subsys subsys pm")
    case False
    have "pass_volumes io dup cfg ?rec sid subsys (i # is) sv = pass_volumes io dup cfg ?rec sid subsys is sv"
      using False Cons.prems(1,2) by (auto simp: in_subsys_def subsys_eq volumes_sane_def split: option.split)
    moreover have "map_option (shared subsys sid ss (int i)) (stream_at sv (int i)) = stream_at sv (int i)"
      using False by (cases "stream_at sv (int i)") (auto simp: shared_def)
    moreover have "holds (pass_volumes io dup cfg ?rec sid subsys is sv) (\<lambda>sv'. tables_ok sv' \<and>
        (\<forall>j. stream_at sv' j = (if j \<in> int ` set is then map_option (shared subsys sid ss j) (stream_at sv j) else stream_at sv j)))"
      by (rule Cons.IH [OF Cons.prems(1-3)]) (use Cons.prems(4,5) in simp_all)
    ultimately show ?thesis by (simp only:) (erule holds_mono, auto)
  next
    case True
    then obtain pm where pm: "stream_at sv (int i) = Some pm" "in_subsys subsys pm" by blast
    have sane: "length (mixer (ss_mixer ss)) = 64" "1 \<le> channels (st_info ss)" "channels (st_info ss) \<le> 64"
        "length (mixer (ss_mixer pm)) = 64" "1 \<le> channels (st_info pm)" "channels (st_info pm) \<le> 64" "st_dir pm \<noteq> ROAR_DIR_THRU"
      using Cons.prems(2,3) pm(1) by (auto simp: volumes_sane_def)
    obtain r mx where mx: "roar_conv_volume (Some (ss_mixer pm)) (Some (ss_mixer ss)) (channels (st_info pm)) (channels (st_info ss)) = Some (r, Some mx)"
        "length (mixer mx) = 64"
      using conv_volume_defined [OF sane(1,4,2,3), of "channels (st_info pm)"] sane(5,6) by auto
    have sh: "(if int i = sid then pm else pm\<lparr>ss_mixer := mx\<rparr>) = shared subsys sid ss (int i) pm"
      using pm(2) mx(1) by (simp add: shared_def)
    have "ss_flags pm AND ROAR_FLAG_PASSMIXER \<noteq> 0" using pm(2) by (simp add: in_subsys_def)
    then obtain sv1 where sv1: "pass_volume io dup cfg ?rec sid sv (int i) = Some sv1"
        "same_tables (put_stream sv (int i) (Some (shared subsys sid ss (int i) pm))) sv1"
      using pass_volume_ok [OF Cons.prems(1,3) pm(1) _ mx(1), of io dup cfg] sh by (auto simp: holds_def)
    have at1: "stream_at sv1 j = (if j = int i then Some (shared subsys sid ss (int i) pm) else stream_at sv j)" for j
      using sv1(2) by (simp add: same_tables_at stream_at_put [OF pm(1)])
    have "tame pm (shared subsys sid ss (int i) pm)" by (simp add: tame_def shared_def stream_ok_def stream_ptrs_def stream_blocks_def)
    then have ok1: "tables_ok sv1" using shrinks_tables [OF shrinks_put [OF Cons.prems(1) pm(1)]] sv1(2) by (simp add: tables_ok_same)
    have "length (mixer (ss_mixer (shared subsys sid ss (int i) pm))) = 64" using sane(4) mx by (simp add: shared_def)
    then have sane1: "volumes_sane sv1" using Cons.prems(2) pm(1) unfolding volumes_sane_def at1 by simp
    have ss1: "stream_at sv1 sid = Some ss" using Cons.prems(3) pm(1) by (auto simp: at1)
    have step: "pass_volumes io dup cfg ?rec sid subsys (i # is) sv = pass_volumes io dup cfg ?rec sid subsys is sv1"
      using pm sv1(1) sane(7) Cons.prems(1) by (auto simp: in_subsys_def subsys_eq)
    show ?thesis
      unfolding step by (rule holds_mono [OF Cons.IH [OF ok1 sane1 ss1]]) (use Cons.prems(4,5) pm(1) in \<open>auto simp: at1\<close>)
  qed
qed simp


text \<open>Two output streams with two channels; the first is to pass its volume on.\<close>

definition output_stream :: "c_int \<Rightarrow> int \<Rightarrow> roar_stream_server" where
  "output_stream sid v = (new_stream sid)\<lparr>st_dir := ROAR_DIR_OUTPUT, st_info := \<lparr>rate = 44100, bits = 16, channels = 2, codec = 1\<rparr>,
     ss_mixer := \<lparr>scale = 65535, rpg_mul = 1, rpg_div = 1, mixer = replicate 64 v\<rparr>, ss_flags := ROAR_FLAG_PASSMIXER\<rparr>"

definition output_server :: server where
  "output_server = sample_server\<lparr>sv_streams := Some (output_stream 0 1000) # Some (output_stream 1 2000) # replicate 62 None\<rparr>"

lemma output_stream_at: "stream_at output_server i = (if i = 0 then Some (output_stream 0 1000) else if i = 1 then Some (output_stream 1 2000) else None)"
  by (auto simp: stream_at_def output_server_def nth_Cons nth_append split: nat.splits)

lemma output_server_ok: "tables_ok output_server" "volumes_sane output_server"
proof -
  have "stream_ok (output_stream sid v)" for sid v
    by (simp add: stream_ok_def output_stream_def new_stream_def meta_ok_def list_all_iff META_TYPE_NONE_def table_sizes)
  moreover have "client_at output_server = client_at sample_server" by (rule client_at_cong) (simp add: output_server_def)
  moreover have "owned two_buffers [0, 0, 0, 0, 0, 0] [0, 0]"
    unfolding owned_def by (intro conjI exI [of _ "[[], [], [], [], [], []]"]) (simp_all add: chain_ok_def)
  then have "owned (sv_heap output_server) (heads output_server) (outs output_server)"
    by (simp add: output_server_def sample_server_def stream_ptrs_def stream_blocks_def output_stream_def new_stream_def)
  moreover have "length (sv_streams output_server) = 64" "length (sv_clients output_server) = 64"
    by (simp_all add: output_server_def sample_server_def)
  ultimately show "tables_ok output_server"
    using client_ok_at [OF sample_ok(1)] by (simp add: tables_ok_def output_stream_at)
  show "volumes_sane output_server"
    by (simp add: volumes_sane_def output_stream_at) (simp add: output_stream_def dir_defs)
qed


subsection \<open>Meta data\<close>

lemma meta_drop_type: "ty \<noteq> META_TYPE_NONE \<Longrightarrow> me_type (meta_drop ty e) \<noteq> ty"
  by (simp add: meta_drop_def)

lemma meta_fill_find:
  assumes "ty \<noteq> META_TYPE_NONE" "\<forall>e \<in> set es. me_type e \<noteq> ty" "\<exists>e \<in> set es. me_type e = META_TYPE_NONE" "len = 0 \<or> length val < len"
  shows "\<exists>es'. meta_fill ty name val True es = (0, es') \<and> (nm = None \<or> nm = name \<longrightarrow> meta_find ty nm len es' = (0, Some val))"
  using assms(2,3)
proof (induction es)
  case (Cons e es)
  show ?case
  proof (cases "me_type e = META_TYPE_NONE")
    case True
    then show ?thesis using assms(4) by (auto split: option.split)
  next
    case False
    then show ?thesis using Cons by (auto split: prod.splits)
  qed
qed simp

lemma meta_fill_other:
  assumes "ty' \<noteq> META_TYPE_NONE" "ty' \<noteq> ty" "meta_fill ty name val dup es = (r, es')"
  shows "meta_find ty' nm len es' = meta_find ty' nm len es"
  using assms(3) by (induction es arbitrary: es' r) (use assms(1,2) in \<open>auto split: if_splits prod.splits\<close>)

lemma meta_drop_other:
  "ty' \<noteq> META_TYPE_NONE \<Longrightarrow> ty' \<noteq> ty \<Longrightarrow> meta_find ty' nm len (map (meta_drop ty) es) = meta_find ty' nm len es"
  by (induction es) (auto simp: meta_drop_def)

text \<open>C37: What \<open>stream_meta_set\<close> stores, \<open>stream_meta_get\<close> returns, asked for by type alone or with the same key, as long as
  the caller's buffer is large enough; it needs an unused entry or one of the same type. Entries of other types are
  read as before.\<close>

theorem meta_set_get:
  assumes "stream_at sv sid = Some s" "ty \<noteq> META_TYPE_NONE" "\<exists>e \<in> set (ss_meta s). me_type e = META_TYPE_NONE \<or> me_type e = ty"
    and "len = 0 \<or> length val < len"
  shows "\<exists>sv'. stream_meta_set True sv sid ty name val = Some (0, sv') \<and>
    (\<forall>nm. nm = None \<or> nm = name \<longrightarrow> stream_meta_get sv' sid ty nm len = Some (0, Some val)) \<and>
    (\<forall>ty' nm l. ty' \<noteq> META_TYPE_NONE \<longrightarrow> ty' \<noteq> ty \<longrightarrow> stream_meta_get sv' sid ty' nm l = stream_meta_get sv sid ty' nm l)"
proof -
  let ?es = "map (meta_drop ty) (ss_meta s)"
  let ?s = "s\<lparr>ss_meta := ?es\<rparr>"
  obtain e where e: "e \<in> set (ss_meta s)" "me_type e = META_TYPE_NONE \<or> me_type e = ty" using assms(3) by blast
  then have "me_type (meta_drop ty e) = META_TYPE_NONE" by (auto simp: meta_drop_def)
  then have free: "\<exists>e \<in> set ?es. me_type e = META_TYPE_NONE" using e(1) by (intro bexI [of _ "meta_drop ty e"]) auto
  have other: "\<forall>e \<in> set ?es. me_type e \<noteq> ty" using meta_drop_type [OF assms(2)] by auto
  obtain es' where es': "meta_fill ty name val True ?es = (0, es')"
    using meta_fill_find [OF assms(2) other free assms(4), of name] by blast
  have found: "meta_find ty nm len es' = (0, Some val)" if "nm = None \<or> nm = name" for nm
    using meta_fill_find [OF assms(2) other free assms(4), of name nm] es' that by auto
  note r = stream_at_range [OF assms(1)]
  have entry: "table_entry sv sid = Some (Some s)" using r by (simp add: table_entry_def)
  have entry1: "table_entry (put_stream sv sid (Some x)) sid = Some (Some x)" for x using r by (simp add: table_entry_def put_stream_def nat_less_iff)
  let ?sv = "put_stream sv sid (Some (s\<lparr>ss_meta := es'\<rparr>))"
  have "stream_meta_set True sv sid ty name val = Some (0, ?sv)"
    using entry entry1 es' by (simp add: stream_meta_set_def stream_meta_add_def put_stream_again)
  moreover have "stream_meta_get ?sv sid ty nm len = Some (0, Some val)" if "nm = None \<or> nm = name" for nm
    using entry1 found [OF that] by (simp add: stream_meta_get_def)
  moreover have "stream_meta_get ?sv sid ty' nm l = stream_meta_get sv sid ty' nm l" if "ty' \<noteq> META_TYPE_NONE" "ty' \<noteq> ty" for ty' nm l
    using entry entry1 meta_fill_other [OF that es'] meta_drop_other [OF that] by (simp add: stream_meta_get_def)
  ultimately show ?thesis by blast
qed

theorem meta_set_get_witness:
  "\<exists>sv'. stream_meta_set True sample_server 0 1 (Some ''TITLE'') ''Song'' = Some (0, sv') \<and>
     stream_meta_get sv' 0 1 (Some ''TITLE'') 5 = Some (0, Some ''Song'')"
proof -
  have "\<exists>e \<in> set (ss_meta sample_stream0). me_type e = META_TYPE_NONE"
    by (simp add: sample_stream0_def new_stream_def META_TYPE_NONE_def table_sizes)
  then have "\<exists>e \<in> set (ss_meta sample_stream0). me_type e = META_TYPE_NONE \<or> me_type e = 1" by blast
  moreover have "stream_at sample_server 0 = Some sample_stream0" by (simp add: sample_stream_at)
  ultimately show ?thesis
    using meta_set_get [of sample_server 0 sample_stream0 1 5 "''Song''" "Some ''TITLE''"] by (auto simp: META_TYPE_NONE_def)
qed

end
