(* ===== verification/Server_Mix.thy ===== *)
theory Server_Mix
  imports Server_Run Pcm_Mixer
begin

text \<open>
  One round of the wave form output: the block every playing stream contributes, \<open>streams_fill_mixbuffer2\<close> and
  \<open>streams_get_mixbuffers\<close> of \<open>src/roard/streams.c\<close>, the volume of the mixer stream, \<open>waveform_update_mixer\<close> of
  \<open>src/roard/waveform.c\<close>, and the output buffer, \<open>src/roard/output.c\<close>.

  The block sizes are calculated from the ratio of two sample rates in single precision. \<open>mx_frames\<close> stands for the number
  of frames per round at a sample rate and \<open>mx_bufmax\<close> for the size of the conversion buffer; \<open>mx_poly\<close> is the resampler.
  The level meters, which the functions update, are not part of the state.
\<close>

record mix_env =
  mx_frames :: "int \<Rightarrow> int"
  mx_bufmax :: "roar_audio_info \<Rightarrow> roar_audio_info \<Rightarrow> int"
  mx_poly :: poly_fun

definition outbufsize :: "mix_env \<Rightarrow> roar_audio_info \<Rightarrow> int" where
  "outbufsize env info = mx_frames env (rate info) * channels info * (bits info div 8)"

definition XRUN_UNDER_PRE :: int where "XRUN_UNDER_PRE = 1"
definition XRUN_UNDER_POST :: int where "XRUN_UNDER_POST = 2"

definition set_mem :: "server \<Rightarrow> mem \<Rightarrow> server" where
  "set_mem sv m = sv\<lparr>sv_heap := (sv_heap sv)\<lparr>bh_mem := m\<rparr>\<rparr>"

abbreviation sv_mem :: "server \<Rightarrow> mem" where
  "sv_mem sv \<equiv> bh_mem (sv_heap sv)"

subsection \<open>The block of one stream\<close>

text \<open>No data: the block is silence. A conversion buffer is not released on this way.\<close>

definition mix_underrun :: "server \<Rightarrow> c_int \<Rightarrow> ptr \<Rightarrow> int \<Rightarrow> server_result" where
  "mix_underrun sv sid out outlen = do {
     s \<leftarrow> stream_at sv sid;
     let (s, kind, n) = (if ss_is_new s then (s\<lparr>ss_pre_underruns := ss_pre_underruns s + 1\<rparr>, XRUN_UNDER_PRE, ss_pre_underruns s + 1)
                         else (s\<lparr>ss_post_underruns := ss_post_underruns s + 1\<rparr>, XRUN_UNDER_POST, ss_post_underruns s + 1));
     let sv = log_effect (Eff_Emit OE_STREAM_XRUN sid OT_STREAM (Some (kind, n))) (put_stream sv sid (Some s));
     Some (0, set_mem sv (memset (sv_mem sv) out 0 outlen))
   }"

text \<open>A buffer for the conversion, if the data need more room than the block: its node and its data.\<close>

definition mix_buffer :: "server \<Rightarrow> bool \<Rightarrow> ptr \<Rightarrow> int \<Rightarrow> (c_int \<times> ptr option \<times> ptr \<times> server) option" where
  "mix_buffer sv extra out buflen =
     (if \<not> extra then Some (0, None, out, sv)
      else do {
        (r, b, h) \<leftarrow> roar_buffer_new (sv_heap sv) True buflen;
        let sv = sv\<lparr>sv_heap := h\<rparr>;
        if r = -1 then Some (-1, None, NULL, sv)
        else do { (r, dat) \<leftarrow> roar_buffer_get_data h (the b); Some (r, b, the dat, sv) }
      })"

definition mix_release :: "server \<Rightarrow> ptr option \<Rightarrow> server option" where
  "mix_release sv bufbuf = (case bufbuf of None \<Rightarrow> Some sv | Some b \<Rightarrow> do { (_, h) \<leftarrow> roar_buffer_free (sv_heap sv) b; Some (sv\<lparr>sv_heap := h\<rparr>) })"

text \<open>Volume, unless the hardware or another stream takes care of it.\<close>

definition mix_volume :: "server \<Rightarrow> c_int \<Rightarrow> ptr \<Rightarrow> int \<Rightarrow> server_result" where
  "mix_volume sv sid indata inlen = do {
     hw \<leftarrow> streams_get_flag sv sid ROAR_FLAG_HWMIXER;
     pass \<leftarrow> streams_get_flag sv sid ROAR_FLAG_PASSMIXER;
     s \<leftarrow> stream_at sv sid;
     if hw = 0 \<and> pass = 0 then
       let (r, m) = roar_amp_pcm (sv_mem sv) indata (bits (st_info s)) indata (8 * inlen div bits (st_info s)) (channels (st_info s)) (ss_mixer s)
       in Some (r, set_mem sv m)
     else Some (0, sv)
   }"

definition mix_antiecho :: "server \<Rightarrow> c_int \<Rightarrow> ptr \<Rightarrow> int \<Rightarrow> int \<Rightarrow> server option" where
  "mix_antiecho sv sid out outlen buflen = do {
     fl \<leftarrow> streams_get_flag sv sid ROAR_FLAG_ANTIECHO;
     if fl = 0 then Some sv
     else do {
       (r, b, sv) \<leftarrow> stream_outputbuffer_request sv sid buflen;
       if r \<noteq> 0 then Some sv
       else do {
         (r, dat) \<leftarrow> roar_buffer_get_data (sv_heap sv) b;
         Some (if r \<noteq> -1 then set_mem sv (memcpy (sv_mem sv) (the dat) out outlen) else sv)
       }
     }
   }"

text \<open>Conversion to the output format and the copy into the block.\<close>

definition mix_convert :: "mix_env \<Rightarrow> server \<Rightarrow> roar_audio_info \<Rightarrow> roar_audio_info \<Rightarrow> ptr \<Rightarrow> ptr \<Rightarrow> ptr option \<Rightarrow> int \<Rightarrow> int \<Rightarrow> server_result" where
  "mix_convert env sv sinfo info out bufdata bufbuf inlen outlen =
     (if sinfo = info
      then Some (0, if inlen < outlen then set_mem sv (memset (sv_mem sv) (out + inlen) 0 (outlen - inlen)) else sv)
      else let (r, m) = roar_conv2 (mx_poly env) (sv_mem sv) bufdata bufdata inlen sinfo info outlen; sv = set_mem sv m in
        if r = -1 then do { sv \<leftarrow> mix_release sv bufbuf; Some (-1, sv) }
        else do {
          let sv = (if bufbuf \<noteq> None then set_mem sv (memcpy (sv_mem sv) out bufdata outlen) else sv);
          sv \<leftarrow> mix_release sv bufbuf;
          Some (0, sv)
        })"

definition mix_played :: "server \<Rightarrow> c_int \<Rightarrow> int \<Rightarrow> server option" where
  "mix_played sv sid got = do {
     s \<leftarrow> stream_at sv sid;
     Some (put_stream sv sid (Some (s\<lparr>st_pos := wrap_u 32 (st_pos s + got * 8 div bits (st_info s))\<rparr>)))
   }"

definition mark_old :: "server \<Rightarrow> c_int \<Rightarrow> server option" where
  "mark_old sv sid = do {
     s \<leftarrow> stream_at sv sid;
     let sv = (if ss_is_new s then streams_change_state sv sid STREAMSTATE_OLD else sv);
     s \<leftarrow> stream_at sv sid;
     Some (put_stream sv sid (Some (s\<lparr>ss_is_new := False\<rparr>)))
   }"

definition streams_fill_mixbuffer2 :: "mix_env \<Rightarrow> server \<Rightarrow> c_int \<Rightarrow> roar_audio_info \<Rightarrow> server_result" where
  "streams_fill_mixbuffer2 env sv sid info = check_sid sv sid (-1, sv) (\<lambda>s. do {
     let sinfo = st_info s;
     let outlen = outbufsize env info;
     let inlen = outbufsize env sinfo;
     let buflen = mx_bufmax env info sinfo;
     if inlen = 0 then Some (-1, sv)
     else do {
       (r, outp, sv) \<leftarrow> streams_get_outputbuffer sv sid outlen;
       if r = -1 then Some (-1, sv)
       else do {
         let out = the outp;
         (r, bufbuf, bufdata, sv) \<leftarrow> mix_buffer sv (sinfo \<noteq> info \<and> buflen > outlen) out buflen;
         if r = -1 then Some (-1, sv)
         else do {
           (r, got, sv) \<leftarrow> stream_shift_out_buffer sv sid bufdata inlen;
           if r = -1 then mix_underrun sv sid out outlen
           else do {
             sv \<leftarrow> mark_old sv sid;
             (r, sv) \<leftarrow> mix_volume sv sid bufdata inlen;
             if r = -1 then Some (-1, sv)
             else do {
               (r, sv) \<leftarrow> mix_convert env sv sinfo info out bufdata bufbuf inlen outlen;
               if r = -1 then Some (-1, sv)
               else do {
                 sv \<leftarrow> mix_antiecho sv sid out outlen buflen;
                 sv \<leftarrow> mix_played sv sid got;
                 Some (0, sv)
               }
             }
           }
         }
       }
     }
   })"

subsection \<open>All streams, the mixer stream and the output buffer\<close>

definition mix_wanted :: "roar_stream_server \<Rightarrow> bool" where
  "mix_wanted s \<longleftrightarrow> (st_dir s = ROAR_DIR_PLAY \<or> st_dir s = ROAR_DIR_BIDIR \<or> st_dir s = ROAR_DIR_BRIDGE \<and> ss_buffer s \<noteq> NULL) \<and>
     ss_flags s AND ROAR_FLAG_PAUSE = 0"

fun mixbuffers_loop :: "mix_env \<Rightarrow> roar_audio_info \<Rightarrow> nat list \<Rightarrow> server \<Rightarrow> ptr list \<Rightarrow> (ptr list \<times> server) option" where
  "mixbuffers_loop env info [] sv bufs = Some (bufs, sv)"
| "mixbuffers_loop env info (i # is) sv bufs =
     (case stream_at sv (int i) of None \<Rightarrow> mixbuffers_loop env info is sv bufs
      | Some s \<Rightarrow>
        if \<not> mix_wanted s then mixbuffers_loop env info is sv bufs
        else do {
          (r, outp, sv) \<leftarrow> streams_get_outputbuffer sv (int i) (outbufsize env info);
          if r = -1 then mixbuffers_loop env info is sv bufs
          else do {
            (r, sv) \<leftarrow> streams_fill_mixbuffer2 env sv (int i) info;
            if r = -1 then mixbuffers_loop env info is sv bufs
            else do {
              mute \<leftarrow> streams_get_flag sv (int i) ROAR_FLAG_MUTE;
              mixbuffers_loop env info is sv (if mute = 0 then bufs @ [the outp] else bufs)
            }
          }
        })"

definition streams_get_mixbuffers :: "mix_env \<Rightarrow> server \<Rightarrow> roar_audio_info \<Rightarrow> (c_int \<times> ptr list \<times> server) option" where
  "streams_get_mixbuffers env sv info = do {
     (bufs, sv) \<leftarrow> mixbuffers_loop env info [0..<nat ROAR_STREAMS_MAX] sv [];
     Some (int (length bufs), bufs, sv)
   }"

definition OUTPUT_BUFFER_SAMPLES :: int where "OUTPUT_BUFFER_SAMPLES = 441"

text \<open>\<open>out\<close> is the output buffer, \<open>mx\<close> the wave form mixer stream and \<open>sa\<close> the format of the output.\<close>

definition waveform_update_mixer :: "server \<Rightarrow> c_int \<Rightarrow> roar_audio_info \<Rightarrow> ptr \<Rightarrow> server_result" where
  "waveform_update_mixer sv mx sa out = do {
     mute \<leftarrow> streams_get_flag sv mx ROAR_FLAG_MUTE;
     if mute = 1 then Some (0, set_mem sv (memset (sv_mem sv) out 0 (bits sa * OUTPUT_BUFFER_SAMPLES * channels sa div 8)))
     else do {
       ss \<leftarrow> stream_at sv mx;
       if need_vol_change (channels (st_info ss)) (Some (ss_mixer ss)) \<noteq> 0
       then let (_, m) = roar_amp_pcm (sv_mem sv) out (bits sa) out (OUTPUT_BUFFER_SAMPLES * channels sa) (channels sa) (ss_mixer ss)
            in Some (0, set_mem sv m)
       else Some (0, sv)
     }
   }"

text \<open>The output buffer is the pair of its address and its length.\<close>

definition output_buffer_reinit :: "server \<Rightarrow> ptr \<times> int \<Rightarrow> c_int \<times> server" where
  "output_buffer_reinit sv ob = (0, if fst ob \<noteq> NULL then set_mem sv (memset (sv_mem sv) (fst ob) 0 (snd ob)) else sv)"

definition output_buffer_init :: "mix_env \<Rightarrow> server \<Rightarrow> roar_audio_info \<Rightarrow> ptr \<times> int \<Rightarrow> c_int \<times> (ptr \<times> int) \<times> server" where
  "output_buffer_init env sv info ob =
     (let siz = outbufsize env info; (p, h) = mm_malloc (sv_heap sv) siz; sv = sv\<lparr>sv_heap := h\<rparr> in
      if p = NULL then (-1, ob, sv)
      else (0, (p, siz), snd (output_buffer_reinit sv (p, siz))))"

definition output_buffer_free :: "server \<Rightarrow> ptr \<times> int \<Rightarrow> (c_int \<times> (ptr \<times> int) \<times> server) option" where
  "output_buffer_free sv ob = do {
     h \<leftarrow> mm_free (sv_heap sv) (fst ob);
     Some (0, (NULL, 0), sv\<lparr>sv_heap := h\<rparr>)
   }"

text \<open>The part of \<open>main_loop\<close> that makes the block for the driver.\<close>

definition mix_round :: "mix_env \<Rightarrow> server \<Rightarrow> c_int \<Rightarrow> roar_audio_info \<Rightarrow> ptr \<Rightarrow> bool \<Rightarrow> (c_int \<times> server) option" where
  "mix_round env sv mx sa out standby = do {
     (n, bufs, sv) \<leftarrow> streams_get_mixbuffers env sv sa;
     let sv = (if standby then sv else set_mem sv (snd (roar_mix_pcm (sv_mem sv) out (bits sa) bufs (OUTPUT_BUFFER_SAMPLES * channels sa))));
     (_, sv) \<leftarrow> waveform_update_mixer sv mx sa out;
     Some (n, sv)
   }"

subsection \<open>A stream in the format of the output\<close>

lemma get_flag_at: "length (sv_streams sv) = 64 \<Longrightarrow> stream_at sv sid = Some s \<Longrightarrow>
    streams_get_flag sv sid flag = Some (if ss_flags s AND flag \<noteq> 0 then 1 else 0)"
  using stream_at_range [of sv sid s] by (simp add: streams_get_flag_def check_sid_at)

lemma set_mem_simps [simp]: "sv_streams (set_mem sv m) = sv_streams sv" "bh_bufs (sv_heap (set_mem sv m)) = bh_bufs (sv_heap sv)"
  "sv_mem (set_mem sv m) = m" "stream_at (set_mem sv m) = stream_at sv"
  by (simp_all add: set_mem_def stream_at_def fun_eq_iff)

text \<open>Marking a stream as playing changes its state and nothing else.\<close>

lemma mark_old_ok:
  assumes "stream_at sv sid = Some s"
  shows "\<exists>sv' st. mark_old sv sid = Some sv' \<and> stream_at sv' sid = Some (s\<lparr>ss_state := st, ss_is_new := False\<rparr>) \<and>
    sv_heap sv' = sv_heap sv \<and> length (sv_streams sv') = length (sv_streams sv)"
proof -
  define st where "st = (if ss_is_new s then STREAMSTATE_OLD else ss_state s)"
  define sv1 where "sv1 = (if ss_is_new s then streams_change_state sv sid STREAMSTATE_OLD else sv)"
  have sv1: "sv_heap sv1 = sv_heap sv" "length (sv_streams sv1) = length (sv_streams sv)"
    using assms by (simp_all add: sv1_def streams_change_state_def)
  have s0: "s\<lparr>ss_state := ss_state s\<rparr> = s" by (cases s) simp
  have at: "stream_at sv1 sid = Some (s\<lparr>ss_state := st\<rparr>)"
    using assms s0 stream_at_put [OF assms, of "Some (s\<lparr>ss_state := STREAMSTATE_OLD\<rparr>)" sid]
    by (simp add: sv1_def st_def streams_change_state_def stream_at_cong [of "log_effect _ _" "put_stream _ _ _"])
  have "mark_old sv sid = Some (put_stream sv1 sid (Some (s\<lparr>ss_state := st, ss_is_new := False\<rparr>)))"
    using assms at by (simp add: mark_old_def sv1_def [symmetric] Let_def)
  then show ?thesis using sv1 stream_at_put [OF at, of _ sid] by (intro exI [of _ "put_stream sv1 sid (Some (s\<lparr>ss_state := st, ss_is_new := False\<rparr>))"] exI [of _ st]) simp
qed

text \<open>What is left of a chain lies where the chain lay.\<close>

lemma trimmed_apart: "trimmed h as h' as' \<Longrightarrow> windows_apart h as p n \<Longrightarrow> windows_apart h' as' p n"
  by (fastforce simp: trimmed_def windows_apart_def)

lemma bytes_partly:
  assumes "bytes m' p (int k) = xs" "length xs = k" "k \<le> n" "\<And>x. p + int k \<le> x \<Longrightarrow> m' x = m x"
  shows "bytes m' p (int n) = xs @ drop k (bytes m p (int n))"
proof (rule nth_equalityI)
  fix i assume "i < length (bytes m' p (int n))"
  then have i: "i < n" by simp
  show "bytes m' p (int n) ! i = (xs @ drop k (bytes m p (int n))) ! i"
  proof (cases "i < k")
    case True
    then have "xs ! i = m' (p + int i)" using assms(1) by (metis bytes_nth nat_int)
    then show ?thesis using True i assms(2) by (simp add: nth_append)
  next
    case False
    then show ?thesis using i assms(2,4) by (simp add: nth_append)
  qed
qed (use assms(2,3) in simp)

lemma outbufsize_samples:
  assumes "b \<in> {8, 16, 32}" "bits info = b" "outbufsize env info = n" "0 < n"
  shows "b div 8 * (8 * n div b) = n" "0 < 8 * n div b"
proof -
  have "n = mx_frames env (rate info) * channels info * (b div 8)" using assms(2,3) by (simp add: outbufsize_def)
  then have "8 * n div b = mx_frames env (rate info) * channels info" using assms(1) by auto
  then show "b div 8 * (8 * n div b) = n" "0 < 8 * n div b" using assms by (auto simp: outbufsize_def mult.commute)
qed

lemma shift_out_stream:
  assumes "length (sv_streams sv) = 64" "stream_at sv sid = Some s" "chain (sv_heap sv) (ss_buffer s) as" "chain_ok (sv_heap sv) as"
    and "ss_buffer s \<noteq> NULL" "dat \<noteq> NULL" "0 \<le> n" "windows_apart (sv_heap sv) as dat n"
    and "k = min (nat n) (length (content (sv_heap sv) as))"
  shows "\<exists>h' buf'. stream_shift_out_buffer sv sid dat n = Some (0, int k, put_stream (sv\<lparr>sv_heap := h'\<rparr>) sid (Some (s\<lparr>ss_buffer := buf'\<rparr>))) \<and>
    shifted (sv_heap sv) as dat k h' buf'"
proof -
  have "sid \<noteq> 64" using stream_at_range [OF assms(2)] assms(1) by auto
  moreover obtain h' buf' where "roar_buffer_shift_out (sv_heap sv) (Some (ss_buffer s)) dat (Some n) = Some (0, Some buf', Some (int k), h')"
      "shifted (sv_heap sv) as dat k h' buf'"
    using shift_out_shifted [OF assms(3-9)] by blast
  ultimately show ?thesis
    using assms(1,2,5) by (intro exI [of _ h'] exI [of _ buf']) (simp add: stream_shift_out_buffer_def check_sid_at)
qed


text \<open>A mono stream of 8 bit samples with a queue of five bytes, and rounds of four frames.\<close>

definition mix_env_4 :: mix_env where
  "mix_env_4 = \<lparr>mx_frames = (\<lambda>_. 4), mx_bufmax = (\<lambda>_ _. 4), mx_poly = (\<lambda>_ m _ _ _ _ _. (0, m))\<rparr>"

definition mono8 :: roar_audio_info where
  "mono8 = \<lparr>rate = 44100, bits = 8, channels = 1, codec = 1\<rparr>"

definition mono_stream :: roar_stream_server where
  "mono_stream = sample_stream0\<lparr>st_info := mono8, ss_output := 500\<rparr>"

definition mono_server :: server where
  "mono_server = sample_server\<lparr>sv_streams := Some mono_stream # replicate 63 None\<rparr>"


end
