(* ===== verification/Info_Messages.thy ===== *)
theory Info_Messages
  imports Ctl_Messages
begin

text \<open>
  Capabilities and server information, \<open>src/libroar/caps.c\<close> and \<open>src/libroar/serverinfo.c\<close>: the messages both sides
  exchange and the client's requests. A request goes through \<open>roar_req\<close>, here an argument \<open>req\<close>: it takes the state behind the
  connection, the message and the pointer to the block with long data, \<open>None\<close> if it is null, and gives the return value, the answer,
  its block and the state.

  Long data are a block of as many bytes as were allocated; \<open>None\<close> as a result is an access outside of the message or the
  block. \<open>want\<close> says that \<open>data\<close> is not null and \<open>alloc\<close> that \<open>malloc\<close> succeeds.
\<close>

type_synonym 'w roar_req = "'w \<Rightarrow> roar_message \<Rightarrow> byte list option option \<Rightarrow> (c_int \<times> roar_message \<times> byte list option \<times> 'w) option"

definition CMD_OK :: int where "CMD_OK = 254"
definition CMD_CAPS :: int where "CMD_CAPS = 34"
definition CMD_SERVER_INFO :: int where "CMD_SERVER_INFO = 9"
definition CF_REQUEST :: int where "CF_REQUEST = 1"
definition CT_STANDARDS :: int where "CT_STANDARDS = 1"
definition IT_SERVER :: int where "IT_SERVER = 1"

lemmas info_consts = CMD_OK_def CMD_CAPS_def CMD_SERVER_INFO_def CF_REQUEST_def CT_STANDARDS_def IT_SERVER_def

subsection \<open>Capabilities\<close>

record roar_caps =
  cp_version :: c_int
  cp_type :: c_int
  cp_flags :: c_int
  cp_data :: "byte list"

definition caps_body :: "roar_caps \<Rightarrow> byte list" where
  "caps_body caps = [word_of_int (cp_version caps), word_of_int (cp_type caps), word_of_int (cp_flags caps div 256 mod 256),
     word_of_int (cp_flags caps mod 256)] @ cp_data caps"

definition roar_caps_to_msg ::
    "roar_message option \<Rightarrow> roar_caps option \<Rightarrow> bool \<Rightarrow> bool \<Rightarrow> byte list option \<Rightarrow> c_int \<times> roar_message option \<times> byte list option" where
  "roar_caps_to_msg mes caps want alloc dat =
     (case (mes, caps) of
        (Some mes, Some caps) \<Rightarrow>
          let body = caps_body caps; needlen = length body in
          if needlen > LIBROAR_BUFFER_MSGDATA then
            if \<not> want then (-1, Some mes, dat)
            else if \<not> alloc then (-1, Some mes, None)
            else (0, Some (mes\<lparr>ms_datalen := int needlen\<rparr>), Some body)
          else (0, Some (mes\<lparr>ms_data := put_at 0 body (ms_data mes), ms_datalen := int needlen\<rparr>), dat)
      | _ \<Rightarrow> (-1, mes, dat))"

definition roar_caps_from_msg :: "roar_message option \<Rightarrow> byte list option \<Rightarrow> (c_int \<times> roar_caps option) option" where
  "roar_caps_from_msg mes dat =
     (case mes of None \<Rightarrow> Some (-1, None)
      | Some mes \<Rightarrow>
        let datap = (case dat of None \<Rightarrow> ms_data mes | Some d \<Rightarrow> d); n = ms_datalen mes in
        if datap = [] then None
        else if datap ! 0 \<noteq> 0 \<or> n < 4 then Some (-1, None)
        else if n > int (length datap) then None
        else Some (0, Some \<lparr>cp_version = sint (datap ! 0), cp_type = sint (datap ! 1),
          cp_flags = (sint (datap ! 2) * 256) OR sint (datap ! 3), cp_data = field 4 (nat n - 4) datap\<rparr>))"

text \<open>A list of standards is a list of 32 bit numbers; an empty one cannot be made. \<open>alloc\<close> says whether there is memory.\<close>

definition roar_stds_new :: "bool \<Rightarrow> nat \<Rightarrow> int list option" where
  "roar_stds_new alloc len = (if len = 0 \<or> \<not> alloc then None else Some (replicate len 0))"

definition roar_stds_free :: "int list option \<Rightarrow> c_int" where
  "roar_stds_free stds = (if stds = None then -1 else 0)"

text \<open>The integers of a block, byte swapped in place from its start; the header of the message stands there.\<close>

fun swap_ints :: "nat \<Rightarrow> byte list \<Rightarrow> byte list" where
  "swap_ints 0 bs = bs"
| "swap_ints (Suc n) bs = rev (take 4 bs) @ swap_ints n (drop 4 bs)"

text \<open>\<open>out\<close> says that the caller wants the list of the server, which is the last component of the result.\<close>

definition roar_caps_stds :: "'w roar_req \<Rightarrow> bool \<Rightarrow> 'w \<Rightarrow> bool \<Rightarrow> int list option \<Rightarrow> c_int \<Rightarrow> (c_int \<times> int list option \<times> 'w) option" where
  "roar_caps_stds req alloc con out inp flags =
     (let flags = (if flags = -1 then 0 else flags);
          flags = (if out then flags OR CF_REQUEST else flags) in
      if flags AND CF_REQUEST \<noteq> 0 \<and> \<not> out then Some (-1, None, con)
      else let inp = (case inp of Some [] \<Rightarrow> None | _ \<Rightarrow> inp);
               caps = \<lparr>cp_version = 0, cp_type = CT_STANDARDS, cp_flags = flags,
                 cp_data = (case inp of None \<Rightarrow> [] | Some l \<Rightarrow> concat (map (le_bytes 4) l))\<rparr>;
               (r, mes, dat) = roar_caps_to_msg (Some zero_message) (Some caps) True alloc None in
        if r = -1 then Some (-1, None, con)
        else let n = (case inp of None \<Rightarrow> 0 | Some l \<Rightarrow> length l);
                 mes = (if dat = None then (the mes)\<lparr>ms_data := swap_ints n (ms_data (the mes))\<rparr> else the mes);
                 dat = map_option (swap_ints n) dat in
          do {
            (r, mes, dat, con) \<leftarrow> req con (mes\<lparr>ms_cmd := CMD_CAPS\<rparr>) (Some dat);
            if r = -1 \<or> ms_cmd mes \<noteq> CMD_OK then Some (-1, None, con)
            else do {
              (r, caps) \<leftarrow> roar_caps_from_msg (Some mes) dat;
              if r = -1 then Some (-1, None, con)
              else let caps = the caps in
                if cp_version caps \<noteq> 0 \<or> cp_type caps \<noteq> CT_STANDARDS \<or> length (cp_data caps) mod 4 \<noteq> 0 then Some (-1, None, con)
                else if out then
                  case roar_stds_new alloc (length (cp_data caps) div 4) of None \<Rightarrow> Some (-1, None, con)
                  | Some _ \<Rightarrow> Some (0, Some (map (\<lambda>i. be_value (field (4 * i) 4 (cp_data caps))) [0..<length (cp_data caps) div 4]), con)
                else Some (0, None, con)
            }
          })"

subsection \<open>Server information\<close>

text \<open>A member is the string it points to, without the null character.\<close>

record roar_server_info =
  si_version :: "byte list option"
  si_location :: "byte list option"
  si_description :: "byte list option"
  si_contact :: "byte list option"
  si_serial :: "byte list option"
  si_address :: "byte list option"
  si_uiurl :: "byte list option"
  si_sysname :: "byte list option"
  si_release :: "byte list option"
  si_nodename :: "byte list option"
  si_machine :: "byte list option"

definition no_info :: roar_server_info where
  "no_info = \<lparr>si_version = None, si_location = None, si_description = None, si_contact = None, si_serial = None, si_address = None,
     si_uiurl = None, si_sysname = None, si_release = None, si_nodename = None, si_machine = None\<rparr>"

text \<open>The macro \<open>_add\<close>: only strings that are there and not empty are sent.\<close>

definition info_add :: "int \<Rightarrow> byte list option \<Rightarrow> (int \<times> byte list) list" where
  "info_add t m = (case m of None \<Rightarrow> [] | Some s \<Rightarrow> if s = [] then [] else [(t, s)])"

definition info_fields :: "roar_server_info \<Rightarrow> (int \<times> byte list) list" where
  "info_fields info = info_add 0 (si_version info) @ info_add 1 (si_location info) @ info_add 2 (si_description info)
     @ info_add 3 (si_contact info) @ info_add 8 (si_serial info) @ info_add 9 (si_address info) @ info_add 10 (si_uiurl info)
     @ info_add 4 (si_sysname info) @ info_add 6 (si_release info) @ info_add 5 (si_nodename info) @ info_add 7 (si_machine info)"

definition info_head :: "(int \<times> byte list) list \<Rightarrow> byte list" where
  "info_head ies = concat (map (\<lambda>(t, s). be_bytes 2 (t mod 256) @ be_bytes 2 (int (length s))) ies)"

definition info_body :: "(int \<times> byte list) list \<Rightarrow> byte list" where
  "info_body ies = [0, 0] @ be_bytes 2 (int (length ies)) @ info_head ies @ concat (map snd ies)"

definition roar_server_info_to_mes ::
    "roar_message option \<Rightarrow> roar_server_info option \<Rightarrow> bool \<Rightarrow> bool \<Rightarrow> byte list option \<Rightarrow> c_int \<times> roar_message option \<times> byte list option" where
  "roar_server_info_to_mes mes info want alloc dat =
     (case (mes, info) of
        (Some _, Some info) \<Rightarrow>
          let body = info_body (info_fields info); needlen = length body in
          if needlen > LIBROAR_BUFFER_MSGDATA then
            if \<not> want \<or> \<not> alloc then (-1, mes, dat)
            else (0, Some (zero_message\<lparr>ms_datalen := int needlen\<rparr>), Some body)
          else (0, Some (zero_message\<lparr>ms_datalen := int needlen, ms_data := put_at 0 body (ms_data zero_message)\<rparr>), dat)
      | _ \<Rightarrow> (-1, mes, dat))"

text \<open>The index of a message: type, length and text of each entry, cut out of the text part.\<close>

fun info_index :: "nat \<Rightarrow> byte list \<Rightarrow> byte list \<Rightarrow> (int \<times> byte list) list" where
  "info_index 0 head txt = []"
| "info_index (Suc n) head txt =
     (let len = nat (be_value (field 2 2 head))
      in (be_value (field 0 2 head) mod 256, take len txt) # info_index n (drop 4 head) (drop len txt))"

fun info_lengths :: "nat \<Rightarrow> byte list \<Rightarrow> nat" where
  "info_lengths 0 head = 0"
| "info_lengths (Suc n) head = nat (be_value (field 2 2 head)) + info_lengths n (drop 4 head)"

definition info_set :: "roar_server_info \<Rightarrow> int \<times> byte list \<Rightarrow> roar_server_info" where
  "info_set info ie = (case ie of (t, s) \<Rightarrow>
     if s = [] \<or> s = [0] then info
     else let v = Some (c_string s) in
       if t = 0 then info\<lparr>si_version := v\<rparr> else if t = 1 then info\<lparr>si_location := v\<rparr> else if t = 2 then info\<lparr>si_description := v\<rparr>
       else if t = 3 then info\<lparr>si_contact := v\<rparr> else if t = 8 then info\<lparr>si_serial := v\<rparr> else if t = 9 then info\<lparr>si_address := v\<rparr>
       else if t = 10 then info\<lparr>si_uiurl := v\<rparr> else if t = 4 then info\<lparr>si_sysname := v\<rparr> else if t = 6 then info\<lparr>si_release := v\<rparr>
       else if t = 5 then info\<lparr>si_nodename := v\<rparr> else if t = 7 then info\<lparr>si_machine := v\<rparr> else info)"

text \<open>The inner \<open>None\<close> is the null pointer. Eleven entries fit into the index of the receiver.\<close>

definition roar_server_info_from_mes :: "bool \<Rightarrow> roar_message \<Rightarrow> byte list option \<Rightarrow> roar_server_info option option" where
  "roar_server_info_from_mes alloc mes dat =
     (let bs = (case dat of None \<Rightarrow> ms_data mes | Some d \<Rightarrow> d); n = wrap_u 64 (ms_datalen mes) in
      if n < 4 then Some None
      else if length bs < 4 then None
      else if bs ! 0 \<noteq> 0 \<or> bs ! 1 \<noteq> 0 then Some None
      else let idx = nat (be_value (field 2 2 bs)) in
        if idx > 11 then Some None
        else if n < int (4 + 4 * idx) then Some None
        else if length bs < 4 + 4 * idx then None
        else let head = field 4 (4 * idx) bs; txt = drop (4 + 4 * idx) bs; tl = info_lengths idx head in
          if n < int (4 + 4 * idx + tl) then Some None
          else if length txt < tl then None
          else if \<not> alloc then Some None
          else Some (Some (foldl info_set no_info (info_index idx head txt))))"

definition roar_server_info_req :: "'w roar_req \<Rightarrow> bool \<Rightarrow> 'w \<Rightarrow> (roar_server_info option \<times> 'w) option" where
  "roar_server_info_req req alloc con = do {
     (r, mes, dat, con) \<leftarrow> req con (zero_message\<lparr>ms_cmd := CMD_SERVER_INFO, ms_datalen := 4,
        ms_data := put_at 0 (be_bytes 2 0 @ be_bytes 2 IT_SERVER) (ms_data zero_message)\<rparr>) (Some None);
     if r \<noteq> 0 then Some (None, con)
     else if ms_cmd mes \<noteq> CMD_OK then Some (None, con)
     else do { info \<leftarrow> roar_server_info_from_mes alloc mes dat; Some (info, con) }
   }"

definition roar_server_info_free :: "roar_server_info option \<Rightarrow> c_int" where
  "roar_server_info_free info = (if info = None then -1 else 0)"

subsection \<open>Server information arrives\<close>

definition ies_ok :: "(int \<times> byte list) list \<Rightarrow> bool" where
  "ies_ok ies \<longleftrightarrow> (\<forall>(t, s) \<in> set ies. 0 \<le> t \<and> t < 256 \<and> length s < 65536 \<and> s \<noteq> [] \<and> 0 \<notin> set s)"

lemma be_value_2: "0 \<le> v \<Longrightarrow> v < 65536 \<Longrightarrow> be_value (be_bytes 2 v) = v"
  by (simp add: be_value_bytes)

lemma info_head_length [simp]: "length (info_head ies) = 4 * length ies"
  by (induction ies) (auto simp: info_head_def)

lemma info_head_Cons: "info_head ((t, s) # ies) = be_bytes 2 (t mod 256) @ be_bytes 2 (int (length s)) @ info_head ies"
  by (simp add: info_head_def)

lemma info_parts:
  assumes "0 \<le> t" "t < 256" "length s < 65536"
  shows "nat (be_value (field 2 2 (info_head ((t, s) # ies)))) = length s" "be_value (field 0 2 (info_head ((t, s) # ies))) = t"
    "drop 4 (info_head ((t, s) # ies)) = info_head ies"
  using assms by (simp_all add: info_head_Cons field_skip field_here be_value_2)

lemma info_index_read:
  "ies_ok ies \<Longrightarrow> info_index (length ies) (info_head ies) (concat (map snd ies) @ rest) = ies"
proof (induction ies)
  case (Cons ie ies)
  obtain t s where ie: "ie = (t, s)" by fastforce
  have "0 \<le> t" "t < 256" "length s < 65536" "ies_ok ies" using Cons.prems by (auto simp: ies_ok_def ie)
  then show ?case using Cons.IH info_parts [of t s ies] by (simp add: ie)
qed simp

lemma info_lengths_read: "ies_ok ies \<Longrightarrow> info_lengths (length ies) (info_head ies) = length (concat (map snd ies))"
proof (induction ies)
  case (Cons ie ies)
  obtain t s where ie: "ie = (t, s)" by fastforce
  have "0 \<le> t" "t < 256" "length s < 65536" "ies_ok ies" using Cons.prems by (auto simp: ies_ok_def ie)
  then show ?case using Cons.IH info_parts [of t s ies] by (simp add: ie)
qed simp

text \<open>A message with the body of an index, in the structure or in a block, is read back to the entries of the index.\<close>

lemma info_read:
  assumes "ies_ok ies" "length ies \<le> 11" "length (info_body ies) < 2 ^ 16" "ms_datalen mes = int (length (info_body ies))"
    and "(case dat of None \<Rightarrow> ms_data mes | Some d \<Rightarrow> d) = info_body ies @ rest"
  shows "roar_server_info_from_mes True mes dat = Some (Some (foldl info_set no_info ies))"
proof -
  let ?bs = "info_body ies @ rest"
  have len: "length (info_body ies) = 4 + 4 * length ies + length (concat (map snd ies))" by (simp add: info_body_def)
  have n: "wrap_u 64 (ms_datalen mes) = int (length (info_body ies))" using assms(3,4) by (simp add: wrap_u_id)
  have i: "nat (be_value (field 2 2 ?bs)) = length ies"
    using assms(2) by (simp add: info_body_def field_skip [of "[0, 0]", simplified] field_here be_value_2)
  have h: "field 4 (4 * length ies) ?bs = info_head ies"
    by (simp add: info_body_def field_skip [of "[0, 0] @ be_bytes 2 (int (length ies))", simplified] field_here)
  have "?bs = ([0, 0] @ be_bytes 2 (int (length ies)) @ info_head ies) @ concat (map snd ies) @ rest" by (simp add: info_body_def)
  then have t: "drop (4 + 4 * length ies) ?bs = concat (map snd ies) @ rest" by (simp only: drop_append) simp
  have z: "?bs ! 0 = 0" "?bs ! 1 = 0" by (simp_all add: info_body_def)
  show ?thesis
    unfolding roar_server_info_from_mes_def assms(5) n Let_def i h t info_lengths_read [OF assms(1)] info_index_read [OF assms(1)]
    using z assms(2) len by simp
qed

definition string_ok :: "byte list option \<Rightarrow> bool" where
  "string_ok m \<longleftrightarrow> (case m of None \<Rightarrow> True | Some s \<Rightarrow> s \<noteq> [] \<and> 0 \<notin> set s)"

definition info_ok :: "roar_server_info \<Rightarrow> bool" where
  "info_ok info \<longleftrightarrow> (\<forall>m \<in> set [si_version info, si_location info, si_description info, si_contact info, si_serial info, si_address info,
     si_uiurl info, si_sysname info, si_release info, si_nodename info, si_machine info]. string_ok m)
     \<and> length (info_body (info_fields info)) < 2 ^ 16"

lemma info_keep:
  "si_version i = None \<Longrightarrow> i\<lparr>si_version := None\<rparr> = i"
  "si_location i = None \<Longrightarrow> i\<lparr>si_location := None\<rparr> = i"
  "si_description i = None \<Longrightarrow> i\<lparr>si_description := None\<rparr> = i"
  "si_contact i = None \<Longrightarrow> i\<lparr>si_contact := None\<rparr> = i"
  "si_serial i = None \<Longrightarrow> i\<lparr>si_serial := None\<rparr> = i"
  "si_address i = None \<Longrightarrow> i\<lparr>si_address := None\<rparr> = i"
  "si_uiurl i = None \<Longrightarrow> i\<lparr>si_uiurl := None\<rparr> = i"
  "si_sysname i = None \<Longrightarrow> i\<lparr>si_sysname := None\<rparr> = i"
  "si_release i = None \<Longrightarrow> i\<lparr>si_release := None\<rparr> = i"
  "si_nodename i = None \<Longrightarrow> i\<lparr>si_nodename := None\<rparr> = i"
  "si_machine i = None \<Longrightarrow> i\<lparr>si_machine := None\<rparr> = i"
  by (cases i, simp)+

lemma info_steps:
  assumes "string_ok m"
  shows
    "si_version i = None \<Longrightarrow> foldl info_set i (info_add 0 m) = i\<lparr>si_version := m\<rparr>"
    "si_location i = None \<Longrightarrow> foldl info_set i (info_add 1 m) = i\<lparr>si_location := m\<rparr>"
    "si_description i = None \<Longrightarrow> foldl info_set i (info_add 2 m) = i\<lparr>si_description := m\<rparr>"
    "si_contact i = None \<Longrightarrow> foldl info_set i (info_add 3 m) = i\<lparr>si_contact := m\<rparr>"
    "si_serial i = None \<Longrightarrow> foldl info_set i (info_add 8 m) = i\<lparr>si_serial := m\<rparr>"
    "si_address i = None \<Longrightarrow> foldl info_set i (info_add 9 m) = i\<lparr>si_address := m\<rparr>"
    "si_uiurl i = None \<Longrightarrow> foldl info_set i (info_add 10 m) = i\<lparr>si_uiurl := m\<rparr>"
    "si_sysname i = None \<Longrightarrow> foldl info_set i (info_add 4 m) = i\<lparr>si_sysname := m\<rparr>"
    "si_release i = None \<Longrightarrow> foldl info_set i (info_add 6 m) = i\<lparr>si_release := m\<rparr>"
    "si_nodename i = None \<Longrightarrow> foldl info_set i (info_add 5 m) = i\<lparr>si_nodename := m\<rparr>"
    "si_machine i = None \<Longrightarrow> foldl info_set i (info_add 7 m) = i\<lparr>si_machine := m\<rparr>"
proof -
  have s: "foldl info_set i (info_add t m) = (case m of None \<Rightarrow> i | Some s \<Rightarrow> info_set i (t, s))" for t
    using assms by (cases m) (simp_all add: info_add_def string_ok_def)
  have m: "m = None \<or> (\<exists>s. m = Some s \<and> s \<noteq> [] \<and> s \<noteq> [0] \<and> c_string s = s)"
    using assms by (cases m) (auto simp: string_ok_def c_string_id)
  show "foldl info_set i (info_add 0 m) = i\<lparr>si_version := m\<rparr>" if "si_version i = None"
    unfolding s using m that by (elim disjE exE conjE) (simp_all add: info_keep info_set_def)
  show "foldl info_set i (info_add 1 m) = i\<lparr>si_location := m\<rparr>" if "si_location i = None"
    unfolding s using m that by (elim disjE exE conjE) (simp_all add: info_keep info_set_def)
  show "foldl info_set i (info_add 2 m) = i\<lparr>si_description := m\<rparr>" if "si_description i = None"
    unfolding s using m that by (elim disjE exE conjE) (simp_all add: info_keep info_set_def)
  show "foldl info_set i (info_add 3 m) = i\<lparr>si_contact := m\<rparr>" if "si_contact i = None"
    unfolding s using m that by (elim disjE exE conjE) (simp_all add: info_keep info_set_def)
  show "foldl info_set i (info_add 8 m) = i\<lparr>si_serial := m\<rparr>" if "si_serial i = None"
    unfolding s using m that by (elim disjE exE conjE) (simp_all add: info_keep info_set_def)
  show "foldl info_set i (info_add 9 m) = i\<lparr>si_address := m\<rparr>" if "si_address i = None"
    unfolding s using m that by (elim disjE exE conjE) (simp_all add: info_keep info_set_def)
  show "foldl info_set i (info_add 10 m) = i\<lparr>si_uiurl := m\<rparr>" if "si_uiurl i = None"
    unfolding s using m that by (elim disjE exE conjE) (simp_all add: info_keep info_set_def)
  show "foldl info_set i (info_add 4 m) = i\<lparr>si_sysname := m\<rparr>" if "si_sysname i = None"
    unfolding s using m that by (elim disjE exE conjE) (simp_all add: info_keep info_set_def)
  show "foldl info_set i (info_add 6 m) = i\<lparr>si_release := m\<rparr>" if "si_release i = None"
    unfolding s using m that by (elim disjE exE conjE) (simp_all add: info_keep info_set_def)
  show "foldl info_set i (info_add 5 m) = i\<lparr>si_nodename := m\<rparr>" if "si_nodename i = None"
    unfolding s using m that by (elim disjE exE conjE) (simp_all add: info_keep info_set_def)
  show "foldl info_set i (info_add 7 m) = i\<lparr>si_machine := m\<rparr>" if "si_machine i = None"
    unfolding s using m that by (elim disjE exE conjE) (simp_all add: info_keep info_set_def)
qed

lemma info_fields_set:
  assumes "info_ok info"
  shows "foldl info_set no_info (info_fields info) = info"
  unfolding info_fields_def foldl_append using assms by (simp add: info_ok_def info_steps no_info_def)

lemma info_add_entry: "(t, s) \<in> set (info_add u m) \<Longrightarrow> u \<in> {0..10} \<Longrightarrow> string_ok m \<Longrightarrow> t \<in> {0..10} \<and> s \<noteq> [] \<and> 0 \<notin> set s"
  by (auto simp: info_add_def string_ok_def split: option.splits if_splits)

lemma concat_entry: "(t, s) \<in> set ies \<Longrightarrow> length s \<le> length (concat (map snd ies))"
  by (induction ies) auto

lemma info_fields_ok:
  assumes "info_ok info"
  shows "ies_ok (info_fields info)" "length (info_fields info) \<le> 11"
proof -
  have short: "length s < 65536" if "(t, s) \<in> set (info_fields info)" for t s
    using concat_entry [OF that] assms by (simp add: info_ok_def info_body_def)
  have ok: "string_ok (si_version info)" "string_ok (si_location info)" "string_ok (si_description info)" "string_ok (si_contact info)" "string_ok (si_serial info)"
    "string_ok (si_address info)" "string_ok (si_uiurl info)" "string_ok (si_sysname info)" "string_ok (si_release info)" "string_ok (si_nodename info)" "string_ok (si_machine info)"
    using assms by (simp_all add: info_ok_def)
  have "t \<in> {0..10} \<and> s \<noteq> [] \<and> 0 \<notin> set s" if "(t, s) \<in> set (info_fields info)" for t s
    using that unfolding info_fields_def set_append Un_iff by (elim disjE) (erule info_add_entry, simp, rule ok)+
  then show "ies_ok (info_fields info)" using short by (fastforce simp: ies_ok_def)
  have "length (info_add t m) \<le> 1" for t m by (simp add: info_add_def split: option.splits)
  note l = this [of 0 "si_version info"] this [of 1 "si_location info"] this [of 2 "si_description info"] this [of 3 "si_contact info"]
    this [of 8 "si_serial info"] this [of 9 "si_address info"] this [of 10 "si_uiurl info"] this [of 4 "si_sysname info"]
    this [of 6 "si_release info"] this [of 5 "si_nodename info"] this [of 7 "si_machine info"]
  show "length (info_fields info) \<le> 11" unfolding info_fields_def length_append using l by linarith
qed



subsection \<open>Capabilities arrive, but not the client's own\<close>

lemma caps_roundtrip:
  assumes "cp_version caps = 0" "cp_type caps \<in> {0..<128}" "cp_flags caps \<in> {0..<128}" "length (cp_data caps) \<le> 76" "message_ok m"
  shows "\<exists>mes. roar_caps_to_msg (Some m) (Some caps) want alloc None = (0, Some mes, None) \<and> roar_caps_from_msg (Some mes) None = Some (0, Some caps)"
  using assms by (cases caps) (simp add: roar_caps_to_msg_def roar_caps_from_msg_def caps_body_def LIBROAR_BUFFER_MSGDATA_def message_ok_def
    put_front_at sint_of_small field_def nat_add_distrib)

text \<open>A client that sends a list of its own and asks for the one of the server: the byte order of the numbers is converted from
  the start of the message, where its header is, so the first byte is not the version but the low byte of the flags, and the
  server refuses the message.\<close>

lemma caps_offer_refused:
  assumes "l \<noteq> []" "length l \<le> 19"
  shows "\<exists>m. roar_caps_stds (\<lambda>w m d. Some (-1, m, the d, w @ [(m, the d)])) alloc [] True (Some l) 0 = Some (-1, None, [(m, None)]) \<and>
    roar_caps_from_msg (Some m) None = Some (-1, None)"
proof -
  have len: "length (concat (map (le_bytes 4) l)) = 4 * length l" by (induction l) auto
  obtain k where k: "length l = Suc k" using assms(1) by (cases l) auto
  let ?b = "concat (map (le_bytes 4) l)"
  have "swap_ints (Suc k) ([0, 1, 0, 1] @ xs) = [1, 0, 1, 0] @ swap_ints k xs" for xs :: "byte list" by simp
  then show ?thesis using assms(1,2) len k
    by (cases l) (simp_all add: roar_caps_stds_def roar_caps_to_msg_def caps_body_def LIBROAR_BUFFER_MSGDATA_def info_consts put_front_at
        roar_caps_from_msg_def Let_def)
qed

end
