(* ===== verification/Server_Requests.thy ===== *)
theory Server_Requests
  imports Server_Mix Info_Messages Roar_Notify
begin

text \<open>
  The handlers of the requests of a client, \<open>src/roard/req.c\<close>: connection, new streams, file handles, meta data, server
  information and standby. A handler gets the number of the client, the message with the block of long data, and the flags of
  the answer; it changes them and the server. \<open>None\<close> is an access outside of the message, an array or a table, or a call
  that does not return.

  \<open>request_env\<close> has the results of calls that leave the model: the system (sockets, credentials, memory), the event
  subscriptions, the delays the codec filter and the VIO of a stream report, and the level meters. The conversion of a
  request's integers in place is not recorded where the answer has no data.
\<close>

record request_env =
  en_io :: server_io
  en_dup :: bool
  en_cfg :: server_config
  en_mix :: mix_env
  en_cred :: "c_int \<Rightarrow> (c_int \<times> c_int \<times> c_int) option"
  en_peer :: "c_int \<Rightarrow> roar_nnode"
  en_recv_fh :: "c_int \<Rightarrow> c_int"
  en_connect :: "c_int \<Rightarrow> byte list \<Rightarrow> int \<Rightarrow> c_int"
  en_listen :: c_int
  en_subscribe :: "roar_event \<Rightarrow> ptr"
  en_alloc :: bool
  en_codec_delay :: "c_int \<Rightarrow> int option"
  en_vio_delay :: "c_int \<Rightarrow> int option"
  en_rms :: "c_int \<Rightarrow> nat \<Rightarrow> int"
  en_info :: roar_server_info

record request =
  rq_mes :: roar_message
  rq_data :: "byte list option"
  rq_flags :: "32 word"

type_synonym handled = "(c_int \<times> request \<times> server) option"
type_synonym handler = "request_env \<Rightarrow> c_int \<Rightarrow> request \<Rightarrow> server \<Rightarrow> handled"

definition CMD_OK_STOP :: int where "CMD_OK_STOP = 253"
definition OUT_CLOSECON :: "32 word" where "OUT_CLOSECON = 1"
definition OUT_LONGDATA :: "32 word" where "OUT_LONGDATA = 2"
definition OUT_NOSEND :: "32 word" where "OUT_NOSEND = 4"

definition ACCLEV_IDENTED :: nat where "ACCLEV_IDENTED = 1"

subsection \<open>Messages\<close>

text \<open>The number of the stream as the functions of the tables get it, a field of 16 bits, and the usual answers.\<close>

definition rq_stream :: "request \<Rightarrow> c_int" where
  "rq_stream q = wrap_s 32 (ms_stream (rq_mes q))"

definition rq_len :: "request \<Rightarrow> c_int" where
  "rq_len q = ms_datalen (rq_mes q)"

definition rq_char :: "request \<Rightarrow> nat \<Rightarrow> int" where
  "rq_char q i = sint (ms_data (rq_mes q) ! i)"

definition rq_u16 :: "request \<Rightarrow> nat \<Rightarrow> int" where
  "rq_u16 q i = be_value (field (2 * i) 2 (ms_data (rq_mes q)))"

definition set_mes :: "(roar_message \<Rightarrow> roar_message) \<Rightarrow> request \<Rightarrow> request" where
  "set_mes f q = q\<lparr>rq_mes := f (rq_mes q)\<rparr>"

definition refuse :: "request \<Rightarrow> server \<Rightarrow> handled" where
  "refuse q sv = Some (-1, q, sv)"

definition answer_ok :: "request \<Rightarrow> server \<Rightarrow> handled" where
  "answer_ok q sv = Some (0, set_mes (\<lambda>m. m\<lparr>ms_cmd := CMD_OK, ms_datalen := 0\<rparr>) q, sv)"

text \<open>The same with the current position.\<close>

definition answer_pos :: "request \<Rightarrow> server \<Rightarrow> handled" where
  "answer_pos q sv = Some (0, set_mes (\<lambda>m. m\<lparr>ms_cmd := CMD_OK, ms_pos := sv_pos sv, ms_datalen := 0\<rparr>) q, sv)"

definition answer_data :: "byte list \<Rightarrow> request \<Rightarrow> server \<Rightarrow> handled" where
  "answer_data bs q sv =
     (if length bs > length (ms_data (rq_mes q)) then None
      else Some (0, set_mes (\<lambda>m. m\<lparr>ms_cmd := CMD_OK, ms_datalen := int (length bs), ms_data := put_at 0 bs (ms_data m)\<rparr>) q, sv))"

subsection \<open>Connection\<close>

definition req_on_noop :: handler where
  "req_on_noop env cid q sv = answer_pos q sv"

text \<open>The length of the name is not checked to be positive.\<close>

definition req_on_identify :: handler where
  "req_on_identify env cid q sv =
     (if rq_len q < 1 then refuse q sv
      else do {
        c \<leftarrow> client_at sv cid;
        if rq_char q 0 = 1 then do {
          pid \<leftarrow> int_at (ms_data (rq_mes q)) 1;
          let c = c\<lparr>cl_pid := (if cl_pid c = -1 then pid else cl_pid c)\<rparr>;
          name \<leftarrow> strncpy_at (ms_data (rq_mes q)) 5 (min (rq_len q - 5) (int ROAR_BUFFER_NAME - 1));
          answer_pos q (put_client sv cid (Some (c\<lparr>cl_name := name, cl_acclev := ACCLEV_IDENTED\<rparr>)))
        }
        else refuse q sv
      })"

definition req_on_auth :: handler where
  "req_on_auth env cid q sv = do {
     c \<leftarrow> client_at sv cid;
     (r, ames) \<leftarrow> roar_auth_from_mes (rq_mes q) (rq_data q);
     if r = -1 then refuse q sv
     else let (r, lev) = auth_client_ckeck (sv_keyring sv) (Some ames) (Some (cl_uid c, cl_gid c));
              sv = (case lev of None \<Rightarrow> sv | Some l \<Rightarrow> put_client sv cid (Some (c\<lparr>cl_acclev := l\<rparr>)))
          in if r \<noteq> 1 then refuse q sv else answer_pos q sv
   }"

definition req_on_whoami :: handler where
  "req_on_whoami env cid q sv =
     Some (0, set_mes (\<lambda>m. m\<lparr>ms_cmd := CMD_OK, ms_pos := sv_pos sv, ms_datalen := 1, ms_data := put_at 0 [word_of_int cid] (ms_data m)\<rparr>) q, sv)"

subsection \<open>Streams\<close>

definition ROAR_STREAM :: "roar_stream_server \<Rightarrow> roar_stream" where
  "ROAR_STREAM s = \<lparr>rs_id = st_id s, rs_fh = st_fh s, rs_dir = st_dir s, rs_pos = st_pos s, rs_pos_rel_id = st_pos_rel_id s, rs_info = st_info s\<rparr>"

definition put_ROAR_STREAM :: "roar_stream \<Rightarrow> roar_stream_server \<Rightarrow> roar_stream_server" where
  "put_ROAR_STREAM r s = s\<lparr>st_id := rs_id r, st_fh := rs_fh r, st_dir := rs_dir r, st_pos := rs_pos r, st_pos_rel_id := rs_pos_rel_id r,
     st_info := rs_info r\<rparr>"

definition MIDI_CHANNELS_DEFAULT :: int where "MIDI_CHANNELS_DEFAULT = 16"
definition MIDI_BITS :: int where "MIDI_BITS = 8"

text \<open>\<open>streams_delete\<close> and -1.\<close>

definition drop_stream :: "request_env \<Rightarrow> request \<Rightarrow> server \<Rightarrow> c_int \<Rightarrow> handled" where
  "drop_stream env q sv sid = do { (_, sv) \<leftarrow> streams_delete (en_io env) (en_dup env) sv sid; refuse q sv }"

definition unrelate :: "server \<Rightarrow> c_int \<Rightarrow> roar_stream_server \<Rightarrow> server" where
  "unrelate sv sid s = put_stream sv sid (Some (s\<lparr>st_pos_rel_id := -1\<rparr>))"

text \<open>The checks that depend on the direction: whether the stream is accepted, and the server.\<close>

definition new_stream_dir :: "server \<Rightarrow> c_int \<Rightarrow> (bool \<times> server) option" where
  "new_stream_dir sv sid = do {
     s \<leftarrow> stream_at sv sid;
     let dir = st_dir s;
     let rel = st_pos_rel_id s;
     if dir = ROAR_DIR_LIGHT_IN \<or> dir = ROAR_DIR_LIGHT_OUT
     then Some (True, put_stream sv sid (Some (s\<lparr>st_info := (st_info s)\<lparr>channels := 0, bits := 0, rate := 0\<rparr>\<rparr>)))
     else if dir = ROAR_DIR_MIDI_IN \<or> dir = ROAR_DIR_MIDI_OUT
     then Some (True, put_stream sv sid (Some (s\<lparr>st_info := (st_info s)\<lparr>channels := MIDI_CHANNELS_DEFAULT, bits := MIDI_BITS, rate := 0\<rparr>\<rparr>)))
     else if dir = ROAR_DIR_RAW_IN
     then if rel = -1 \<or> rel = sid then Some (False, unrelate sv sid s)
          else do { d \<leftarrow> streams_get_dir sv rel; if d \<noteq> ROAR_DIR_RAW_OUT then Some (False, unrelate sv sid s) else Some (True, sv) }
     else if dir = ROAR_DIR_THRU
     then if rel = -1 \<or> rel = sid then Some (False, unrelate sv sid s)
          else do {
            (r, src) \<leftarrow> streams_get sv rel;
            case src of None \<Rightarrow> Some (False, sv)
            | Some src \<Rightarrow> Some (True, put_stream sv sid (Some (s\<lparr>st_info := st_info src, ss_codec_orgi := ss_codec_orgi src\<rparr>)))
          }
     else if dir = ROAR_DIR_FILTER
     then do {
       (r, info) \<leftarrow> (if rel = -1 then Some (0 :: c_int, sv_sa sv)
                     else do { (r, src) \<leftarrow> streams_get sv rel; Some (case src of None \<Rightarrow> (-1, sv_sa sv) | Some src \<Rightarrow> (0, st_info src)) });
       Some (r \<noteq> -1 \<and> st_info s = info, sv)
     }
     else Some (True, sv)
   }"

definition req_on_new_stream :: handler where
  "req_on_new_stream env cid q sv =
     (let (sid, sv) = streams_new sv in
      if sid = -1 then refuse q sv
      else do {
        (r, _) \<leftarrow> streams_get sv sid;
        if r = -1 then drop_stream env q sv sid
        else do {
          (r, sv) \<leftarrow> client_stream_add sv cid sid;
          if r = -1 then drop_stream env q sv sid
          else do {
            s \<leftarrow> stream_at sv sid;
            let (r, rs, mes) = roar_stream_m2s (Some (ROAR_STREAM s)) (Some (rq_mes q));
            let q = set_mes (\<lambda>_. the mes) q;
            if r = -1 then drop_stream env q sv sid
            else do {
              let s = (put_ROAR_STREAM (the rs) s)\<lparr>st_id := sid, ss_codec_orgi := codec (rs_info (the rs))\<rparr>;
              (r, sv) \<leftarrow> streams_set_dir (en_io env) (en_dup env) (en_cfg env) (put_stream sv sid (Some s)) sid (st_dir s) True;
              if r = -1 then drop_stream env q sv sid
              else do {
                (ok, sv) \<leftarrow> new_stream_dir sv sid;
                if \<not> ok then drop_stream env q sv sid
                else Some (0, set_mes (\<lambda>m. m\<lparr>ms_cmd := CMD_OK, ms_stream := wrap_u 32 sid, ms_datalen := 0\<rparr>) q, sv)
              }
            }
          }
        }
      })"

text \<open>A stream that is not there counts as ready.\<close>

definition req_on_exec_stream :: handler where
  "req_on_exec_stream env cid q sv = do {
     ready \<leftarrow> streams_is_ready sv (rq_stream q);
     if ready \<noteq> 0 then answer_ok (q\<lparr>rq_flags := rq_flags q OR OUT_CLOSECON\<rparr>) sv
     else do {
       (r, sv) \<leftarrow> client_stream_exec (en_io env) (en_dup env) (en_cfg env) sv cid (rq_stream q);
       if r = -1 then refuse q sv else answer_ok q sv
     }
   }"

definition SOCKET_TYPE_MAX :: int where "SOCKET_TYPE_MAX = 11"
definition SOCKET_TYPE_FORK :: int where "SOCKET_TYPE_FORK = 3"
definition SOCKET_TYPE_FILE :: int where "SOCKET_TYPE_FILE = 4"

definition req_on_con_stream :: handler where
  "req_on_con_stream env cid q sv =
     (if rq_len q < 4 \<or> rq_char q 0 \<noteq> 0 \<or> rq_len q > 80 then refuse q sv
      else do {
        let typ = rq_char q 1;
        host \<leftarrow> strncpy_at (ms_data (rq_mes q)) 4 (rq_len q - 4);
        if typ > SOCKET_TYPE_MAX \<or> typ = SOCKET_TYPE_FILE \<or> typ = SOCKET_TYPE_FORK then refuse q sv
        else let fh = en_connect env typ host (rq_u16 q 1) in
          if fh = -1 then refuse q sv
          else do {
            (r, sv) \<leftarrow> client_stream_set_fh (en_io env) (en_dup env) (en_cfg env) sv cid (rq_stream q) fh;
            if r = -1 then Some (1, q, log_effect (Eff_Close fh) sv) else answer_ok q sv
          }
      })"

definition CLIENTPASS_FLAG_LISTEN :: int where "CLIENTPASS_FLAG_LISTEN = 1"

text \<open>The fields are \<open>int16_t\<close>. A new listening socket is recorded as an effect.\<close>

definition req_on_passfh :: handler where
  "req_on_passfh env cid q sv = do {
     sock \<leftarrow> clients_get_fh sv cid;
     let fh = en_recv_fh env sock;
     if fh = -1 then refuse q sv
     else if rq_stream q \<noteq> -1 then do {
       (r, sv) \<leftarrow> client_stream_set_fh (en_io env) (en_dup env) (en_cfg env) sv cid (rq_stream q) fh;
       if r = -1 then refuse q (log_effect (Eff_Close fh) sv) else answer_ok q sv
     }
     else if rq_len q < 8 \<or> rq_u16 q 0 \<noteq> 0 then refuse q sv
     else let fl = rq_u16 q 1; listening = (fl AND CLIENTPASS_FLAG_LISTEN \<noteq> 0);
              fl = (if listening then fl - CLIENTPASS_FLAG_LISTEN else fl) in
       if fl \<noteq> 0 then refuse q sv
       else if listening then
         if en_listen env = -1 then refuse q (log_effect (Eff_Close fh) sv)
         else answer_ok q (log_effect (Eff_Listen fh (wrap_s 16 (rq_u16 q 2))) sv)
       else do {
         (r, sv) \<leftarrow> clients_new_from_fh (en_io env) (en_dup env) (en_cred env) (en_peer env) sv fh (wrap_s 16 (rq_u16 q 2)) (wrap_s 16 (rq_u16 q 3)) True;
         if r = -1 then refuse q sv else answer_ok q sv
       }
   }"

end
