(* ===== verification/Server_Info_Requests.thy ===== *)
theory Server_Info_Requests
  imports Server_Requests
begin

text \<open>
  The handlers of \<open>src/roard/req.c\<close> for meta data, server information, capabilities, standby, the lists of clients and streams
  and the description of one of them. Strings of the meta data are the bytes of the message up to a null byte.
\<close>

subsection \<open>Meta data\<close>

definition META_MODE_SET :: int where "META_MODE_SET = 0"
definition META_MODE_ADD :: int where "META_MODE_ADD = 1"
definition META_MODE_DELETE :: int where "META_MODE_DELETE = 2"
definition META_MODE_CLEAR :: int where "META_MODE_CLEAR = 3"
definition META_MODE_FINALIZE :: int where "META_MODE_FINALIZE = 4"

lemmas meta_modes = META_MODE_SET_def META_MODE_ADD_def META_MODE_DELETE_def META_MODE_CLEAR_def META_MODE_FINALIZE_def

definition string_of :: "byte list \<Rightarrow> string" where
  "string_of bs = map (\<lambda>b. char_of (unat b)) bs"

definition bytes_of :: "string \<Rightarrow> byte list" where
  "bytes_of s = map (\<lambda>c. word_of_int (of_char c)) s"

text \<open>The lengths of name and value are signed: \<open>strncpy\<close> with a negative one is undefined.\<close>

definition set_meta_entry :: "request_env \<Rightarrow> request \<Rightarrow> server \<Rightarrow> int \<Rightarrow> handled" where
  "set_meta_entry env q sv mode =
     (if rq_len q < 5 then refuse q sv
      else let namelen = rq_char q 3; vallen = rq_char q 4; ty = rq_char q 2 in
        if rq_len q < 5 + namelen + vallen \<or> namelen > int META_MAX_NAMELEN then refuse q sv
        else do {
          name \<leftarrow> strncpy_at (ms_data (rq_mes q)) 5 namelen;
          val \<leftarrow> strncpy_at (ms_data (rq_mes q)) (5 + namelen) vallen;
          (r, sv) \<leftarrow> (if mode = META_MODE_SET
                       then stream_meta_set (en_dup env) sv (rq_stream q) ty (Some (string_of name)) (string_of val)
                       else stream_meta_add (en_dup env) sv (rq_stream q) ty (Some (string_of name)) (string_of val));
          if r = -1 then refuse q sv else answer_ok q sv
        })"

definition req_on_set_meta :: handler where
  "req_on_set_meta env cid q sv =
     (if rq_len q < 3 \<or> rq_char q 0 \<noteq> 0 then refuse q sv
      else let mode = rq_char q 1 in
        if mode = META_MODE_CLEAR then do { (_, sv) \<leftarrow> stream_meta_clear sv (rq_stream q); answer_ok q sv }
        else if mode = META_MODE_DELETE then refuse q sv
        else if mode = META_MODE_FINALIZE then do {
          (_, sv) \<leftarrow> stream_meta_finalize (en_io env) (en_dup env) sv (rq_stream q);
          answer_ok q sv
        }
        else if mode = META_MODE_SET \<or> mode = META_MODE_ADD then set_meta_entry env q sv mode
        else refuse q sv)"

text \<open>The value is copied with its null character, which the length of the answer does not count.\<close>

definition req_on_get_meta :: handler where
  "req_on_get_meta env cid q sv =
     (if rq_len q \<noteq> 2 \<or> rq_char q 0 \<noteq> 0 then refuse q sv
      else do {
        (r, val) \<leftarrow> stream_meta_get sv (rq_stream q) (rq_char q 1) None (LIBROAR_BUFFER_MSGDATA - 2);
        if r = -1 then refuse q sv
        else let v = bytes_of (the val); bs = [0, word_of_int (int (length v))] @ v @ [0] in
          if length bs > length (ms_data (rq_mes q)) then None
          else Some (0, set_mes (\<lambda>m. m\<lparr>ms_cmd := CMD_OK, ms_datalen := 2 + int (length v), ms_data := put_at 0 bs (ms_data m)\<rparr>) q, sv)
      })"

definition req_on_list_meta :: handler where
  "req_on_list_meta env cid q sv =
     (if rq_len q \<noteq> 1 \<or> rq_char q 0 \<noteq> 0 then refuse q sv
      else do {
        (n, types) \<leftarrow> stream_meta_list sv (rq_stream q) ROAR_META_MAX_PER_STREAM;
        if n = -1 then refuse q sv else answer_data (0 # map word_of_int types) q sv
      })"

subsection \<open>The server\<close>

text \<open>The block of a long request is forgotten before the answer is built.\<close>

definition req_on_server_info :: handler where
  "req_on_server_info env cid q sv =
     (if rq_len q \<noteq> 4 \<or> rq_u16 q 0 \<noteq> 0 \<or> rq_u16 q 1 \<noteq> IT_SERVER then refuse q sv
      else let (r, mes, dat) = roar_server_info_to_mes (Some (rq_mes q)) (Some (en_info env)) True (en_alloc env) None;
               q = q\<lparr>rq_mes := the mes, rq_data := dat\<rparr> in
        if r = -1 then refuse q sv
        else let q = (if dat \<noteq> None then q\<lparr>rq_flags := rq_flags q OR OUT_LONGDATA\<rparr> else q)
          in Some (0, set_mes (\<lambda>m. m\<lparr>ms_cmd := CMD_OK\<rparr>) q, sv))"

definition req_on_server_oinfo :: handler where
  "req_on_server_oinfo env cid q sv =
     (let s = \<lparr>rs_id = 0, rs_fh = 0, rs_dir = ROAR_DIR_MIXING, rs_pos = sv_pos sv, rs_pos_rel_id = -1, rs_info = sv_sa sv\<rparr>;
          (r, mes) = roar_stream_s2m (Some s) (Some (rq_mes q)) in
      if r = -1 then refuse q sv else Some (0, set_mes (\<lambda>_. (the mes)\<lparr>ms_cmd := CMD_OK\<rparr>) q, sv))"

text \<open>The standards of the server, with the UNIX and TCP transports.\<close>

definition STD_MAKE :: "int \<Rightarrow> int \<Rightarrow> int \<Rightarrow> int" where
  "STD_MAKE vendor standard version = (vendor mod 256) * 2 ^ 24 + (standard mod 65536) * 2 ^ 8 + version mod 256"

definition g_caps_stds :: "int list" where
  "g_caps_stds = [STD_MAKE 0 0 0, STD_MAKE 0 4 0, STD_MAKE 0 12 0, STD_MAKE 0 23 0, STD_MAKE 0 25 0]"

definition req_on_caps :: handler where
  "req_on_caps env cid q sv = do {
     (r, caps) \<leftarrow> roar_caps_from_msg (Some (rq_mes q)) (rq_data q);
     if r = -1 then refuse q sv
     else let caps = the caps in
       if cp_flags caps AND CF_REQUEST = 0 then answer_ok q sv
       else let q = set_mes (\<lambda>m. m\<lparr>ms_datalen := 0\<rparr>) q in
         if cp_type caps = CT_STANDARDS then
           case roar_stds_new (en_alloc env) (length g_caps_stds) of None \<Rightarrow> refuse q sv
           | Some _ \<Rightarrow>
             let (r, mes, _) = roar_caps_to_msg (Some (rq_mes q)) (Some (caps\<lparr>cp_data := concat (map (be_bytes 4) g_caps_stds)\<rparr>)) False True None in
             if r = -1 then refuse q sv else Some (0, set_mes (\<lambda>_. (the mes)\<lparr>ms_cmd := CMD_OK\<rparr>) q, sv)
         else refuse q sv
   }"

definition req_on_get_standby :: handler where
  "req_on_get_standby env cid q sv =
     Some (0, set_mes (\<lambda>m. m\<lparr>ms_cmd := CMD_OK, ms_pos := sv_pos sv, ms_datalen := 2, ms_data := put_at 0 (be_bytes 2 (sv_standby sv)) (ms_data m)\<rparr>) q, sv)"

definition req_on_set_standby :: handler where
  "req_on_set_standby env cid q sv = (if rq_len q \<noteq> 2 then refuse q sv else answer_pos q (sv\<lparr>sv_standby := rq_u16 q 0\<rparr>))"

definition req_on_exit :: handler where
  "req_on_exit env cid q sv =
     answer_pos q (if rq_len q = 1 \<and> rq_char q 0 \<noteq> 0 then log_effect Eff_Cleanup_Listen sv else sv\<lparr>sv_alive := False\<rparr>)"

subsection \<open>Lists and descriptions\<close>

definition table_ids :: "'a option list \<Rightarrow> (nat \<Rightarrow> 'a \<Rightarrow> bool) \<Rightarrow> int list" where
  "table_ids tab p = map int (filter (\<lambda>i. case tab ! i of None \<Rightarrow> False | Some x \<Rightarrow> p i x) [0..<length tab])"

definition answer_ids :: "int list \<Rightarrow> request \<Rightarrow> server \<Rightarrow> handled" where
  "answer_ids ids q sv = Some (0, set_mes (\<lambda>m. (snd (roar_ctl_ia2m m ids))\<lparr>ms_cmd := CMD_OK\<rparr>) q, sv)"

definition req_on_list_clients :: handler where
  "req_on_list_clients env cid q sv =
     (case roar_ctl_m2f (rq_mes q) of (r, f) \<Rightarrow>
        if r = -1 then refuse q sv
        else if uint (fst (the f)) \<noteq> CTL_FILTER_ANY then refuse q sv
        else answer_ids (table_ids (sv_clients sv) (\<lambda>_ _. True)) q sv)"

text \<open>A filter the server does not know is refused when there is a stream to compare; a comparison it does not know matches.\<close>

definition req_on_list_streams :: handler where
  "req_on_list_streams env cid q sv =
     (case roar_ctl_m2f (rq_mes q) of (r, f) \<Rightarrow>
        if r = -1 then refuse q sv
        else let (filt, cmp, i) = the f in
          if uint filt = CTL_FILTER_ANY then answer_ids (table_ids (sv_streams sv) (\<lambda>_ _. True)) q sv
          else if uint filt = CTL_FILTER_DIR
          then answer_ids (table_ids (sv_streams sv) (\<lambda>_ s. roar_filter_match (uint cmp) i (st_dir s) \<noteq> 0)) q sv
          else if table_ids (sv_streams sv) (\<lambda>_ _. True) = [] then answer_ids [] q sv
          else refuse q sv)"

definition ROAR_CLIENT :: "roar_client_server \<Rightarrow> roar_client" where
  "ROAR_CLIENT c = \<lparr>rc_fh = cl_fh c, rc_name = cl_name c, rc_pid = cl_pid c, rc_uid = cl_uid c, rc_gid = cl_gid c, rc_execed = cl_execed c,
     rc_streams = cl_streams c, rc_proto = cl_proto c, rc_byteorder = cl_byteorder c, rc_nnode = cl_nnode c\<rparr>"

definition req_on_get_client :: handler where
  "req_on_get_client env cid q sv =
     (if rq_len q \<noteq> 1 then refuse q sv
      else do {
        (r, c) \<leftarrow> clients_get sv (rq_char q 0);
        case c of None \<Rightarrow> refuse q sv
        | Some c \<Rightarrow> do { (r, mes) \<leftarrow> roar_ctl_c2m ((rq_mes q)\<lparr>ms_cmd := CMD_OK\<rparr>) (Some (ROAR_CLIENT c)); Some (r, set_mes (\<lambda>_. mes) q, sv) }
      })"

definition req_on_get_stream :: handler where
  "req_on_get_stream env cid q sv =
     (if rq_len q \<noteq> 1 then refuse q sv
      else do {
        (r, s) \<leftarrow> streams_get sv (rq_char q 0);
        case s of None \<Rightarrow> refuse q sv
        | Some s \<Rightarrow>
          let (r, mes) = roar_stream_s2m (Some (ROAR_STREAM s)) (Some ((rq_mes q)\<lparr>ms_cmd := CMD_OK, ms_stream := wrap_u 32 (rq_char q 0)\<rparr>))
          in Some (r, set_mes (\<lambda>_. the mes) q, sv)
      })"

end
