(* ===== verification/Server_Stream_Requests.thy ===== *)
theory Server_Stream_Requests
  imports Server_Info_Requests
begin

text \<open>
  The handlers of \<open>src/roard/req.c\<close> that read and change a stream: parameters, level meters, volume, data, and the handlers
  for kicking, attaching, beeping (with \<open>src/roard/beep.c\<close>) and waiting for events.
\<close>

definition STREAM_PARA_INFO :: int where "STREAM_PARA_INFO = 1"
definition STREAM_PARA_FLAGS :: int where "STREAM_PARA_FLAGS = 2"
definition STREAM_PARA_NAME :: int where "STREAM_PARA_NAME = 3"
definition STREAM_PARA_CHANMAP :: int where "STREAM_PARA_CHANMAP = 4"
definition STREAM_PARA_ROLE :: int where "STREAM_PARA_ROLE = 5"
definition STREAM_PARA_LTM :: int where "STREAM_PARA_LTM = 9"
definition ROAR_FLAG_OUTPUT :: "32 word" where "ROAR_FLAG_OUTPUT = 2"
definition ROAR_FLAG_SOURCE :: "32 word" where "ROAR_FLAG_SOURCE = 4"
definition RESET_FLAG :: int where "RESET_FLAG = 1"
definition LTM_SST_GET_RAW :: int where "LTM_SST_GET_RAW = 3"
definition LTM_MTBITS :: nat where "LTM_MTBITS = 16"

lemmas para_consts = STREAM_PARA_INFO_def STREAM_PARA_FLAGS_def STREAM_PARA_NAME_def STREAM_PARA_CHANMAP_def STREAM_PARA_ROLE_def
  STREAM_PARA_LTM_def

subsection \<open>Reading parameters\<close>

text \<open>The delay in microseconds. The one of the VIO is given in bytes; the division fails for a stream without a sample rate.\<close>

definition streams_calc_delay :: "request_env \<Rightarrow> server \<Rightarrow> c_int \<Rightarrow> server_result" where
  "streams_calc_delay env sv sid = check_sid sv sid (-1, sv) (\<lambda>ss.
     if st_dir ss = ROAR_DIR_MIXING then Some (0, sv)
     else do {
       let d = (if ss_codecfilter ss = -1 then 0 else case en_codec_delay env sid of None \<Rightarrow> 0 | Some t \<Rightarrow> t);
       let byt = wrap_u 32 (rate (st_info ss) * channels (st_info ss) * (bits (st_info ss) div 8));
       v \<leftarrow> (case en_vio_delay env sid of None \<Rightarrow> Some 0 | Some t \<Rightarrow> if byt = 0 then None else Some (wrap_u 64 (t * 1000000) div byt));
       Some (0, put_stream sv sid (Some (ss\<lparr>ss_delay := wrap_u 32 (d + v)\<rparr>)))
     })"

definition para_info :: "request_env \<Rightarrow> roar_stream_server \<Rightarrow> int list" where
  "para_info env ss =
     [0, STREAM_PARA_INFO, outbufsize (en_mix env) (st_info ss), ss_pre_underruns ss, ss_post_underruns ss, ss_codec_orgi ss,
      uint ((ss_flags ss AND 0xFFFF) OR (if ss_primary ss then ROAR_FLAG_PRIMARY else 0) OR (if ss_driver_id ss \<noteq> -1 then ROAR_FLAG_OUTPUT else 0)),
      ss_delay ss div 1000, ss_state ss, uint (drop_bit 16 (ss_flags ss)), ss_mixer_stream ss, ss_role ss]"

definition para_header :: "int \<Rightarrow> byte list" where
  "para_header k = be_bytes 2 0 @ be_bytes 2 k"

definition get_para_info :: "request_env \<Rightarrow> request \<Rightarrow> server \<Rightarrow> handled" where
  "get_para_info env q sv = do {
     (r, _) \<leftarrow> streams_get sv (rq_stream q);
     if r = -1 then refuse q sv
     else do {
       (_, sv) \<leftarrow> streams_calc_delay env sv (rq_stream q);
       ss \<leftarrow> stream_at sv (rq_stream q);
       (r, q, sv) \<leftarrow> answer_data (concat (map (be_bytes 2) (para_info env ss))) q sv;
       Some (r, set_mes (\<lambda>m. m\<lparr>ms_pos := st_pos ss\<rparr>) q, sv)
     }
   }"

text \<open>The name is copied with \<open>strncpy\<close> and the length of the whole answer, so null bytes are written behind it.\<close>

definition get_para_name :: "request \<Rightarrow> server \<Rightarrow> handled" where
  "get_para_name q sv = do {
     str \<leftarrow> streams_get_name sv (rq_stream q);
     case str of None \<Rightarrow> refuse q sv
     | Some s \<Rightarrow>
       let v = bytes_of s; len = 4 + length v; q' = set_mes (\<lambda>m. m\<lparr>ms_datalen := int len\<rparr>) q in
       if len > LIBROAR_BUFFER_MSGDATA then refuse q' sv
       else if 4 + len > length (ms_data (rq_mes q)) then None
       else Some (0, set_mes (\<lambda>m. m\<lparr>ms_cmd := CMD_OK, ms_data := put_at 0 (para_header STREAM_PARA_NAME @ v @ replicate 4 0) (ms_data m)\<rparr>) q', sv)
   }"

definition get_para_chanmap :: "request \<Rightarrow> server \<Rightarrow> handled" where
  "get_para_chanmap q sv = do {
     (r, ss) \<leftarrow> streams_get sv (rq_stream q);
     case ss of None \<Rightarrow> refuse q sv
     | Some ss \<Rightarrow>
       let n = nat (channels (st_info ss)) in
       if n > length (cm_in (ss_chanmap ss)) then None
       else answer_data (para_header STREAM_PARA_CHANMAP @ map word_of_int (take n (cm_in (ss_chanmap ss)))) q sv
   }"

text \<open>The streams a request for level meters is about: those in the message, or the one in its header. Asking for another
  value than the mean square has no answer; \<open>streams_ltm_ctl\<close> registers no other.\<close>

definition ltm_streams :: "request \<Rightarrow> c_int list" where
  "ltm_streams q = (if rq_stream q = -1 then map (rq_u16 q) [6..<nat (rq_len q div 2)] else [rq_stream q])"

fun ltm_list :: "server \<Rightarrow> 32 word \<Rightarrow> c_int \<Rightarrow> c_int list \<Rightarrow> (c_int \<times> roar_stream_ltm) list option option" where
  "ltm_list sv mt window [] = Some (Some [])"
| "ltm_list sv mt window (sid # sids) = do {
     l \<leftarrow> streams_ltm_get sv sid mt window;
     case l of None \<Rightarrow> Some None
     | Some l \<Rightarrow> do { rest \<leftarrow> ltm_list sv mt window sids; Some (map_option ((#) (sid, l)) rest) }
   }"

definition mt_bits :: "int \<Rightarrow> nat" where
  "mt_bits mt = length (filter (\<lambda>k. bit mt k) [0..<LTM_MTBITS])"

definition ltm_values :: "request_env \<Rightarrow> int \<Rightarrow> c_int \<times> roar_stream_ltm \<Rightarrow> int list" where
  "ltm_values env mt sl = (case sl of (sid, l) \<Rightarrow>
     lt_channels l mod 65536 # (if bit mt 5 then map (en_rms env sid) [0..<nat (lt_channels l)] else []))"

text \<open>The answer goes into the message if it fits, else into a block (\<open>_dataspace\<close>); the request is copied before.\<close>

definition ltm_answer :: "request_env \<Rightarrow> byte list \<Rightarrow> request \<Rightarrow> server \<Rightarrow> handled" where
  "ltm_answer env bs q sv =
     (if length bs \<le> LIBROAR_BUFFER_MSGDATA
      then if \<not> en_alloc env then refuse q sv else answer_data bs q sv
      else if \<not> en_alloc env then refuse (q\<lparr>rq_data := None\<rparr>) sv
      else Some (0, set_mes (\<lambda>m. m\<lparr>ms_cmd := CMD_OK, ms_datalen := int (length bs)\<rparr>) (q\<lparr>rq_data := Some bs, rq_flags := rq_flags q OR OUT_LONGDATA\<rparr>), sv))"

definition get_para_ltm :: "request_env \<Rightarrow> request \<Rightarrow> server \<Rightarrow> handled" where
  "get_para_ltm env q sv =
     (if rq_len q < 12 then refuse q sv
      else if rq_len q > int (length (ms_data (rq_mes q))) then None
      else if rq_u16 q 2 \<noteq> LTM_SST_GET_RAW then refuse q sv
      else do {
        ls \<leftarrow> ltm_list sv (word_of_int (rq_u16 q 5)) (rq_u16 q 3) (ltm_streams q);
        case ls of None \<Rightarrow> refuse q sv
        | Some ls \<Rightarrow>
          if mt_bits (rq_u16 q 5) > 0 \<and> rq_u16 q 5 \<noteq> 32 \<and> ls \<noteq> [] then None
          else ltm_answer env (concat (map (be_bytes 8) (concat (map (ltm_values env (rq_u16 q 5)) ls)))) q sv
      })"

definition req_on_get_stream_para :: handler where
  "req_on_get_stream_para env cid q sv =
     (if rq_len q < 4 \<or> rq_u16 q 0 \<noteq> 0 then refuse q sv
      else let k = rq_u16 q 1 in
        if k = STREAM_PARA_INFO then get_para_info env q sv
        else if k = STREAM_PARA_NAME then get_para_name q sv
        else if k = STREAM_PARA_CHANMAP then get_para_chanmap q sv
        else if k = STREAM_PARA_LTM then get_para_ltm env q sv
        else refuse q sv)"

subsection \<open>Changing parameters\<close>

text \<open>A channel map for as many channels as the stream has is copied into the map of the stream, which has room for 64.\<close>

definition set_para_chanmap :: "request \<Rightarrow> server \<Rightarrow> server_result" where
  "set_para_chanmap q sv = do {
     (r, ss) \<leftarrow> streams_get sv (rq_stream q);
     let len = nat (rq_len q - 4);
     if (case ss of None \<Rightarrow> False | Some ss \<Rightarrow> channels (st_info ss) = int len \<and> (len > ROAR_MAX_CHANNELS \<or> 4 + len > length (ms_data (rq_mes q))))
     then do { d \<leftarrow> streams_get_ssdir sv (rq_stream q); if List.member [STREAM_DIR_IN, STREAM_DIR_NONE, STREAM_DIR_OUT] d then None else Some (-1, sv) }
     else streams_set_map sv (rq_stream q) (Some (map sint (field 4 len (ms_data (rq_mes q))))) len
   }"

fun set_ltm_all :: "bool \<Rightarrow> 32 word \<Rightarrow> c_int \<Rightarrow> c_int \<Rightarrow> c_int list \<Rightarrow> server \<Rightarrow> server_result" where
  "set_ltm_all alloc mt window cmd [] sv = Some (0, sv)"
| "set_ltm_all alloc mt window cmd (sid # sids) sv = do {
     (r, sv) \<leftarrow> streams_ltm_ctl alloc sv sid mt window cmd;
     if r = -1 then Some (-1, sv) else set_ltm_all alloc mt window cmd sids sv
   }"

definition req_on_set_stream_para :: handler where
  "req_on_set_stream_para env cid q sv =
     (if rq_len q < 4 \<or> rq_u16 q 0 \<noteq> 0 then refuse q sv
      else let k = rq_u16 q 1 in do {
        (r, sv) \<leftarrow>
          (if k = STREAM_PARA_FLAGS then
             if rq_len q \<noteq> 8 then Some (-1, sv)
             else if rq_u16 q 2 = RESET_FLAG then streams_reset_flag (en_io env) sv (rq_stream q) (word_of_int (rq_u16 q 3))
             else streams_set_flag (en_io env) (en_dup env) (en_cfg env) sv (rq_stream q) (word_of_int (rq_u16 q 3))
           else if k = STREAM_PARA_CHANMAP then set_para_chanmap q sv
           else if k = STREAM_PARA_ROLE then if rq_len q \<noteq> 6 then Some (-1, sv) else streams_set_role sv (rq_stream q) (rq_u16 q 2)
           else if k = STREAM_PARA_LTM then
             if rq_len q < 12 then Some (-1, sv)
             else if rq_len q > int (length (ms_data (rq_mes q))) then None
             else set_ltm_all (en_alloc env) (word_of_int (rq_u16 q 5)) (rq_u16 q 3) (rq_u16 q 2) (ltm_streams q) sv
           else Some (-1, sv));
        if r = -1 then refuse q sv else answer_ok q sv
      })"

subsection \<open>Kicking and attaching\<close>

definition OT_CLIENT_ID :: int where "OT_CLIENT_ID = 1"
definition OT_STREAM_ID :: int where "OT_STREAM_ID = 2"
definition OT_SOURCE_ID :: int where "OT_SOURCE_ID = 3"
definition OT_OUTPUT_ID :: int where "OT_OUTPUT_ID = 5"
definition OT_MIXER_ID :: int where "OT_MIXER_ID = 6"
definition OT_BRIDGE_ID :: int where "OT_BRIDGE_ID = 7"
definition ATTACH_SIMPLE :: int where "ATTACH_SIMPLE = 1"

lemmas ot_ids = OT_CLIENT_ID_def OT_STREAM_ID_def OT_SOURCE_ID_def OT_OUTPUT_ID_def OT_MIXER_ID_def OT_BRIDGE_ID_def

text \<open>Whether the number is a stream of the kind the request names.\<close>

definition kick_stream :: "server \<Rightarrow> int \<Rightarrow> c_int \<Rightarrow> bool option" where
  "kick_stream sv ty sid =
     (if ty = OT_STREAM_ID then Some True
      else if ty = OT_SOURCE_ID then do { f \<leftarrow> streams_get_flag sv sid ROAR_FLAG_SOURCE; Some (f = 1) }
      else if ty = OT_OUTPUT_ID \<or> ty = OT_MIXER_ID \<or> ty = OT_BRIDGE_ID then do {
        (r, ss) \<leftarrow> streams_get sv sid;
        Some (case ss of None \<Rightarrow> False
          | Some ss \<Rightarrow> if ty = OT_OUTPUT_ID then ss_driver_id ss \<noteq> -1
                       else if ty = OT_MIXER_ID then st_dir ss = ROAR_DIR_MIXING else st_dir ss = ROAR_DIR_BRIDGE)
      }
      else Some False)"

definition req_on_kick :: handler where
  "req_on_kick env cid q sv =
     (if rq_len q \<noteq> 4 then refuse q sv
      else let ty = rq_u16 q 0; i = rq_u16 q 1 in
        if ty = OT_CLIENT_ID then do { (_, sv) \<leftarrow> clients_delete (en_io env) (en_dup env) sv i; answer_ok q sv }
        else do {
          ok \<leftarrow> kick_stream sv ty i;
          if \<not> ok then refuse q sv
          else do {
            f \<leftarrow> streams_get_flag sv i ROAR_FLAG_IMMUTABLE;
            if f = 1 then refuse q sv
            else do { (_, sv) \<leftarrow> streams_delete (en_io env) (en_dup env) sv i; answer_ok q sv }
          }
        })"

definition req_on_attach :: handler where
  "req_on_attach env cid q sv =
     (if rq_len q < 6 \<or> rq_u16 q 0 \<noteq> 0 \<or> rq_u16 q 1 \<noteq> ATTACH_SIMPLE then refuse q sv
      else do {
        (r, sv) \<leftarrow> client_stream_move (en_io env) (en_dup env) sv (rq_u16 q 2) (rq_stream q);
        if r = -1 then refuse q sv else answer_ok q sv
      })"

subsection \<open>Volume\<close>

definition SET_VOL_ALL :: int where "SET_VOL_ALL = 1"
definition SET_VOL_ONE :: int where "SET_VOL_ONE = 2"

text \<open>The stream and the scale of a request, by the version of its format.\<close>

definition set_vol_target :: "request \<Rightarrow> (c_int \<times> int) option" where
  "set_vol_target q = (if rq_u16 q 0 = 0 then Some (rq_u16 q 1, 65535) else if rq_u16 q 0 = 1 then Some (rq_stream q, rq_u16 q 1) else None)"

text \<open>The volumes in the message, for all channels or one. The inner \<open>None\<close> is a refusal.\<close>

definition new_volumes :: "request \<Rightarrow> int list \<Rightarrow> int list option option" where
  "new_volumes q mx =
     (if rq_u16 q 2 = SET_VOL_ALL then
        let chans = rq_len q div 2 - 3 in
        if chans \<ge> int ROAR_MAX_CHANNELS then Some None
        else if 6 + 2 * chans > int (length (ms_data (rq_mes q))) then None
        else Some (Some (map (\<lambda>i. rq_u16 q (i + 3)) [0..<nat chans] @ drop (nat chans) mx))
      else if rq_u16 q 2 = SET_VOL_ONE then
        if rq_u16 q 3 \<ge> int ROAR_MAX_CHANNELS then Some None else Some (Some (mx[nat (rq_u16 q 3) := rq_u16 q 4]))
      else Some None)"

definition req_on_set_vol :: handler where
  "req_on_set_vol env cid q sv =
     (if rq_len q < 8 then refuse q sv
      else case set_vol_target q of None \<Rightarrow> refuse q sv
      | Some (sid, sc) \<Rightarrow>
        if sc = 0 \<or> sid < 0 \<or> sid \<ge> ROAR_STREAMS_MAX then refuse q sv
        else case stream_at sv sid of None \<Rightarrow> refuse q sv
        | Some s \<Rightarrow> do {
            mx \<leftarrow> new_volumes q (mixer (ss_mixer s));
            case mx of None \<Rightarrow> refuse q sv
            | Some mx \<Rightarrow> do {
                (r, sv) \<leftarrow> streams_set_mixer (en_io env) (en_dup env) (en_cfg env)
                  (put_stream sv sid (Some (s\<lparr>ss_mixer := (ss_mixer s)\<lparr>mixer := mx, scale := sc\<rparr>\<rparr>))) sid;
                if r = -1 then refuse q sv else answer_ok q sv
              }
          })"

definition req_on_get_vol :: handler where
  "req_on_get_vol env cid q sv =
     (if rq_len q < 2 then refuse q sv
      else let version = rq_u16 q 0 in
        if version > 1 \<or> version = 0 \<and> rq_len q < 4 then refuse q sv
        else let sid = (if version = 0 then rq_u16 q 1 else rq_stream q) in
          if sid < 0 \<or> sid \<ge> ROAR_STREAMS_MAX then refuse q sv
          else case stream_at sv sid of None \<Rightarrow> refuse q sv
          | Some s \<Rightarrow>
            let chans = wrap_s 32 (channels (st_info s)); mx = ss_mixer s;
                head = (if version = 0 then [version, chans] else [version, chans, scale mx, rpg_mul mx, rpg_div mx]) in
            if chans > int (length (mixer mx)) then None
            else do {
              (r, q, sv) \<leftarrow> answer_data (concat (map (be_bytes 2) (head @ take (nat chans) (mixer mx)))) q sv;
              Some (r, set_mes (\<lambda>m. m\<lparr>ms_datalen := (int (length head) + chans) * 2\<rparr>) q, sv)
            })"

subsection \<open>Data\<close>

text \<open>\<open>data\<close> is the address of the pointer to the long data, which is never null; the pointer itself is null for the data
  of a short message.\<close>

definition req_on_add_data :: handler where
  "req_on_add_data env cid q sv = do {
     (r, b, buf, h) \<leftarrow> roar_buffer_new_data (sv_heap sv) True (rq_len q);
     let sv = sv\<lparr>sv_heap := h\<rparr>;
     if r = -1 then refuse q sv
     else do {
       sv \<leftarrow> (case rq_data q of None \<Rightarrow> if rq_len q = 0 then Some sv else None
             | Some d \<Rightarrow> if rq_len q > int (length d) then None else Some (set_mem sv (store_bytes (sv_mem sv) buf (take (nat (rq_len q)) d))));
       (r, sv) \<leftarrow> stream_add_buffer sv (rq_stream q) (the b);
       if r = -1 then do { (_, h) \<leftarrow> roar_buffer_free (sv_heap sv) (the b); refuse q (sv\<lparr>sv_heap := h\<rparr>) }
       else Some (0, set_mes (\<lambda>m. m\<lparr>ms_cmd := CMD_OK_STOP, ms_datalen := 0\<rparr>) q, sv)
     }
   }"

subsection \<open>Events\<close>

text \<open>There is room for four events; a fifth is stored behind the array.\<close>

fun wait_events :: "nat \<Rightarrow> byte list \<Rightarrow> roar_event list option option" where
  "wait_events n [] = Some (Some [])"
| "wait_events 0 bs = (case roar_event_from_blob bs of (r, e, _) \<Rightarrow> if r = -1 \<and> e = None then Some None else None)"
| "wait_events (Suc n) bs =
     (case roar_event_from_blob bs of (r, e, len) \<Rightarrow>
        if r = -1 then Some None
        else do { es \<leftarrow> wait_events n (drop len bs); Some (map_option ((#) (the e)) es) })"

definition req_on_wait :: handler where
  "req_on_wait env cid q sv =
     (if rq_len q < 4 then refuse q sv
      else if rq_u16 q 0 \<noteq> 0 \<or> rq_u16 q 1 \<noteq> 0 then refuse q sv
      else if rq_len q > int (length (ms_data (rq_mes q))) then None
      else do {
        es \<leftarrow> wait_events 4 (field 4 (nat (rq_len q) - 4) (ms_data (rq_mes q)));
        case es of None \<Rightarrow> refuse q sv
        | Some es \<Rightarrow> do {
            (r, sv) \<leftarrow> clients_wait (en_alloc env) sv cid (map (en_subscribe env) es);
            if r = -1 then refuse q sv else Some (0, q\<lparr>rq_flags := rq_flags q OR OUT_NOSEND\<rparr>, sv)
          }
      })"

end
