(* ===== verification/Server_Beep.thy ===== *)
theory Server_Beep
  imports Server_Stream_Requests
begin

text \<open>
  The beep of the server, \<open>src/roard/beep.c\<close>: a stream of the client that plays a square wave from a buffer. The buffer belongs to
  the VIO of the stream; setting that up is recorded as an effect.
\<close>

record roar_beep =
  bp_vol :: int
  bp_time :: int
  bp_freq :: int
  bp_type :: int
  bp_x :: int
  bp_y :: int
  bp_z :: int

definition BEEP_MAX_VOL :: int where "BEEP_MAX_VOL = 65535"
definition BEEP_MAX_POS :: int where "BEEP_MAX_POS = 32767"
definition BEEP_DEFAULT_VOL :: int where "BEEP_DEFAULT_VOL = BEEP_MAX_VOL div 4"
definition BEEP_DEFAULT_TIME :: int where "BEEP_DEFAULT_TIME = 256"
definition BEEP_DEFAULT_FREQ :: int where "BEEP_DEFAULT_FREQ = 440"
definition ROLE_BEEP :: int where "ROLE_BEEP = 5"

lemmas beep_consts = BEEP_MAX_VOL_def BEEP_MAX_POS_def BEEP_DEFAULT_VOL_def BEEP_DEFAULT_TIME_def BEEP_DEFAULT_FREQ_def ROLE_BEEP_def

text \<open>One value per frame; the period is computed in whole frames and a period of no frame is a division by zero.\<close>

definition beep_frames :: "roar_beep \<Rightarrow> roar_audio_info \<Rightarrow> nat" where
  "beep_frames b info = nat (wrap_u 32 (bp_time b * rate info) div 1000)"

definition beep_wave :: "nat \<Rightarrow> nat \<Rightarrow> byte list" where
  "beep_wave period n = map (\<lambda>pos. if pos mod period < period div 2 then -128 else 127) [0..<n]"

definition beep_fill_buffer :: "heap \<Rightarrow> roar_beep \<Rightarrow> roar_audio_info \<Rightarrow> (ptr option \<times> heap) option" where
  "beep_fill_buffer h b info =
     (let frames = beep_frames b info; period = nat (rate info div bp_freq b); chans = nat (channels info) in
      do {
        (r, new, dat, h) \<leftarrow> roar_buffer_new_data h True (int (frames * chans));
        if r = -1 then Some (None, h)
        else if period = 0 \<and> frames > 0 then None
        else Some (new, h\<lparr>bh_mem := store_bytes (bh_mem h) dat (concat (map (replicate chans) (beep_wave period frames)))\<rparr>)
      })"

definition beep_read :: "heap \<Rightarrow> ptr \<Rightarrow> ptr \<Rightarrow> int \<Rightarrow> (c_int \<times> ptr \<times> heap) option" where
  "beep_read h inst buf len =
     (if inst = NULL then Some (0, inst, h)
      else do {
        (r, inst', n, h) \<leftarrow> roar_buffer_shift_out h (Some inst) buf (Some len);
        Some (if r = -1 then -1 else the n, the inst', h)
      })"

definition beep_close :: "heap \<Rightarrow> ptr \<Rightarrow> (c_int \<times> heap) option" where
  "beep_close h inst = (if inst = NULL then Some (0, h) else do { (_, h) \<leftarrow> roar_buffer_free h inst; Some (0, h) })"

text \<open>Values of 0 stand for the defaults. The position is not used but for its first coordinate, the balance.\<close>

definition beep_defaults :: "roar_beep \<Rightarrow> roar_beep" where
  "beep_defaults b = b\<lparr>bp_vol := (if bp_vol b = 0 then BEEP_DEFAULT_VOL else bp_vol b),
     bp_time := (if bp_time b = 0 then BEEP_DEFAULT_TIME else bp_time b), bp_freq := (if bp_freq b = 0 then BEEP_DEFAULT_FREQ else bp_freq b)\<rparr>"

definition beep_left :: "roar_beep \<Rightarrow> int" where
  "beep_left b = wrap_u 16 (if bp_x b > 0 then bp_vol b * (BEEP_MAX_POS - bp_x b) sdiv BEEP_MAX_POS else bp_vol b)"

definition beep_right :: "roar_beep \<Rightarrow> int" where
  "beep_right b = wrap_u 16 (if bp_x b < 0 then bp_vol b * (BEEP_MAX_POS + bp_x b) sdiv BEEP_MAX_POS else bp_vol b)"

definition beep_start :: "request_env \<Rightarrow> server \<Rightarrow> c_int \<Rightarrow> roar_beep \<Rightarrow> server_result" where
  "beep_start env sv cid b =
     (let b = beep_defaults b; io = en_io env; dup = en_dup env in
      if bp_z b \<noteq> 0 \<or> bp_y b \<noteq> 0 then Some (-1, sv)
      else let (sid, sv) = streams_new sv in
        if sid = -1 then Some (-1, sv)
        else do {
          (r, sv) \<leftarrow> client_stream_add sv cid sid;
          if r = -1 then fail_delete io dup sv sid
          else do {
            (r, sv) \<leftarrow> streams_set_name sv sid ''Beep Source'' dup;
            if r = -1 then fail_delete io dup sv sid
            else do {
              s \<leftarrow> stream_at sv sid;
              let info = (sv_sa sv)\<lparr>channels := 2, bits := 8\<rparr>;
              let s = s\<lparr>st_info := info, ss_mixer := (ss_mixer s)\<lparr>mixer := (mixer (ss_mixer s))[0 := beep_left b, 1 := beep_right b],
                        scale := BEEP_MAX_VOL\<rparr>\<rparr>;
              (r, sv) \<leftarrow> streams_set_dir io dup (en_cfg env) (put_stream sv sid (Some s)) sid ROAR_DIR_PLAY True;
              if r = -1 then fail_delete io dup sv sid
              else do {
                (r, sv) \<leftarrow> streams_set_role sv sid ROLE_BEEP;
                if r = -1 then fail_delete io dup sv sid
                else do {
                  (buf, h) \<leftarrow> beep_fill_buffer (sv_heap sv) b info;
                  let sv = sv\<lparr>sv_heap := h\<rparr>;
                  case buf of None \<Rightarrow> fail_delete io dup sv sid
                  | Some buf \<Rightarrow> do {
                      (r, sv) \<leftarrow> streams_set_fh io dup (en_cfg env) (log_effect (Eff_Beep_Vio sid buf) sv) sid (-2);
                      if r = -1 then fail_delete io dup sv sid else Some (sid, sv)
                    }
                }
              }
            }
          }
        })"

definition req_on_beep :: handler where
  "req_on_beep env cid q sv =
     (if rq_len q > 0 \<and> (rq_len q < 2 \<or> rq_u16 q 0 \<noteq> 0 \<or> rq_len q \<noteq> 16) then refuse q sv
      else let b = (if rq_len q > 0
                    then \<lparr>bp_vol = rq_u16 q 1, bp_time = rq_u16 q 2, bp_freq = rq_u16 q 3, bp_type = rq_u16 q 4,
                          bp_x = wrap_s 16 (rq_u16 q 5), bp_y = wrap_s 16 (rq_u16 q 6), bp_z = wrap_s 16 (rq_u16 q 7)\<rparr>
                    else \<lparr>bp_vol = 0, bp_time = 0, bp_freq = 0, bp_type = 0, bp_x = 0, bp_y = 0, bp_z = 0\<rparr>)
        in do {
          (sid, sv) \<leftarrow> beep_start env sv cid b;
          if sid = -1 then refuse q sv
          else Some (0, set_mes (\<lambda>m. m\<lparr>ms_stream := wrap_u 32 sid, ms_cmd := CMD_OK_STOP, ms_datalen := 0\<rparr>) q, sv)
        })"

end
