(* ===== verification/Server_Commands.thy ===== *)
theory Server_Commands
  imports Server_Beep
begin

text \<open>
  The table of commands and their execution, \<open>src/roard/commands.c\<close>, and the function that serves one request of a client,
  \<open>clients_check\<close> of \<open>src/roard/clients.c\<close>. What the client sent, if it can be received, is an argument, and so is the
  emulation of other protocols.
\<close>

definition CMD_EOL :: int where "CMD_EOL = -1"
definition CMD_NOOP :: int where "CMD_NOOP = 0"
definition CMD_IDENTIFY :: int where "CMD_IDENTIFY = 1"
definition CMD_NEW_STREAM :: int where "CMD_NEW_STREAM = 3"
definition CMD_SET_META :: int where "CMD_SET_META = 4"
definition CMD_EXEC_STREAM :: int where "CMD_EXEC_STREAM = 5"
definition CMD_QUIT :: int where "CMD_QUIT = 6"
definition CMD_GET_STANDBY :: int where "CMD_GET_STANDBY = 7"
definition CMD_SET_STANDBY :: int where "CMD_SET_STANDBY = 8"
definition CMD_SERVER_OINFO :: int where "CMD_SERVER_OINFO = 11"
definition CMD_ADD_DATA :: int where "CMD_ADD_DATA = 12"
definition CMD_EXIT :: int where "CMD_EXIT = 13"
definition CMD_LIST_STREAMS :: int where "CMD_LIST_STREAMS = 14"
definition CMD_LIST_CLIENTS :: int where "CMD_LIST_CLIENTS = 15"
definition CMD_GET_CLIENT :: int where "CMD_GET_CLIENT = 16"
definition CMD_GET_STREAM :: int where "CMD_GET_STREAM = 17"
definition CMD_KICK :: int where "CMD_KICK = 18"
definition CMD_SET_VOL :: int where "CMD_SET_VOL = 19"
definition CMD_GET_VOL :: int where "CMD_GET_VOL = 20"
definition CMD_CON_STREAM :: int where "CMD_CON_STREAM = 21"
definition CMD_GET_META :: int where "CMD_GET_META = 22"
definition CMD_LIST_META :: int where "CMD_LIST_META = 23"
definition CMD_BEEP :: int where "CMD_BEEP = 24"
definition CMD_GET_STREAM_PARA :: int where "CMD_GET_STREAM_PARA = 27"
definition CMD_SET_STREAM_PARA :: int where "CMD_SET_STREAM_PARA = 28"
definition CMD_ATTACH :: int where "CMD_ATTACH = 29"
definition CMD_PASSFH :: int where "CMD_PASSFH = 30"
definition CMD_WHOAMI :: int where "CMD_WHOAMI = 32"
definition CMD_WAIT :: int where "CMD_WAIT = 35"
definition CMD_ERROR :: int where "CMD_ERROR = 255"

lemmas cmd_defs = CMD_EOL_def CMD_NOOP_def CMD_IDENTIFY_def CMD_AUTH_def CMD_NEW_STREAM_def CMD_SET_META_def CMD_EXEC_STREAM_def CMD_QUIT_def
  CMD_GET_STANDBY_def CMD_SET_STANDBY_def CMD_SERVER_INFO_def CMD_SERVER_OINFO_def CMD_ADD_DATA_def CMD_EXIT_def CMD_LIST_STREAMS_def
  CMD_LIST_CLIENTS_def CMD_GET_CLIENT_def CMD_GET_STREAM_def CMD_KICK_def CMD_SET_VOL_def CMD_GET_VOL_def CMD_CON_STREAM_def
  CMD_GET_META_def CMD_LIST_META_def CMD_BEEP_def CMD_GET_STREAM_PARA_def CMD_SET_STREAM_PARA_def CMD_ATTACH_def CMD_PASSFH_def
  CMD_WHOAMI_def CMD_CAPS_def CMD_WAIT_def CMD_ERROR_def CMD_OK_def CMD_OK_STOP_def

definition ACCLEV_NONE :: nat where "ACCLEV_NONE = 0"
definition ACCLEV_GUEST :: nat where "ACCLEV_GUEST = 3"
definition ACCLEV_USER :: nat where "ACCLEV_USER = 4"
definition ACCLEV_PWRUSER :: nat where "ACCLEV_PWRUSER = 5"
definition ACCLEV_ALL :: nat where "ACCLEV_ALL = 6"

lemmas acclevs = ACCLEV_NONE_def ACCLEV_IDENTED_def ACCLEV_GUEST_def ACCLEV_USER_def ACCLEV_PWRUSER_def ACCLEV_ALL_def

subsection \<open>The table\<close>

text \<open>\<open>clients_delete\<close> stands in the table as it is, with only the number of the client as argument.\<close>

definition req_quit :: handler where
  "req_quit env cid q sv = do { (r, sv) \<leftarrow> clients_delete (en_io env) (en_dup env) sv cid; Some (r, q, sv) }"

definition g_commands :: "(int \<times> string \<times> handler option \<times> nat) list" where
  "g_commands = [
     (CMD_NOOP, ''NOOP'', Some req_on_noop, ACCLEV_NONE),
     (CMD_IDENTIFY, ''IDENTIFY'', Some req_on_identify, ACCLEV_NONE),
     (CMD_AUTH, ''AUTH'', Some req_on_auth, ACCLEV_IDENTED),
     (CMD_WHOAMI, ''WHOAMI'', Some req_on_whoami, ACCLEV_NONE),
     (CMD_NEW_STREAM, ''NEW_STREAM'', Some req_on_new_stream, ACCLEV_USER),
     (CMD_SET_META, ''SET_META'', Some req_on_set_meta, ACCLEV_PWRUSER),
     (CMD_GET_META, ''GET_META'', Some req_on_get_meta, ACCLEV_GUEST),
     (CMD_LIST_META, ''LIST_META'', Some req_on_list_meta, ACCLEV_GUEST),
     (CMD_EXEC_STREAM, ''EXEC_STREAM'', Some req_on_exec_stream, ACCLEV_PWRUSER),
     (CMD_QUIT, ''QUIT'', Some req_quit, ACCLEV_NONE),
     (CMD_CON_STREAM, ''CON_STREAM'', Some req_on_con_stream, ACCLEV_PWRUSER),
     (CMD_PASSFH, ''PASSFH'', Some req_on_passfh, ACCLEV_PWRUSER),
     (CMD_SERVER_INFO, ''SERVER_INFO'', Some req_on_server_info, ACCLEV_IDENTED),
     (CMD_SERVER_OINFO, ''SERVER_OINFO'', Some req_on_server_oinfo, ACCLEV_IDENTED),
     (CMD_CAPS, ''CAPS'', Some req_on_caps, ACCLEV_IDENTED),
     (CMD_GET_STANDBY, ''GET_STANDBY'', Some req_on_get_standby, ACCLEV_GUEST),
     (CMD_SET_STANDBY, ''SET_STANDBY'', Some req_on_set_standby, ACCLEV_PWRUSER),
     (CMD_EXIT, ''EXIT'', Some req_on_exit, ACCLEV_ALL),
     (CMD_LIST_CLIENTS, ''LIST_CLIENTS'', Some req_on_list_clients, ACCLEV_GUEST),
     (CMD_LIST_STREAMS, ''LIST_STREAMS'', Some req_on_list_streams, ACCLEV_GUEST),
     (CMD_GET_CLIENT, ''GET_CLIENT'', Some req_on_get_client, ACCLEV_GUEST),
     (CMD_GET_STREAM, ''GET_STREAM'', Some req_on_get_stream, ACCLEV_GUEST),
     (CMD_KICK, ''KICK'', Some req_on_kick, ACCLEV_PWRUSER),
     (CMD_ATTACH, ''ATTACH'', Some req_on_attach, ACCLEV_PWRUSER),
     (CMD_SET_VOL, ''SET_VOL'', Some req_on_set_vol, ACCLEV_PWRUSER),
     (CMD_GET_VOL, ''GET_VOL'', Some req_on_get_vol, ACCLEV_GUEST),
     (CMD_GET_STREAM_PARA, ''GET_STREAM_PARA'', Some req_on_get_stream_para, ACCLEV_GUEST),
     (CMD_SET_STREAM_PARA, ''SET_STREAM_PARA'', Some req_on_set_stream_para, ACCLEV_PWRUSER),
     (CMD_ADD_DATA, ''ADD_DATA'', Some req_on_add_data, ACCLEV_PWRUSER),
     (CMD_BEEP, ''BEEP'', Some req_on_beep, ACCLEV_USER),
     (CMD_WAIT, ''WAIT'', Some req_on_wait, ACCLEV_USER),
     (CMD_EOL, ''END OF LIST'', None, ACCLEV_NONE)]"

fun find_command :: "int \<Rightarrow> nat \<Rightarrow> (int \<times> string \<times> handler option \<times> nat) list \<Rightarrow> c_int" where
  "find_command cmd i [] = -1"
| "find_command cmd i (e # es) = (if fst e = CMD_EOL then -1 else if fst e = cmd then int i else find_command cmd (Suc i) es)"

definition command_get_id_by_cmd :: "int \<Rightarrow> c_int" where
  "command_get_id_by_cmd cmd = find_command cmd 0 g_commands"

text \<open>The entry of the client is read without a check.\<close>

definition command_exec :: handler where
  "command_exec env cid q sv =
     (let i = command_get_id_by_cmd (ms_cmd (rq_mes q)) in
      if i = -1 then refuse q sv
      else case g_commands ! nat i of (_, _, func, minacclev) \<Rightarrow> do {
        c \<leftarrow> client_at sv cid;
        if minacclev > cl_acclev c then refuse q sv
        else case func of None \<Rightarrow> refuse q sv | Some f \<Rightarrow> f env cid q sv
      })"

definition command_get_name :: "int \<Rightarrow> c_int \<times> string option" where
  "command_get_name cmd =
     (let i = command_get_id_by_cmd cmd in if i = -1 then (-1, None) else (0, Some (fst (snd (g_commands ! nat i)))))"

subsection \<open>Serving a request\<close>

text \<open>The answer to a request: what is sent, if anything is, and the return value of \<open>clients_check\<close>.\<close>

definition check_reply :: "c_int \<Rightarrow> int \<Rightarrow> roar_message \<Rightarrow> roar_message \<times> c_int" where
  "check_reply r oldcmd m =
     (if r = -1 then (m\<lparr>ms_cmd := CMD_ERROR, ms_datalen := 0\<rparr>, 0)
      else if ms_cmd m = oldcmd then (m\<lparr>ms_cmd := CMD_OK, ms_datalen := 0\<rparr>, 0)
      else if ms_cmd m = CMD_OK_STOP then (m\<lparr>ms_cmd := CMD_OK\<rparr>, 1)
      else (m, 0))"

definition serve :: "request_env \<Rightarrow> c_int \<Rightarrow> roar_message \<Rightarrow> byte list option \<Rightarrow> server
    \<Rightarrow> (c_int \<times> (roar_message \<times> byte list option) option \<times> server) option" where
  "serve env cid m dat sv = do {
     (r, q, sv) \<leftarrow> command_exec env cid \<lparr>rq_mes = m, rq_data = dat, rq_flags = 0\<rparr> sv;
     let (m', rv) = check_reply r (ms_cmd m) (rq_mes q);
     let nosend = (rq_flags q AND OUT_NOSEND \<noteq> 0);
     let sv = log_effect (Eff_Command (ms_cmd m) cid (if nosend then -1 else ms_cmd m')) sv;
     (_, sv) \<leftarrow> (if rq_flags q AND OUT_CLOSECON \<noteq> 0 then clients_close sv cid True else Some (0, sv));
     Some (rv, if nosend then None else Some (m', if rq_flags q AND OUT_LONGDATA \<noteq> 0 then rq_data q else None), sv)
   }"

text \<open>For a protocol that is emulated, \<open>emul\<close> is what its emulation does with the client: one call, or for RSound calls until one
  fails. Other protocols are refused.\<close>

definition clients_check :: "request_env \<Rightarrow> (int \<Rightarrow> (c_int \<Rightarrow> server \<Rightarrow> server_result) option) \<Rightarrow> (roar_message \<times> byte list option) option
    \<Rightarrow> server \<Rightarrow> c_int \<Rightarrow> (c_int \<times> (roar_message \<times> byte list option) option \<times> server) option" where
  "clients_check env emul recv sv cid = check_cid sv cid (-1, None, sv) (\<lambda>c.
     if cl_fh c = -1 then Some (-1, None, sv)
     else if cl_proto c = PROTO_ROARAUDIO then
       case recv of None \<Rightarrow> do { (_, sv) \<leftarrow> clients_delete (en_io env) (en_dup env) sv cid; Some (-1, None, sv) }
       | Some (m, dat) \<Rightarrow> serve env cid m dat sv
     else case emul (cl_proto c) of None \<Rightarrow> Some (-1, None, sv)
       | Some e \<Rightarrow> do { (r, sv) \<leftarrow> e cid sv; Some (r, None, sv) })"

end
