(* ===== verification/Client_Requests.thy ===== *)
theory Client_Requests
  imports Server_Commands
begin

text \<open>
  The requests of the client library: \<open>src/libroar/ctl.c\<close>, \<open>src/libroar/stream.c\<close>, \<open>src/libroar/basic.c\<close>, \<open>src/libroar/client.c\<close>,
  \<open>src/libroar/beep.c\<close> and \<open>src/libroar/meta.c\<close>. The exchange of a message for its answer is the argument \<open>req\<close>; functions that send and
  receive on their own take these two steps as arguments. The connection is there; a stream that the code checks to be
  there is an \<open>option\<close>. \<open>None\<close> as a result is an access outside of the message.
\<close>

type_synonym 'w roar_send = "'w \<Rightarrow> roar_message \<Rightarrow> byte list option \<Rightarrow> c_int \<times> 'w"
type_synonym 'w roar_recv = "'w \<Rightarrow> (c_int \<times> roar_message \<times> 'w) option"

definition ROAR_BITS_MAX :: int where "ROAR_BITS_MAX = 32"
definition ROAR_DIR_DEFAULT :: int where "ROAR_DIR_DEFAULT = ROAR_DIR_PLAY"
definition ROLE_UNKNOWN :: int where "ROLE_UNKNOWN = -1"
definition STREAMSTATE_UNKNOWN :: int where "STREAMSTATE_UNKNOWN = -1"
definition SET_FLAG :: int where "SET_FLAG = 0"

definition be16s :: "int list \<Rightarrow> byte list" where
  "be16s vs = concat (map (be_bytes 2) vs)"

definition u16_at :: "roar_message \<Rightarrow> nat \<Rightarrow> int" where
  "u16_at m i = be_value (field (2 * i) 2 (ms_data m))"

text \<open>A message with the given data; the rest is zero.\<close>

definition new_message :: "int \<Rightarrow> int \<Rightarrow> byte list \<Rightarrow> roar_message" where
  "new_message cmd stream bs = zero_message\<lparr>ms_cmd := cmd, ms_stream := wrap_u 32 stream, ms_datalen := int (length bs),
     ms_data := put_at 0 bs (ms_data zero_message)\<rparr>"

text \<open>The exchange, and the answer if it is \<open>OK\<close>.\<close>

definition ask :: "'w roar_req \<Rightarrow> 'w \<Rightarrow> roar_message \<Rightarrow> (roar_message option \<times> 'w) option" where
  "ask req con m = do {
     (r, mes, _, con) \<leftarrow> req con m None;
     Some (if r = -1 \<or> ms_cmd mes \<noteq> CMD_OK then None else Some mes, con)
   }"

definition tell :: "'w roar_req \<Rightarrow> 'w \<Rightarrow> roar_message \<Rightarrow> (c_int \<times> 'w) option" where
  "tell req con m = do { (a, con) \<leftarrow> ask req con m; Some (if a = None then -1 else 0, con) }"

subsection \<open>The server\<close>

definition roar_noop :: "'w roar_req \<Rightarrow> 'w \<Rightarrow> (c_int \<times> 'w) option" where
  "roar_noop req con = do { (r, _, _, con) \<leftarrow> req con (new_message CMD_NOOP 0 []) None; Some (r, con) }"

definition roar_identify :: "'w roar_req \<Rightarrow> c_int \<Rightarrow> 'w \<Rightarrow> byte list option \<Rightarrow> (c_int \<times> 'w) option" where
  "roar_identify req pid con name =
     (let name = (case name of None \<Rightarrow> bytes_of ''libroar client'' | Some s \<Rightarrow> s) in do {
        (r, _, _, con) \<leftarrow> req con (new_message CMD_IDENTIFY 0 (1 # be_bytes 4 pid @ take (LIBROAR_BUFFER_MSGDATA - 5) name)) None;
        Some (r, con)
      })"

definition roar_get_clientid :: "'w roar_req \<Rightarrow> 'w \<Rightarrow> (c_int \<times> 'w) option" where
  "roar_get_clientid req con = do {
     (a, con) \<leftarrow> ask req con (new_message CMD_WHOAMI 0 []);
     case a of None \<Rightarrow> Some (-1, con)
     | Some mes \<Rightarrow> if ms_datalen mes \<noteq> 1 then Some (-1, con) else do { v \<leftarrow> char_at (ms_data mes) 0; Some (v, con) }
   }"

definition roar_server_oinfo :: "'w roar_req \<Rightarrow> 'w \<Rightarrow> roar_stream option \<Rightarrow> (c_int \<times> roar_stream option \<times> 'w) option" where
  "roar_server_oinfo req con sa = do {
     (a, con) \<leftarrow> ask req con (new_message CMD_SERVER_OINFO 0 []);
     Some (case a of None \<Rightarrow> (-1, sa, con) | Some mes \<Rightarrow> (case roar_stream_m2s sa (Some mes) of (r, s, _) \<Rightarrow> (if r = -1 then -1 else 0, s, con)))
   }"

definition roar_get_standby :: "'w roar_req \<Rightarrow> 'w \<Rightarrow> (c_int \<times> 'w) option" where
  "roar_get_standby req con = do {
     (a, con) \<leftarrow> ask req con (new_message CMD_GET_STANDBY 0 []);
     Some (case a of None \<Rightarrow> -1 | Some mes \<Rightarrow> u16_at mes 0, con)
   }"

definition roar_set_standby :: "'w roar_req \<Rightarrow> 'w \<Rightarrow> c_int \<Rightarrow> (c_int \<times> 'w) option" where
  "roar_set_standby req con state = tell req con (new_message CMD_SET_STANDBY 0 (be_bytes 2 state))"

definition roar_terminate :: "'w roar_req \<Rightarrow> 'w \<Rightarrow> c_int \<Rightarrow> (c_int \<times> 'w) option" where
  "roar_terminate req con terminate = tell req con (new_message CMD_EXIT 0 [word_of_int terminate])"

definition roar_exit :: "'w roar_req \<Rightarrow> 'w \<Rightarrow> (c_int \<times> 'w) option" where
  "roar_exit req con = roar_terminate req con 0"

text \<open>The answer is not checked to be \<open>OK\<close>.\<close>

definition roar_list_filtered :: "'w roar_req \<Rightarrow> 'w \<Rightarrow> c_int \<Rightarrow> int \<Rightarrow> byte \<Rightarrow> byte \<Rightarrow> int \<Rightarrow> (c_int \<times> int list \<times> 'w) option" where
  "roar_list_filtered req con maxn cmd filt cmp i = do {
     (r, m, _, con) \<leftarrow> req con ((snd (roar_ctl_f2m zero_message filt cmp i))\<lparr>ms_cmd := cmd\<rparr>) None;
     if r = -1 then Some (-1, [], con)
     else do { (n, items) \<leftarrow> roar_ctl_m2ia m maxn; Some (n, items, con) }
   }"

definition roar_list :: "'w roar_req \<Rightarrow> 'w \<Rightarrow> c_int \<Rightarrow> int \<Rightarrow> (c_int \<times> int list \<times> 'w) option" where
  "roar_list req con maxn cmd = roar_list_filtered req con maxn cmd (word_of_int CTL_FILTER_ANY) (word_of_int CTL_CMP_ANY) CTL_FILTER_ANY"

definition roar_get_client :: "'w roar_req \<Rightarrow> 'w \<Rightarrow> roar_client option \<Rightarrow> c_int \<Rightarrow> (c_int \<times> roar_client option \<times> 'w) option" where
  "roar_get_client req con c i = do {
     (a, con) \<leftarrow> ask req con (new_message CMD_GET_CLIENT 0 [word_of_int i]);
     case a of None \<Rightarrow> Some (-1, c, con) | Some m \<Rightarrow> do { (r, c) \<leftarrow> roar_ctl_m2c (Some m) c; Some (r, c, con) }
   }"

definition roar_get_stream :: "'w roar_req \<Rightarrow> 'w \<Rightarrow> roar_stream option \<Rightarrow> c_int \<Rightarrow> (c_int \<times> roar_stream option \<times> 'w) option" where
  "roar_get_stream req con s i = do {
     (a, con) \<leftarrow> ask req con (new_message CMD_GET_STREAM 0 [word_of_int i]);
     Some (case a of None \<Rightarrow> (-1, s, con) | Some m \<Rightarrow> (case roar_stream_m2s s (Some m) of (r, s, _) \<Rightarrow> (r, s, con)))
   }"

definition roar_kick :: "'w roar_req \<Rightarrow> 'w \<Rightarrow> c_int \<Rightarrow> c_int \<Rightarrow> (c_int \<times> 'w) option" where
  "roar_kick req con type i = tell req con (new_message CMD_KICK 0 (be16s [type, i]))"

text \<open>With more channels than fit, volumes are stored behind the data.\<close>

definition roar_set_vol :: "'w roar_req \<Rightarrow> 'w \<Rightarrow> c_int \<Rightarrow> roar_mixer_settings \<Rightarrow> c_int \<Rightarrow> (c_int \<times> 'w) option" where
  "roar_set_vol req con i mx chans =
     (if chans > int (length (mixer mx)) \<or> 6 + 2 * chans > int LIBROAR_BUFFER_MSGDATA then None
      else tell req con ((new_message CMD_SET_VOL i (be16s ([1, scale mx, SET_VOL_ALL] @ take (nat chans) (mixer mx))))\<lparr>ms_datalen := (3 + chans) * 2\<rparr>))"

text \<open>The number of channels, which is stored first, and the settings.\<close>

definition roar_get_vol :: "'w roar_req \<Rightarrow> 'w \<Rightarrow> c_int \<Rightarrow> roar_mixer_settings \<Rightarrow> c_int \<Rightarrow> (c_int \<times> roar_mixer_settings \<times> c_int \<times> 'w) option" where
  "roar_get_vol req con i mx chans = do {
     (a, con) \<leftarrow> ask req con ((new_message CMD_GET_VOL i (be16s [1, 0]))\<lparr>ms_datalen := 4\<rparr>);
     case a of None \<Rightarrow> Some (-1, mx, chans, con)
     | Some m \<Rightarrow>
       if u16_at m 0 \<noteq> 1 then Some (-1, mx, chans, con)
       else let n = u16_at m 1 in
         if n > int ROAR_MAX_CHANNELS then Some (-1, mx, n, con)
         else if 10 + 2 * n > int (length (ms_data m)) then None
         else Some (0, mx\<lparr>scale := u16_at m 2, rpg_mul := u16_at m 3, rpg_div := u16_at m 4,
                 mixer := map (\<lambda>k. u16_at m (k + 5)) [0..<nat n] @ drop (nat n) (mixer mx)\<rparr>, n, con)
   }"

definition roar_beep_req :: "'w roar_req \<Rightarrow> 'w \<Rightarrow> roar_beep option \<Rightarrow> (c_int \<times> 'w) option" where
  "roar_beep_req req con beep = do {
     (r, m, _, con) \<leftarrow> req con (new_message CMD_BEEP 0 (case beep of None \<Rightarrow> []
        | Some b \<Rightarrow> be16s [0, bp_vol b, bp_time b, bp_freq b, bp_type b, bp_x b, bp_y b, bp_z b])) None;
     Some (if r \<noteq> 0 \<or> ms_cmd m \<noteq> CMD_OK then -1 else wrap_s 32 (ms_stream m), con)
   }"

subsection \<open>Streams\<close>

definition roar_stream_new :: "roar_stream option \<Rightarrow> int \<Rightarrow> int \<Rightarrow> int \<Rightarrow> int \<Rightarrow> c_int \<times> roar_stream option" where
  "roar_stream_new s r ch b co = (case s of None \<Rightarrow> (-1, None)
     | Some s \<Rightarrow> (if b > ROAR_BITS_MAX then -1 else 0, Some (s\<lparr>rs_fh := -1, rs_id := -1, rs_pos := 0, rs_pos_rel_id := -1,
         rs_dir := ROAR_DIR_DEFAULT, rs_info := \<lparr>rate = r, bits = b, channels = ch, codec = co\<rparr>\<rparr>)))"

definition roar_stream_new_empty :: "roar_stream option \<Rightarrow> c_int \<times> roar_stream option" where
  "roar_stream_new_empty s = (if s = None then (-1, s) else roar_stream_new s 0 0 0 0)"

definition set_field :: "(roar_stream \<Rightarrow> roar_stream) \<Rightarrow> roar_stream option \<Rightarrow> c_int \<times> roar_stream option" where
  "set_field f s = (if s = None then (-1, s) else (0, map_option f s))"

definition get_field :: "(roar_stream \<Rightarrow> c_int) \<Rightarrow> roar_stream option \<Rightarrow> c_int" where
  "get_field f s = (case s of None \<Rightarrow> -1 | Some s \<Rightarrow> f s)"

definition roar_stream_set_rel_id :: "roar_stream option \<Rightarrow> c_int \<Rightarrow> c_int \<times> roar_stream option" where
  "roar_stream_set_rel_id s i = set_field (\<lambda>s. s\<lparr>rs_pos_rel_id := i\<rparr>) s"

definition roar_stream_get_rel_id :: "roar_stream option \<Rightarrow> c_int" where
  "roar_stream_get_rel_id s = get_field rs_pos_rel_id s"

definition roar_stream_set_id :: "roar_stream option \<Rightarrow> c_int \<Rightarrow> c_int \<times> roar_stream option" where
  "roar_stream_set_id s i = set_field (\<lambda>s. s\<lparr>rs_id := i\<rparr>) s"

definition roar_stream_get_id :: "roar_stream option \<Rightarrow> c_int" where
  "roar_stream_get_id s = get_field rs_id s"

definition roar_stream_set_fh :: "roar_stream option \<Rightarrow> c_int \<Rightarrow> c_int \<times> roar_stream option" where
  "roar_stream_set_fh s fh = set_field (\<lambda>s. s\<lparr>rs_fh := fh\<rparr>) s"

definition roar_stream_get_fh :: "roar_stream option \<Rightarrow> c_int" where
  "roar_stream_get_fh s = get_field rs_fh s"

definition roar_stream_set_dir :: "roar_stream option \<Rightarrow> c_int \<Rightarrow> c_int \<times> roar_stream option" where
  "roar_stream_set_dir s dir = set_field (\<lambda>s. s\<lparr>rs_dir := dir\<rparr>) s"

definition roar_stream_get_dir :: "roar_stream option \<Rightarrow> c_int" where
  "roar_stream_get_dir s = get_field rs_dir s"

definition roar_stream_new_by_id :: "roar_stream option \<Rightarrow> c_int \<Rightarrow> c_int \<times> roar_stream option" where
  "roar_stream_new_by_id s i =
     (if s = None then (-1, s)
      else case roar_stream_new_empty s of (r, s) \<Rightarrow> if r = -1 then (-1, s) else roar_stream_set_id s i)"

text \<open>The audio parameters of the configuration replace those of the stream where they are not zero.\<close>

definition configured :: "roar_audio_info option \<Rightarrow> roar_audio_info \<Rightarrow> roar_audio_info" where
  "configured config i = (case config of None \<Rightarrow> i
     | Some c \<Rightarrow> \<lparr>rate = (if rate c \<noteq> 0 then rate c else rate i), bits = (if bits c \<noteq> 0 then bits c else bits i),
         channels = (if channels c \<noteq> 0 then channels c else channels i), codec = (if codec c \<noteq> 0 then codec c else codec i)\<rparr>)"

definition roar_stream_connect :: "'w roar_req \<Rightarrow> roar_audio_info option \<Rightarrow> 'w \<Rightarrow> roar_stream \<Rightarrow> c_int \<Rightarrow> (c_int \<times> roar_stream \<times> 'w) option" where
  "roar_stream_connect req config con s dir =
     (let s = s\<lparr>rs_dir := dir\<rparr>;
          (_, m) = roar_stream_s2m (Some (s\<lparr>rs_info := configured config (rs_info s)\<rparr>)) (Some (new_message CMD_NEW_STREAM (-1) [])) in do {
        (r, m, _, con) \<leftarrow> req con (the m) None;
        Some (if r \<noteq> 0 then (-1, s, con)
              else if ms_cmd m = CMD_OK then (0, s\<lparr>rs_id := wrap_s 32 (ms_stream m)\<rparr>, con) else (-1, s, con))
      })"

definition roar_stream_exec :: "'w roar_req \<Rightarrow> 'w \<Rightarrow> roar_stream \<Rightarrow> (c_int \<times> 'w) option" where
  "roar_stream_exec req con s = tell req con (new_message CMD_EXEC_STREAM (rs_id s) [])"

definition roar_stream_connect_to_ask :: "'w roar_send \<Rightarrow> 'w \<Rightarrow> roar_stream \<Rightarrow> c_int \<Rightarrow> byte list option \<Rightarrow> c_int \<Rightarrow> c_int \<times> 'w" where
  "roar_stream_connect_to_ask send con s type host port = (case host of None \<Rightarrow> (-1, con)
     | Some h \<Rightarrow> if length h > 76 then (-1, con)
       else case send con (new_message CMD_CON_STREAM (rs_id s) ([0, word_of_int type] @ be_bytes 2 port @ h)) None of (r, con) \<Rightarrow>
         (if r = -1 then -1 else 0, con))"

text \<open>Receives the answer to a message that was sent.\<close>

definition await :: "'w roar_recv \<Rightarrow> 'w \<Rightarrow> (c_int \<times> 'w) option" where
  "await recv con = do { (r, m, con) \<leftarrow> recv con; Some (if r = -1 \<or> ms_cmd m \<noteq> CMD_OK then -1 else 0, con) }"

definition roar_stream_connect_to ::
    "'w roar_send \<Rightarrow> 'w roar_recv \<Rightarrow> 'w \<Rightarrow> roar_stream \<Rightarrow> c_int \<Rightarrow> byte list option \<Rightarrow> c_int \<Rightarrow> (c_int \<times> 'w) option" where
  "roar_stream_connect_to send recv con s type host port =
     (case roar_stream_connect_to_ask send con s type host port of (r, con) \<Rightarrow> if r = -1 then Some (-1, con) else await recv con)"

text \<open>Sends a message and a file handle after it. \<open>confh\<close> is the handle of the connection.\<close>

definition pass_handle ::
    "'w roar_send \<Rightarrow> 'w roar_recv \<Rightarrow> ('w \<Rightarrow> c_int \<Rightarrow> c_int \<Rightarrow> c_int \<times> 'w) \<Rightarrow> c_int \<Rightarrow> 'w \<Rightarrow> roar_message \<Rightarrow> c_int \<Rightarrow> (c_int \<times> 'w) option" where
  "pass_handle send recv send_fh confh con m fh =
     (if confh = -1 then Some (-1, con)
      else case send con m None of (r, con) \<Rightarrow>
        if r = -1 then Some (-1, con)
        else case send_fh con confh fh of (r, con) \<Rightarrow> if r = -1 then Some (-1, con) else await recv con)"

definition roar_stream_passfh ::
    "'w roar_send \<Rightarrow> 'w roar_recv \<Rightarrow> ('w \<Rightarrow> c_int \<Rightarrow> c_int \<Rightarrow> c_int \<times> 'w) \<Rightarrow> c_int \<Rightarrow> 'w \<Rightarrow> roar_stream \<Rightarrow> c_int \<Rightarrow> (c_int \<times> 'w) option" where
  "roar_stream_passfh send recv send_fh confh con s fh =
     pass_handle send recv send_fh confh con (new_message CMD_PASSFH (rs_id s) []) fh"

definition roar_stream_attach_simple :: "'w roar_req \<Rightarrow> 'w \<Rightarrow> roar_stream \<Rightarrow> c_int \<Rightarrow> (c_int \<times> 'w) option" where
  "roar_stream_attach_simple req con s client = tell req con (new_message CMD_ATTACH (rs_id s) (be16s [0, ATTACH_SIMPLE, client]))"

text \<open>The data are sent as they are, with the length converted to \<open>int\<close>.\<close>

definition roar_stream_add_data :: "'w roar_send \<Rightarrow> 'w roar_recv \<Rightarrow> 'w \<Rightarrow> roar_stream \<Rightarrow> byte list \<Rightarrow> (c_int \<times> 'w) option" where
  "roar_stream_add_data send recv con s dat =
     (case send con ((new_message CMD_ADD_DATA (rs_id s) [])\<lparr>ms_datalen := wrap_s 32 (int (length dat))\<rparr>) (Some dat) of (r, con) \<Rightarrow>
        if r \<noteq> 0 then Some (-1, con) else await recv con)"

definition roar_stream_send_data ::
    "'w roar_send \<Rightarrow> 'w roar_recv \<Rightarrow> ('w \<Rightarrow> c_int \<Rightarrow> byte list \<Rightarrow> c_int \<times> 'w) \<Rightarrow> 'w \<Rightarrow> roar_stream option \<Rightarrow> byte list \<Rightarrow> (c_int \<times> 'w) option" where
  "roar_stream_send_data send recv write con s dat = (case s of None \<Rightarrow> Some (-1, con)
     | Some s \<Rightarrow> if rs_fh s = -1
       then do { (r, con) \<leftarrow> roar_stream_add_data send recv con s dat; Some (if r = -1 then -1 else wrap_s 32 (int (length dat)), con) }
       else Some (write con (rs_fh s) dat))"

subsection \<open>Parameters of a stream\<close>

record roar_stream_info =
  in_block_size :: c_int
  in_pre_underruns :: c_int
  in_post_underruns :: c_int
  in_codec :: int
  in_flags :: int
  in_delay :: int
  in_state :: c_int
  in_mixer :: c_int
  in_role :: c_int

text \<open>What is read of the answer depends on its length; fields that were added later may be missing.\<close>

definition info_of :: "roar_message \<Rightarrow> roar_stream_info" where
  "info_of m = (let d = u16_at m; n = ms_datalen m in
     \<lparr>in_block_size = d 2, in_pre_underruns = d 3, in_post_underruns = d 4, in_codec = d 5,
      in_flags = (if n < 20 then d 6 else d 6 OR (d 9 * 2 ^ 16)), in_delay = d 7 * 1000,
      in_state = (if n < 18 then STREAMSTATE_UNKNOWN else d 8),
      in_mixer = (if n < 22 then -1 else d 10), in_role = (if n < 24 then ROLE_UNKNOWN else d 11)\<rparr>)"

definition roar_stream_get_info :: "'w roar_req \<Rightarrow> 'w \<Rightarrow> roar_stream \<Rightarrow> roar_stream_info \<Rightarrow> (c_int \<times> roar_stream_info \<times> 'w) option" where
  "roar_stream_get_info req con s info = do {
     (a, con) \<leftarrow> ask req con (new_message CMD_GET_STREAM_PARA (rs_id s) (be16s [0, STREAM_PARA_INFO]));
     case a of None \<Rightarrow> Some (-1, info, con)
     | Some m \<Rightarrow>
       if ms_datalen m > int (length (ms_data m)) then None
       else if ms_datalen m < 14 \<or> u16_at m 0 \<noteq> 0 \<or> u16_at m 1 \<noteq> 1 then Some (-1, info, con)
       else Some (0, info_of m, con)
   }"

text \<open>The name as it is stored in the buffer of \<open>len\<close> bytes, without the null character.\<close>

definition roar_stream_get_name :: "'w roar_req \<Rightarrow> 'w \<Rightarrow> roar_stream option \<Rightarrow> nat \<Rightarrow> (c_int \<times> byte list option \<times> 'w) option" where
  "roar_stream_get_name req con s len = (case s of None \<Rightarrow> Some (-1, None, con)
     | Some s \<Rightarrow> if len = 0 then Some (-1, None, con)
       else do {
         (a, con) \<leftarrow> ask req con (new_message CMD_GET_STREAM_PARA (rs_id s) (be16s [0, STREAM_PARA_NAME]));
         case a of None \<Rightarrow> Some (-1, Some [], con)
         | Some m \<Rightarrow>
           if ms_datalen m < 4 \<or> u16_at m 0 \<noteq> 0 \<or> u16_at m 1 \<noteq> STREAM_PARA_NAME then Some (-1, Some [], con)
           else do { name \<leftarrow> strncpy_at (ms_data m) 4 (min (int len - 1) (ms_datalen m - 4)); Some (0, Some name, con) }
       })"

definition roar_stream_get_chanmap :: "'w roar_req \<Rightarrow> 'w \<Rightarrow> roar_stream option \<Rightarrow> nat \<Rightarrow> (c_int \<times> byte list option \<times> 'w) option" where
  "roar_stream_get_chanmap req con s len = (case s of None \<Rightarrow> Some (-1, None, con)
     | Some s \<Rightarrow> if len = 0 then Some (-1, None, con)
       else do {
         (a, con) \<leftarrow> ask req con (new_message CMD_GET_STREAM_PARA (rs_id s) (be16s [0, STREAM_PARA_CHANMAP]));
         case a of None \<Rightarrow> Some (-1, None, con)
         | Some m \<Rightarrow>
           if ms_datalen m < 4 \<or> u16_at m 0 \<noteq> 0 \<or> u16_at m 1 \<noteq> STREAM_PARA_CHANMAP then Some (-1, None, con)
           else let n = ms_datalen m - 4 in
             if n > int len then Some (-1, None, con)
             else if ms_datalen m > int (length (ms_data m)) then None
             else Some (0, Some (field 4 (nat n) (ms_data m)), con)
       })"

definition roar_stream_set_chanmap :: "'w roar_req \<Rightarrow> 'w \<Rightarrow> roar_stream option \<Rightarrow> byte list option \<Rightarrow> (c_int \<times> 'w) option" where
  "roar_stream_set_chanmap req con s cmap = (case (s, cmap) of (Some s, Some cm) \<Rightarrow>
       if cm = [] then Some (0, con)
       else if 4 + length cm > LIBROAR_BUFFER_MSGDATA then Some (-1, con)
       else tell req con (new_message CMD_SET_STREAM_PARA (rs_id s) (be16s [0, STREAM_PARA_CHANMAP] @ cm))
     | _ \<Rightarrow> Some (-1, con))"

text \<open>Only the low 16 bits of the flags are sent.\<close>

definition roar_stream_set_flags :: "'w roar_req \<Rightarrow> 'w \<Rightarrow> roar_stream \<Rightarrow> c_int \<Rightarrow> c_int \<Rightarrow> (c_int \<times> 'w) option" where
  "roar_stream_set_flags req con s flags reset = tell req con (new_message CMD_SET_STREAM_PARA (rs_id s)
     (be16s [0, STREAM_PARA_FLAGS, if reset = RESET_FLAG then RESET_FLAG else SET_FLAG, flags]))"

definition roar_stream_set_role :: "'w roar_req \<Rightarrow> 'w \<Rightarrow> roar_stream \<Rightarrow> c_int \<Rightarrow> (c_int \<times> 'w) option" where
  "roar_stream_set_role req con s role = tell req con (new_message CMD_SET_STREAM_PARA (rs_id s) (be16s [0, STREAM_PARA_ROLE, role]))"

subsection \<open>Meta data\<close>

text \<open>Keys have less than \<open>META_MAX_NAMELEN\<close> characters. An empty value stands for a missing one when the data are cleared or
  finalized.\<close>

definition roar_stream_meta_set :: "'w roar_req \<Rightarrow> 'w \<Rightarrow> roar_stream \<Rightarrow> int \<Rightarrow> roar_meta \<Rightarrow> (c_int \<times> 'w) option" where
  "roar_stream_meta_set req con s mode meta =
     (case (if (mode = META_MODE_FINALIZE \<or> mode = META_MODE_CLEAR) \<and> me_value meta = None then Some [] else me_value meta) of
        None \<Rightarrow> Some (-1, con)
      | Some v \<Rightarrow> let bs = [0, word_of_int mode, word_of_int (me_type meta), word_of_int (int (length (me_key meta))), word_of_int (int (length v))]
            @ bytes_of (me_key meta) @ bytes_of v in
        if length v > 255 \<or> length bs > LIBROAR_BUFFER_MSGDATA then Some (-1, con)
        else tell req con (new_message CMD_SET_META (rs_id s) bs))"

definition roar_stream_meta_get :: "'w roar_req \<Rightarrow> bool \<Rightarrow> 'w \<Rightarrow> roar_stream \<Rightarrow> roar_meta \<Rightarrow> (c_int \<times> roar_meta \<times> 'w) option" where
  "roar_stream_meta_get req alloc con s meta = do {
     (a, con) \<leftarrow> ask req con (new_message CMD_GET_META (rs_id s) [0, word_of_int (me_type meta)]);
     case a of None \<Rightarrow> Some (-1, meta, con)
     | Some m \<Rightarrow>
       if ms_datalen m < 2 then Some (-1, meta, con)
       else do {
         version \<leftarrow> char_at (ms_data m) 0;
         len \<leftarrow> char_at (ms_data m) 1;
         if version \<noteq> 0 \<or> \<not> alloc then Some (-1, meta, con)
         else do { v \<leftarrow> strncpy_at (ms_data m) 2 len; Some (0, meta\<lparr>me_value := Some (string_of v), me_key := []\<rparr>, con) }
       }
   }"

definition roar_stream_meta_list :: "'w roar_req \<Rightarrow> 'w \<Rightarrow> roar_stream \<Rightarrow> nat \<Rightarrow> (c_int \<times> int list \<times> 'w) option" where
  "roar_stream_meta_list req con s len = do {
     (a, con) \<leftarrow> ask req con (new_message CMD_LIST_META (rs_id s) [0]);
     case a of None \<Rightarrow> Some (-1, [], con)
     | Some m \<Rightarrow>
       if ms_datalen m < 1 then Some (-1, [], con)
       else do {
         version \<leftarrow> char_at (ms_data m) 0;
         if version \<noteq> 0 \<or> int len < ms_datalen m - 1 then Some (-1, [], con)
         else if ms_datalen m > int (length (ms_data m)) then None
         else Some (ms_datalen m - 1, map sint (field 1 (nat (ms_datalen m - 1)) (ms_data m)), con)
       }
   }"

subsection \<open>Clients\<close>

text \<open>The whole record is cleared, so the type of its address is the unknown one.\<close>

definition roar_client_new :: "roar_client option \<Rightarrow> c_int \<times> roar_client option" where
  "roar_client_new c = (case c of None \<Rightarrow> (-1, c)
     | Some d \<Rightarrow> (0, Some \<lparr>rc_fh = -1, rc_name = [], rc_pid = -1, rc_uid = -1, rc_gid = -1, rc_execed = 0,
       rc_streams = replicate ROAR_CLIENTS_MAX_STREAMS_PER_CLIENT (-1), rc_proto = PROTO_ROARAUDIO, rc_byteorder = BYTEORDER_NETWORK,
       rc_nnode = \<lparr>nn_socktype = SOCKET_TYPE_UNKNOWN, nn_addr = map (\<lambda>_. 0) (nn_addr (rc_nnode d))\<rparr>\<rparr>))"

definition roar_client_set_fh :: "roar_client option \<Rightarrow> c_int \<Rightarrow> c_int \<times> roar_client option" where
  "roar_client_set_fh c fh = (case c of None \<Rightarrow> (-1, c) | Some d \<Rightarrow> (0, Some (d\<lparr>rc_fh := fh\<rparr>)))"

definition roar_client_set_proto :: "roar_client option \<Rightarrow> c_int \<Rightarrow> c_int \<Rightarrow> c_int \<times> roar_client option" where
  "roar_client_set_proto c proto byteorder = (case c of None \<Rightarrow> (-1, c)
     | Some d \<Rightarrow> let d = d\<lparr>rc_proto := proto\<rparr> in
       if byteorder \<noteq> -1 then (0, Some (d\<lparr>rc_byteorder := byteorder\<rparr>))
       else if proto = PROTO_ROARAUDIO then (0, Some (d\<lparr>rc_byteorder := BYTEORDER_NETWORK\<rparr>)) else (-1, Some d))"

definition roar_client_pass ::
    "'w roar_send \<Rightarrow> 'w roar_recv \<Rightarrow> ('w \<Rightarrow> c_int \<Rightarrow> c_int \<Rightarrow> c_int \<times> 'w) \<Rightarrow> c_int \<Rightarrow> 'w \<Rightarrow> roar_client \<Rightarrow> int \<Rightarrow> (c_int \<times> 'w) option" where
  "roar_client_pass send recv send_fh confh con c flags =
     pass_handle send recv send_fh confh con (new_message CMD_PASSFH (-1) (be16s [0, flags, rc_proto c, rc_byteorder c])) (rc_fh c)"

end
