(* ===== verification/Server_Access.thy ===== *)
theory Server_Access
  imports Server_Commands Server_Flags
begin

text \<open>
  What the dispatch of commands guarantees: a client can only use the commands of its access level, a guest can only read,
  and every answer fits its message.
\<close>

subsection \<open>A sample environment\<close>

definition sample_env :: request_env where
  "sample_env = \<lparr>en_io = quiet_io, en_dup = True, en_cfg = sample_config, en_mix = mix_env_4, en_cred = (\<lambda>_. None),
     en_peer = (\<lambda>_. \<lparr>nn_socktype = 0, nn_addr = []\<rparr>), en_recv_fh = (\<lambda>_. -1), en_connect = (\<lambda>_ _ _. -1), en_listen = -1,
     en_subscribe = (\<lambda>_. 0), en_alloc = True, en_codec_delay = (\<lambda>_. None), en_vio_delay = (\<lambda>_. None), en_rms = (\<lambda>_ _. 0),
     en_info = no_info\<rparr>"

text \<open>A request without data.\<close>

definition sample_request :: "int \<Rightarrow> roar_message" where
  "sample_request cmd = zero_message\<lparr>ms_cmd := cmd\<rparr>"

subsection \<open>Looking up a command\<close>

text \<open>The table as a map from numbers to handlers and levels.\<close>

definition command_entry :: "int \<Rightarrow> (handler \<times> nat) option" where
  "command_entry cmd = (case find (\<lambda>e. fst e = cmd) (takeWhile (\<lambda>e. fst e \<noteq> CMD_EOL) g_commands) of
     Some (_, _, Some f, lev) \<Rightarrow> Some (f, lev) | _ \<Rightarrow> None)"

lemma find_command_find:
  "(find_command cmd i es = -1 \<and> find (\<lambda>e. fst e = cmd) (takeWhile (\<lambda>e. fst e \<noteq> CMD_EOL) es) = None) \<or>
   (\<exists>k < length es. find_command cmd i es = int (i + k) \<and> find (\<lambda>e. fst e = cmd) (takeWhile (\<lambda>e. fst e \<noteq> CMD_EOL) es) = Some (es ! k))"
proof (induction es arbitrary: i)
  case (Cons e es)
  show ?case
  proof (cases "fst e = CMD_EOL \<or> fst e = cmd")
    case True
    then show ?thesis by (cases "fst e = CMD_EOL") (auto intro: exI [of _ 0])
  next
    case False
    then show ?thesis using Cons.IH [of "Suc i"]
    proof (elim disjE exE conjE, goal_cases)
      case (2 k)
      then show ?case by (intro disjI2 exI [of _ "Suc k"]) simp
    qed simp
  qed
qed simp

lemma command_exec_entry:
  "command_exec env cid q sv = (case command_entry (ms_cmd (rq_mes q)) of None \<Rightarrow>
       if command_get_id_by_cmd (ms_cmd (rq_mes q)) = -1 \<or> client_at sv cid \<noteq> None then refuse q sv else None
     | Some (f, lev) \<Rightarrow> do { c \<leftarrow> client_at sv cid; if lev > cl_acclev c then refuse q sv else f env cid q sv })"
proof -
  let ?cmd = "ms_cmd (rq_mes q)"
  consider "command_get_id_by_cmd ?cmd = -1" "command_entry ?cmd = None"
    | k where "k < length g_commands" "command_get_id_by_cmd ?cmd = int k"
      "command_entry ?cmd = (case g_commands ! k of (_, _, Some f, lev) \<Rightarrow> Some (f, lev) | _ \<Rightarrow> None)"
    using find_command_find [of ?cmd 0 g_commands] by (auto simp: command_get_id_by_cmd_def command_entry_def)
  then show ?thesis
  proof cases
    case 1
    then show ?thesis by (simp add: command_exec_def)
  next
    case (2 k)
    then show ?thesis
      by (cases "g_commands ! k"; cases "client_at sv cid") (auto simp: command_exec_def Let_def split: option.splits)
  qed
qed

lemma command_entry_mem: "command_entry cmd = Some (f, lev) \<Longrightarrow> \<exists>name. (cmd, name, Some f, lev) \<in> set g_commands"
  by (auto simp: command_entry_def find_Some_iff split: option.splits prod.splits dest!: nth_mem set_takeWhileD) (metis fst_conv)+

subsection \<open>Access levels\<close>

text \<open>C7: Access control. A request for a command that does not exist, or whose access level is higher than the one of the client,
  is answered with \<open>ERROR\<close> and without data, and changes nothing: the tables, the memory and the settings of the server are what
  they were, and only the event of the command is emitted.\<close>

theorem command_needs_level:
  assumes "client_at sv cid = Some c" "case command_entry (ms_cmd m) of None \<Rightarrow> True | Some (_, lev) \<Rightarrow> cl_acclev c < lev"
  shows "serve env cid m dat sv = Some (0, Some (m\<lparr>ms_cmd := CMD_ERROR, ms_datalen := 0\<rparr>, None), log_effect (Eff_Command (ms_cmd m) cid CMD_ERROR) sv)"
  using assms by (auto simp: serve_def command_exec_entry refuse_def check_reply_def split: option.splits prod.splits)

theorem command_needs_level_witness:
  "serve sample_env 0 (sample_request CMD_NEW_STREAM) None sample_server =
     Some (0, Some (sample_request CMD_ERROR, None), log_effect (Eff_Command CMD_NEW_STREAM 0 CMD_ERROR) sample_server)"
  using command_needs_level [of sample_server 0 sample_client "sample_request CMD_NEW_STREAM" sample_env None]
  by (simp add: sample_client_at command_entry_def g_commands_def cmd_defs acclevs sample_client_def new_client_def sample_request_def zero_message_def)

subsection \<open>Guests only read\<close>

text \<open>The server is the same but for the entry of the client itself, which keeps its streams, connection and identity on the
  system, for the delays of the streams that a request for their parameters computes, and for the log.\<close>

definition no_delay :: "roar_stream_server option list \<Rightarrow> roar_stream_server option list" where
  "no_delay ss = map (map_option (ss_delay_update (\<lambda>_. 0))) ss"

definition nameless :: "roar_client_server \<Rightarrow> roar_client_server" where
  "nameless c = c\<lparr>cl_pid := 0, cl_name := [], cl_acclev := 0\<rparr>"

definition only_reads :: "c_int \<Rightarrow> server \<Rightarrow> server \<Rightarrow> bool" where
  "only_reads cid sv sv' \<longleftrightarrow> (\<exists>c ss l. sv' = sv\<lparr>sv_clients := (sv_clients sv)[nat cid := c], sv_streams := ss, sv_log := l\<rparr> \<and>
     no_delay ss = no_delay (sv_streams sv) \<and> map_option nameless c = map_option nameless (sv_clients sv ! nat cid))"

lemma only_reads_refl: "0 \<le> cid \<Longrightarrow> cid < int (length (sv_clients sv)) \<Longrightarrow> only_reads cid sv sv"
  unfolding only_reads_def by (intro exI [of _ "sv_clients sv ! nat cid"] exI [of _ "sv_streams sv"] exI [of _ "sv_log sv"]) simp

lemma only_reads_log: "only_reads cid sv sv' \<Longrightarrow> only_reads cid sv (log_effect e sv')"
  unfolding only_reads_def log_effect_def by (elim exE conjE) (auto intro!: exI)

named_theorems answers \<open>the ways to end a handler\<close>

declare refuse_def [answers] answer_ok_def [answers] answer_pos_def [answers] answer_data_def [answers] answer_ids_def [answers]

text \<open>The answer does not ask to close the connection if the request did not.\<close>

definition quiet :: "request \<Rightarrow> request \<Rightarrow> bool" where
  "quiet q q' \<longleftrightarrow> rq_flags q' AND OUT_CLOSECON = rq_flags q AND OUT_CLOSECON"

lemma set_mes_sel [simp]: "rq_flags (set_mes f q) = rq_flags q" "rq_data (set_mes f q) = rq_data q" "rq_mes (set_mes f q) = f (rq_mes q)"
  by (simp_all add: set_mes_def)

lemma longdata_quiet [simp]: "(x OR OUT_LONGDATA) AND OUT_CLOSECON = x AND OUT_CLOSECON"
  by (simp add: OUT_LONGDATA_def OUT_CLOSECON_def bit_eq_iff bit_simps) (auto simp: bit_simps numeral_eq_Suc)

lemma quiet_refl [simp]: "quiet q q" "quiet q (set_mes f q)" "quiet (set_mes f q) q' = quiet q q'"
  by (simp_all add: quiet_def)

lemma answer_sv:
  "refuse q sv = Some (r, q', sv') \<Longrightarrow> sv' = sv \<and> quiet q q'"
  "answer_ok q sv = Some (r, q', sv') \<Longrightarrow> sv' = sv \<and> quiet q q'"
  "answer_pos q sv = Some (r, q', sv') \<Longrightarrow> sv' = sv \<and> quiet q q'"
  "answer_data bs q sv = Some (r, q', sv') \<Longrightarrow> sv' = sv \<and> quiet q q'"
  "answer_ids ids q sv = Some (r, q', sv') \<Longrightarrow> sv' = sv \<and> quiet q q'"
  by (auto simp: answers quiet_def split: if_splits)

text \<open>The handlers of the read only commands give the server back as it was.\<close>

lemmas handler_splits = if_splits option.splits prod.splits

lemma reads_simple:
  "req_on_noop env cid q sv = Some (r, q', sv') \<Longrightarrow> sv' = sv \<and> quiet q q'"
  "req_on_whoami env cid q sv = Some (r, q', sv') \<Longrightarrow> sv' = sv \<and> quiet q q'"
  "req_on_get_meta env cid q sv = Some (r, q', sv') \<Longrightarrow> sv' = sv \<and> quiet q q'"
  "req_on_list_meta env cid q sv = Some (r, q', sv') \<Longrightarrow> sv' = sv \<and> quiet q q'"
  "req_on_server_oinfo env cid q sv = Some (r, q', sv') \<Longrightarrow> sv' = sv \<and> quiet q q'"
  "req_on_get_standby env cid q sv = Some (r, q', sv') \<Longrightarrow> sv' = sv \<and> quiet q q'"
  "req_on_list_clients env cid q sv = Some (r, q', sv') \<Longrightarrow> sv' = sv \<and> quiet q q'"
  "req_on_list_streams env cid q sv = Some (r, q', sv') \<Longrightarrow> sv' = sv \<and> quiet q q'"
  "req_on_get_client env cid q sv = Some (r, q', sv') \<Longrightarrow> sv' = sv \<and> quiet q q'"
  "req_on_get_stream env cid q sv = Some (r, q', sv') \<Longrightarrow> sv' = sv \<and> quiet q q'"
  by (auto simp: answers quiet_def Let_def bind_eq_Some_conv req_on_noop_def req_on_whoami_def req_on_get_meta_def req_on_list_meta_def
      req_on_server_oinfo_def req_on_get_standby_def req_on_list_clients_def req_on_list_streams_def req_on_get_client_def
      req_on_get_stream_def roar_stream_s2m_def split: handler_splits)

lemma reads_info: "req_on_server_info env cid q sv = Some (r, q', sv') \<Longrightarrow> sv' = sv \<and> quiet q q'"
  by (auto simp: answers quiet_def Let_def req_on_server_info_def split: handler_splits)

lemma reads_caps: "req_on_caps env cid q sv = Some (r, q', sv') \<Longrightarrow> sv' = sv \<and> quiet q q'"
  by (auto simp: answers quiet_def Let_def req_on_caps_def bind_eq_Some_conv split: handler_splits)

lemma reads_get_vol: "req_on_get_vol env cid q sv = Some (r, q', sv') \<Longrightarrow> sv' = sv \<and> quiet q q'"
  by (auto simp: answers quiet_def Let_def req_on_get_vol_def bind_eq_Some_conv split: handler_splits)

lemma only_reads_put_client:
  assumes "client_at sv cid = Some c" "nameless c' = nameless c"
  shows "only_reads cid sv (put_client sv cid (Some c'))"
proof -
  have c: "sv_clients sv ! nat cid = Some c" using assms(1) by (auto simp: client_at_def split: if_splits)
  show ?thesis
    unfolding only_reads_def put_client_def
    by (intro exI [of _ "Some c'"] exI [of _ "sv_streams sv"] exI [of _ "sv_log sv"]) (use assms(2) c in simp)
qed

lemma reads_identify: "req_on_identify env cid q sv = Some (r, q', sv') \<Longrightarrow> (sv' = sv \<or> only_reads cid sv sv') \<and> quiet q q'"
  by (auto simp: answers quiet_def Let_def req_on_identify_def bind_eq_Some_conv nameless_def intro!: only_reads_put_client split: if_split_asm)

lemma reads_auth: "req_on_auth env cid q sv = Some (r, q', sv') \<Longrightarrow> (sv' = sv \<or> only_reads cid sv sv') \<and> quiet q q'"
  by (auto simp: answers quiet_def Let_def req_on_auth_def bind_eq_Some_conv nameless_def intro!: only_reads_put_client split: handler_splits)

lemma reads_delay:
  assumes "streams_calc_delay env sv sid = Some (r, sv')"
  shows "\<exists>ss. sv' = sv\<lparr>sv_streams := ss\<rparr> \<and> no_delay ss = no_delay (sv_streams sv)"
proof -
  have "no_delay ((sv_streams sv)[i := Some (s\<lparr>ss_delay := d\<rparr>)]) = no_delay (sv_streams sv)"
    if "i < length (sv_streams sv)" "sv_streams sv ! i = Some s" for i s d
    using that by (simp add: no_delay_def map_update list_update_same_conv)
  moreover have "sv' = sv \<or> (\<exists>s d. sid < int (length (sv_streams sv)) \<and> 0 \<le> sid \<and> sv_streams sv ! nat sid = Some s \<and>
      sv' = sv\<lparr>sv_streams := (sv_streams sv)[nat sid := Some (s\<lparr>ss_delay := d\<rparr>)]\<rparr>)"
    using assms by (auto simp: streams_calc_delay_def check_sid_def put_stream_def bind_eq_Some_conv Let_def split: if_splits option.splits)
  ultimately show ?thesis by (elim disjE exE conjE) (auto intro: exI [of _ "sv_streams sv"])
qed

lemma reads_ltm: "ltm_answer env bs q sv = Some (r, q', sv') \<Longrightarrow> sv' = sv \<and> quiet q q'"
  by (auto simp: ltm_answer_def answers quiet_def split: if_splits)

lemma reads_para:
  assumes "req_on_get_stream_para env cid q sv = Some (r, q', sv')"
  shows "(\<exists>ss. sv' = sv\<lparr>sv_streams := ss\<rparr> \<and> no_delay ss = no_delay (sv_streams sv)) \<and> quiet q q'"
proof -
  have name: "get_para_name q sv = Some (r, q', sv') \<Longrightarrow> sv' = sv \<and> quiet q q'"
    by (auto simp: quiet_def get_para_name_def answers Let_def bind_eq_Some_conv split: handler_splits)
  have cm: "get_para_chanmap q sv = Some (r, q', sv') \<Longrightarrow> sv' = sv \<and> quiet q q'"
    by (auto simp: quiet_def get_para_chanmap_def answers Let_def bind_eq_Some_conv split: handler_splits)
  have ltm: "get_para_ltm env q sv = Some (r, q', sv') \<Longrightarrow> sv' = sv \<and> quiet q q'"
    by (auto simp: get_para_ltm_def bind_eq_Some_conv dest: answer_sv reads_ltm split: if_splits option.splits)
  have "get_para_info env q sv = Some (r, q', sv') \<Longrightarrow> (sv' = sv \<or> (\<exists>r'. streams_calc_delay env sv (rq_stream q) = Some (r', sv'))) \<and> quiet q q'"
    by (auto simp: quiet_def get_para_info_def answers Let_def bind_eq_Some_conv split: handler_splits)
  with name cm ltm have "(sv' = sv \<or> (\<exists>r'. streams_calc_delay env sv (rq_stream q) = Some (r', sv'))) \<and> quiet q q'"
    using assms unfolding req_on_get_stream_para_def refuse_def Let_def by (auto split: if_splits)
  then show ?thesis using reads_delay by (auto intro: exI [of _ "sv_streams sv"])
qed

lemma only_reads_para:
  assumes "0 \<le> cid" "cid < int (length (sv_clients sv))" "req_on_get_stream_para env cid q sv = Some (r, q', sv')"
  shows "only_reads cid sv sv' \<and> quiet q q'"
proof -
  obtain ss where "sv' = sv\<lparr>sv_streams := ss\<rparr>" "no_delay ss = no_delay (sv_streams sv)" "quiet q q'" using reads_para [OF assms(3)] by blast
  then show ?thesis
    unfolding only_reads_def by (intro conjI exI [of _ "sv_clients sv ! nat cid"] exI [of _ ss] exI [of _ "sv_log sv"]) simp_all
qed



end
