(* ===== verification/Server_Replies.thy ===== *)
theory Server_Replies
  imports Server_Access
begin

text \<open>
  Every answer of the server is a message that can be sent: its data area has the size of the structure, and its length is that of
  the data in the message or of the block that is sent with it. \<open>fitting\<close> is the judgement on the result of a handler; its rules
  follow the structure of the handlers.
\<close>

definition fits :: "int \<Rightarrow> c_int \<Rightarrow> request \<Rightarrow> bool" where
  "fits cmd r q \<longleftrightarrow> message_ok (rq_mes q) \<and> (r \<noteq> -1 \<longrightarrow> ms_cmd (rq_mes q) \<noteq> cmd \<longrightarrow> 0 \<le> rq_len q \<and>
     (if rq_flags q AND OUT_LONGDATA \<noteq> 0 then \<exists>d. rq_data q = Some d \<and> rq_len q \<le> int (length d) else rq_len q \<le> 80))"

definition fitting :: "int \<Rightarrow> handled \<Rightarrow> bool" where
  "fitting cmd res \<longleftrightarrow> (\<forall>r q sv. res = Some (r, q, sv) \<longrightarrow> fits cmd r q)"

named_theorems fitting_rules \<open>introduction rules of the judgement on handlers\<close>

lemma fitting_result: "fits cmd r q \<Longrightarrow> fitting cmd (Some (r, q, sv))"
  by (simp add: fitting_def)

lemma fitting_None [fitting_rules]: "fitting cmd None"
  by (simp add: fitting_def)

lemma fitting_bind [fitting_rules]: "(\<And>x. m = Some x \<Longrightarrow> fitting cmd (k x)) \<Longrightarrow> fitting cmd (m \<bind> k)"
  by (cases m) (simp_all add: fitting_def)

lemma fitting_if [fitting_rules]: "(b \<Longrightarrow> fitting cmd x) \<Longrightarrow> (\<not> b \<Longrightarrow> fitting cmd y) \<Longrightarrow> fitting cmd (if b then x else y)"
  by simp

lemma fitting_option [fitting_rules]:
  "(m = None \<Longrightarrow> fitting cmd x) \<Longrightarrow> (\<And>y. m = Some y \<Longrightarrow> fitting cmd (f y)) \<Longrightarrow> fitting cmd (case m of None \<Rightarrow> x | Some y \<Rightarrow> f y)"
  by (cases m) simp_all

lemma fitting_prod [fitting_rules]: "(\<And>a b. p = (a, b) \<Longrightarrow> fitting cmd (f a b)) \<Longrightarrow> fitting cmd (case p of (a, b) \<Rightarrow> f a b)"
  by (cases p) simp

lemma fitting_let [fitting_rules]: "fitting cmd (f x) \<Longrightarrow> fitting cmd (let y = x in f y)"
  by simp

lemma fitting_refuse [fitting_rules]: "message_ok (rq_mes q) \<Longrightarrow> fitting cmd (refuse q sv)"
  by (simp add: fitting_def fits_def refuse_def)

lemma message_ok_set [simp]:
  "message_ok (m\<lparr>ms_cmd := c\<rparr>) = message_ok m" "message_ok (m\<lparr>ms_pos := p\<rparr>) = message_ok m"
  "message_ok (m\<lparr>ms_datalen := n\<rparr>) = message_ok m" "message_ok (m\<lparr>ms_stream := s\<rparr>) = message_ok m"
  by (simp_all add: message_ok_def)

lemma message_ok_put: "message_ok m \<Longrightarrow> length bs \<le> LIBROAR_BUFFER_MSGDATA \<Longrightarrow> message_ok (m\<lparr>ms_data := put_at 0 bs (ms_data m)\<rparr>)"
  by (simp add: message_ok_def)

lemma rq_len_set [simp]: "rq_len (set_mes f q) = ms_datalen (f (rq_mes q))" "rq_len (q\<lparr>rq_flags := fl\<rparr>) = rq_len q" "rq_len (q\<lparr>rq_data := d\<rparr>) = rq_len q"
  by (simp_all add: rq_len_def)

text \<open>An answer in the message, with flags that do not ask for a block.\<close>

lemma fitting_short:
  assumes "rq_flags q AND OUT_LONGDATA = 0" "message_ok (f (rq_mes q))" "0 \<le> ms_datalen (f (rq_mes q))" "ms_datalen (f (rq_mes q)) \<le> 80"
  shows "fitting cmd (Some (r, set_mes f q, sv))"
  using assms by (simp add: fitting_def fits_def)

lemma fitting_answers [fitting_rules]:
  assumes "message_ok (rq_mes q)" "rq_flags q AND OUT_LONGDATA = 0"
  shows "fitting cmd (answer_ok q sv)" "fitting cmd (answer_pos q sv)" "fitting cmd (answer_data bs q sv)"
  using assms unfolding answer_ok_def answer_pos_def answer_data_def
  by (auto intro!: fitting_short fitting_rules simp: message_ok_def LIBROAR_BUFFER_MSGDATA_def)

lemma closecon_short [simp]: "(x OR OUT_CLOSECON) AND OUT_LONGDATA = x AND OUT_LONGDATA" "(x OR OUT_NOSEND) AND OUT_LONGDATA = x AND OUT_LONGDATA"
  by (simp_all add: word_ao_dist) (simp_all add: OUT_LONGDATA_def OUT_CLOSECON_def OUT_NOSEND_def)

lemma rq_sel [simp]: "rq_len \<lparr>rq_mes = m, rq_data = d, rq_flags = f\<rparr> = ms_datalen m"
  by (simp add: rq_len_def)

subsection \<open>The handlers\<close>

lemma m2s_message: "roar_stream_m2s (Some s) (Some m) = (r, rs, mes) \<Longrightarrow> message_ok m \<Longrightarrow> message_ok (the mes)"
  by (auto simp: roar_stream_m2s_def Let_def message_ok_def LIBROAR_BUFFER_MSGDATA_def upt_rec split: if_splits)

lemma s2m_message: "roar_stream_s2m (Some s) (Some m) = (r, mes) \<Longrightarrow> message_ok m \<Longrightarrow> message_ok (the mes) \<and> ms_datalen (the mes) = 24"
  by (auto simp: roar_stream_s2m_def message_ok_def LIBROAR_BUFFER_MSGDATA_def STREAM_MESSAGE_LEN_def)

lemma blob_fits: "roar_nnode_to_blob (Some n) (Some b) = (r, b', k) \<Longrightarrow> length (the b') = length b \<and> (r = 0 \<longrightarrow> k \<le> length b)"
  by (auto simp: roar_nnode_to_blob_def field_def Let_def split: if_splits)

lemma c2m_message: "roar_ctl_c2m m (Some c) = Some (r, mes) \<Longrightarrow> message_ok m \<Longrightarrow> message_ok mes \<and> 0 \<le> ms_datalen mes \<and> ms_datalen mes \<le> 80"
proof -
  assume m: "roar_ctl_c2m m (Some c) = Some (r, mes)" "message_ok m"
  let ?cur = "length (client_body c)"
  obtain r' b' k where b: "roar_nnode_to_blob (Some (rc_nnode c)) (Some (drop ?cur (put_at 0 (client_body c) (ms_data m)))) = (r', b', k)"
    by (metis prod_cases3)
  have "?cur \<le> length (ms_data m)" "length (ms_data m) = 80" using m
    by (auto simp: roar_ctl_c2m_def message_ok_def LIBROAR_BUFFER_MSGDATA_def Let_def simp del: client_body_length split: if_splits)
  then show ?thesis using m b blob_fits [OF b]
    by (auto simp: roar_ctl_c2m_def message_ok_def LIBROAR_BUFFER_MSGDATA_def Let_def simp del: client_body_length split: if_splits)
qed

lemma ia2m_message: "message_ok m \<Longrightarrow> ms_datalen m = 7 \<Longrightarrow> message_ok (snd (roar_ctl_ia2m m ids)) \<and>
    0 \<le> ms_datalen (snd (roar_ctl_ia2m m ids)) \<and> ms_datalen (snd (roar_ctl_ia2m m ids)) \<le> 80"
  by (simp add: roar_ctl_ia2m_def message_ok_def LIBROAR_BUFFER_MSGDATA_def)

lemma fitting_ids [fitting_rules]:
  "message_ok (rq_mes q) \<Longrightarrow> rq_flags q AND OUT_LONGDATA = 0 \<Longrightarrow> ms_datalen (rq_mes q) = 7 \<Longrightarrow> fitting cmd (answer_ids ids q sv)"
  unfolding answer_ids_def by (rule fitting_short) (auto dest: ia2m_message)

lemma m2f_length: "roar_ctl_m2f m = (r, f) \<Longrightarrow> r \<noteq> -1 \<Longrightarrow> ms_datalen m = 7"
  by (auto simp: roar_ctl_m2f_def split: if_splits)

text \<open>A handler of a request whose message is whole and that has no flags yet.\<close>

definition fresh :: "request \<Rightarrow> bool" where
  "fresh q \<longleftrightarrow> message_ok (rq_mes q) \<and> rq_flags q = 0"

lemma fresh_ok [simp]: "fresh q \<Longrightarrow> message_ok (rq_mes q)" "fresh q \<Longrightarrow> rq_flags q AND OUT_LONGDATA = 0"
  by (simp_all add: fresh_def)

lemma fit_connection:
  assumes "fresh q"
  shows "fitting cmd (req_on_noop env cid q sv)" "fitting cmd (req_on_identify env cid q sv)" "fitting cmd (req_on_auth env cid q sv)"
    "fitting cmd (req_on_exec_stream env cid q sv)" "fitting cmd (req_on_passfh env cid q sv)"
    "fitting cmd (req_on_set_meta env cid q sv)" "fitting cmd (req_on_list_meta env cid q sv)"
    "fitting cmd (req_on_set_standby env cid q sv)" "fitting cmd (req_on_exit env cid q sv)"
    "fitting cmd (req_on_kick env cid q sv)" "fitting cmd (req_on_attach env cid q sv)" "fitting cmd (req_on_set_vol env cid q sv)"
    "fitting cmd (req_on_set_stream_para env cid q sv)"
  unfolding req_on_noop_def req_on_identify_def req_on_auth_def req_on_exec_stream_def req_on_passfh_def req_on_set_meta_def set_meta_entry_def
    req_on_list_meta_def req_on_set_standby_def req_on_exit_def req_on_kick_def req_on_attach_def req_on_set_vol_def req_on_set_stream_para_def
  by (intro fitting_rules; (simp add: assms)?)+

lemma fit_whoami: "fresh q \<Longrightarrow> fitting cmd (req_on_whoami env cid q sv)" "fresh q \<Longrightarrow> fitting cmd (req_on_get_standby env cid q sv)"
  unfolding req_on_whoami_def req_on_get_standby_def by (auto intro!: fitting_short simp: message_ok_def LIBROAR_BUFFER_MSGDATA_def dest: fresh_ok(1))

lemma fit_oinfo: "fresh q \<Longrightarrow> fitting cmd (req_on_server_oinfo env cid q sv)"
  unfolding req_on_server_oinfo_def by (intro fitting_rules fitting_short) (auto dest: s2m_message)

lemma fit_get_stream: "fresh q \<Longrightarrow> fitting cmd (req_on_get_stream env cid q sv)"
  unfolding req_on_get_stream_def by (intro fitting_rules fitting_short) (auto dest!: s2m_message)

lemma fit_get_client: "fresh q \<Longrightarrow> fitting cmd (req_on_get_client env cid q sv)"
  unfolding req_on_get_client_def by (intro fitting_rules fitting_short) (auto dest!: c2m_message)

lemma fit_lists: "fresh q \<Longrightarrow> fitting cmd (req_on_list_clients env cid q sv)" "fresh q \<Longrightarrow> fitting cmd (req_on_list_streams env cid q sv)"
  unfolding req_on_list_clients_def req_on_list_streams_def by (intro fitting_rules; simp add: m2f_length)+

lemma fitting_drop [fitting_rules]: "message_ok (rq_mes q) \<Longrightarrow> fitting cmd (drop_stream env q sv sid)"
  unfolding drop_stream_def by (intro fitting_rules)

lemma fit_new_stream: "fresh q \<Longrightarrow> fitting cmd (req_on_new_stream env cid q sv)"
  unfolding req_on_new_stream_def by (intro fitting_rules fitting_short) (auto dest!: m2s_message)

text \<open>A handler that leaves the message as it is has its answer made by the caller.\<close>

lemma fitting_same: "message_ok (rq_mes q) \<Longrightarrow> ms_cmd (rq_mes q) = cmd \<Longrightarrow> fitting cmd (Some (r, q, sv))"
  by (simp add: fitting_def fits_def)

lemma fit_con_stream: "fresh q \<Longrightarrow> ms_cmd (rq_mes q) = cmd \<Longrightarrow> fitting cmd (req_on_con_stream env cid q sv)"
  unfolding req_on_con_stream_def by (intro fitting_rules fitting_same) simp_all

lemma fit_quit: "fresh q \<Longrightarrow> ms_cmd (rq_mes q) = cmd \<Longrightarrow> fitting cmd (req_quit env cid q sv)"
  unfolding req_quit_def by (intro fitting_rules fitting_same) simp_all

lemma fit_wait: "fresh q \<Longrightarrow> ms_cmd (rq_mes q) = cmd \<Longrightarrow> fitting cmd (req_on_wait env cid q sv)"
  unfolding req_on_wait_def by (intro fitting_rules fitting_same) simp_all

lemma fit_get_meta: "fresh q \<Longrightarrow> fitting cmd (req_on_get_meta env cid q sv)"
  unfolding req_on_get_meta_def
  by (intro fitting_rules fitting_short) (auto simp: message_ok_def LIBROAR_BUFFER_MSGDATA_def dest: fresh_ok(1) [unfolded message_ok_def])

lemma fit_add_data: "fresh q \<Longrightarrow> fitting cmd (req_on_add_data env cid q sv)"
  unfolding req_on_add_data_def by (intro fitting_rules fitting_short) simp_all

lemma fit_beep: "fresh q \<Longrightarrow> fitting cmd (req_on_beep env cid q sv)"
  unfolding req_on_beep_def by (intro fitting_rules fitting_short) simp_all

lemma to_mes_message:
  assumes "roar_server_info_to_mes (Some m) (Some info) True alloc None = (r, mes, dat)" "message_ok m"
  shows "message_ok (the mes) \<and> (r \<noteq> -1 \<longrightarrow> 0 \<le> ms_datalen (the mes) \<and> (case dat of None \<Rightarrow> ms_datalen (the mes) \<le> 80 | Some d \<Rightarrow> ms_datalen (the mes) \<le> int (length d)))"
  using assms by (auto simp: roar_server_info_to_mes_def Let_def message_ok_def LIBROAR_BUFFER_MSGDATA_def zero_message_def split: if_splits)

lemma longdata_set [simp]: "(x OR OUT_LONGDATA) AND OUT_LONGDATA = OUT_LONGDATA" "OUT_LONGDATA \<noteq> 0"
  by (simp_all add: or_and_self) (simp add: OUT_LONGDATA_def)

lemma fit_server_info: "fresh q \<Longrightarrow> fitting cmd (req_on_server_info env cid q sv)"
  unfolding req_on_server_info_def
  by (intro fitting_rules) (auto simp: fitting_def fits_def dest!: to_mes_message split: option.splits)

lemma caps_message:
  "roar_caps_to_msg (Some m) (Some caps) False alloc None = (r, mes, dat) \<Longrightarrow> message_ok m \<Longrightarrow> message_ok (the mes) \<and>
    (r \<noteq> -1 \<longrightarrow> 0 \<le> ms_datalen (the mes) \<and> ms_datalen (the mes) \<le> 80)"
  by (auto simp: roar_caps_to_msg_def Let_def message_ok_def LIBROAR_BUFFER_MSGDATA_def split: if_splits)

lemma fit_caps: "fresh q \<Longrightarrow> fitting cmd (req_on_caps env cid q sv)"
  unfolding req_on_caps_def by (intro fitting_rules fitting_short) (auto dest!: caps_message)

lemma fit_ltm: "fresh q \<Longrightarrow> fitting cmd (ltm_answer env bs q sv)"
  unfolding ltm_answer_def by (intro fitting_rules) (auto simp: fitting_def fits_def)

lemma fit_get_para: "fresh q \<Longrightarrow> fitting cmd (req_on_get_stream_para env cid q sv)"
proof -
  assume q: "fresh q"
  have len: "length (ms_data (rq_mes q)) = 80" using q by (simp add: fresh_def message_ok_def LIBROAR_BUFFER_MSGDATA_def)
  have "fitting cmd (get_para_info env q sv)"
    unfolding get_para_info_def
    by (intro fitting_rules) (use q len in \<open>auto simp: answer_data_def fitting_def fits_def message_ok_def LIBROAR_BUFFER_MSGDATA_def split: if_splits\<close>)
  moreover have "fitting cmd (get_para_name q sv)"
    unfolding get_para_name_def
    by (intro fitting_rules fitting_short) (use q len in \<open>auto simp: message_ok_def LIBROAR_BUFFER_MSGDATA_def para_header_def\<close>)
  moreover have "fitting cmd (get_para_chanmap q sv)"
    unfolding get_para_chanmap_def by (intro fitting_rules) (use q in simp_all)
  moreover have "fitting cmd (get_para_ltm env q sv)"
    unfolding get_para_ltm_def by (intro fitting_rules fit_ltm) (use q in simp_all)
  ultimately show ?thesis unfolding req_on_get_stream_para_def using q by (intro fitting_rules) simp_all
qed

text \<open>The number of channels is not checked when a stream is created; it has to be an \<open>int\<close> here.\<close>

definition channels_int :: "server \<Rightarrow> bool" where
  "channels_int sv \<longleftrightarrow> (\<forall>i s. stream_at sv i = Some s \<longrightarrow> 0 \<le> channels (st_info s) \<and> channels (st_info s) < 2 ^ 31)"

lemma length_be_concat: "length (concat (map (be_bytes n) xs)) = n * length xs"
  by (induction xs) auto

lemma fit_get_vol:
  assumes "fresh q" "channels_int sv"
  shows "fitting cmd (req_on_get_vol env cid q sv)"
proof -
  have "fitting cmd (do { (r, q, sv) \<leftarrow> answer_data (concat (map (be_bytes 2) (head @ take (nat chans) mx))) q sv;
      Some (r, set_mes (\<lambda>m. m\<lparr>ms_datalen := (int (length head) + chans) * 2\<rparr>) q, sv) })"
    if "chans \<le> int (length mx)" "0 \<le> chans" for head chans mx
    using assms(1) that unfolding answer_data_def
    by (intro fitting_rules) (auto simp: fitting_def fits_def message_ok_def LIBROAR_BUFFER_MSGDATA_def fresh_def length_be_concat min_def split: if_splits)
  moreover have "wrap_s 32 (channels (st_info s)) \<ge> 0" if "stream_at sv i = Some s" for i s
    using assms(2) that wrap_s_id [of 32 "channels (st_info s)"] by (fastforce simp: channels_int_def)
  ultimately show ?thesis
    unfolding req_on_get_vol_def Let_def
    by (intro fitting_if fitting_option fitting_None fitting_refuse fresh_ok(1) [OF assms(1)]) (auto split: if_splits)
qed

text \<open>C6: Every answer fits. For every command and every request, well-formed or not, that the server answers: the answer has the data
  area of a message, its length is not negative and does not exceed the data that are sent with it, in the message or in a
  block of their own. The one thing the server takes from clients without a check, the number of channels of a stream, has
  to be the value of an \<open>int\<close>.\<close>

theorem replies_fit:
  assumes "message_ok m" "channels_int sv" "serve env cid m dat sv = Some (rv, Some (m', d'), sv')"
  shows "message_ok m' \<and> 0 \<le> ms_datalen m' \<and> nat (ms_datalen m') \<le> length (case d' of None \<Rightarrow> ms_data m' | Some d \<Rightarrow> d)"
proof -
  let ?q = "\<lparr>rq_mes = m, rq_data = dat, rq_flags = 0\<rparr>"
  have q: "fresh ?q" "ms_cmd (rq_mes ?q) = ms_cmd m" using assms(1) by (simp_all add: fresh_def)
  have f: "fitting (ms_cmd m) (f env cid ?q sv)" if "(ms_cmd m, name, Some f, lev) \<in> set g_commands" for name f lev
    using that fit_connection [OF q(1), of "ms_cmd m" env cid sv] fit_whoami [OF q(1), of "ms_cmd m" env cid sv] fit_oinfo [OF q(1), of "ms_cmd m" env cid sv]
      fit_get_stream [OF q(1), of "ms_cmd m" env cid sv] fit_get_client [OF q(1), of "ms_cmd m" env cid sv] fit_lists [OF q(1), of "ms_cmd m" env cid sv]
      fit_new_stream [OF q(1), of "ms_cmd m" env cid sv] fit_con_stream [OF q, of env cid sv] fit_quit [OF q, of env cid sv] fit_wait [OF q, of env cid sv]
      fit_get_meta [OF q(1), of "ms_cmd m" env cid sv] fit_add_data [OF q(1), of "ms_cmd m" env cid sv] fit_beep [OF q(1), of "ms_cmd m" env cid sv]
      fit_server_info [OF q(1), of "ms_cmd m" env cid sv] fit_caps [OF q(1), of "ms_cmd m" env cid sv] fit_get_para [OF q(1), of "ms_cmd m" env cid sv]
      fit_get_vol [OF q(1) assms(2), of "ms_cmd m" env cid]
    unfolding g_commands_def by (simp only: list.set insert_iff empty_iff prod.inject option.inject option.distinct) (elim disjE conjE; simp)
  have "fitting (ms_cmd m) (command_exec env cid ?q sv)"
    unfolding command_exec_entry
    by (intro fitting_rules) (auto simp: assms(1) dest!: command_entry_mem intro: f)
  moreover obtain r q' s where e: "command_exec env cid ?q sv = Some (r, q', s)" using assms(3) by (auto simp: serve_def bind_eq_Some_conv)
  moreover obtain m1 r1 where c: "check_reply r (ms_cmd m) (rq_mes q') = (m1, r1)" by fastforce
  ultimately have "fits (ms_cmd m) r q'" "m' = m1" "d' = (if rq_flags q' AND OUT_LONGDATA \<noteq> 0 then rq_data q' else None)"
    using assms(3) by (auto simp: serve_def fitting_def Let_def bind_eq_Some_conv split: if_splits)
  then show ?thesis
    using c by (auto simp: fits_def check_reply_def rq_len_def message_ok_def LIBROAR_BUFFER_MSGDATA_def split: if_splits option.splits)
qed

theorem replies_fit_witness:
  "message_ok (fst (the (fst (snd (the (serve sample_env 0 (sample_request CMD_NOOP) None sample_server))))))"
proof -
  obtain rv m' d' sv' where "serve sample_env 0 (sample_request CMD_NOOP) None sample_server = Some (rv, Some (m', d'), sv')"
    by (simp add: serve_def command_exec_entry sample_client_at command_entry_def g_commands_def cmd_defs acclevs sample_request_def
        zero_message_def req_on_noop_def answer_pos_def set_mes_def check_reply_def)
  moreover have "message_ok (sample_request CMD_NOOP)" by (simp add: message_ok_def sample_request_def zero_message_def)
  moreover have "channels_int sample_server"
    by (auto simp: channels_int_def sample_stream_at sample_stream0_def sample_stream1_def new_stream_def split: if_splits)
  ultimately show ?thesis using replies_fit [of "sample_request CMD_NOOP" sample_server sample_env 0 None rv m' d' sv'] by simp
qed

end
