(* ===== verification/Client_Session.thy ===== *)
theory Client_Session
  imports Client_Requests Server_Replies Vio_Pipe
begin

text \<open>
  A client and the server, connected by two transports: the client library sends a request, the server receives it, executes it and
  sends its answer, the client receives it. Locale \<open>duplex\<close> puts two \<open>fifo_stream\<close> together and shows that a request has the effect
  and the answer of \<open>serve\<close>; its interpretation connects them by two buffer pipes. The theorems are about functions of the
  client library that are called over such a connection.
\<close>

subsection \<open>One exchange\<close>

record ('u, 'd) session =
  se_up :: 'u
  se_down :: 'd
  se_server :: server

text \<open>The server serves a client once: the loop of the server calls \<open>clients_check\<close> when there is something to read.\<close>

definition server_turn :: "('u \<Rightarrow> nat \<Rightarrow> c_int \<times> byte list \<times> 'u) \<Rightarrow> ('d \<Rightarrow> byte list \<Rightarrow> c_int \<times> 'd) \<Rightarrow> request_env \<Rightarrow> c_int
    \<Rightarrow> ('u, 'd) session \<Rightarrow> ('u, 'd) session option" where
  "server_turn rd wr env cid s =
     (case roar_vrecv_message rd (se_up s) (Some zero_message) True (en_alloc env) of (r, _, m, dat, up) \<Rightarrow> do {
        (rv, reply, sv) \<leftarrow> clients_check env (\<lambda>_. None) (if r = -1 then None else Some (the m, dat)) (se_server s) cid;
        let down = (case reply of None \<Rightarrow> se_down s | Some (a, ad) \<Rightarrow> (case roar_vsend_message wr (se_down s) a ad of (_, _, _, d) \<Rightarrow> d));
        Some \<lparr>se_up = up, se_down = down, se_server = sv\<rparr>
      })"

text \<open>\<open>roar_req\<close> with the server's turn between sending and receiving.\<close>

definition session_req :: "('u \<Rightarrow> byte list \<Rightarrow> c_int \<times> 'u) \<Rightarrow> ('u \<Rightarrow> nat \<Rightarrow> c_int \<times> byte list \<times> 'u) \<Rightarrow> ('d \<Rightarrow> byte list \<Rightarrow> c_int \<times> 'd)
    \<Rightarrow> ('d \<Rightarrow> nat \<Rightarrow> c_int \<times> byte list \<times> 'd) \<Rightarrow> request_env \<Rightarrow> c_int \<Rightarrow> ('u, 'd) session roar_req" where
  "session_req uwr urd dwr drd env cid s m dat =
     (let d = (case dat of None \<Rightarrow> None | Some d \<Rightarrow> d) in
      case roar_vsend_message uwr (se_up s) m d of (r, _, m, up) \<Rightarrow>
        let s = s\<lparr>se_up := up\<rparr> in
        if r \<noteq> 0 then Some (-1, m, d, s)
        else do {
          s \<leftarrow> server_turn urd dwr env cid s;
          case roar_vrecv_message drd (se_down s) (Some m) (dat \<noteq> None) (en_alloc env) of (r, _, m, d, down) \<Rightarrow>
            Some (r, the m, d, s\<lparr>se_down := down\<rparr>)
        })"

text \<open>A client that the server listens to.\<close>

definition listening :: "server \<Rightarrow> c_int \<Rightarrow> roar_client_server \<Rightarrow> bool" where
  "listening sv cid c \<longleftrightarrow> client_at sv cid = Some c \<and> cid \<noteq> ROAR_CLIENTS_MAX \<and> cl_fh c \<noteq> -1 \<and> cl_proto c = PROTO_ROARAUDIO"

lemma listening_check:
  "Server_Safe.tables_ok sv \<Longrightarrow> listening sv cid c \<Longrightarrow> clients_check env emul (Some (m, dat)) sv cid = serve env cid m dat sv"
  using client_bound [of sv cid c] by (simp add: clients_check_def listening_def)

locale duplex = up: fifo_stream uvalid uqueue ucredit uwr urd + down: fifo_stream dvalid dqueue dcredit dwr drd
  for uvalid :: "'u \<Rightarrow> bool" and uqueue ucredit uwr urd and dvalid :: "'d \<Rightarrow> bool" and dqueue dcredit dwr drd
begin

definition talks :: "nat \<Rightarrow> ('u, 'd) session \<Rightarrow> bool" where
  "talks k s \<longleftrightarrow> uvalid (se_up s) \<and> uqueue (se_up s) = [] \<and> 2 * k \<le> ucredit (se_up s) \<and>
     dvalid (se_down s) \<and> dqueue (se_down s) = [] \<and> 2 * k \<le> dcredit (se_down s)"

lemma exchange:
  assumes "talks (Suc k) s" "Server_Safe.tables_ok (se_server s)" "listening (se_server s) cid c"
    and "sendable m None" "ms_datalen m \<le> 80"
    and "serve env cid (fst (delivered (m, None))) None (se_server s) = Some (rv, Some (a, None), sv)"
    and "sendable a None" "ms_datalen a \<le> 80"
  shows "\<exists>s'. session_req uwr urd dwr drd env cid s m None = Some (0, fst (delivered (a, None)), None, s') \<and> talks k s' \<and> se_server s' = sv"
proof -
  obtain u1 where u1: "roar_vsend_message uwr (se_up s) m None = (0, ERROR_NONE, m\<lparr>ms_version := 0\<rparr>, u1)" "uvalid u1"
      "uqueue u1 = header_v0 m @ payload m None" "ucredit (se_up s) - 2 \<le> ucredit u1"
    using up.send_ok [of "se_up s" m None] assms(1,4) by (auto simp: talks_def)
  obtain u2 where u2: "roar_vrecv_message urd u1 (Some zero_message) True (en_alloc env) = (0, ERROR_NONE, Some (fst (delivered (m, None))), None, u2)"
      "uvalid u2" "uqueue u2 = []" "ucredit u2 = ucredit u1"
    using up.recv_ok [OF u1(2) assms(4), of "[]" True "en_alloc env" zero_message] u1(3) assms(5) by (auto simp: delivered_def)
  obtain d1 where d1: "roar_vsend_message dwr (se_down s) a None = (0, ERROR_NONE, a\<lparr>ms_version := 0\<rparr>, d1)" "dvalid d1"
      "dqueue d1 = header_v0 a @ payload a None" "dcredit (se_down s) - 2 \<le> dcredit d1"
    using down.send_ok [of "se_down s" a None] assms(1,7) by (auto simp: talks_def)
  obtain d2 where d2: "roar_vrecv_message drd d1 (Some (m\<lparr>ms_version := 0\<rparr>)) False (en_alloc env) = (0, ERROR_NONE, Some (fst (delivered (a, None))), None, d2)"
      "dvalid d2" "dqueue d2 = []" "dcredit d2 = dcredit d1"
    using down.recv_ok [OF d1(2) assms(7), of "[]" False "en_alloc env" "m\<lparr>ms_version := 0\<rparr>"] d1(3) assms(8) by (auto simp: delivered_def)
  have "server_turn urd dwr env cid (s\<lparr>se_up := u1\<rparr>) = Some \<lparr>se_up = u2, se_down = d1, se_server = sv\<rparr>"
    using u2(1) d1(1) assms(6) listening_check [OF assms(2,3)] by (simp add: server_turn_def)
  then have "session_req uwr urd dwr drd env cid s m None = Some (0, fst (delivered (a, None)), None, \<lparr>se_up = u2, se_down = d2, se_server = sv\<rparr>)"
    using u1(1) d2(1) by (simp add: session_req_def Let_def)
  moreover have "talks k \<lparr>se_up = u2, se_down = d2, se_server = sv\<rparr>" using u1(4) u2 d1(4) d2 assms(1) by (auto simp: talks_def)
  ultimately show ?thesis by auto
qed

end

interpretation piped: duplex pipe_valid pipe_queue pipe_credit "pipe_put os" "pipe_get os'" pipe_valid pipe_queue pipe_credit "pipe_put os" "pipe_get os'"
  for os os'
  by unfold_locales

text \<open>Two pipes with room for \<open>k\<close> exchanges and nothing under way.\<close>

type_synonym pipes = "(pipe_state, pipe_state) session"

definition connected :: "nat \<Rightarrow> pipes \<Rightarrow> bool" where
  "connected k s \<longleftrightarrow> pipe_valid (se_up s) \<and> pipe_queue (se_up s) = [] \<and> 2 * k \<le> pipe_credit (se_up s) \<and>
     pipe_valid (se_down s) \<and> pipe_queue (se_down s) = [] \<and> 2 * k \<le> pipe_credit (se_down s)"

abbreviation piped_req where
  "piped_req os os' \<equiv> session_req (pipe_put os) (pipe_get os') (pipe_put os) (pipe_get os')"

lemma connected_talks: "piped.talks k s \<longleftrightarrow> connected k s"
  by (simp add: piped.talks_def connected_def)

text \<open>An exchange with a handler that answers \<open>OK\<close>.\<close>

lemma serve_ok:
  assumes "client_at sv cid = Some c" "command_entry (ms_cmd m) = Some (f, lev)" "lev \<le> cl_acclev c"
    and "f env cid \<lparr>rq_mes = m, rq_data = None, rq_flags = 0\<rparr> sv = Some (r, q, sv')" "r \<noteq> -1" "rq_flags q = 0" "ms_cmd (rq_mes q) = CMD_OK"
    and "ms_cmd m \<noteq> CMD_OK"
  shows "serve env cid m None sv = Some (0, Some (rq_mes q, None), log_effect (Eff_Command (ms_cmd m) cid CMD_OK) sv')"
  using assms by (simp add: serve_def command_exec_entry check_reply_def CMD_OK_def CMD_OK_STOP_def)

lemma delivered_cmd [simp]: "ms_cmd (fst (delivered (m, d))) = ms_cmd m" "ms_datalen (fst (delivered (m, d))) = ms_datalen m"
  by (simp_all add: delivered_def received_def)

lemma asks:
  assumes "connected (Suc k) s" "Server_Safe.tables_ok (se_server s)" "listening (se_server s) cid c"
    and "sendable m None" "ms_datalen m \<le> 80" "command_entry (ms_cmd m) = Some (f, lev)" "lev \<le> cl_acclev c" "ms_cmd m \<noteq> CMD_OK"
    and "f env cid \<lparr>rq_mes = fst (delivered (m, None)), rq_data = None, rq_flags = 0\<rparr> (se_server s) = Some (r, q, sv)" "r \<noteq> -1" "rq_flags q = 0"
    and "ms_cmd (rq_mes q) = CMD_OK" "sendable (rq_mes q) None" "ms_datalen (rq_mes q) \<le> 80"
  shows "\<exists>s'. ask (piped_req os os' env cid) s m = Some (Some (fst (delivered (rq_mes q, None))), s') \<and> connected k s' \<and>
    se_server s' = log_effect (Eff_Command (ms_cmd m) cid CMD_OK) sv"
proof -
  have c: "client_at (se_server s) cid = Some c" using assms(3) by (simp add: listening_def)
  have e: "command_entry (ms_cmd (fst (delivered (m, None)))) = Some (f, lev)" "ms_cmd (fst (delivered (m, None))) \<noteq> CMD_OK" using assms(6,8) by simp_all
  obtain s' where "piped_req os os' env cid s m None = Some (0, fst (delivered (rq_mes q, None)), None, s')" "connected k s'"
      "se_server s' = log_effect (Eff_Command (ms_cmd m) cid CMD_OK) sv"
    using piped.exchange [OF _ assms(2-5) serve_ok [OF c e(1) assms(7,9-12) e(2)] assms(13,14), of k] assms(1)
    unfolding connected_talks delivered_cmd by blast
  then show ?thesis using assms(12) by (simp add: ask_def)
qed

subsection \<open>Messages and their numbers\<close>

lemma be16s_length [simp]: "length (be16s vs) = 2 * length vs"
  by (induction vs) (simp_all add: be16s_def)

lemma be16s_field: "k < length vs \<Longrightarrow> field (2 * k) 2 (be16s vs @ ys) = be_bytes 2 (vs ! k)"
proof (induction vs arbitrary: k)
  case (Cons v vs)
  then show ?case by (cases k) (simp_all add: be16s_def field_def)
qed simp

lemma new_message_fields [simp]:
  "ms_cmd (new_message cmd i bs) = cmd" "ms_datalen (new_message cmd i bs) = int (length bs)" "ms_pos (new_message cmd i bs) = 0"
  "ms_stream (new_message cmd i bs) = wrap_u 32 i" "length bs \<le> 80 \<Longrightarrow> ms_data (new_message cmd i bs) = bs @ replicate (80 - length bs) 0"
  by (simp_all add: new_message_def zero_message_def put_front_at LIBROAR_BUFFER_MSGDATA_def)

lemma new_message_datalen: "n = int (length bs) \<Longrightarrow> (new_message cmd i bs)\<lparr>ms_datalen := n\<rparr> = new_message cmd i bs"
  by (simp add: new_message_def)

lemma new_message_sendable: "0 \<le> cmd \<Longrightarrow> cmd < 256 \<Longrightarrow> length bs \<le> 80 \<Longrightarrow> sendable (new_message cmd i bs) None"
  by (simp add: sendable_def)

lemma new_message_u16: "k < length vs \<Longrightarrow> length vs \<le> 40 \<Longrightarrow> u16_at (new_message cmd i (be16s vs)) k = vs ! k mod 65536"
  by (simp add: u16_at_def be16s_field be_value_bytes)

text \<open>A request to one of the streams arrives as it was sent.\<close>

lemma wrap_u32_small: "0 \<le> i \<Longrightarrow> i < 65535 \<Longrightarrow> wrap_u 32 i = i"
  by (simp add: wrap_u_def take_bit_int_eq_self)

lemma delivered_new: "length bs \<le> 80 \<Longrightarrow> 0 \<le> i \<Longrightarrow> i < 65535 \<Longrightarrow> fst (delivered (new_message cmd i bs, None)) = new_message cmd i bs"
  by (simp add: delivered_def received_def payload_def put_front_def wrap_u32_small)
    (simp add: new_message_def zero_message_def put_front_at LIBROAR_BUFFER_MSGDATA_def wrap_u32_small)

text \<open>Numbers within the length of a message arrive.\<close>

lemma delivered_u16:
  assumes "2 * k + 2 \<le> nat (ms_datalen a)" "ms_datalen a \<le> 80" "length (ms_data a) = 80"
  shows "u16_at (fst (delivered (a, None))) k = u16_at a k"
  using assms by (simp add: u16_at_def delivered_def payload_def put_front_def field_def received_def take_drop min_def)

lemma rq_u16_message: "rq_u16 \<lparr>rq_mes = m, rq_data = d, rq_flags = f\<rparr> k = u16_at m k"
  by (simp add: rq_u16_def u16_at_def)

text \<open>A request of the client library whose handler answers \<open>OK\<close>, without and with the answer.\<close>

lemma command_range: "command_entry cmd = Some (f, lev) \<Longrightarrow> 0 \<le> cmd \<and> cmd < 256 \<and> cmd \<noteq> CMD_OK"
  by (drule command_entry_mem) (auto simp: g_commands_def cmd_defs)

lemma asks_new:
  assumes "connected (Suc k) s" "Server_Safe.tables_ok (se_server s)" "listening (se_server s) cid c"
    and "command_entry cmd = Some (f, lev)" "lev \<le> cl_acclev c" "length bs \<le> 80" "0 \<le> i" "i < 65535"
    and "f env cid \<lparr>rq_mes = new_message cmd i bs, rq_data = None, rq_flags = 0\<rparr> (se_server s) = Some (0, \<lparr>rq_mes = a, rq_data = d, rq_flags = 0\<rparr>, sv)"
    and "ms_cmd a = CMD_OK" "sendable a None" "ms_datalen a \<le> 80"
  shows "\<exists>s'. ask (piped_req os os' env cid) s (new_message cmd i bs) = Some (Some (fst (delivered (a, None))), s') \<and> connected k s' \<and>
    se_server s' = log_effect (Eff_Command cmd cid CMD_OK) sv"
proof -
  have r: "0 \<le> cmd" "cmd < 256" "cmd \<noteq> CMD_OK" using command_range [OF assms(4)] by auto
  have m: "fst (delivered (new_message cmd i bs, None)) = new_message cmd i bs" "sendable (new_message cmd i bs) None"
      "ms_datalen (new_message cmd i bs) \<le> 80"
    using assms(6-8) r by (simp_all add: delivered_new new_message_sendable)
  show ?thesis
    using asks [OF assms(1-3) m(2,3), of f lev env 0 "\<lparr>rq_mes = a, rq_data = d, rq_flags = 0\<rparr>" sv os os'] assms(4,5,9-12) r m(1) by simp
qed

lemma tells_new:
  assumes "connected (Suc k) s" "Server_Safe.tables_ok (se_server s)" "listening (se_server s) cid c"
    and "command_entry cmd = Some (f, lev)" "lev \<le> cl_acclev c" "length bs \<le> 80" "0 \<le> i" "i < 65535"
    and "f env cid \<lparr>rq_mes = new_message cmd i bs, rq_data = None, rq_flags = 0\<rparr> (se_server s) = Some (0, \<lparr>rq_mes = a, rq_data = d, rq_flags = 0\<rparr>, sv)"
    and "ms_cmd a = CMD_OK" "sendable a None" "ms_datalen a \<le> 80"
  shows "\<exists>s'. tell (piped_req os os' env cid) s (new_message cmd i bs) = Some (0, s') \<and> connected k s' \<and>
    se_server s' = log_effect (Eff_Command cmd cid CMD_OK) sv"
  using asks_new [OF assms, of os os'] by (auto simp: tell_def)

text \<open>The answer of a handler that only says \<open>OK\<close>.\<close>

lemma ok_sendable: "sendable ((new_message cmd i bs)\<lparr>ms_cmd := CMD_OK, ms_datalen := 0\<rparr>) None"
  by (simp add: sendable_def cmd_defs)

lemma answer_ok_new: "answer_ok \<lparr>rq_mes = new_message cmd i bs, rq_data = None, rq_flags = 0\<rparr> sv =
    Some (0, \<lparr>rq_mes = (new_message cmd i bs)\<lparr>ms_cmd := CMD_OK, ms_datalen := 0\<rparr>, rq_data = None, rq_flags = 0\<rparr>, sv)"
  by (simp add: answer_ok_def set_mes_def)

subsection \<open>Volumes\<close>

lemma command_entries:
  "command_entry CMD_SET_VOL = Some (req_on_set_vol, ACCLEV_PWRUSER)" "command_entry CMD_GET_VOL = Some (req_on_get_vol, ACCLEV_GUEST)"
  by (simp_all add: command_entry_def g_commands_def cmd_defs)

text \<open>What the handlers do with the requests of the client library, for a stream whose volume is not handed on.\<close>

lemma set_vol_handled:
  assumes "Server_Safe.tables_ok sv" "stream_at sv i = Some st" "ss_flags st AND ROAR_FLAG_PASSMIXER = 0" "ss_flags st AND ROAR_FLAG_HWMIXER = 0"
    and "vs \<noteq> []" "length vs \<le> 37" "0 < sc" "sc < 65536" "\<forall>v \<in> set vs. 0 \<le> v \<and> v < 65536"
    and "st' = st\<lparr>ss_mixer := (ss_mixer st)\<lparr>mixer := vs @ drop (length vs) (mixer (ss_mixer st)), scale := sc\<rparr>\<rparr>"
  shows "req_on_set_vol env cid \<lparr>rq_mes = new_message CMD_SET_VOL i (be16s ([1, sc, SET_VOL_ALL] @ vs)), rq_data = None, rq_flags = 0\<rparr> sv =
    answer_ok \<lparr>rq_mes = new_message CMD_SET_VOL i (be16s ([1, sc, SET_VOL_ALL] @ vs)), rq_data = None, rq_flags = 0\<rparr>
      (log_effect (Eff_Emit OE_STREAM_CHANGE_VOLUME i OT_STREAM None) (put_stream sv i (Some st')))"
proof -
  let ?m = "new_message CMD_SET_VOL i (be16s ([1, sc, SET_VOL_ALL] @ vs))"
  let ?q = "\<lparr>rq_mes = ?m, rq_data = None, rq_flags = 0\<rparr> :: request"
  have i: "0 \<le> i" "i < 64" using stream_bound [OF assms(1,2)] by auto
  have n: "length vs \<ge> 1" using assms(5) by (cases vs) auto
  have u: "rq_u16 ?q k = ([1, sc, SET_VOL_ALL] @ vs) ! k mod 65536" if "k < 3 + length vs" for k
    using new_message_u16 [of k "[1, sc, SET_VOL_ALL] @ vs" CMD_SET_VOL i] that assms(6) by (simp add: rq_u16_message)
  have u0: "rq_u16 ?q 0 = 1" "rq_u16 ?q 1 = sc" "rq_u16 ?q 2 = SET_VOL_ALL"
    using u [of 0] u [of 1] u [of 2] assms(7,8) n by (simp_all add: SET_VOL_ALL_def)
  have len: "rq_len ?q = 6 + 2 * int (length vs)" "rq_stream ?q = i" "length (ms_data ?m) = 80"
    using i assms(6) wrap_s_id [of 32 i] by (simp_all add: rq_len_def rq_stream_def wrap_u32_small)
  have "rq_u16 ?q (k + 3) = vs ! k" if "k < length vs" for k
    using u [of "k + 3"] that assms(9) by (simp add: numeral_3_eq_3)
  then have v: "map (\<lambda>k. rq_u16 ?q (k + 3)) [0..<length vs] = vs" by (intro nth_equalityI) simp_all
  have tame: "tame st st'" by (simp add: assms(10) tame_def stream_ok_def stream_ptrs_def stream_blocks_def)
  have ok: "Server_Safe.tables_ok (put_stream sv i (Some st'))" "stream_at (put_stream sv i (Some st')) i = Some st'"
    using shrinks_tables [OF shrinks_put [OF assms(1,2) tame]] by (simp_all add: stream_at_put [OF assms(2)])
  have "streams_set_mixer (en_io env) (en_dup env) (en_cfg env) (put_stream sv i (Some st')) i =
      Some (0, log_effect (Eff_Emit OE_STREAM_CHANGE_VOLUME i OT_STREAM None) (put_stream sv i (Some st')))"
  proof -
    let ?sv = "log_effect (Eff_Emit OE_STREAM_CHANGE_VOLUME i OT_STREAM None) (put_stream sv i (Some st'))"
    have "Server_Safe.tables_ok ?sv" "stream_at ?sv i = Some st'"
      using ok tables_ok_same [OF same_tables_log(1)] same_tables_at [OF same_tables_log(1)] by auto
    then show ?thesis
      using ok assms(3,4) i by (simp add: streams_set_mixer_def numeral_2_eq_2 streams_set_mixer_step_def set_mixer_tail_def get_flag_ok Let_def assms(10))
  qed
  moreover have "new_volumes ?q (mixer (ss_mixer st)) = Some (Some (vs @ drop (length vs) (mixer (ss_mixer st))))"
    using len u0 v assms(6) by (simp add: new_volumes_def ROAR_MAX_CHANNELS_def)
  moreover have "set_vol_target ?q = Some (i, sc)" using u0 len by (simp add: set_vol_target_def)
  ultimately show ?thesis
    using len(1) assms(2,5,7,10) i n by (simp add: req_on_set_vol_def ROAR_STREAMS_MAX_def Let_def)
qed

lemma get_vol_handled:
  assumes "stream_at sv i = Some st" "0 \<le> i" "i < 64" "channels (st_info st) = int n" "n \<le> 35" "n \<le> length (mixer (ss_mixer st))"
    and "vs = [1, int n, scale (ss_mixer st), rpg_mul (ss_mixer st), rpg_div (ss_mixer st)] @ take n (mixer (ss_mixer st))"
  shows "\<exists>m. req_on_get_vol env cid \<lparr>rq_mes = new_message CMD_GET_VOL i (be16s [1, 0]), rq_data = None, rq_flags = 0\<rparr> sv =
      Some (0, \<lparr>rq_mes = m, rq_data = None, rq_flags = 0\<rparr>, sv) \<and> ms_cmd m = CMD_OK \<and> ms_pos m = 0 \<and> ms_datalen m = 10 + 2 * int n \<and>
      length (ms_data m) = 80 \<and> (\<forall>k < 5 + n. u16_at m k = vs ! k mod 65536)"
proof -
  let ?m = "new_message CMD_GET_VOL i (be16s [1, 0])"
  let ?q = "\<lparr>rq_mes = ?m, rq_data = None, rq_flags = 0\<rparr> :: request"
  let ?a = "?m\<lparr>ms_cmd := CMD_OK, ms_datalen := 10 + 2 * int n, ms_data := put_at 0 (be16s vs) (ms_data ?m)\<rparr>"
  have q: "rq_u16 ?q 0 = 1" "rq_len ?q = 4" "rq_stream ?q = i"
    using new_message_u16 [of 0 "[1, 0]" CMD_GET_VOL i] wrap_s_id [of 32 i] assms(2,3)
    by (simp_all add: rq_u16_message rq_len_def rq_stream_def wrap_u32_small)
  have w: "wrap_s 32 (int n) = int n" using assms(5) wrap_s_id [of 32 "int n"] by simp
  have len: "length vs = 5 + n" using assms(6,7) by simp
  have "req_on_get_vol env cid ?q sv = Some (0, \<lparr>rq_mes = ?a, rq_data = None, rq_flags = 0\<rparr>, sv)"
    using q assms(1-6) len by (simp add: req_on_get_vol_def Let_def ROAR_STREAMS_MAX_def answer_data_def w set_mes_def be16s_def assms(7)
        algebra_simps length_be_concat)
  moreover have "u16_at ?a k = vs ! k mod 65536" if "k < 5 + n" for k
    using that len assms(5) by (simp add: u16_at_def put_front_at be16s_field be_value_bytes)
  moreover have "length (ms_data ?a) = 80" using len assms(5) by (simp add: put_front_at)
  ultimately show ?thesis by (intro exI [of _ ?a]) simp
qed

text \<open>The two calls of the client library over pipes.\<close>

lemma set_vol_session:
  assumes "connected (Suc k) s" "Server_Safe.tables_ok (se_server s)" "listening (se_server s) cid c" "ACCLEV_PWRUSER \<le> cl_acclev c"
    and "stream_at (se_server s) i = Some st" "ss_flags st AND ROAR_FLAG_PASSMIXER = 0" "ss_flags st AND ROAR_FLAG_HWMIXER = 0"
    and "1 \<le> n" "n \<le> 37" "n \<le> length (mixer mx)" "0 < scale mx" "scale mx < 65536" "\<forall>v \<in> set (mixer mx). 0 \<le> v \<and> v < 65536"
    and "st' = st\<lparr>ss_mixer := (ss_mixer st)\<lparr>mixer := take n (mixer mx) @ drop n (mixer (ss_mixer st)), scale := scale mx\<rparr>\<rparr>"
  shows "\<exists>s'. roar_set_vol (piped_req os os' env cid) s i mx (int n) = Some (0, s') \<and> connected k s' \<and>
    Server_Safe.tables_ok (se_server s') \<and> listening (se_server s') cid c \<and> stream_at (se_server s') i = Some st'"
proof -
  let ?vs = "take n (mixer mx)"
  let ?m = "new_message CMD_SET_VOL i (be16s ([1, scale mx, SET_VOL_ALL] @ ?vs))"
  let ?q = "\<lparr>rq_mes = ?m, rq_data = None, rq_flags = 0\<rparr> :: request"
  have i: "0 \<le> i" "i < 64" using stream_bound [OF assms(2,5)] by auto
  have vs: "?vs \<noteq> []" "length ?vs = n" "\<forall>v \<in> set ?vs. 0 \<le> v \<and> v < 65536"
    using assms(8,10,13) by (auto dest: in_set_takeD)
  define sv1 where "sv1 = log_effect (Eff_Emit OE_STREAM_CHANGE_VOLUME i OT_STREAM None) (put_stream (se_server s) i (Some st'))"
  have h: "req_on_set_vol env cid ?q (se_server s) = answer_ok ?q sv1"
    unfolding sv1_def by (rule set_vol_handled [OF assms(2,5-7) vs(1)]) (use vs assms(9,11,12,14) in simp_all)
  obtain s1 where s1: "tell (piped_req os os' env cid) s ?m = Some (0, s1)" "connected k s1" "se_server s1 = log_effect (Eff_Command CMD_SET_VOL cid CMD_OK) sv1"
    using tells_new [OF assms(1-3) command_entries(1) assms(4) _ _ _ h [unfolded answer_ok_new]] i vs(2) assms(9)
    by (auto simp: ok_sendable)
  have "roar_set_vol (piped_req os os' env cid) s i mx (int n) = Some (0, s1)"
    using s1(1) vs(2) assms(9,10) by (simp add: roar_set_vol_def LIBROAR_BUFFER_MSGDATA_def new_message_datalen)
  moreover have "stream_at (se_server s1) i = Some st'" and c: "client_at (se_server s1) = client_at (se_server s)"
    by (simp_all add: s1(3) sv1_def stream_at_put [OF assms(5)] same_tables_at [OF same_tables_log(1)])
      (simp add: client_at_def put_stream_def fun_eq_iff)
  moreover have "tame st st'" by (simp add: assms(14) tame_def stream_ok_def stream_ptrs_def stream_blocks_def)
  then have "Server_Safe.tables_ok (se_server s1)"
    using shrinks_tables [OF shrinks_put [OF assms(2,5)]] by (simp add: s1(3) sv1_def tables_ok_same [OF same_tables_log(1)])
  moreover have "listening (se_server s1) cid c" using assms(3) c by (simp add: listening_def)
  ultimately show ?thesis using s1(2) by blast
qed

lemma get_vol_session:
  assumes "connected (Suc k) s" "Server_Safe.tables_ok (se_server s)" "listening (se_server s) cid c" "ACCLEV_GUEST \<le> cl_acclev c"
    and "stream_at (se_server s) i = Some st" "channels (st_info st) = int n" "n \<le> 35" "n \<le> length (mixer (ss_mixer st))"
    and "0 < scale (ss_mixer st)" "scale (ss_mixer st) < 65536" "\<forall>v \<in> set (take n (mixer (ss_mixer st))). 0 \<le> v \<and> v < 65536"
  shows "\<exists>mx' s'. roar_get_vol (piped_req os os' env cid) s i mx0 chans0 = Some (0, mx', int n, s') \<and> connected k s' \<and>
    scale mx' = scale (ss_mixer st) \<and> take n (mixer mx') = take n (mixer (ss_mixer st)) \<and>
    se_server s' = log_effect (Eff_Command CMD_GET_VOL cid CMD_OK) (se_server s)"
proof -
  let ?vs = "take n (mixer (ss_mixer st))"
  let ?ws = "[1, int n, scale (ss_mixer st), rpg_mul (ss_mixer st), rpg_div (ss_mixer st)] @ ?vs"
  have i: "0 \<le> i" "i < 64" using stream_bound [OF assms(2,5)] by auto
  have len: "length ?vs = n" using assms(8) by simp
  obtain a where a: "req_on_get_vol env cid \<lparr>rq_mes = new_message CMD_GET_VOL i (be16s [1, 0]), rq_data = None, rq_flags = 0\<rparr> (se_server s) =
        Some (0, \<lparr>rq_mes = a, rq_data = None, rq_flags = 0\<rparr>, se_server s)"
      "ms_cmd a = CMD_OK" "ms_pos a = 0" "ms_datalen a = 10 + 2 * int n" "length (ms_data a) = 80" "\<forall>k < 5 + n. u16_at a k = ?ws ! k mod 65536"
    using get_vol_handled [OF assms(5) i assms(6-8) refl, of env cid] by auto
  have sa: "sendable a None" "ms_datalen a \<le> 80" using a(2-5) assms(7) by (simp_all add: sendable_def cmd_defs)
  obtain s2 where s2: "ask (piped_req os os' env cid) s (new_message CMD_GET_VOL i (be16s [1, 0])) = Some (Some (fst (delivered (a, None))), s2)"
      "connected k s2" "se_server s2 = log_effect (Eff_Command CMD_GET_VOL cid CMD_OK) (se_server s)"
    using asks_new [OF assms(1-3) command_entries(2) assms(4) _ _ _ a(1,2) sa, of os os'] i by auto
  let ?a = "fst (delivered (a, None))"
  have u: "u16_at ?a k = ?ws ! k mod 65536" if "k < 5 + n" for k
    using delivered_u16 [of k a] a(4-6) sa(2) that by simp
  have "0 \<le> v \<and> v < 65536" if "v \<in> set ?vs" for v using assms(11) that by blast
  then have u5: "u16_at ?a (k + 5) = ?vs ! k" if "k < n" for k
    using u [of "k + 5"] that len nth_mem [of k ?vs] by (simp add: numeral_eq_Suc)
  have u0: "u16_at ?a 0 = 1" "u16_at ?a 1 = int n" "u16_at ?a 2 = scale (ss_mixer st)"
    using u [of 0] u [of 1] u [of 2] assms(7,9,10) by simp_all
  have "map (\<lambda>k. u16_at ?a (k + 5)) [0..<n] = ?vs" by (intro nth_equalityI) (use u5 len in simp_all)
  moreover have "length (ms_data ?a) = 80" using a(4,5) assms(7) by (simp add: delivered_def payload_def put_front_def)
  ultimately show ?thesis
    using s2 u0 assms(7) len by (simp add: roar_get_vol_def new_message_datalen ROAR_MAX_CHANNELS_def Let_def)
qed


subsection \<open>A sample session\<close>

text \<open>The first client of the sample server is a power user and its stream has two channels; both pipes are empty.\<close>

definition empty_pipe :: pipe_state where
  "empty_pipe = \<lparr>ps_pipe = \<lparr>vp_refcount = 2, vp_type = 1, vp_flags = 2, vp_b = [0, 0], vp_p = [0, 0, 0, 0], vp_s0 = 7\<rparr>,
     ps_heap = \<lparr>bh_bufs = Map.empty, bh_mem = (\<lambda>_. 0), bh_blocks = Map.empty, bh_brk = 1, bh_left = 20\<rparr>, ps_writer = 7, ps_reader = 8\<rparr>"

definition stereo_stream :: roar_stream_server where
  "stereo_stream = sample_stream0\<lparr>st_info := \<lparr>rate = 44100, bits = 16, channels = 2, codec = 2\<rparr>\<rparr>"

definition power_client :: roar_client_server where
  "power_client = sample_client\<lparr>cl_fh := 5, cl_acclev := 5\<rparr>"

definition sample_session :: pipes where
  "sample_session = \<lparr>se_up = empty_pipe, se_down = empty_pipe,
     se_server = put_client (put_stream sample_server 0 (Some stereo_stream)) 0 (Some power_client)\<rparr>"

lemma empty_pipe_ok: "pipe_valid empty_pipe" "pipe_queue empty_pipe = []" "pipe_credit empty_pipe = 10"
proof -
  have i: "chain_inv (ps_heap empty_pipe) (ps_buf empty_pipe) []"
    by (simp add: chain_inv_def is_copy_def chain_ok_def below_def ps_buf_def ps_idx_def PIPE_S_def empty_pipe_def)
  have "ends_ok empty_pipe" by (simp add: ends_ok_def pipe_types access_mode_def O_RDWR_def PIPE_S_def PIPE_SR_def empty_pipe_def)
  with i show "pipe_valid empty_pipe" by (auto simp: pipe_valid_def)
  show "pipe_queue empty_pipe = []" using pipe_queue_chain [OF i] by (simp add: content_def)
  show "pipe_credit empty_pipe = 10" by (simp add: pipe_credit_def empty_pipe_def)
qed

lemma sample_session_ok:
  "connected 5 sample_session" "Server_Safe.tables_ok (se_server sample_session)" "listening (se_server sample_session) 0 power_client"
  "stream_at (se_server sample_session) 0 = Some stereo_stream"
proof -
  let ?sv = "put_stream sample_server 0 (Some stereo_stream)"
  have s: "stream_at sample_server 0 = Some sample_stream0" by (simp add: sample_stream_at)
  have c: "client_at ?sv 0 = Some sample_client" by (simp add: client_at_def put_stream_def sample_server_def)
  have "tame sample_stream0 stereo_stream" by (simp add: stereo_stream_def tame_def stream_ok_def stream_ptrs_def stream_blocks_def)
  then have "Server_Safe.tables_ok ?sv" using shrinks_tables [OF shrinks_put [OF sample_ok(1) s]] by blast
  then show "Server_Safe.tables_ok (se_server sample_session)"
    unfolding sample_session_def session.simps
    by (rule tables_ok_put_client [OF _ c]) (use client_ok_at [OF sample_ok(1), of 0 sample_client] in \<open>simp add: sample_client_at power_client_def client_ok_def\<close>)
  show "connected 5 sample_session" by (simp add: connected_def sample_session_def empty_pipe_ok)
  show "listening (se_server sample_session) 0 power_client"
    by (simp add: listening_def sample_session_def client_at_put [OF c] power_client_def sample_client_def new_client_def table_sizes)
  have "stream_at (put_client ?sv 0 x) = stream_at ?sv" for x by (rule stream_at_cong) simp
  then show "stream_at (se_server sample_session) 0 = Some stereo_stream" by (simp add: sample_session_def stream_at_put [OF s])
qed

lemma connected_mono: "connected k s \<Longrightarrow> j \<le> k \<Longrightarrow> connected j s"
  by (auto simp: connected_def)


end
