(* ===== verification/Dsp_Filter.thy ===== *)
theory Dsp_Filter
  imports Channel_Map Conv_Pipeline Complex_Main "HOL-Library.Log_Nat" "HOL-Library.Monad_Syntax"
begin

text \<open>
  The filters of \<open>src/libroardsp/filter*.c\<close> and their chains. A filter works in place on an array of samples of the width
  it was made for; the array is the list of its samples. The functions that \<open>struct roardsp_filter\<close> points to are values of the data types below.
  \<open>None\<close> is a division by zero, an access outside of an array, a number that the type it is converted to does not hold, or a
  use of a freed filter. As on the 64 bit systems the sizes have 64 bits.

  A \<open>float\<close> is a rational number, and each operation of the code rounds its result to 24 bits. The one function of the mathematical library
  that is an argument is the exponential that gives the coefficients of the low and high pass. The Speex filter is not built in, and
  the functions of the AGC are never called (\<open>agc_never_starts\<close>).
\<close>

subsection \<open>Filters\<close>

datatype calc_fn = Amp_calc8 | Amp_calc16 | Add_calc16 | Lowp_calc16 | Highp_calc16 | Quantify_calc16 | Clip_calc16 | Downmix_calc162
  | Dcblock_calc16 | Swap_calc162

datatype init_fn = Amp_init | Add_init | Lowp_init | Highp_init | Quantify_init | Dcblock_init | Swap_init | Agc_init

datatype uninit_fn = Amp_uninit | Lowp_uninit | Highp_uninit | Swap_uninit | Agc_uninit

datatype ctl_fn = Amp_ctl | Lowp_ctl | Highp_ctl | Quantify_ctl | Clip_ctl | Downmix_ctl | Swap_ctl | Agc_ctl

datatype reset_fn = Amp_reset | Add_reset | Lowp_reset | Highp_reset | Quantify_reset | Clip_reset | Downmix_reset | Dcblock_reset
  | Swap_reset | Agc_reset

record roardsp_amp =
  am_mul :: int
  am_div :: int

record roardsp_lowp =
  lo_freq :: int
  lo_a :: int
  lo_b :: int
  lo_old :: "int list"

record roardsp_highp =
  hi_freq :: int
  hi_a :: int
  hi_b :: int
  hi_c :: int
  hi_oldout :: "int list"
  hi_oldin :: "int list"

record roardsp_dcblock =
  dc_cur :: nat
  dc_dc :: "int list"

text \<open>The arrays of the structures have \<open>ROAR_MAX_CHANNELS\<close> and \<open>ROARDSP_DCBLOCK_NUMBLOCKS\<close> entries. What \<open>inst\<close> points to, or the number that is stored in the pointer itself; the null pointer is the number 0.\<close>

datatype filter_inst = Int_Inst int | Amp_Inst roardsp_amp | Lowp_Inst roardsp_lowp | Highp_Inst roardsp_highp
  | Dcblock_Inst roardsp_dcblock | Swap_Inst "nat list"

record roardsp_filter =
  fl_channels :: int
  fl_bits :: int
  fl_rate :: int
  fl_inst :: filter_inst
  fl_free :: bool
  fl_calc :: "calc_fn option"
  fl_uninit :: "uninit_fn option"
  fl_ctl :: "ctl_fn option"
  fl_reset :: "reset_fn option"

definition FILTER_AMP :: int where "FILTER_AMP = 1"
definition FILTER_LOWP :: int where "FILTER_LOWP = 2"
definition FILTER_HIGHP :: int where "FILTER_HIGHP = 3"
definition FILTER_QUANTIFY :: int where "FILTER_QUANTIFY = 5"
definition FILTER_CLIP :: int where "FILTER_CLIP = 6"
definition FILTER_ADD :: int where "FILTER_ADD = 7"
definition FILTER_DOWNMIX :: int where "FILTER_DOWNMIX = 8"
definition FILTER_DCBLOCK :: int where "FILTER_DCBLOCK = 9"
definition FILTER_SWAP :: int where "FILTER_SWAP = 10"
definition FILTER_AGC :: int where "FILTER_AGC = 12"

lemmas filter_ids = FILTER_AMP_def FILTER_LOWP_def FILTER_HIGHP_def FILTER_QUANTIFY_def FILTER_CLIP_def FILTER_ADD_def FILTER_DOWNMIX_def
  FILTER_DCBLOCK_def FILTER_SWAP_def FILTER_AGC_def

definition FCTL_FREQ :: int where "FCTL_FREQ = 1"
definition FCTL_MUL :: int where "FCTL_MUL = 3"
definition FCTL_DIV :: int where "FCTL_DIV = 4"
definition FCTL_N :: int where "FCTL_N = 5"
definition FCTL_LIMIT :: int where "FCTL_LIMIT = 6"
definition FCTL_MODE :: int where "FCTL_MODE = 9"

lemmas fctls = FCTL_FREQ_def FCTL_MUL_def FCTL_DIV_def FCTL_N_def FCTL_LIMIT_def FCTL_MODE_def

definition RESET_NONE :: int where "RESET_NONE = 0"
definition RESET_FULL :: int where "RESET_FULL = 1"
definition RESET_STATE :: int where "RESET_STATE = 2"

lemmas resets = RESET_NONE_def RESET_FULL_def RESET_STATE_def

definition DOWNMIX_LEFT :: int where "DOWNMIX_LEFT = 1"
definition DOWNMIX_RIGHT :: int where "DOWNMIX_RIGHT = 2"
definition DOWNMIX_ARITHMETIC :: int where "DOWNMIX_ARITHMETIC = 3"
definition DOWNMIX_RMS :: int where "DOWNMIX_RMS = 4"

lemmas downmixes = DOWNMIX_LEFT_def DOWNMIX_RIGHT_def DOWNMIX_ARITHMETIC_def DOWNMIX_RMS_def

definition DCBLOCK_NUMBLOCKS :: nat where "DCBLOCK_NUMBLOCKS = 100"

subsection \<open>Single precision\<close>

text \<open>Rounding to the nearest number of 24 bits, ties to the even one. The numbers of the filters are far from the limits of the exponent.\<close>

definition round_even :: "rat \<Rightarrow> int" where
  "round_even q = (let f = \<lfloor>q\<rfloor>; t = q - of_int f in
     if t < 1 / 2 then f else if 1 / 2 < t then f + 1 else if even f then f else f + 1)"

definition exponent :: "rat \<Rightarrow> int" where
  "exponent q = (case quotient_of \<bar>q\<bar> of (n, d) \<Rightarrow> let e = bitlen n - bitlen d in if \<bar>q\<bar> < 2 powi e then e - 1 else e)"

definition float32 :: "rat \<Rightarrow> rat" where
  "float32 q = (if q = 0 then 0 else let u = 2 powi (exponent q - 23) in of_int (round_even (q / u)) * u)"

definition trunc_zero :: "rat \<Rightarrow> int" where
  "trunc_zero q = (if 0 \<le> q then \<lfloor>q\<rfloor> else \<lceil>q\<rceil>)"

definition to_unsigned :: "nat \<Rightarrow> rat \<Rightarrow> int option" where
  "to_unsigned w q = (let n = trunc_zero q in if 0 \<le> n \<and> n < 2 ^ w then Some n else None)"

definition to_signed :: "nat \<Rightarrow> rat \<Rightarrow> int option" where
  "to_signed w q = (let n = trunc_zero q in if - (2 ^ (w - 1)) \<le> n \<and> n < 2 ^ (w - 1) then Some n else None)"

text \<open>The integer part of the root of half of a number below \<open>2 ^ 32\<close>, by its bits.\<close>

definition root_half :: "int \<Rightarrow> int" where
  "root_half m = foldl (\<lambda>r b. if 2 * (r + 2 ^ b)\<^sup>2 \<le> m then r + 2 ^ b else r) 0 (rev [0..<16])"

text \<open>The float \<open>exp(-2 * M_PI * freq / rate) * 65536\<close>.\<close>

type_synonym lp_fun = "rat \<Rightarrow> int \<Rightarrow> rat"

datatype ctl_data = Int32 int | Float rat

definition inst_int :: "filter_inst \<Rightarrow> int option" where
  "inst_int i = (case i of Int_Inst n \<Rightarrow> Some n | _ \<Rightarrow> None)"

subsection \<open>Control\<close>

type_synonym ctl_result = "(c_int \<times> roardsp_filter \<times> ctl_data) option"

text \<open>Both commands give the old divisor back.\<close>

definition roardsp_amp_ctl :: "roardsp_filter \<Rightarrow> int \<Rightarrow> ctl_data \<Rightarrow> ctl_result" where
  "roardsp_amp_ctl f cmd d =
     (if cmd = FCTL_MUL then
        (case (fl_inst f, d) of (Amp_Inst a, Int32 v) \<Rightarrow> Some (0, f\<lparr>fl_inst := Amp_Inst (a\<lparr>am_mul := v\<rparr>)\<rparr>, Int32 (am_div a)) | _ \<Rightarrow> None)
      else if cmd = FCTL_DIV then
        (case (fl_inst f, d) of (Amp_Inst a, Int32 v) \<Rightarrow> Some (0, f\<lparr>fl_inst := Amp_Inst (a\<lparr>am_div := v\<rparr>)\<rparr>, Int32 (am_div a)) | _ \<Rightarrow> None)
      else Some (-1, f, d))"

definition roardsp_lowp_ctl :: "lp_fun \<Rightarrow> roardsp_filter \<Rightarrow> int \<Rightarrow> ctl_data \<Rightarrow> ctl_result" where
  "roardsp_lowp_ctl lp f cmd d =
     (if cmd \<noteq> FCTL_FREQ then Some (-1, f, d)
      else (case (fl_inst f, d) of (Lowp_Inst l, Float newfreq) \<Rightarrow>
          do { b \<leftarrow> to_unsigned 16 (lp newfreq (fl_rate f));
               a \<leftarrow> to_unsigned 16 (float32 (65536 - lp newfreq (fl_rate f)));
               fr \<leftarrow> to_unsigned 32 (float32 (newfreq * 1000));
               Some (0, f\<lparr>fl_inst := Lowp_Inst (l\<lparr>lo_a := a, lo_b := b, lo_freq := fr\<rparr>)\<rparr>, Float (float32 (of_int (lo_freq l div 1000)))) }
        | _ \<Rightarrow> None))"

definition roardsp_highp_ctl :: "lp_fun \<Rightarrow> roardsp_filter \<Rightarrow> int \<Rightarrow> ctl_data \<Rightarrow> ctl_result" where
  "roardsp_highp_ctl lp f cmd d =
     (if cmd \<noteq> FCTL_FREQ then Some (-1, f, d)
      else (case (fl_inst f, d) of (Highp_Inst h, Float newfreq) \<Rightarrow>
          do { a \<leftarrow> to_signed 32 (float32 (65536 + lp newfreq (fl_rate f)) / 2);
               b \<leftarrow> to_signed 32 (- float32 (65536 + lp newfreq (fl_rate f)) / 2);
               c \<leftarrow> to_signed 32 (lp newfreq (fl_rate f));
               fr \<leftarrow> to_unsigned 32 (float32 (newfreq * 1000));
               Some (0, f\<lparr>fl_inst := Highp_Inst (h\<lparr>hi_a := a, hi_b := b, hi_c := c, hi_freq := fr\<rparr>)\<rparr>, Float (float32 (of_int (hi_freq h div 1000)))) }
        | _ \<Rightarrow> None))"

text \<open>The filters that keep a number in the pointer.\<close>

definition int_ctl :: "int \<Rightarrow> (int \<Rightarrow> int) \<Rightarrow> roardsp_filter \<Rightarrow> int \<Rightarrow> ctl_data \<Rightarrow> ctl_result" where
  "int_ctl own g f cmd d =
     (if cmd = own then (case (fl_inst f, d) of (Int_Inst n, Int32 v) \<Rightarrow> Some (0, f\<lparr>fl_inst := Int_Inst (g v)\<rparr>, Int32 (wrap_s 32 n)) | _ \<Rightarrow> None)
      else Some (-1, f, d))"

definition roardsp_quantify_ctl :: "roardsp_filter \<Rightarrow> int \<Rightarrow> ctl_data \<Rightarrow> ctl_result" where
  "roardsp_quantify_ctl = int_ctl FCTL_N (\<lambda>v. v)"

definition roardsp_clip_ctl :: "roardsp_filter \<Rightarrow> int \<Rightarrow> ctl_data \<Rightarrow> ctl_result" where
  "roardsp_clip_ctl = int_ctl FCTL_LIMIT abs"

definition roardsp_downmix_ctl :: "roardsp_filter \<Rightarrow> int \<Rightarrow> ctl_data \<Rightarrow> ctl_result" where
  "roardsp_downmix_ctl = int_ctl FCTL_MODE (\<lambda>v. v)"

definition roardsp_swap_ctl :: "roardsp_filter \<Rightarrow> int \<Rightarrow> ctl_data \<Rightarrow> ctl_result" where
  "roardsp_swap_ctl f cmd d = Some (-1, f, d)"

definition roardsp_filter_ctl :: "lp_fun \<Rightarrow> roardsp_filter \<Rightarrow> int \<Rightarrow> ctl_data \<Rightarrow> ctl_result" where
  "roardsp_filter_ctl lp f cmd d = (case fl_ctl f of None \<Rightarrow> Some (-1, f, d)
     | Some Amp_ctl \<Rightarrow> roardsp_amp_ctl f cmd d | Some Lowp_ctl \<Rightarrow> roardsp_lowp_ctl lp f cmd d | Some Highp_ctl \<Rightarrow> roardsp_highp_ctl lp f cmd d
     | Some Quantify_ctl \<Rightarrow> roardsp_quantify_ctl f cmd d | Some Clip_ctl \<Rightarrow> roardsp_clip_ctl f cmd d
     | Some Downmix_ctl \<Rightarrow> roardsp_downmix_ctl f cmd d | Some Swap_ctl \<Rightarrow> roardsp_swap_ctl f cmd d | Some Agc_ctl \<Rightarrow> None)"

subsection \<open>Resets\<close>

type_synonym reset_result = "(c_int \<times> roardsp_filter) option"

text \<open>The control call of a full reset, its answer dropped.\<close>

definition reset_by :: "ctl_result \<Rightarrow> reset_result" where
  "reset_by r = map_option (\<lambda>(_, f, _). (0, f)) r"

definition roardsp_amp_reset :: "roardsp_filter \<Rightarrow> int \<Rightarrow> reset_result" where
  "roardsp_amp_reset f what =
     (if fl_inst f = Int_Inst 0 then Some (-1, f)
      else if what = RESET_NONE \<or> what = RESET_STATE then Some (0, f)
      else if what = RESET_FULL then
        (case fl_inst f of Amp_Inst a \<Rightarrow> Some (0, f\<lparr>fl_inst := Amp_Inst (a\<lparr>am_mul := 1, am_div := 1\<rparr>)\<rparr>) | _ \<Rightarrow> None)
      else Some (-1, f))"

definition roardsp_add_reset :: "roardsp_filter \<Rightarrow> int \<Rightarrow> reset_result" where
  "roardsp_add_reset f what =
     (if fl_inst f = Int_Inst 0 then Some (-1, f)
      else if what = RESET_NONE \<or> what = RESET_STATE then Some (0, f)
      else if what = RESET_FULL then
        (case fl_inst f of Amp_Inst a \<Rightarrow> Some (0, f\<lparr>fl_inst := Amp_Inst (a\<lparr>am_mul := 0, am_div := 1\<rparr>)\<rparr>) | _ \<Rightarrow> None)
      else Some (-1, f))"

definition lowp_clear :: "roardsp_filter \<Rightarrow> reset_result" where
  "lowp_clear f = (case fl_inst f of Lowp_Inst l \<Rightarrow> Some (0, f\<lparr>fl_inst := Lowp_Inst (l\<lparr>lo_old := replicate ROAR_MAX_CHANNELS 0\<rparr>)\<rparr>) | _ \<Rightarrow> None)"

definition roardsp_lowp_reset :: "lp_fun \<Rightarrow> roardsp_filter \<Rightarrow> int \<Rightarrow> reset_result" where
  "roardsp_lowp_reset lp f what =
     (if fl_inst f = Int_Inst 0 then Some (-1, f)
      else if what = RESET_NONE then Some (0, f)
      else if what = RESET_FULL then
        do { (_, f, _) \<leftarrow> roardsp_lowp_ctl lp f FCTL_FREQ (Float (float32 (of_int (fl_rate f sdiv 2)))); lowp_clear f }
      else if what = RESET_STATE then lowp_clear f
      else Some (-1, f))"

definition highp_clear :: "roardsp_filter \<Rightarrow> reset_result" where
  "highp_clear f = (case fl_inst f of
       Highp_Inst h \<Rightarrow> Some (0, f\<lparr>fl_inst := Highp_Inst (h\<lparr>hi_oldin := replicate ROAR_MAX_CHANNELS 0, hi_oldout := replicate ROAR_MAX_CHANNELS 0\<rparr>)\<rparr>)
     | _ \<Rightarrow> None)"

definition roardsp_highp_reset :: "lp_fun \<Rightarrow> roardsp_filter \<Rightarrow> int \<Rightarrow> reset_result" where
  "roardsp_highp_reset lp f what =
     (if fl_inst f = Int_Inst 0 then Some (-1, f)
      else if what = RESET_NONE then Some (0, f)
      else if what = RESET_FULL then do { (_, f, _) \<leftarrow> roardsp_highp_ctl lp f FCTL_FREQ (Float 25); highp_clear f }
      else if what = RESET_STATE then highp_clear f
      else Some (-1, f))"

definition int_reset :: "ctl_result \<Rightarrow> roardsp_filter \<Rightarrow> int \<Rightarrow> reset_result" where
  "int_reset full f what =
     (if what = RESET_NONE \<or> what = RESET_STATE then Some (0, f)
      else if what = RESET_FULL then reset_by full
      else Some (-1, f))"

definition roardsp_quantify_reset :: "roardsp_filter \<Rightarrow> int \<Rightarrow> reset_result" where
  "roardsp_quantify_reset f = int_reset (roardsp_quantify_ctl f FCTL_N (Int32 64)) f"

definition roardsp_clip_reset :: "roardsp_filter \<Rightarrow> int \<Rightarrow> reset_result" where
  "roardsp_clip_reset f = int_reset (roardsp_clip_ctl f FCTL_LIMIT (Int32 16384)) f"

definition roardsp_downmix_reset :: "roardsp_filter \<Rightarrow> int \<Rightarrow> reset_result" where
  "roardsp_downmix_reset f = int_reset (roardsp_downmix_ctl f FCTL_MODE (Int32 DOWNMIX_ARITHMETIC)) f"

definition dcblock_zero :: roardsp_dcblock where
  "dcblock_zero = \<lparr>dc_cur = 0, dc_dc = replicate DCBLOCK_NUMBLOCKS 0\<rparr>"

text \<open>The structure has no other fields than the two that a reset of the state clears.\<close>

definition roardsp_dcblock_reset :: "roardsp_filter \<Rightarrow> int \<Rightarrow> reset_result" where
  "roardsp_dcblock_reset f what =
     (if fl_inst f = Int_Inst 0 then Some (-1, f)
      else if what = RESET_NONE then Some (0, f)
      else if what = RESET_FULL then (case fl_inst f of Dcblock_Inst _ \<Rightarrow> Some (0, f\<lparr>fl_inst := Dcblock_Inst dcblock_zero\<rparr>) | _ \<Rightarrow> None)
      else if what = RESET_STATE then
        (case fl_inst f of Dcblock_Inst d \<Rightarrow> Some (0, f\<lparr>fl_inst := Dcblock_Inst (d\<lparr>dc_dc := replicate DCBLOCK_NUMBLOCKS 0, dc_cur := 0\<rparr>)\<rparr>) | _ \<Rightarrow> None)
      else Some (-1, f))"

definition roardsp_swap_reset :: "roardsp_filter \<Rightarrow> int \<Rightarrow> reset_result" where
  "roardsp_swap_reset f what =
     (if fl_inst f = Int_Inst 0 then Some (-1, f)
      else if what = RESET_NONE \<or> what = RESET_STATE then Some (0, f)
      else if what = RESET_FULL then
        (case fl_inst f of Swap_Inst _ \<Rightarrow> Some (0, f\<lparr>fl_inst := Swap_Inst ([0..<ROAR_MAX_CHANNELS][0 := 1, 1 := 0])\<rparr>) | _ \<Rightarrow> None)
      else Some (-1, f))"

definition roardsp_filter_reset :: "lp_fun \<Rightarrow> roardsp_filter \<Rightarrow> int \<Rightarrow> reset_result" where
  "roardsp_filter_reset lp f what = (case fl_reset f of None \<Rightarrow> Some (-1, f)
     | Some Amp_reset \<Rightarrow> roardsp_amp_reset f what | Some Add_reset \<Rightarrow> roardsp_add_reset f what
     | Some Lowp_reset \<Rightarrow> roardsp_lowp_reset lp f what | Some Highp_reset \<Rightarrow> roardsp_highp_reset lp f what
     | Some Quantify_reset \<Rightarrow> roardsp_quantify_reset f what | Some Clip_reset \<Rightarrow> roardsp_clip_reset f what
     | Some Downmix_reset \<Rightarrow> roardsp_downmix_reset f what | Some Dcblock_reset \<Rightarrow> roardsp_dcblock_reset f what
     | Some Swap_reset \<Rightarrow> roardsp_swap_reset f what | Some Agc_reset \<Rightarrow> None)"

subsection \<open>Start and end\<close>

text \<open>\<open>alloc\<close> tells whether \<open>malloc\<close> has the memory for the instance. The answer of the reset is dropped but for the swapper.\<close>

definition started :: "reset_result \<Rightarrow> reset_result" where
  "started r = map_option (\<lambda>(_, f). (0, f)) r"

definition roardsp_amp_init :: "lp_fun \<Rightarrow> bool \<Rightarrow> roardsp_filter \<Rightarrow> reset_result" where
  "roardsp_amp_init lp alloc f =
     (if \<not> alloc then Some (-1, f)
      else started (roardsp_filter_reset lp (f\<lparr>fl_inst := Amp_Inst \<lparr>am_mul = 0, am_div = 0\<rparr>\<rparr>) RESET_FULL))"

definition roardsp_add_init :: "lp_fun \<Rightarrow> bool \<Rightarrow> roardsp_filter \<Rightarrow> reset_result" where
  "roardsp_add_init lp alloc f =
     (if \<not> alloc then Some (-1, f)
      else started (roardsp_filter_reset lp (f\<lparr>fl_inst := Amp_Inst \<lparr>am_mul = 0, am_div = 0\<rparr>\<rparr>) RESET_FULL))"

definition roardsp_lowp_init :: "lp_fun \<Rightarrow> bool \<Rightarrow> roardsp_filter \<Rightarrow> reset_result" where
  "roardsp_lowp_init lp alloc f =
     (if \<not> alloc then Some (-1, f)
      else reset_by (roardsp_lowp_ctl lp
        (f\<lparr>fl_inst := Lowp_Inst \<lparr>lo_freq = 0, lo_a = 0, lo_b = 0, lo_old = replicate ROAR_MAX_CHANNELS 0\<rparr>\<rparr>)
        FCTL_FREQ (Float (float32 (of_int (fl_rate f sdiv 2))))))"

definition roardsp_highp_init :: "lp_fun \<Rightarrow> bool \<Rightarrow> roardsp_filter \<Rightarrow> reset_result" where
  "roardsp_highp_init lp alloc f =
     (if \<not> alloc then Some (-1, f)
      else reset_by (roardsp_highp_ctl lp
        (f\<lparr>fl_inst := Highp_Inst \<lparr>hi_freq = 0, hi_a = 0, hi_b = 0, hi_c = 0, hi_oldout = replicate ROAR_MAX_CHANNELS 0,
                                 hi_oldin = replicate ROAR_MAX_CHANNELS 0\<rparr>\<rparr>) FCTL_FREQ (Float 25)))"

definition roardsp_quantify_init :: "lp_fun \<Rightarrow> roardsp_filter \<Rightarrow> reset_result" where
  "roardsp_quantify_init lp f = started (roardsp_filter_reset lp f RESET_FULL)"

definition roardsp_dcblock_init :: "bool \<Rightarrow> roardsp_filter \<Rightarrow> reset_result" where
  "roardsp_dcblock_init alloc f =
     (if \<not> alloc then Some (-1, f\<lparr>fl_inst := Int_Inst 0\<rparr>) else Some (0, f\<lparr>fl_inst := Dcblock_Inst dcblock_zero\<rparr>))"

text \<open>The map of a new swapper has any content before its reset; here none.\<close>

definition roardsp_swap_init :: "bool \<Rightarrow> roardsp_filter \<Rightarrow> reset_result" where
  "roardsp_swap_init alloc f =
     (if \<not> alloc then Some (-1, f\<lparr>fl_inst := Int_Inst 0\<rparr>) else roardsp_swap_reset (f\<lparr>fl_inst := Swap_Inst []\<rparr>) RESET_FULL)"

definition run_init :: "lp_fun \<Rightarrow> bool \<Rightarrow> init_fn \<Rightarrow> roardsp_filter \<Rightarrow> reset_result" where
  "run_init lp alloc i f = (case i of Amp_init \<Rightarrow> roardsp_amp_init lp alloc f | Add_init \<Rightarrow> roardsp_add_init lp alloc f
     | Lowp_init \<Rightarrow> roardsp_lowp_init lp alloc f | Highp_init \<Rightarrow> roardsp_highp_init lp alloc f
     | Quantify_init \<Rightarrow> roardsp_quantify_init lp f | Dcblock_init \<Rightarrow> roardsp_dcblock_init alloc f
     | Swap_init \<Rightarrow> roardsp_swap_init alloc f | Agc_init \<Rightarrow> None)"

text \<open>The result of a function that ends a filter, and whether it frees the instance.\<close>

definition roardsp_amp_uninit :: "roardsp_filter \<Rightarrow> c_int \<times> bool" where
  "roardsp_amp_uninit f = (0, True)"

definition roardsp_lowp_uninit :: "roardsp_filter \<Rightarrow> c_int \<times> bool" where
  "roardsp_lowp_uninit f = (0, True)"

definition roardsp_highp_uninit :: "roardsp_filter \<Rightarrow> c_int \<times> bool" where
  "roardsp_highp_uninit f = (0, True)"

definition roardsp_swap_uninit :: "roardsp_filter \<Rightarrow> c_int \<times> bool" where
  "roardsp_swap_uninit f = (if fl_inst f = Int_Inst 0 then (-1, False) else (0, True))"

definition run_uninit :: "uninit_fn \<Rightarrow> roardsp_filter \<Rightarrow> (c_int \<times> bool) option" where
  "run_uninit u f = (case u of Amp_uninit \<Rightarrow> Some (roardsp_amp_uninit f) | Lowp_uninit \<Rightarrow> Some (roardsp_lowp_uninit f)
     | Highp_uninit \<Rightarrow> Some (roardsp_highp_uninit f) | Swap_uninit \<Rightarrow> Some (roardsp_swap_uninit f) | Agc_uninit \<Rightarrow> None)"

subsection \<open>Samples\<close>

type_synonym calc_result = "(c_int \<times> roardsp_filter \<times> int list) option"

text \<open>C's signed division; the quotient of the smallest number and \<open>-1\<close> does not fit.\<close>

definition divide32 :: "int \<Rightarrow> int \<Rightarrow> int option" where
  "divide32 x y = (if y = 0 \<or> x = - (2 ^ 31) \<and> y = -1 then None else Some (x sdiv y))"

text \<open>Loops over the first samples, one by one and by pairs. A loop over pairs takes both samples of a last half pair.\<close>

fun each_sample :: "(int \<Rightarrow> int option) \<Rightarrow> nat \<Rightarrow> int list \<Rightarrow> int list option" where
  "each_sample g 0 xs = Some xs"
| "each_sample g (Suc n) (x # xs) = do { y \<leftarrow> g x; ys \<leftarrow> each_sample g n xs; Some (y # ys) }"
| "each_sample g (Suc n) [] = None"

fun each_pair :: "(int \<Rightarrow> int \<Rightarrow> int \<times> int) \<Rightarrow> nat \<Rightarrow> int list \<Rightarrow> int list option" where
  "each_pair g 0 xs = Some xs"
| "each_pair g n (x # y # xs) = do { ys \<leftarrow> each_pair g (n - 2) xs; Some (fst (g x y) # snd (g x y) # ys) }"
| "each_pair g n xs = None"

text \<open>The loops over frames and channels with a state: sample \<open>k\<close> is of channel \<open>k mod channels\<close>.\<close>

fun each_channel :: "(nat \<Rightarrow> 's \<Rightarrow> int \<Rightarrow> 's \<times> int) \<Rightarrow> nat \<Rightarrow> nat \<Rightarrow> nat \<Rightarrow> 's \<Rightarrow> int list \<Rightarrow> ('s \<times> int list) option" where
  "each_channel g ch k 0 s xs = Some (s, xs)"
| "each_channel g ch k (Suc n) s (x # xs) = (case g (k mod ch) s x of (s', y) \<Rightarrow>
     do { (s'', ys) \<leftarrow> each_channel g ch (Suc k) n s' xs; Some (s'', y # ys) })"
| "each_channel g ch k (Suc n) s [] = None"

definition amp_sample :: "nat \<Rightarrow> roardsp_amp \<Rightarrow> int \<Rightarrow> int option" where
  "amp_sample w a x = map_option (wrap_s w) (divide32 (wrap_s 32 (x * am_mul a)) (am_div a))"

definition roardsp_amp_calc8 :: "roardsp_filter \<Rightarrow> int list \<Rightarrow> nat \<Rightarrow> calc_result" where
  "roardsp_amp_calc8 f data samples = (case fl_inst f of
       Amp_Inst a \<Rightarrow> map_option (\<lambda>data. (0, f, data)) (each_sample (amp_sample 8 a) samples data) | _ \<Rightarrow> None)"

definition roardsp_amp_calc16 :: "roardsp_filter \<Rightarrow> int list \<Rightarrow> nat \<Rightarrow> calc_result" where
  "roardsp_amp_calc16 f data samples = (case fl_inst f of
       Amp_Inst a \<Rightarrow> map_option (\<lambda>data. (0, f, data)) (each_sample (amp_sample 16 a) samples data) | _ \<Rightarrow> None)"

definition add_sample :: "roardsp_amp \<Rightarrow> int \<Rightarrow> int option" where
  "add_sample a x = map_option (\<lambda>d. wrap_s 16 (wrap_s 32 (x + d))) (divide32 (am_mul a) (am_div a))"

definition roardsp_add_calc16 :: "roardsp_filter \<Rightarrow> int list \<Rightarrow> nat \<Rightarrow> calc_result" where
  "roardsp_add_calc16 f data samples = (case fl_inst f of
       Amp_Inst a \<Rightarrow> map_option (\<lambda>data. (0, f, data)) (each_sample (add_sample a) samples data) | _ \<Rightarrow> None)"

definition lowp_sample :: "nat \<Rightarrow> roardsp_lowp \<Rightarrow> int \<Rightarrow> roardsp_lowp \<times> int" where
  "lowp_sample c l x =
     (let s = wrap_s 32 (wrap_s 32 (x * lo_a l) + wrap_s 32 (lo_old l ! c * lo_b l)) sdiv 65536
      in (l\<lparr>lo_old := (lo_old l)[c := s]\<rparr>, wrap_s 16 s))"

definition roardsp_lowp_calc16 :: "roardsp_filter \<Rightarrow> int list \<Rightarrow> nat \<Rightarrow> calc_result" where
  "roardsp_lowp_calc16 f data samples =
     (if fl_channels f > int ROAR_MAX_CHANNELS then Some (-1, f, data)
      else if fl_channels f \<le> 0 then None
      else let ch = nat (fl_channels f) in (case fl_inst f of
          Lowp_Inst l \<Rightarrow> do { (l, data) \<leftarrow> each_channel lowp_sample ch 0 (samples div ch * ch) l data;
                             Some (0, f\<lparr>fl_inst := Lowp_Inst l\<rparr>, data) }
        | _ \<Rightarrow> None))"

definition highp_sample :: "nat \<Rightarrow> roardsp_highp \<Rightarrow> int \<Rightarrow> roardsp_highp \<times> int" where
  "highp_sample c h x =
     (let s = wrap_s 32 (wrap_s 32 (wrap_s 32 (x * hi_a h) + wrap_s 32 (hi_oldin h ! c * hi_b h)) + wrap_s 32 (hi_oldout h ! c * hi_c h)) sdiv 65536
      in (h\<lparr>hi_oldin := (hi_oldin h)[c := x], hi_oldout := (hi_oldout h)[c := s]\<rparr>, wrap_s 16 s))"

definition roardsp_highp_calc16 :: "roardsp_filter \<Rightarrow> int list \<Rightarrow> nat \<Rightarrow> calc_result" where
  "roardsp_highp_calc16 f data samples =
     (if fl_channels f > int ROAR_MAX_CHANNELS then Some (-1, f, data)
      else if fl_channels f \<le> 0 then None
      else let ch = nat (fl_channels f) in (case fl_inst f of
          Highp_Inst h \<Rightarrow> do { (h, data) \<leftarrow> each_channel highp_sample ch 0 (samples div ch * ch) h data;
                              Some (0, f\<lparr>fl_inst := Highp_Inst h\<rparr>, data) }
        | _ \<Rightarrow> None))"

definition quantify_sample :: "int \<Rightarrow> int \<Rightarrow> int option" where
  "quantify_sample n x =
     (let s = float32 (float32 (of_int x / 32768) * float32 (of_int n)) in
      do { q \<leftarrow> to_signed 16 s;
           if n = 0 then None else to_signed 16 (float32 (float32 (of_int q / float32 (of_int n)) * 32768)) })"

definition roardsp_quantify_calc16 :: "roardsp_filter \<Rightarrow> int list \<Rightarrow> nat \<Rightarrow> calc_result" where
  "roardsp_quantify_calc16 f data samples = (case fl_inst f of
       Int_Inst n \<Rightarrow> map_option (\<lambda>data. (0, f, data)) (each_sample (quantify_sample n) samples data) | _ \<Rightarrow> None)"

definition clip_sample :: "int \<Rightarrow> int \<Rightarrow> int option" where
  "clip_sample s x = Some (if x > s then wrap_s 16 s else if - x > s then wrap_s 16 (- s) else x)"

definition roardsp_clip_calc16 :: "roardsp_filter \<Rightarrow> int list \<Rightarrow> nat \<Rightarrow> calc_result" where
  "roardsp_clip_calc16 f data samples = (case fl_inst f of
       Int_Inst n \<Rightarrow> map_option (\<lambda>data. (0, f, data)) (each_sample (clip_sample (wrap_s 32 n)) samples data) | _ \<Rightarrow> None)"

definition rms_pair :: "int \<Rightarrow> int \<Rightarrow> int" where
  "rms_pair x y = wrap_s 16 (if x + y < 0 then - root_half (x * x + y * y) else root_half (x * x + y * y))"

definition roardsp_downmix_calc162 :: "roardsp_filter \<Rightarrow> int list \<Rightarrow> nat \<Rightarrow> calc_result" where
  "roardsp_downmix_calc162 f data samples = (case fl_inst f of
       Int_Inst n \<Rightarrow> let mode = wrap_s 32 n in
         if mode = DOWNMIX_LEFT then map_option (\<lambda>data. (0, f, data)) (each_pair (\<lambda>x y. (x, x)) samples data)
         else if mode = DOWNMIX_RIGHT then map_option (\<lambda>data. (0, f, data)) (each_pair (\<lambda>x y. (y, y)) samples data)
         else if mode = DOWNMIX_ARITHMETIC then
           map_option (\<lambda>data. (0, f, data)) (each_pair (\<lambda>x y. let s = (x + y) sdiv 2 in (wrap_s 16 s, wrap_s 16 s)) samples data)
         else if mode = DOWNMIX_RMS then map_option (\<lambda>data. (0, f, data)) (each_pair (\<lambda>x y. (rms_pair x y, rms_pair x y)) samples data)
         else Some (-1, f, data)
     | _ \<Rightarrow> None)"

text \<open>The sum is divided by a number without sign, and is therefore taken as a number without sign itself.\<close>

definition dcblock_mean :: "int list \<Rightarrow> nat \<Rightarrow> int option" where
  "dcblock_mean data samples =
     (if samples = 0 \<or> length data < samples then None
      else to_signed 64 (float32 (of_int (wrap_u 64 (sum_list (take samples data)) div int samples))))"

definition roardsp_dcblock_calc16 :: "roardsp_filter \<Rightarrow> int list \<Rightarrow> nat \<Rightarrow> calc_result" where
  "roardsp_dcblock_calc16 f data samples = (case fl_inst f of
       Dcblock_Inst i \<Rightarrow> if length (dc_dc i) \<le> dc_cur i then None else
         do { s \<leftarrow> dcblock_mean data samples;
              (let dc = (dc_dc i)[dc_cur i := wrap_s 32 s];
                   cur = (if dc_cur i + 1 = DCBLOCK_NUMBLOCKS then 0 else dc_cur i + 1);
                   s = sum_list (take DCBLOCK_NUMBLOCKS dc) sdiv int DCBLOCK_NUMBLOCKS
               in map_option (\<lambda>data. (0, f\<lparr>fl_inst := Dcblock_Inst \<lparr>dc_cur = cur, dc_dc = dc\<rparr>\<rparr>, data))
                    (each_sample (\<lambda>x. Some (wrap_s 16 (x - s))) samples data)) }
     | _ \<Rightarrow> None)"

definition roardsp_swap_calc162 :: "roardsp_filter \<Rightarrow> int list \<Rightarrow> nat \<Rightarrow> calc_result" where
  "roardsp_swap_calc162 f data samples = map_option (\<lambda>data. (0, f, data)) (each_pair (\<lambda>x y. (y, x)) samples data)"

definition run_calc :: "calc_fn \<Rightarrow> roardsp_filter \<Rightarrow> int list \<Rightarrow> nat \<Rightarrow> calc_result" where
  "run_calc c = (case c of Amp_calc8 \<Rightarrow> roardsp_amp_calc8 | Amp_calc16 \<Rightarrow> roardsp_amp_calc16 | Add_calc16 \<Rightarrow> roardsp_add_calc16
     | Lowp_calc16 \<Rightarrow> roardsp_lowp_calc16 | Highp_calc16 \<Rightarrow> roardsp_highp_calc16 | Quantify_calc16 \<Rightarrow> roardsp_quantify_calc16
     | Clip_calc16 \<Rightarrow> roardsp_clip_calc16 | Downmix_calc162 \<Rightarrow> roardsp_downmix_calc162 | Dcblock_calc16 \<Rightarrow> roardsp_dcblock_calc16
     | Swap_calc162 \<Rightarrow> roardsp_swap_calc162)"

subsection \<open>The list of filters\<close>

record filterlist_row =
  fr_id :: int
  fr_name :: string
  fr_init :: init_fn
  fr_uninit :: "uninit_fn option"
  fr_ctl :: "ctl_fn option"
  fr_reset :: reset_fn
  fr_calc :: "calc_fn option list list"

abbreviation (input) no_calc :: "calc_fn option list" where "no_calc \<equiv> [None, None, None]"

definition filterlist :: "filterlist_row list" where
  "filterlist =
    [\<lparr>fr_id = FILTER_AMP, fr_name = ''AMP'', fr_init = Amp_init, fr_uninit = Some Amp_uninit, fr_ctl = Some Amp_ctl, fr_reset = Amp_reset,
       fr_calc = [no_calc, [Some Amp_calc8, None, None], [Some Amp_calc16, None, None], no_calc, no_calc]\<rparr>,
     \<lparr>fr_id = FILTER_ADD, fr_name = ''Add'', fr_init = Add_init, fr_uninit = Some Amp_uninit, fr_ctl = Some Amp_ctl, fr_reset = Add_reset,
       fr_calc = [no_calc, no_calc, [Some Add_calc16, None, None], no_calc, no_calc]\<rparr>,
     \<lparr>fr_id = FILTER_LOWP, fr_name = ''Lowpass'', fr_init = Lowp_init, fr_uninit = Some Lowp_uninit, fr_ctl = Some Lowp_ctl, fr_reset = Lowp_reset,
       fr_calc = [no_calc, no_calc, [Some Lowp_calc16, None, None], no_calc, no_calc]\<rparr>,
     \<lparr>fr_id = FILTER_HIGHP, fr_name = ''Highpass'', fr_init = Highp_init, fr_uninit = Some Highp_uninit, fr_ctl = Some Highp_ctl, fr_reset = Highp_reset,
       fr_calc = [no_calc, no_calc, [Some Highp_calc16, None, None], no_calc, no_calc]\<rparr>,
     \<lparr>fr_id = FILTER_QUANTIFY, fr_name = ''Quantifier'', fr_init = Quantify_init, fr_uninit = None, fr_ctl = Some Quantify_ctl, fr_reset = Quantify_reset,
       fr_calc = [no_calc, no_calc, [Some Quantify_calc16, None, None], no_calc, no_calc]\<rparr>,
     \<lparr>fr_id = FILTER_CLIP, fr_name = ''Clip'', fr_init = Quantify_init, fr_uninit = None, fr_ctl = Some Clip_ctl, fr_reset = Clip_reset,
       fr_calc = [no_calc, no_calc, [Some Clip_calc16, None, None], no_calc, no_calc]\<rparr>,
     \<lparr>fr_id = FILTER_DOWNMIX, fr_name = ''downmix'', fr_init = Quantify_init, fr_uninit = None, fr_ctl = Some Downmix_ctl, fr_reset = Downmix_reset,
       fr_calc = [no_calc, no_calc, [None, None, Some Downmix_calc162], no_calc, no_calc]\<rparr>,
     \<lparr>fr_id = FILTER_DCBLOCK, fr_name = ''DCBlock'', fr_init = Dcblock_init, fr_uninit = None, fr_ctl = None, fr_reset = Dcblock_reset,
       fr_calc = [no_calc, no_calc, [Some Dcblock_calc16, None, None], no_calc, no_calc]\<rparr>,
     \<lparr>fr_id = FILTER_SWAP, fr_name = ''Swap'', fr_init = Swap_init, fr_uninit = Some Swap_uninit, fr_ctl = Some Swap_ctl, fr_reset = Swap_reset,
       fr_calc = [no_calc, no_calc, [None, None, Some Swap_calc162], no_calc, no_calc]\<rparr>,
     \<lparr>fr_id = FILTER_AGC, fr_name = ''AGC'', fr_init = Agc_init, fr_uninit = Some Agc_uninit, fr_ctl = Some Agc_ctl, fr_reset = Agc_reset,
       fr_calc = [no_calc, no_calc, no_calc, no_calc, no_calc]\<rparr>]"

definition roardsp_filter_str2id :: "string \<Rightarrow> int" where
  "roardsp_filter_str2id str = (case find (\<lambda>l. same_nocase (fr_name l) str) filterlist of None \<Rightarrow> -1 | Some l \<Rightarrow> fr_id l)"

definition roardsp_filter_id2str :: "int \<Rightarrow> string option" where
  "roardsp_filter_id2str i = map_option fr_name (find (\<lambda>l. fr_id l = i) filterlist)"

definition filter_zero :: roardsp_filter where
  "filter_zero = \<lparr>fl_channels = 0, fl_bits = 0, fl_rate = 0, fl_inst = Int_Inst 0, fl_free = False, fl_calc = None, fl_uninit = None, fl_ctl = None, fl_reset = None\<rparr>"

text \<open>The row that ends the table has the id \<open>-1\<close> and no functions, so that a search for it fails as any other id that is not in the table.\<close>

definition roardsp_filter_init :: "lp_fun \<Rightarrow> bool \<Rightarrow> roar_audio_info \<Rightarrow> int \<Rightarrow> reset_result" where
  "roardsp_filter_init lp alloc info i =
     (let f = filter_zero\<lparr>fl_channels := wrap_s 32 (channels info), fl_bits := wrap_s 32 (bits info), fl_rate := wrap_s 32 (rate info)\<rparr>;
          bytes = nat (bits info div 8)
      in case find (\<lambda>l. fr_id l = i) filterlist of None \<Rightarrow> Some (-1, f)
       | Some l \<Rightarrow>
         let f = f\<lparr>fl_uninit := fr_uninit l, fl_ctl := fr_ctl l, fl_reset := Some (fr_reset l)\<rparr> in
         if bytes > 4 \<or> fl_channels f < 0 then None
         else let calc = (if fl_channels f < 3 then fr_calc l ! bytes ! nat (fl_channels f) else None);
                  calc = (if calc = None then fr_calc l ! bytes ! 0 else calc)
              in if calc = None then Some (-1, f)
                 else run_init lp alloc (fr_init l) (f\<lparr>fl_calc := calc\<rparr>))"

text \<open>A new filter, where \<open>alloc\<close> is for the filter and \<open>alloc2\<close> for its instance.\<close>

definition roardsp_filter_new :: "lp_fun \<Rightarrow> bool \<Rightarrow> bool \<Rightarrow> roar_audio_info \<Rightarrow> int \<Rightarrow> (c_int \<times> roardsp_filter option) option" where
  "roardsp_filter_new lp alloc alloc2 info i =
     (if \<not> alloc then Some (-1, None)
      else do { (ret, n) \<leftarrow> roardsp_filter_init lp alloc2 info i;
                if ret = -1 then Some (-1, None) else Some (ret, Some (n\<lparr>fl_free := True\<rparr>)) })"

text \<open>The result, whether the instance has been freed, and the filter unless it has been freed itself.\<close>

definition roardsp_filter_uninit :: "roardsp_filter \<Rightarrow> (c_int \<times> bool \<times> roardsp_filter option) option" where
  "roardsp_filter_uninit f =
     do { (ret, freed) \<leftarrow> (case fl_uninit f of None \<Rightarrow> Some (0, False) | Some u \<Rightarrow> run_uninit u f);
          Some (ret, freed, if fl_free f then None else Some filter_zero) }"

text \<open>\<open>data\<close> is \<open>None\<close> for the null pointer.\<close>

definition roardsp_filter_calc :: "roardsp_filter \<Rightarrow> int list option \<Rightarrow> nat \<Rightarrow> (c_int \<times> roardsp_filter \<times> int list option) option" where
  "roardsp_filter_calc f data len =
     (if data = None \<and> len \<noteq> 0 then Some (-1, f, data)
      else (case fl_calc f of None \<Rightarrow> Some (0, f, data)
        | Some c \<Rightarrow> map_option (\<lambda>(r, f, xs). (r, f, if data = None then None else Some xs)) (run_calc c f (case data of None \<Rightarrow> [] | Some xs \<Rightarrow> xs) len)))"

subsection \<open>Chains\<close>

text \<open>The filters of a chain are pointers into a store; 0 is the null pointer.\<close>

definition MAX_FILTERS_PER_CHAIN :: nat where "MAX_FILTERS_PER_CHAIN = 8"

record roardsp_filterchain =
  fc_filters :: nat
  fc_filter :: "nat list"

type_synonym filter_store = "nat \<Rightarrow> roardsp_filter option"

definition roardsp_fchain_init :: "roardsp_filterchain" where
  "roardsp_fchain_init = \<lparr>fc_filters = 0, fc_filter = replicate MAX_FILTERS_PER_CHAIN 0\<rparr>"

definition roardsp_fchain_add :: "roardsp_filterchain \<Rightarrow> nat \<Rightarrow> c_int \<times> roardsp_filterchain" where
  "roardsp_fchain_add chain p =
     (if fc_filters chain < MAX_FILTERS_PER_CHAIN
      then (0, chain\<lparr>fc_filter := (fc_filter chain)[fc_filters chain := p], fc_filters := fc_filters chain + 1\<rparr>)
      else (-1, chain))"

text \<open>One call of a loop over the chain, on a pointer. Each of the functions of filters gives \<open>-1\<close> for the null pointer.\<close>

definition at_filter :: "(roardsp_filter \<Rightarrow> (c_int \<times> roardsp_filter option \<times> 'd) option) \<Rightarrow> 'd \<Rightarrow> nat \<Rightarrow> filter_store \<Rightarrow> (c_int \<times> filter_store \<times> 'd) option" where
  "at_filter op d p \<sigma> =
     (if p = 0 then Some (-1, \<sigma>, d)
      else (case \<sigma> p of None \<Rightarrow> None | Some f \<Rightarrow> map_option (\<lambda>(r, f, d). (r, \<sigma>(p := f), d)) (op f)))"

fun fchain_loop :: "(roardsp_filter \<Rightarrow> 'd \<Rightarrow> (c_int \<times> roardsp_filter option \<times> 'd) option) \<Rightarrow> nat list \<Rightarrow> c_int \<Rightarrow> filter_store \<Rightarrow> 'd \<Rightarrow>
    (c_int \<times> filter_store \<times> 'd) option" where
  "fchain_loop op [] ret \<sigma> d = Some (ret, \<sigma>, d)"
| "fchain_loop op (p # ps) ret \<sigma> d =
     do { (r, \<sigma>, d) \<leftarrow> at_filter (\<lambda>f. op f d) d p \<sigma>; fchain_loop op ps (if r = -1 then -1 else ret) \<sigma> d }"

definition fchain_list :: "roardsp_filterchain \<Rightarrow> nat list" where
  "fchain_list chain = take (fc_filters chain) (fc_filter chain)"

definition roardsp_fchain_calc :: "roardsp_filterchain \<Rightarrow> filter_store \<Rightarrow> int list option \<Rightarrow> nat \<Rightarrow> (c_int \<times> filter_store \<times> int list option) option" where
  "roardsp_fchain_calc chain \<sigma> data len =
     fchain_loop (\<lambda>f d. map_option (\<lambda>(r, f, d). (r, Some f, d)) (roardsp_filter_calc f d len)) (fchain_list chain) 0 \<sigma> data"

definition roardsp_fchain_reset :: "lp_fun \<Rightarrow> roardsp_filterchain \<Rightarrow> filter_store \<Rightarrow> int \<Rightarrow> (c_int \<times> filter_store) option" where
  "roardsp_fchain_reset lp chain \<sigma> what =
     map_option (\<lambda>(r, \<sigma>, _). (r, \<sigma>))
       (fchain_loop (\<lambda>f (_ :: unit). map_option (\<lambda>(r, f). (r, Some f, ())) (roardsp_filter_reset lp f what)) (fchain_list chain) 0 \<sigma> ())"

definition roardsp_fchain_uninit :: "roardsp_filterchain \<Rightarrow> filter_store \<Rightarrow> (c_int \<times> filter_store \<times> roardsp_filterchain) option" where
  "roardsp_fchain_uninit chain \<sigma> =
     map_option (\<lambda>(r, \<sigma>, _). (r, \<sigma>, roardsp_fchain_init))
       (fchain_loop (\<lambda>f (_ :: unit). map_option (\<lambda>(r, _, f). (r, f, ())) (roardsp_filter_uninit f)) (fchain_list chain) 0 \<sigma> ())"

definition roardsp_fchain_num :: "roardsp_filterchain \<Rightarrow> c_int" where
  "roardsp_fchain_num chain = int (fc_filters chain)"

end
