(* ===== verification/Dsp_Single.thy ===== *)
theory Dsp_Single
  imports Dsp_Filter
begin

text \<open>
  The filters of \<open>Dsp_Filter\<close> one by one: single precision is exact on the numbers that fit it and off by at most one part in \<open>2 ^ 24\<close> on
  others; the low pass against its recurrence, the quantifier, the clipper, and what the DC blocker and the high pass do.
\<close>

subsection \<open>Loops over samples\<close>

abbreviation (input) sample16 :: "int \<Rightarrow> bool" where "sample16 x \<equiv> - 32768 \<le> x \<and> x \<le> 32767"

lemma each_sample_map:
  "(\<And>x. x \<in> set (take n xs) \<Longrightarrow> g x = Some (h x)) \<Longrightarrow> n \<le> length xs \<Longrightarrow> each_sample g n xs = Some (map h (take n xs) @ drop n xs)"
  by (induction g n xs rule: each_sample.induct) auto

lemma each_sample_all:
  "each_sample g n xs = Some ys \<Longrightarrow> (\<And>x y. Q x \<Longrightarrow> g x = Some y \<Longrightarrow> Q y) \<Longrightarrow> (\<forall>x \<in> set xs. Q x) \<Longrightarrow>
   length ys = length xs \<and> (\<forall>y \<in> set ys. Q y)"
  by (induction g n xs arbitrary: ys rule: each_sample.induct) (auto split: bind_splits)

lemma each_pair_all:
  "each_pair g n xs = Some ys \<Longrightarrow> (\<And>x y. Q x \<Longrightarrow> Q y \<Longrightarrow> Q (fst (g x y)) \<and> Q (snd (g x y))) \<Longrightarrow> (\<forall>x \<in> set xs. Q x) \<Longrightarrow>
   length ys = length xs \<and> (\<forall>y \<in> set ys. Q y)"
  by (induction g n xs arbitrary: ys rule: each_pair.induct) (auto split: bind_splits)

lemma each_channel_all:
  "each_channel g ch k n s xs = Some (s', ys) \<Longrightarrow> (\<And>c s x. Q (snd (g c s x))) \<Longrightarrow> (\<forall>x \<in> set xs. Q x) \<Longrightarrow>
   length ys = length xs \<and> (\<forall>y \<in> set ys. Q y)"
proof (induction g ch k n s xs arbitrary: s' ys rule: each_channel.induct)
  case (2 g ch k n s x xs)
  obtain s1 y where g: "g (k mod ch) s x = (s1, y)" by fastforce
  with 2(2) obtain s2 zs where zs: "each_channel g ch (Suc k) n s1 xs = Some (s2, zs)" "ys = y # zs"
    by (auto split: bind_splits)
  have "length zs = length xs \<and> (\<forall>y \<in> set zs. Q y)"
    using 2(1) [OF g [symmetric] zs(1) 2(3)] 2(4) by simp
  then show ?case using zs(2) 2(3) [of "k mod ch" s x] g by simp
qed simp_all

subsection \<open>Single precision\<close>

lemma exponent_le: assumes "q \<noteq> 0" shows "2 powi exponent q \<le> \<bar>q\<bar>"
proof -
  obtain n d where nd: "quotient_of \<bar>q\<bar> = (n, d)" by fastforce
  have d: "0 < d" and q: "\<bar>q\<bar> = of_int n / of_int d" using nd by (simp_all add: quotient_of_denom_pos quotient_of_div)
  have n: "0 < n" using q d assms by (metis abs_eq_0 div_0 of_int_0_less_iff of_int_pos abs_ge_zero divide_pos_pos linorder_neqE_linordered_idom not_less of_int_0 of_int_less_0_iff divide_less_0_iff)
  have "(2 :: int) ^ nat (bitlen n - 1) \<le> n" "d < 2 ^ nat (bitlen d)" using bitlen_bounds [of n] bitlen_bounds [of d] n d by simp_all
  moreover have "0 < bitlen n" using bitlen_bounds [of n] bitlen_nonneg [of n] n by (cases "bitlen n = 0") simp_all
  ultimately have b: "(2 :: rat) powi (bitlen n - 1) \<le> of_int n" "of_int d < (2 :: rat) powi bitlen d"
    using bitlen_nonneg [of d] by (simp_all add: power_int_def)
  have "(2 :: rat) powi (bitlen n - bitlen d - 1) = 2 powi (bitlen n - 1) / 2 powi bitlen d"
    by (simp add: power_int_diff power_int_add_1)
  also have "\<dots> \<le> of_int n / of_int d"
    using b d n by (intro frac_le) auto
  finally show ?thesis using nd q by (auto simp: exponent_def Let_def not_less)
qed

lemma float32_exact:
  assumes "\<bar>k\<bar> < 2 ^ 24"
  shows "float32 (of_int k / 2 ^ j) = of_int k / 2 ^ j"
proof (cases "k = 0")
  case True
  then show ?thesis by (simp add: float32_def)
next
  case False
  define q :: rat where "q = of_int k / 2 ^ j"
  define e where "e = exponent q"
  have "2 powi e \<le> \<bar>q\<bar>" using exponent_le [of q] False by (simp add: q_def e_def)
  also have "\<bar>q\<bar> < 2 ^ 24 / 2 ^ j" using assms
    by (simp add: q_def abs_divide divide_strict_right_mono flip: of_int_abs of_int_less_iff)
  also have "(2 :: rat) ^ 24 / 2 ^ j = 2 powi (24 - int j)" using power_int_diff [of "2 :: rat" 24 "int j"] by simp
  finally have "e < 24 - int j" using power_int_increasing [of "24 - int j" e "2 :: rat"] by (meson linorder_not_less order.trans one_le_numeral)
  then obtain i where i: "23 - e - int j = int i" using nonneg_int_cases [of "23 - e - int j"] by auto
  have u: "q / 2 powi (e - 23) = of_int (k * 2 ^ i)"
  proof -
    have "(2 :: rat) powi (e - 23) = 2 powi (- int (i + j))" using i by (intro arg_cong [where f = "(powi) 2"]) simp
    also have "\<dots> = 1 / (2 ^ i * 2 ^ j)" by (simp only: power_int_minus power_int_of_nat power_add) (simp add: field_simps)
    finally have "(2 :: rat) powi (e - 23) = 1 / (2 ^ i * 2 ^ j)" .
    then show ?thesis by (simp add: q_def)
  qed
  have "round_even (of_int (k * 2 ^ i)) = k * 2 ^ i" by (simp only: round_even_def floor_of_int Let_def diff_self) simp
  then have "float32 q = q / 2 powi (e - 23) * 2 powi (e - 23)" using False u by (simp only: float32_def e_def [symmetric] Let_def u) (simp add: q_def)
  also have "\<dots> = q" by simp
  finally have "float32 q = q" .
  then show ?thesis by (simp add: q_def)
qed

lemma float32_int: "\<bar>k\<bar> < 2 ^ 24 \<Longrightarrow> float32 (of_int k) = of_int k"
  using float32_exact [of k 0] by simp


lemma trunc_zero_int [simp]: "trunc_zero (of_int k) = k"
  by (simp add: trunc_zero_def)

lemma trunc_zero_dyadic: "trunc_zero (of_int k / 2 ^ j) = k sdiv 2 ^ j"
proof -
  have c: "\<lceil>(of_int k :: rat) / 2 ^ j\<rceil> = - ((- k) div 2 ^ j)"
    using floor_divide_of_int_eq [of "- k" "2 ^ j", where 'a = rat] by (simp add: ceiling_def)
  have f: "\<lfloor>(of_int k :: rat) / 2 ^ j\<rfloor> = k div 2 ^ j"
    using floor_divide_of_int_eq [of k "2 ^ j", where 'a = rat] by simp
  have z: "(0 :: rat) \<le> of_int k / 2 ^ j \<longleftrightarrow> 0 \<le> k" using pos_le_divide_eq [of "2 ^ j" 0 "of_int k :: rat"] by simp
  show ?thesis
    by (cases "0 \<le> k") (simp_all add: trunc_zero_def c f z sdiv_pos sdiv_neg)
qed

lemma round_even_error: "\<bar>of_int (round_even q) - q\<bar> \<le> 1 / 2"
proof -
  have "of_int \<lfloor>q\<rfloor> \<le> q" "q < of_int \<lfloor>q\<rfloor> + 1" by (simp, linarith)
  then show ?thesis by (auto simp: round_even_def Let_def abs_le_iff)
qed

lemma float32_error: "\<bar>float32 q - q\<bar> \<le> \<bar>q\<bar> / 2 ^ 24"
proof (cases "q = 0")
  case True
  then show ?thesis by (simp add: float32_def)
next
  case False
  define u :: rat where "u = 2 powi (exponent q - 23)"
  have u: "0 < u" by (simp add: u_def)
  have "u = 2 powi exponent q / 2 ^ 23" by (simp add: u_def power_int_diff)
  then have le: "u * 2 ^ 23 \<le> \<bar>q\<bar>" using exponent_le [OF False] by simp
  have "float32 q - q = (of_int (round_even (q / u)) - q / u) * u"
    using False u by (simp add: float32_def u_def [symmetric] Let_def algebra_simps)
  then have "\<bar>float32 q - q\<bar> \<le> 1 / 2 * u"
    using mult_right_mono [OF round_even_error [of "q / u"], of u] u by (simp add: abs_mult)
  then show ?thesis using le by simp
qed

lemma float32_upper: assumes "0 \<le> q" shows "16777216 * float32 q \<le> 16777217 * q"
proof -
  have "\<bar>float32 q - q\<bar> \<le> q / 16777216" using float32_error [of q] assms by simp
  then show ?thesis using assms by linarith
qed

lemma float32_nonneg: assumes "0 \<le> q" shows "0 \<le> float32 q"
proof -
  have "\<bar>float32 q - q\<bar> \<le> q / 16777216" using float32_error [of q] assms by simp
  then show ?thesis using assms by linarith
qed

lemma to_unsigned_ok: "0 \<le> q \<Longrightarrow> q < 2 ^ w \<Longrightarrow> to_unsigned w q = Some \<lfloor>q\<rfloor>"
  by (simp add: to_unsigned_def trunc_zero_def Let_def floor_less_iff)

lemma to_signed_pos: "0 \<le> q \<Longrightarrow> q < 2 ^ (w - 1) \<Longrightarrow> to_signed w q = Some \<lfloor>q\<rfloor>"
  by (simp add: to_signed_def trunc_zero_def Let_def floor_less_iff) (smt (verit) zero_le_floor zero_le_power)

subsection \<open>The low pass\<close>

fun channel_of :: "nat \<Rightarrow> nat \<Rightarrow> nat \<Rightarrow> 'a list \<Rightarrow> 'a list" where
  "channel_of ch c k [] = []"
| "channel_of ch c k (x # xs) = (if k mod ch = c then x # channel_of ch c (Suc k) xs else channel_of ch c (Suc k) xs)"

fun low_pass :: "int \<Rightarrow> int \<Rightarrow> int \<Rightarrow> int list \<Rightarrow> int list" where
  "low_pass a b out [] = []"
| "low_pass a b out (x # xs) = (let y = (x * a + out * b) sdiv 65536 in y # low_pass a b y xs)"

lemma low_pass_range:
  assumes "sample16 x" "sample16 out" "0 \<le> a" "0 \<le> b" "a + b \<le> 65536"
  shows "- (65536 * 32768) \<le> x * a + out * b \<and> x * a + out * b \<le> 65536 * 32767 \<and>
    - (65536 * 32768) \<le> x * a \<and> x * a \<le> 65536 * 32767 \<and> - (65536 * 32768) \<le> out * b \<and> out * b \<le> 65536 * 32767"
proof -
  have "x * a \<le> 32767 * a" "out * b \<le> 32767 * b" "- 32768 * a \<le> x * a" "- 32768 * b \<le> out * b"
    using assms by (intro mult_right_mono; simp)+
  moreover have "32767 * a \<le> 32767 * 65536" "32767 * b \<le> 32767 * 65536"
    using assms by simp_all
  ultimately show ?thesis using assms by linarith
qed

lemma lowp_sample_exact:
  assumes "sample16 x" "sample16 (lo_old l ! c)" "0 \<le> lo_a l" "0 \<le> lo_b l" "lo_a l + lo_b l \<le> 65536"
  shows "lowp_sample c l x =
    (let y = (x * lo_a l + lo_old l ! c * lo_b l) sdiv 65536 in (l\<lparr>lo_old := (lo_old l)[c := y]\<rparr>, y))"
    "sample16 ((x * lo_a l + lo_old l ! c * lo_b l) sdiv 65536)"
proof -
  note r = low_pass_range [OF assms]
  show 2: "sample16 ((x * lo_a l + lo_old l ! c * lo_b l) sdiv 65536)"
    using r sdiv_lower [of 65536 32768] sdiv_upper [of 65536 _ 32767] by simp
  show "lowp_sample c l x =
    (let y = (x * lo_a l + lo_old l ! c * lo_b l) sdiv 65536 in (l\<lparr>lo_old := (lo_old l)[c := y]\<rparr>, y))"
    using r 2 by (simp add: lowp_sample_def Let_def wrap_s_id)
qed

lemma each_channel_low_pass:
  assumes "\<forall>x \<in> set xs. sample16 x" "\<forall>x \<in> set (lo_old l). sample16 x" "0 \<le> lo_a l" "0 \<le> lo_b l" "lo_a l + lo_b l \<le> 65536"
    "0 < ch" "ch \<le> length (lo_old l)"
  shows "\<exists>l' ys. each_channel lowp_sample ch k (length xs) l xs = Some (l', ys) \<and> length ys = length xs \<and>
    (\<forall>c < ch. channel_of ch c k ys = low_pass (lo_a l) (lo_b l) (lo_old l ! c) (channel_of ch c k xs))"
  using assms
proof (induction xs arbitrary: k l)
  case Nil
  then show ?case by simp
next
  case (Cons x xs)
  define y where "y = (x * lo_a l + lo_old l ! (k mod ch) * lo_b l) sdiv 65536"
  define m where "m = l\<lparr>lo_old := (lo_old l)[k mod ch := y]\<rparr>"
  have c: "k mod ch < length (lo_old l)" using Cons.prems(6,7) by (meson mod_less_divisor order_less_le_trans)
  then have "sample16 (lo_old l ! (k mod ch))" using Cons.prems(2) by simp
  then have step: "lowp_sample (k mod ch) l x = (m, y)" and y: "sample16 y"
    using lowp_sample_exact [of x l "k mod ch"] Cons.prems by (simp_all add: y_def m_def Let_def)
  have "\<forall>x \<in> set (lo_old m). sample16 x"
    using Cons.prems(2) y set_update_subset_insert [of "lo_old l" "k mod ch" y] by (auto simp: m_def)
  with Cons.IH [of m "Suc k"] Cons.prems obtain l' ys where
    ys: "each_channel lowp_sample ch (Suc k) (length xs) m xs = Some (l', ys)" "length ys = length xs"
      "\<forall>c < ch. channel_of ch c (Suc k) ys = low_pass (lo_a l) (lo_b l) (lo_old m ! c) (channel_of ch c (Suc k) xs)"
    by (auto simp: m_def)
  have "channel_of ch c k (y # ys) = low_pass (lo_a l) (lo_b l) (lo_old l ! c) (channel_of ch c k (x # xs))" if "c < ch" for c
    using ys(3) that c by (auto simp: m_def y_def Let_def nth_list_update)
  then show ?case using ys step by simp
qed



lemma lowp_coeffs:
  assumes "1 \<le> p" "p \<le> 65535"
  shows "\<exists>a b. to_unsigned 16 p = Some b \<and> to_unsigned 16 (float32 (65536 - p)) = Some a \<and> 0 \<le> a \<and> 0 \<le> b \<and> a + b \<le> 65536"
proof -
  let ?q = "65536 - p"
  have 1: "16777216 * float32 ?q \<le> 16777217 * ?q" "0 \<le> float32 ?q" using float32_upper [of ?q] float32_nonneg [of ?q] assms by simp_all
  then have lt: "float32 ?q < 65536" using assms by (simp add: algebra_simps)
  have "of_int \<lfloor>p\<rfloor> + of_int \<lfloor>float32 ?q\<rfloor> \<le> p + float32 ?q" by (intro add_mono) simp_all
  also have "\<dots> < 65537" using 1(1) assms by (simp add: algebra_simps)
  finally have "\<lfloor>float32 ?q\<rfloor> + \<lfloor>p\<rfloor> < 65537" by linarith
  then show ?thesis using 1 lt assms by (simp add: to_unsigned_ok)
qed

lemma to_unsigned_freq:
  assumes "0 \<le> q" "q \<le> 4000000"
  shows "\<exists>n. to_unsigned 32 (float32 (q * 1000)) = Some n"
  using float32_upper [of "q * 1000"] float32_nonneg [of "q * 1000"] assms by (simp add: to_unsigned_ok)

text \<open>The coefficients that the control call of the low pass stores are those of \<open>lowpass_each_channel\<close>.\<close>

lemma lowp_ctl_coeffs:
  assumes "fl_inst f = Lowp_Inst l" "1 \<le> lp q (fl_rate f)" "lp q (fl_rate f) \<le> 65535" "0 \<le> q" "q \<le> 4000000"
  shows "\<exists>a b n d. roardsp_lowp_ctl lp f FCTL_FREQ (Float q) = Some (0, f\<lparr>fl_inst := Lowp_Inst (l\<lparr>lo_a := a, lo_b := b, lo_freq := n\<rparr>)\<rparr>, d) \<and>
    0 \<le> a \<and> 0 \<le> b \<and> a + b \<le> 65536"
  using lowp_coeffs [OF assms(2,3)] to_unsigned_freq [OF assms(4,5)] assms(1)
  by (simp add: roardsp_lowp_ctl_def) (elim exE conjE, simp, blast)

lemma highp_ctl_ok:
  assumes "fl_inst f = Highp_Inst h" "0 \<le> lp q (fl_rate f)" "lp q (fl_rate f) \<le> 65536" "0 \<le> q" "q \<le> 4000000"
  shows "\<exists>f' d. roardsp_highp_ctl lp f FCTL_FREQ (Float q) = Some (0, f', d)"
proof -
  let ?p = "lp q (fl_rate f)"
  have r: "0 \<le> float32 (65536 + ?p)" "float32 (65536 + ?p) < 2 ^ 31"
    using float32_upper [of "65536 + ?p"] float32_nonneg [of "65536 + ?p"] assms by auto
  then have "\<exists>a. to_signed 32 (float32 (65536 + ?p) / 2) = Some a"
    "\<exists>c. to_signed 32 ?p = Some c"
    using assms by (simp_all add: to_signed_pos)
  moreover have "\<exists>b. to_signed 32 (- float32 (65536 + ?p) / 2) = Some b"
  proof -
    have "- (2 ^ 31) \<le> - float32 (65536 + ?p) / 2" "- float32 (65536 + ?p) / 2 \<le> 0" using r by simp_all
    then show ?thesis by (auto simp: to_signed_def trunc_zero_def Let_def le_ceiling_iff le_floor_iff)
  qed
  ultimately show ?thesis using to_unsigned_freq [OF assms(4,5)] assms(1) by (auto simp: roardsp_highp_ctl_def)
qed

subsection \<open>The quantifier\<close>

lemma quantify_sample_power:
  assumes "sample16 x" "k \<le> 8"
  shows "quantify_sample (2 ^ k) x = Some (x sdiv 2 ^ (15 - k) * 2 ^ (15 - k))"
proof -
  define q where "q = x sdiv 2 ^ (15 - k)"
  have small: "\<bar>x\<bar> < 2 ^ 24" using assms(1) by (simp add: abs_less_iff)
  have k: "(2 :: int) ^ k \<le> 2 ^ 8" using assms(2) by (intro power_increasing) auto
  have f: "float32 ((2 :: rat) ^ k) = 2 ^ k" using float32_int [of "2 ^ k"] k by simp
  have x: "float32 (of_int x / 32768) = of_int x / 32768" using float32_exact [of x 15] small by simp
  have p: "(2 :: rat) ^ (15 - k) = 32768 / 2 ^ k" using assms(2) power_diff [of "2 :: rat" k 15] by simp
  have s: "float32 (of_int x / 32768 * 2 ^ k) = of_int x / 2 ^ (15 - k)"
    using float32_exact [of x "15 - k"] small by (simp add: p)
  have q: "sample16 q" "sample16 (q * 2 ^ (15 - k))" using sdiv_between [of "2 ^ (15 - k)" 32767 x] assms(1) by (simp_all add: q_def)
  have d: "float32 (of_int q / 2 ^ k) = of_int q / 2 ^ k" using float32_exact [of q k] q(1) by (simp add: abs_less_iff)
  have r: "float32 (of_int q / 2 ^ k * 32768) = of_int (q * 2 ^ (15 - k))"
    using float32_int [of "q * 2 ^ (15 - k)"] q(2) by (simp add: p abs_less_iff)
  have 1: "to_signed 16 (of_int x / 2 ^ (15 - k)) = Some q" using q by (simp add: to_signed_def trunc_zero_dyadic Let_def q_def)
  have 2: "to_signed 16 (of_int (q * 2 ^ (15 - k))) = Some (q * 2 ^ (15 - k))"
    unfolding to_signed_def trunc_zero_int using q by (simp add: Let_def)
  show ?thesis
    by (simp only: quantify_sample_def of_int_power of_int_numeral Let_def f x s 1 bind.bind_lunit d r 2 q_def [symmetric]) simp
qed

text \<open>C18: The quantifier with a number of steps that is a power of two up to 256 cuts each sample towards zero to a
  multiple of \<open>32768 / steps\<close>: none of the four roundings of its computation in single precision changes a number, every
  result is a sample, and the state of the filter stays as it is.\<close>

theorem quantify_cuts_to_steps:
  assumes "\<forall>x \<in> set data. sample16 x" "k \<le> 8" "fl_inst f = Int_Inst (2 ^ k)"
  shows "roardsp_quantify_calc16 f data (length data) = Some (0, f, map (\<lambda>x. x sdiv 2 ^ (15 - k) * 2 ^ (15 - k)) data)"
  using assms each_sample_map [of "length data" data "quantify_sample (2 ^ k)" "\<lambda>x. x sdiv 2 ^ (15 - k) * 2 ^ (15 - k)"]
  by (simp add: roardsp_quantify_calc16_def quantify_sample_power)

theorem quantify_cuts_to_steps_witness:
  "roardsp_quantify_calc16 (filter_zero\<lparr>fl_inst := Int_Inst 64\<rparr>) [511, -32768, 32767] 3 = Some (0, filter_zero\<lparr>fl_inst := Int_Inst 64\<rparr>, [0, -32768, 32256])"
  using quantify_cuts_to_steps [of "[511, -32768, 32767]" 6 "filter_zero\<lparr>fl_inst := Int_Inst 64\<rparr>"]
  by (simp add: signed_divide_int_def numeral_3_eq_3)

subsection \<open>The clipper\<close>

text \<open>Setting a limit of the clipper to \<open>v\<close>, which may be negative, gives the old limit back; from then on the filter
  leaves the samples within \<open>\<bar>v\<bar>\<close> as they are and moves each other one to the limit of its own sign: no result is
  beyond the limit, and the order of samples is kept.\<close>

theorem clip_to_limit:
  assumes "\<forall>x \<in> set data. sample16 x" "\<bar>v\<bar> < 2 ^ 31" "fl_inst f = Int_Inst n" "fl_ctl f = Some Clip_ctl" "fl_calc f = Some Clip_calc16" "wrap_s 32 n = n"
  shows "\<exists>f'. roardsp_filter_ctl lp f FCTL_LIMIT (Int32 v) = Some (0, f', Int32 n) \<and>
    roardsp_filter_calc f' (Some data) (length data) = Some (0, f', Some (map (\<lambda>x. max (- \<bar>v\<bar>) (min \<bar>v\<bar> x)) data))"
proof -
  have s: "clip_sample \<bar>v\<bar> x = Some (max (- \<bar>v\<bar>) (min \<bar>v\<bar> x))" if "sample16 x" for x
    using that by (auto simp: clip_sample_def wrap_s_id max_def min_def)
  have w: "wrap_s 32 \<bar>v\<bar> = \<bar>v\<bar>" using assms(2) by (simp add: wrap_s_id)
  show ?thesis
    using assms each_sample_map [of "length data" data "clip_sample \<bar>v\<bar>" "\<lambda>x. max (- \<bar>v\<bar>) (min \<bar>v\<bar> x)"] s w
    by (auto simp: roardsp_filter_ctl_def roardsp_clip_ctl_def int_ctl_def roardsp_filter_calc_def run_calc_def roardsp_clip_calc16_def)
qed

theorem clip_to_limit_witness:
  "\<exists>f'. roardsp_filter_ctl (\<lambda>_ _. 1) (filter_zero\<lparr>fl_inst := Int_Inst 16384, fl_ctl := Some Clip_ctl, fl_calc := Some Clip_calc16\<rparr>) FCTL_LIMIT (Int32 (-100))
     = Some (0, f', Int32 16384) \<and> roardsp_filter_calc f' (Some [99, 101, -32768]) 3 = Some (0, f', Some [99, 100, -100])"
  using clip_to_limit [of "[99, 101, -32768]" "-100" "filter_zero\<lparr>fl_inst := Int_Inst 16384, fl_ctl := Some Clip_ctl, fl_calc := Some Clip_calc16\<rparr>" 16384 "\<lambda>_ _. 1"]
  by (simp add: wrap_s_id numeral_3_eq_3)

subsection \<open>The DC blocker\<close>

text \<open>The same block again and again; the results are dropped.\<close>

primrec dcblock_times :: "nat \<Rightarrow> int list \<Rightarrow> roardsp_filter \<Rightarrow> roardsp_filter option" where
  "dcblock_times 0 data f = Some f"
| "dcblock_times (Suc k) data f = do { f \<leftarrow> dcblock_times k data f; (_, f, _) \<leftarrow> roardsp_dcblock_calc16 f data (length data); Some f }"

definition dc_state :: "int \<Rightarrow> nat \<Rightarrow> roardsp_dcblock" where
  "dc_state c k = \<lparr>dc_cur = k mod 100, dc_dc = replicate (min k 100) c @ replicate (100 - k) 0\<rparr>"

lemma dcblock_mean_constant:
  assumes "0 < n" "0 \<le> c" "c \<le> 32767" "int n < 2 ^ 48"
  shows "dcblock_mean (replicate n c) n = Some c"
proof -
  have "int n * c \<le> 2 ^ 48 * 32767" using assms by (intro mult_mono) simp_all
  then have "wrap_u 64 (sum_list (replicate n c)) div int n = c"
    using assms by (simp add: sum_list_replicate wrap_u_id)
  moreover have "float32 (of_int c) = of_int c" using assms by (simp add: float32_int)
  ultimately show ?thesis using assms by (simp add: dcblock_mean_def to_signed_def Let_def)
qed

lemma dc_state_update: "(dc_dc (dc_state c k))[k mod 100 := c] = dc_dc (dc_state c (Suc k))"
proof (cases "k < 100")
  case True
  then have "(replicate k c @ replicate (100 - k) 0)[k := c] = replicate (Suc k) c @ replicate (100 - Suc k) 0"
    by (simp add: list_update_append Suc_diff_Suc [symmetric] replicate_append_same del: replicate_Suc)
     (simp add: replicate_app_Cons_same)
  then show ?thesis using True by (simp add: dc_state_def min_def)
next
  case False
  then show ?thesis by (simp add: dc_state_def min_def list_update_same_conv)
qed

lemma dcblock_step:
  assumes "0 < n" "0 \<le> c" "c \<le> 32767" "int n < 2 ^ 48" "fl_inst f = Dcblock_Inst (dc_state c k)"
  shows "roardsp_dcblock_calc16 f (replicate n c) n =
    Some (0, f\<lparr>fl_inst := Dcblock_Inst (dc_state c (Suc k))\<rparr>, replicate n (wrap_s 16 (c - (int (min (Suc k) 100) * c) sdiv 100)))"
proof -
  have cur: "dc_cur (dc_state c k) = k mod 100" "length (dc_dc (dc_state c k)) = 100" by (simp_all add: dc_state_def)
  have lt: "(100 \<le> k mod 100) = False" by (simp add: not_le)
  have nxt: "(if k mod 100 + 1 = 100 then 0 else k mod 100 + 1) = Suc k mod 100" by (simp add: mod_Suc)
  have sum: "sum_list (take 100 (dc_dc (dc_state c (Suc k)))) = int (min (Suc k) 100) * c"
    by (simp add: dc_state_def sum_list_replicate distrib_right)
  have st: "\<lparr>dc_cur = Suc k mod 100, dc_dc = dc_dc (dc_state c (Suc k))\<rparr> = dc_state c (Suc k)" by (simp add: dc_state_def)
  have w: "wrap_s 32 c = c" using assms by (simp add: wrap_s_id)
  have "roardsp_dcblock_calc16 f (replicate n c) n = map_option (\<lambda>data. (0, f\<lparr>fl_inst := Dcblock_Inst (dc_state c (Suc k))\<rparr>, data))
      (each_sample (\<lambda>x. Some (wrap_s 16 (x - (int (min (Suc k) 100) * c) sdiv 100))) n (replicate n c))"
    using assms(5) by (simp only: roardsp_dcblock_calc16_def filter_inst.case cur dcblock_mean_constant [OF assms(1-4)] bind.bind_lunit Let_def
        w dc_state_update DCBLOCK_NUMBLOCKS_def nxt sum st lt if_False of_nat_numeral)
  then show ?thesis by (simp add: each_sample_map [of n "replicate n c"])
qed

lemma dcblock_times_state:
  assumes "0 < n" "0 \<le> c" "c \<le> 32767" "int n < 2 ^ 48" "fl_inst f = Dcblock_Inst dcblock_zero"
  shows "\<exists>f'. dcblock_times k (replicate n c) f = Some f' \<and> fl_inst f' = Dcblock_Inst (dc_state c k)"
proof (induction k)
  case 0
  then show ?case using assms(5) by (simp add: dc_state_def dcblock_zero_def DCBLOCK_NUMBLOCKS_def)
next
  case (Suc k)
  then show ?case using dcblock_step [OF assms(1-4)] by (auto simp del: replicate.simps)
qed

text \<open>C17: A signal of one constant level that is not negative is removed: after 99 blocks of it, of any size, a
  fresh DC blocker turns this and all later blocks of it into silence.\<close>

theorem dcblock_removes_constant:
  assumes "0 < n" "int n < 2 ^ 48" "0 \<le> c" "c \<le> 32767" "fl_inst f = Dcblock_Inst dcblock_zero" "99 \<le> k"
  shows "\<exists>f' f''. dcblock_times k (replicate n c) f = Some f' \<and> roardsp_dcblock_calc16 f' (replicate n c) n = Some (0, f'', replicate n 0)"
proof -
  obtain f' where f': "dcblock_times k (replicate n c) f = Some f'" "fl_inst f' = Dcblock_Inst (dc_state c k)"
    using dcblock_times_state [OF assms(1,3,4,2,5)] by blast
  have "int (min (Suc k) 100) * c sdiv 100 = c" using assms(3,6) by (simp add: min_def sdiv_pos)
  then show ?thesis using dcblock_step [OF assms(1,3,4,2) f'(2)] f'(1) by (simp add: wrap_s_id)
qed

theorem dcblock_removes_constant_witness:
  "\<exists>f' f''. dcblock_times 99 (replicate 2 7) (filter_zero\<lparr>fl_inst := Dcblock_Inst dcblock_zero\<rparr>) = Some f' \<and>
     roardsp_dcblock_calc16 f' (replicate 2 7) 2 = Some (0, f'', replicate 2 0)"
  using dcblock_removes_constant [of 2 7 "filter_zero\<lparr>fl_inst := Dcblock_Inst dcblock_zero\<rparr>" 99] by simp

text \<open>A negative level is not: its sum is divided as a number without sign, the quotient of 55 bits is rounded to the 24 bits of a
  \<open>float\<close>, and the lower half of what is left is the level. One block of a thousand samples of \<open>-1\<close>, next to silence, comes out at \<open>-20973\<close>.\<close>

theorem dcblock_negative_noise:
  "\<exists>f'. roardsp_dcblock_calc16 (filter_zero\<lparr>fl_inst := Dcblock_Inst dcblock_zero\<rparr>) (replicate 1000 (-1)) 1000 = Some (0, f', replicate 1000 (-20973))"
proof -
  have fl: "float32 18446744073709550 = 18446744949882880" by code_simp
  have "wrap_u 64 (- 1000) div 1000 = 18446744073709550" by (simp add: wrap_u_def)
  then have m: "dcblock_mean (replicate 1000 (-1)) 1000 = Some 18446744949882880"
    using fl trunc_zero_int [of 18446744949882880] by (simp add: dcblock_mean_def sum_list_replicate to_signed_def)
  have w: "wrap_s 32 18446744949882880 = - 2147483648" by (simp add: wrap_s_def)
  have u: "(replicate 100 0)[0 := - 2147483648 :: int] = - 2147483648 # replicate 99 0" by (simp add: numeral_eq_Suc)
  have "roardsp_dcblock_calc16 (filter_zero\<lparr>fl_inst := Dcblock_Inst dcblock_zero\<rparr>) (replicate 1000 (-1)) 1000 =
    map_option (\<lambda>data. (0, filter_zero\<lparr>fl_inst := Dcblock_Inst \<lparr>dc_cur = 1, dc_dc = - 2147483648 # replicate 99 0\<rparr>\<rparr>, data))
      (each_sample (\<lambda>x. Some (wrap_s 16 (x - (- 21474836)))) 1000 (replicate 1000 (- 1)))"
    by (simp add: roardsp_dcblock_calc16_def dcblock_zero_def DCBLOCK_NUMBLOCKS_def m w u Let_def signed_divide_int_def sum_list_replicate)
  then show ?thesis
    by (simp add: each_sample_map [of 1000 "replicate 1000 (- 1)"] wrap_s_def)
qed

text \<open>The high pass has no clipping: a step over the full scale after a long constant leaves the range of the sum of 32 bits, and the
  sample after the step, which should be the largest, is a small negative one. The coefficients are those of 25 Hz at 44100 Hz.\<close>

theorem highpass_step_lost:
  "snd (highp_sample 0 \<lparr>hi_freq = 25000, hi_a = 65419, hi_b = - 65419, hi_c = 65303, hi_oldout = [0], hi_oldin = [- 32768]\<rparr> 32767) = - 117 \<and>
   (32767 * 65419 + (- 32768) * (- 65419) + 0 * 65303) sdiv 65536 = (65418 :: int)"
  by (simp add: highp_sample_def Let_def wrap_s_def signed_divide_int_def)

end
