(* ===== verification/Dsp_Chain.thy ===== *)
theory Dsp_Chain
  imports Dsp_Single
begin

text \<open>
  The life of filters: the invariant of \<open>struct roardsp_filter\<close> and that every call keeps it, which filters \<open>roardsp_filter_init\<close> starts,
  and the chains of \<open>filterchain.c\<close> as pipes of filters.
\<close>

subsection \<open>The invariant of filters\<close>

definition inst_ok :: "int \<Rightarrow> filter_inst \<Rightarrow> bool" where
  "inst_ok i x = (case x of
       Int_Inst _ \<Rightarrow> i \<in> {FILTER_QUANTIFY, FILTER_CLIP, FILTER_DOWNMIX}
     | Amp_Inst _ \<Rightarrow> i \<in> {FILTER_AMP, FILTER_ADD}
     | Lowp_Inst l \<Rightarrow> i = FILTER_LOWP \<and> length (lo_old l) = ROAR_MAX_CHANNELS
     | Highp_Inst h \<Rightarrow> i = FILTER_HIGHP \<and> length (hi_oldin h) = ROAR_MAX_CHANNELS \<and> length (hi_oldout h) = ROAR_MAX_CHANNELS
     | Dcblock_Inst d \<Rightarrow> i = FILTER_DCBLOCK \<and> length (dc_dc d) = DCBLOCK_NUMBLOCKS \<and> dc_cur d < DCBLOCK_NUMBLOCKS
     | Swap_Inst m \<Rightarrow> i = FILTER_SWAP \<and> length m = ROAR_MAX_CHANNELS)"

definition row_ok :: "roardsp_filter \<Rightarrow> filterlist_row \<Rightarrow> bool" where
  "row_ok f l \<longleftrightarrow> fl_uninit f = fr_uninit l \<and> fl_ctl f = fr_ctl l \<and> fl_reset f = Some (fr_reset l) \<and>
     fl_calc f \<noteq> None \<and> fl_calc f \<in> set (concat (fr_calc l)) \<and> inst_ok (fr_id l) (fl_inst f)"

text \<open>All functions of a filter are of one row of the table, and its instance is of the type that they take it for, with arrays of their full size.\<close>

definition filter_ok :: "roardsp_filter \<Rightarrow> bool" where
  "filter_ok f \<longleftrightarrow> list_ex (row_ok f) filterlist"

text \<open>An operation that changes the instance only, within its type, keeps the invariant.\<close>

definition same_kind :: "roardsp_filter \<Rightarrow> roardsp_filter \<Rightarrow> bool" where
  "same_kind f f' \<longleftrightarrow> f' = f\<lparr>fl_inst := fl_inst f'\<rparr> \<and> (\<forall>i. inst_ok i (fl_inst f) \<longrightarrow> inst_ok i (fl_inst f'))"

lemma same_kind_refl [simp]: "same_kind f f"
  by (simp add: same_kind_def)

lemma same_kind_trans: "same_kind f g \<Longrightarrow> same_kind g h \<Longrightarrow> same_kind f h"
  unfolding same_kind_def by (metis roardsp_filter.surjective roardsp_filter.update_convs(4))

lemma same_kind_inst [simp]: "same_kind f (f\<lparr>fl_inst := x\<rparr>) \<longleftrightarrow> (\<forall>i. inst_ok i (fl_inst f) \<longrightarrow> inst_ok i x)"
  by (simp add: same_kind_def)

lemma same_kind_ok: assumes "same_kind f f'" "filter_ok f" shows "filter_ok f'"
proof -
  obtain x where f': "f' = f\<lparr>fl_inst := x\<rparr>" using assms(1) unfolding same_kind_def by blast
  with assms show ?thesis by (auto simp: filter_ok_def list_ex_iff row_ok_def)
qed

lemmas ctl_defs = roardsp_filter_ctl_def roardsp_amp_ctl_def roardsp_lowp_ctl_def roardsp_highp_ctl_def roardsp_quantify_ctl_def
  roardsp_clip_ctl_def roardsp_downmix_ctl_def roardsp_swap_ctl_def int_ctl_def

lemma ctl_same_kind: "roardsp_filter_ctl lp f cmd d = Some (r, f', d') \<Longrightarrow> same_kind f f'"
  by (auto simp: ctl_defs inst_ok_def split: option.splits ctl_fn.splits if_splits filter_inst.splits ctl_data.splits bind_splits)

lemma lowp_ctl_same_kind: "roardsp_lowp_ctl lp f cmd d = Some (r, f', d') \<Longrightarrow> same_kind f f'"
  by (auto simp: ctl_defs inst_ok_def split: if_splits filter_inst.splits ctl_data.splits bind_splits)

lemma highp_ctl_same_kind: "roardsp_highp_ctl lp f cmd d = Some (r, f', d') \<Longrightarrow> same_kind f f'"
  by (auto simp: ctl_defs inst_ok_def split: if_splits filter_inst.splits ctl_data.splits bind_splits)

lemma clear_same_kind:
  "lowp_clear f = Some (r, f') \<Longrightarrow> same_kind f f'"
  "highp_clear f = Some (r, f') \<Longrightarrow> same_kind f f'"
  by (auto simp: lowp_clear_def highp_clear_def inst_ok_def split: filter_inst.splits)

lemma lowp_reset_same_kind: "roardsp_lowp_reset lp f what = Some (r, f') \<Longrightarrow> same_kind f f'"
  by (auto simp: roardsp_lowp_reset_def split: if_splits bind_splits
      intro: clear_same_kind same_kind_trans [OF lowp_ctl_same_kind clear_same_kind(1)])

lemma highp_reset_same_kind: "roardsp_highp_reset lp f what = Some (r, f') \<Longrightarrow> same_kind f f'"
  by (auto simp: roardsp_highp_reset_def split: if_splits bind_splits
      intro: clear_same_kind same_kind_trans [OF highp_ctl_same_kind clear_same_kind(2)])

lemma int_reset_same_kind:
  "int_reset (int_ctl own g f cmd d) f what = Some (r, f') \<Longrightarrow> same_kind f f'"
  by (auto simp: int_reset_def reset_by_def int_ctl_def inst_ok_def split: if_splits filter_inst.splits ctl_data.splits)

lemma reset_same_kind: "roardsp_filter_reset lp f what = Some (r, f') \<Longrightarrow> same_kind f f'"
  by (auto simp: roardsp_filter_reset_def roardsp_amp_reset_def roardsp_add_reset_def roardsp_quantify_reset_def roardsp_clip_reset_def
      roardsp_downmix_reset_def roardsp_dcblock_reset_def roardsp_swap_reset_def roardsp_quantify_ctl_def roardsp_clip_ctl_def
      roardsp_downmix_ctl_def dcblock_zero_def DCBLOCK_NUMBLOCKS_def
      dest: lowp_reset_same_kind highp_reset_same_kind int_reset_same_kind
      split: option.splits reset_fn.splits if_splits filter_inst.splits)
    (auto simp: inst_ok_def DCBLOCK_NUMBLOCKS_def)

lemma each_channel_state:
  "each_channel g ch k n s xs = Some (s', ys) \<Longrightarrow> (\<And>c s x. P s \<Longrightarrow> P (fst (g c s x))) \<Longrightarrow> P s \<Longrightarrow> P s'"
proof (induction g ch k n s xs arbitrary: s' ys rule: each_channel.induct)
  case (2 g ch k n s x xs)
  obtain s1 y where g: "g (k mod ch) s x = (s1, y)" by fastforce
  with 2(2) obtain s2 zs where zs: "each_channel g ch (Suc k) n s1 xs = Some (s2, zs)" "s' = s2"
    by (auto split: bind_splits)
  have "P s1" using 2(3) [OF 2(4), of "k mod ch" x] g by simp
  then show ?case using 2(1) [OF g [symmetric] zs(1) 2(3)] zs(2) by simp
qed simp_all

text \<open>What every filter does to the samples.\<close>

definition calc_ok :: "roardsp_filter \<Rightarrow> int list \<Rightarrow> calc_result \<Rightarrow> bool" where
  "calc_ok f xs res \<longleftrightarrow> (\<forall>r f' ys. res = Some (r, f', ys) \<longrightarrow> (\<forall>x \<in> set xs. sample16 x) \<longrightarrow>
     same_kind f f' \<and> length ys = length xs \<and> (\<forall>y \<in> set ys. sample16 y))"

lemma wrap_s16: "sample16 (wrap_s 16 x)" "sample16 (wrap_s 8 x)"
  using wrap_s_range [of 16 x] wrap_s_range [of 8 x] by simp_all

lemma calc_ok_trivial [simp]: "calc_ok f xs None" "calc_ok f xs (Some (r, f, xs))"
  by (simp_all add: calc_ok_def)

lemma calc_ok_each:
  assumes "\<And>x y. sample16 x \<Longrightarrow> g x = Some y \<Longrightarrow> sample16 y" "same_kind f f'"
  shows "calc_ok f xs (map_option (\<lambda>xs. (r, f', xs)) (each_sample g n xs))"
proof (cases "each_sample g n xs")
  case (Some ys)
  have "(\<forall>x \<in> set xs. sample16 x) \<longrightarrow> length ys = length xs \<and> (\<forall>y \<in> set ys. sample16 y)"
    by (intro impI each_sample_all [OF Some assms(1)])
  then show ?thesis unfolding Some calc_ok_def option.map using assms(2) by blast
qed simp

lemma calc_ok_pair:
  assumes "\<And>x y. sample16 x \<Longrightarrow> sample16 y \<Longrightarrow> sample16 (fst (g x y)) \<and> sample16 (snd (g x y))"
  shows "calc_ok f xs (map_option (\<lambda>xs. (r, f, xs)) (each_pair g n xs))"
proof (cases "each_pair g n xs")
  case (Some ys)
  have "(\<forall>x \<in> set xs. sample16 x) \<longrightarrow> length ys = length xs \<and> (\<forall>y \<in> set ys. sample16 y)"
    by (intro impI each_pair_all [OF Some assms])
  then show ?thesis unfolding Some calc_ok_def option.map using same_kind_refl by blast
qed simp

lemma calc_ok_channel:
  assumes "\<And>c s x. sample16 (snd (g c s x))" "\<And>c s x. P s \<Longrightarrow> P (fst (g c s x))" "\<And>s'. (P s \<Longrightarrow> P s') \<Longrightarrow> same_kind f (mk s')"
  shows "calc_ok f xs (do { (s, xs) \<leftarrow> each_channel g ch k n s xs; Some (r, mk s, xs) })"
proof (cases "each_channel g ch k n s xs")
  case (Some p)
  obtain s' ys where p: "each_channel g ch k n s xs = Some (s', ys)" using Some by (cases p) simp
  have "same_kind f (mk s')" using each_channel_state [of g ch k n s xs s' ys P, OF p assms(2)] by (intro assms(3)) blast
  moreover have "(\<forall>x \<in> set xs. sample16 x) \<longrightarrow> length ys = length xs \<and> (\<forall>y \<in> set ys. sample16 y)"
    by (intro impI each_channel_all [of g ch k n s xs s' ys sample16, OF p assms(1)])
  ultimately show ?thesis unfolding p calc_ok_def bind.bind_lunit prod.case by blast
qed simp

lemma calc_ok_amp: "calc_ok f xs (roardsp_amp_calc8 f xs n)" "calc_ok f xs (roardsp_amp_calc16 f xs n)" "calc_ok f xs (roardsp_add_calc16 f xs n)"
  by (auto simp: roardsp_amp_calc8_def roardsp_amp_calc16_def roardsp_add_calc16_def amp_sample_def add_sample_def wrap_s16
      intro!: calc_ok_each split: filter_inst.splits)

lemma calc_ok_lowp: "calc_ok f xs (roardsp_lowp_calc16 f xs n)"
  by (auto simp: roardsp_lowp_calc16_def Let_def inst_ok_def lowp_sample_def wrap_s16 split: filter_inst.splits
      intro!: calc_ok_channel [where P = "\<lambda>l. length (lo_old l) = ROAR_MAX_CHANNELS"])

lemma calc_ok_highp: "calc_ok f xs (roardsp_highp_calc16 f xs n)"
  by (auto simp: roardsp_highp_calc16_def Let_def inst_ok_def highp_sample_def wrap_s16 split: filter_inst.splits
      intro!: calc_ok_channel [where P = "\<lambda>h. length (hi_oldin h) = ROAR_MAX_CHANNELS \<and> length (hi_oldout h) = ROAR_MAX_CHANNELS"])

lemma calc_ok_quantify: "calc_ok f xs (roardsp_quantify_calc16 f xs n)"
  by (auto simp: roardsp_quantify_calc16_def quantify_sample_def to_signed_def Let_def
      intro!: calc_ok_each split: filter_inst.splits if_splits bind_splits)

lemma calc_ok_clip: "calc_ok f xs (roardsp_clip_calc16 f xs n)"
  by (auto simp: roardsp_clip_calc16_def clip_sample_def wrap_s16 intro!: calc_ok_each split: filter_inst.splits if_splits)

lemma calc_ok_downmix: "calc_ok f xs (roardsp_downmix_calc162 f xs n)"
  by (auto simp: roardsp_downmix_calc162_def rms_pair_def Let_def wrap_s16 intro!: calc_ok_pair split: filter_inst.splits)

lemma calc_ok_swap: "calc_ok f xs (roardsp_swap_calc162 f xs n)"
  by (auto simp: roardsp_swap_calc162_def intro!: calc_ok_pair)

lemma calc_ok_dcblock: "calc_ok f xs (roardsp_dcblock_calc16 f xs n)"
  by (auto simp: roardsp_dcblock_calc16_def Let_def wrap_s16 inst_ok_def intro!: calc_ok_each split: filter_inst.splits bind_splits)

lemma run_calc_ok: "calc_ok f xs (run_calc c f xs n)"
  by (cases c) (simp_all add: run_calc_def calc_ok_amp calc_ok_lowp calc_ok_highp calc_ok_quantify calc_ok_clip calc_ok_downmix calc_ok_swap calc_ok_dcblock)

definition data_ok :: "nat \<Rightarrow> int list option \<Rightarrow> bool" where
  "data_ok n d \<longleftrightarrow> (case d of None \<Rightarrow> True | Some xs \<Rightarrow> length xs = n \<and> (\<forall>x \<in> set xs. sample16 x))"

lemma filter_calc_ok:
  assumes "roardsp_filter_calc f d n = Some (r, f', d')" "data_ok m d"
  shows "same_kind f f' \<and> data_ok m d' \<and> (d' = None \<longleftrightarrow> d = None)"
  using assms run_calc_ok [of f "case d of None \<Rightarrow> [] | Some xs \<Rightarrow> xs" _ n]
  by (auto simp: roardsp_filter_calc_def data_ok_def calc_ok_def split: if_splits option.splits)


lemmas init_defs = run_init_def roardsp_amp_init_def roardsp_add_init_def roardsp_lowp_init_def roardsp_highp_init_def roardsp_quantify_init_def
  roardsp_dcblock_init_def roardsp_swap_init_def started_def reset_by_def

text \<open>The start functions of the rows of the table.\<close>

lemma init_amp_row:
  assumes "run_init lp alloc (fr_init l) g = Some (0, f)" "fl_reset g = Some (fr_reset l)" "fl_inst g = Int_Inst 0"
    "l \<in> set (take 2 filterlist)"
  shows "f = g\<lparr>fl_inst := fl_inst f\<rparr> \<and> inst_ok (fr_id l) (fl_inst f)"
  using assms
  by (auto simp: filterlist_def init_defs roardsp_filter_reset_def roardsp_amp_reset_def roardsp_add_reset_def resets inst_ok_def split: if_splits)

lemma init_pass_row:
  assumes "run_init lp alloc (fr_init l) g = Some (0, f)" "fl_reset g = Some (fr_reset l)" "fl_inst g = Int_Inst 0"
    "l \<in> set (take 2 (drop 2 filterlist))"
  shows "f = g\<lparr>fl_inst := fl_inst f\<rparr> \<and> inst_ok (fr_id l) (fl_inst f)"
  using assms
  by (auto simp: filterlist_def init_defs roardsp_lowp_ctl_def roardsp_highp_ctl_def inst_ok_def split: if_splits bind_splits)

lemma init_int_row:
  assumes "run_init lp alloc (fr_init l) g = Some (0, f)" "fl_reset g = Some (fr_reset l)" "fl_inst g = Int_Inst 0"
    "l \<in> set (take 3 (drop 4 filterlist))"
  shows "f = g\<lparr>fl_inst := fl_inst f\<rparr> \<and> inst_ok (fr_id l) (fl_inst f)"
  using assms
  by (auto simp: filterlist_def init_defs roardsp_filter_reset_def roardsp_quantify_reset_def roardsp_clip_reset_def roardsp_downmix_reset_def
      int_reset_def roardsp_quantify_ctl_def roardsp_clip_ctl_def roardsp_downmix_ctl_def int_ctl_def resets inst_ok_def)

lemma init_last_row:
  assumes "run_init lp alloc (fr_init l) g = Some (0, f)" "fl_reset g = Some (fr_reset l)" "fl_inst g = Int_Inst 0"
    "l \<in> set (drop 7 filterlist)"
  shows "f = g\<lparr>fl_inst := fl_inst f\<rparr> \<and> inst_ok (fr_id l) (fl_inst f)"
  using assms
  by (auto simp: filterlist_def init_defs roardsp_swap_reset_def dcblock_zero_def DCBLOCK_NUMBLOCKS_def resets inst_ok_def split: if_splits)

lemma filterlist_parts: "set filterlist = set (take 2 filterlist) \<union> set (take 2 (drop 2 filterlist)) \<union> set (take 3 (drop 4 filterlist)) \<union> set (drop 7 filterlist)"
proof -
  have "filterlist = take 2 filterlist @ take 2 (drop 2 filterlist) @ take 3 (drop 4 filterlist) @ drop 7 filterlist"
    by (simp add: filterlist_def)
  then show ?thesis by (metis set_append sup_assoc)
qed

lemma calc_in_row:
  assumes "l \<in> set filterlist" "b \<le> 4" "c < 3"
  shows "fr_calc l ! b ! c \<in> set (concat (fr_calc l))"
proof -
  have "list_all (\<lambda>l. length (fr_calc l) = 5 \<and> list_all (\<lambda>r. length r = 3) (fr_calc l)) filterlist" by (simp add: filterlist_def)
  then have "length (fr_calc l) = 5" "\<forall>r \<in> set (fr_calc l). length r = 3" using assms(1) by (auto simp: list_all_iff)
  then show ?thesis using assms(2,3) by (auto intro!: bexI [of _ "fr_calc l ! b"])
qed

lemma init_ok: assumes "roardsp_filter_init lp alloc info i = Some (0, f)" shows "filter_ok f"
proof -
  obtain l where l: "find (\<lambda>l. fr_id l = i) filterlist = Some l" using assms
    by (cases "find (\<lambda>l. fr_id l = i) filterlist") (auto simp: roardsp_filter_init_def Let_def)
  have lf: "l \<in> set filterlist" using l by (auto simp: find_Some_iff)
  obtain g where g: "run_init lp alloc (fr_init l) g = Some (0, f)" "fl_reset g = Some (fr_reset l)" "fl_inst g = Int_Inst 0"
    "fl_uninit g = fr_uninit l" "fl_ctl g = fr_ctl l" "fl_calc g \<noteq> None" "fl_calc g \<in> set (concat (fr_calc l))"
    using assms l calc_in_row [OF lf]
    by (auto simp: roardsp_filter_init_def Let_def filter_zero_def simp del: set_concat split: if_splits)
  have "f = g\<lparr>fl_inst := fl_inst f\<rparr> \<and> inst_ok (fr_id l) (fl_inst f)"
    using lf init_amp_row [OF g(1-3)] init_pass_row [OF g(1-3)] init_int_row [OF g(1-3)] init_last_row [OF g(1-3)]
    unfolding filterlist_parts by blast
  then obtain x where "f = g\<lparr>fl_inst := x\<rparr>" "inst_ok (fr_id l) x" by metis
  then have "row_ok f l" using g by (simp add: row_ok_def)
  then show ?thesis using lf by (auto simp: filter_ok_def list_ex_iff)
qed

text \<open>The filters that calls of the library can make.\<close>

inductive filter_life :: "lp_fun \<Rightarrow> roardsp_filter \<Rightarrow> bool" for lp where
  life_init: "roardsp_filter_init lp alloc info i = Some (0, f) \<Longrightarrow> filter_life lp f"
| life_ctl: "filter_life lp f \<Longrightarrow> roardsp_filter_ctl lp f cmd d = Some (r, f', d') \<Longrightarrow> filter_life lp f'"
| life_reset: "filter_life lp f \<Longrightarrow> roardsp_filter_reset lp f what = Some (r, f') \<Longrightarrow> filter_life lp f'"
| life_calc: "filter_life lp f \<Longrightarrow> data_ok m data \<Longrightarrow> roardsp_filter_calc f data n = Some (r, f', data') \<Longrightarrow> filter_life lp f'"

text \<open>C15: A filter stays well-formed all its life: from a start that succeeded, by any control calls, resets and runs over samples, whatever
  they answer, its functions are of one row of the table and its instance has the type and the array
  sizes that these take for granted.\<close>

theorem filters_stay_ok: "filter_life lp f \<Longrightarrow> filter_ok f"
proof (induction rule: filter_life.induct)
  case (life_init alloc info i f)
  then show ?case by (rule init_ok)
next
  case (life_ctl f cmd d r f' d')
  then show ?case using ctl_same_kind same_kind_ok by blast
next
  case (life_reset f what r f')
  then show ?case using reset_same_kind same_kind_ok by blast
next
  case (life_calc f m data n r f' data')
  then show ?case using filter_calc_ok same_kind_ok by blast
qed

theorem filters_stay_ok_witness:
  "\<exists>f. roardsp_filter_init (\<lambda>_ _. 2832) True \<lparr>rate = 44100, bits = 16, channels = 2, codec = 0\<rparr> FILTER_CLIP = Some (0, f) \<and> filter_ok f"
proof -
  obtain f where "roardsp_filter_init (\<lambda>_ _. 2832) True \<lparr>rate = 44100, bits = 16, channels = 2, codec = 0\<rparr> FILTER_CLIP = Some (0, f)"
    by (simp add: roardsp_filter_init_def filterlist_def filter_ids wrap_s_def init_defs roardsp_filter_reset_def roardsp_clip_reset_def
        int_reset_def resets roardsp_clip_ctl_def int_ctl_def filter_zero_def Let_def)
  then show ?thesis using filters_stay_ok [OF life_init] by blast
qed

subsection \<open>Chains\<close>

text \<open>What the loop over a chain needs of the call it makes: that it keeps a property of the data and one of filters.\<close>

locale chain_op =
  fixes op :: "roardsp_filter \<Rightarrow> 'd \<Rightarrow> (c_int \<times> roardsp_filter option \<times> 'd) option"
    and I :: "'d \<Rightarrow> bool" and J :: "roardsp_filter \<Rightarrow> bool"
  assumes keeps: "op f d = Some (r, f', d') \<Longrightarrow> J f \<Longrightarrow> I d \<Longrightarrow> I d' \<and> pred_option J f'"
begin

lemma at_filter_keeps:
  assumes "at_filter (\<lambda>f. op f d) d p \<sigma> = Some (r, \<sigma>', d')" "I d" "\<forall>p. pred_option J (\<sigma> p)"
  shows "I d' \<and> (\<forall>p. pred_option J (\<sigma>' p))"
proof (cases "p = 0")
  case True
  then show ?thesis using assms by (auto simp: at_filter_def)
next
  case False
  then obtain f f' where f: "\<sigma> p = Some f" "op f d = Some (r, f', d')" "\<sigma>' = \<sigma>(p := f')"
    using assms(1) by (auto simp: at_filter_def split: option.splits)
  have "J f" using assms(3) f(1) by (metis option.pred_inject(2))
  then show ?thesis using keeps [OF f(2)] assms(2,3) f(3) by simp
qed

lemma loop_keeps:
  "fchain_loop op ps ret \<sigma> d = Some (r, \<sigma>', d') \<Longrightarrow> I d \<Longrightarrow> \<forall>p. pred_option J (\<sigma> p) \<Longrightarrow> I d' \<and> (\<forall>p. pred_option J (\<sigma>' p))"
proof (induction ps arbitrary: ret \<sigma> d)
  case (Cons p ps)
  then obtain r1 \<sigma>1 d1 where "at_filter (\<lambda>f. op f d) d p \<sigma> = Some (r1, \<sigma>1, d1)"
    "fchain_loop op ps (if r1 = -1 then -1 else ret) \<sigma>1 d1 = Some (r, \<sigma>', d')"
    by (auto split: bind_splits)
  then show ?case using at_filter_keeps Cons by blast
qed simp

end

text \<open>The filters that are not in the chain stay as they are.\<close>

lemma fchain_loop_frame: "fchain_loop op ps ret \<sigma> d = Some (r, \<sigma>', d') \<Longrightarrow> q \<notin> set ps \<Longrightarrow> \<sigma>' q = \<sigma> q"
  by (induction ps arbitrary: ret \<sigma> d) (auto simp: at_filter_def split: bind_splits if_splits option.splits)

interpretation calc_chain: chain_op "\<lambda>f d. map_option (\<lambda>(r, f, d). (r, Some f, d)) (roardsp_filter_calc f d n)"
  "\<lambda>d. data_ok m d \<and> (d = None \<longleftrightarrow> none)" filter_ok for n m none
  by unfold_locales (use filter_calc_ok same_kind_ok in fastforce)

interpretation reset_chain: chain_op "\<lambda>f (_ :: unit). map_option (\<lambda>(r, f). (r, Some f, ())) (roardsp_filter_reset lp f what)"
  "\<lambda>_. True" filter_ok for lp what
  by unfold_locales (use reset_same_kind same_kind_ok in fastforce)

text \<open>The specification of a chain, on filters instead of pointers to filters.\<close>

fun pipe :: "roardsp_filter list \<Rightarrow> int list option \<Rightarrow> nat \<Rightarrow> (bool \<times> roardsp_filter list \<times> int list option) option" where
  "pipe [] d n = Some (True, [], d)"
| "pipe (f # fs) d n = do { (r, f', d') \<leftarrow> roardsp_filter_calc f d n; (good, fs', d'') \<leftarrow> pipe fs d' n; Some (r \<noteq> -1 \<and> good, f' # fs', d'') }"

fun store_all :: "nat list \<Rightarrow> roardsp_filter list \<Rightarrow> filter_store \<Rightarrow> filter_store" where
  "store_all (p # ps) (f # fs) \<sigma> = store_all ps fs (\<sigma>(p \<mapsto> f))"
| "store_all _ _ \<sigma> = \<sigma>"

lemma fchain_loop_pipe:
  assumes "distinct ps" "0 \<notin> set ps" "map \<sigma> ps = map Some fs"
  shows "fchain_loop (\<lambda>f d. map_option (\<lambda>(r, f, d). (r, Some f, d)) (roardsp_filter_calc f d n)) ps ret \<sigma> d =
    map_option (\<lambda>(good, fs', d'). (if good then ret else -1, store_all ps fs' \<sigma>, d')) (pipe fs d n)"
  using assms
proof (induction ps arbitrary: ret \<sigma> d fs)
  case Nil
  then show ?case by simp
next
  case (Cons p ps)
  then obtain f fs' where fs: "fs = f # fs'" "\<sigma> p = Some f" "map \<sigma> ps = map Some fs'" by (cases fs) auto
  show ?case
  proof (cases "roardsp_filter_calc f d n")
    case None
    then show ?thesis using Cons.prems fs by (simp add: at_filter_def)
  next
    case (Some t)
    obtain r f' d' where t: "t = (r, f', d')" by (cases t) auto
    have "map (\<sigma>(p \<mapsto> f')) ps = map Some fs'" using Cons.prems(1) fs(3) by (metis distinct.simps(2) fun_upd_apply map_cong)
    then have "fchain_loop (\<lambda>f d. map_option (\<lambda>(r, f, d). (r, Some f, d)) (roardsp_filter_calc f d n)) ps (if r = -1 then -1 else ret) (\<sigma>(p \<mapsto> f')) d' =
      map_option (\<lambda>(good, fs', d'). (if good then (if r = -1 then -1 else ret) else -1, store_all ps fs' (\<sigma>(p \<mapsto> f')), d')) (pipe fs' d' n)"
      using Cons.IH Cons.prems by simp
    then show ?thesis using Some t fs Cons.prems by (cases "pipe fs' d' n") (auto simp: at_filter_def)
  qed
qed

definition fchain_adds :: "nat list \<Rightarrow> roardsp_filterchain" where
  "fchain_adds ps = foldl (\<lambda>chain p. snd (roardsp_fchain_add chain p)) roardsp_fchain_init ps"

lemma fchain_adds_list:
  "length ps \<le> MAX_FILTERS_PER_CHAIN \<Longrightarrow> fchain_list (fchain_adds ps) = ps \<and> fc_filters (fchain_adds ps) = length ps \<and>
   length (fc_filter (fchain_adds ps)) = MAX_FILTERS_PER_CHAIN"
proof (induction ps rule: rev_induct)
  case Nil
  then show ?case by (simp add: fchain_adds_def fchain_list_def roardsp_fchain_init_def)
next
  case (snoc p ps)
  have "fchain_adds (ps @ [p]) = snd (roardsp_fchain_add (fchain_adds ps) p)" by (simp add: fchain_adds_def)
  then show ?case using snoc by (auto simp: fchain_list_def roardsp_fchain_add_def take_Suc_conv_app_nth)
qed


text \<open>C13: A chain to which up to eight different filters have been added works like a pipe of these filters: each one runs on what the one before
  it has left, in the order of their addition, and on its own state; the filters in the store are those of the pipe afterwards. A filter that
  fails does not stop those behind it; it makes the result \<open>-1\<close>. A ninth filter is refused and changes nothing.\<close>

theorem chain_is_pipe:
  assumes "length ps \<le> MAX_FILTERS_PER_CHAIN" "distinct ps" "0 \<notin> set ps" "map \<sigma> ps = map Some fs"
  shows "roardsp_fchain_calc (fchain_adds ps) \<sigma> data len =
      map_option (\<lambda>(good, fs', data'). (if good then 0 else -1, store_all ps fs' \<sigma>, data')) (pipe fs data len) \<and>
    roardsp_fchain_num (fchain_adds ps) = int (length ps) \<and>
    roardsp_fchain_add (fchain_adds ps) p = (if length ps < MAX_FILTERS_PER_CHAIN then (0, fchain_adds (ps @ [p])) else (-1, fchain_adds ps))"
  using fchain_adds_list [OF assms(1)] fchain_loop_pipe [OF assms(2-4)]
  by (simp add: roardsp_fchain_calc_def roardsp_fchain_num_def roardsp_fchain_add_def fchain_adds_def)

theorem chain_is_pipe_witness:
  "\<exists>\<sigma>'. roardsp_fchain_calc (fchain_adds [2, 1])
      [1 \<mapsto> filter_zero\<lparr>fl_inst := Int_Inst 100, fl_calc := Some Clip_calc16\<rparr>,
       2 \<mapsto> filter_zero\<lparr>fl_inst := Amp_Inst \<lparr>am_mul = 3, am_div = 2\<rparr>, fl_calc := Some Amp_calc16\<rparr>] (Some [50, 90, -80]) 3 =
     Some (0, \<sigma>', Some [75, 100, -100])"
  using chain_is_pipe [of "[2, 1]" "[1 \<mapsto> filter_zero\<lparr>fl_inst := Int_Inst 100, fl_calc := Some Clip_calc16\<rparr>,
       2 \<mapsto> filter_zero\<lparr>fl_inst := Amp_Inst \<lparr>am_mul = 3, am_div = 2\<rparr>, fl_calc := Some Amp_calc16\<rparr>]"
     "[filter_zero\<lparr>fl_inst := Amp_Inst \<lparr>am_mul = 3, am_div = 2\<rparr>, fl_calc := Some Amp_calc16\<rparr>,
       filter_zero\<lparr>fl_inst := Int_Inst 100, fl_calc := Some Clip_calc16\<rparr>]" "Some [50, 90, -80]" 3]
  by (simp add: MAX_FILTERS_PER_CHAIN_def roardsp_filter_calc_def run_calc_def roardsp_amp_calc16_def roardsp_clip_calc16_def amp_sample_def
      clip_sample_def divide32_def wrap_s_def signed_divide_int_def numeral_3_eq_3)

text \<open>Whatever filters a chain has and whether they fail or not, the samples that come out are 16 bit samples, as
  many as went in, and the filters of the store are still well-formed.\<close>

theorem chain_keeps_samples:
  assumes "roardsp_fchain_calc chain \<sigma> (Some xs) n = Some (r, \<sigma>', d)" "\<forall>x \<in> set xs. sample16 x" "\<forall>p. pred_option filter_ok (\<sigma> p)"
  shows "\<exists>ys. d = Some ys \<and> length ys = length xs \<and> (\<forall>y \<in> set ys. sample16 y) \<and> (\<forall>p. pred_option filter_ok (\<sigma>' p))"
proof -
  have "data_ok (length xs) (Some xs)" using assms(2) by (simp add: data_ok_def)
  then have "data_ok (length xs) d" "d \<noteq> None" "\<forall>p. pred_option filter_ok (\<sigma>' p)"
    using calc_chain.loop_keeps [of n _ _ _ _ _ _ _ "length xs" False, OF assms(1) [unfolded roardsp_fchain_calc_def]] assms(3) by auto
  then show ?thesis by (auto simp: data_ok_def)
qed

theorem chain_keeps_samples_witness:
  "\<exists>r \<sigma>' d ys. roardsp_fchain_calc (fchain_adds [1]) [1 \<mapsto> filter_zero\<lparr>fl_inst := Amp_Inst \<lparr>am_mul = 3, am_div = 2\<rparr>, fl_calc := Some Amp_calc16,
      fl_uninit := Some Amp_uninit, fl_ctl := Some Amp_ctl, fl_reset := Some Amp_reset\<rparr>] (Some [32767]) 1 = Some (r, \<sigma>', d) \<and>
     d = Some ys \<and> length ys = 1 \<and> (\<forall>y \<in> set ys. sample16 y)"
proof -
  let ?f = "filter_zero\<lparr>fl_inst := Amp_Inst \<lparr>am_mul = 3, am_div = 2\<rparr>, fl_calc := Some Amp_calc16,
      fl_uninit := Some Amp_uninit, fl_ctl := Some Amp_ctl, fl_reset := Some Amp_reset\<rparr>"
  have "filter_ok ?f" by (simp add: filter_ok_def filterlist_def row_ok_def inst_ok_def)
  moreover obtain r \<sigma>' d where "roardsp_fchain_calc (fchain_adds [1]) [1 \<mapsto> ?f] (Some [32767]) 1 = Some (r, \<sigma>', d)"
    by (simp add: roardsp_fchain_calc_def fchain_adds_list MAX_FILTERS_PER_CHAIN_def at_filter_def roardsp_filter_calc_def run_calc_def
        roardsp_amp_calc16_def amp_sample_def divide32_def wrap_s_def)
  moreover have "\<forall>p. pred_option filter_ok (([1 \<mapsto> ?f] :: filter_store) p)" using calculation(1) by simp
  ultimately show ?thesis
    using chain_keeps_samples [of "fchain_adds [1]" "[1 \<mapsto> ?f]" "[32767]" 1 r \<sigma>' d] by auto
qed

subsection \<open>Which filters there are\<close>

text \<open>The formats that a filter exists for.\<close>

definition filter_for :: "int \<Rightarrow> nat \<Rightarrow> int \<Rightarrow> bool" where
  "filter_for i bytes ch \<longleftrightarrow>
     i = FILTER_AMP \<and> bytes \<in> {1, 2} \<or>
     i \<in> {FILTER_ADD, FILTER_LOWP, FILTER_HIGHP, FILTER_QUANTIFY, FILTER_CLIP, FILTER_DCBLOCK} \<and> bytes = 2 \<or>
     i \<in> {FILTER_DOWNMIX, FILTER_SWAP} \<and> bytes = 2 \<and> ch = 2"

definition pick_calc :: "filterlist_row \<Rightarrow> nat \<Rightarrow> int \<Rightarrow> calc_fn option" where
  "pick_calc l bytes ch = (let calc = (if ch < 3 then fr_calc l ! bytes ! nat ch else None) in if calc = None then fr_calc l ! bytes ! 0 else calc)"

lemma pick_calc_table:
  "list_all (\<lambda>l. list_all (\<lambda>b. list_all (\<lambda>c. (pick_calc l b c \<noteq> None) = filter_for (fr_id l) b c) [0, 1, 2, 3]) [0..<5]) filterlist"
  by code_simp

lemma pick_calc_rows:
  assumes "l \<in> set filterlist" "bytes \<le> 4" "0 \<le> ch"
  shows "pick_calc l bytes ch \<noteq> None \<longleftrightarrow> filter_for (fr_id l) bytes ch"
proof -
  have "bytes \<in> set [0..<5]" using assms(2) by simp
  then have t: "\<forall>c \<in> set [0, 1, 2, 3]. (pick_calc l bytes c \<noteq> None) = filter_for (fr_id l) bytes c"
    using pick_calc_table assms(1) unfolding list_all_iff by blast
  show ?thesis
  proof (cases "ch < 3")
    case True
    then have "ch \<in> set [0, 1, 2, 3]" using assms(3) by auto
    then show ?thesis using t by blast
  next
    case False
    then have "pick_calc l bytes ch = pick_calc l bytes 3" "filter_for (fr_id l) bytes ch = filter_for (fr_id l) bytes 3"
      by (auto simp: pick_calc_def filter_for_def)
    then show ?thesis using t by simp
  qed
qed

lemma filterlist_rows:
  "filterlist = take 2 filterlist @ [filterlist ! 2, filterlist ! 3] @ take 3 (drop 4 filterlist) @ take 2 (drop 7 filterlist) @ [filterlist ! 9]"
  by (simp add: filterlist_def)

lemma init_succeeds:
  assumes "l \<in> set filterlist" "filter_for (fr_id l) bytes ch"
    "fl_reset g = Some (fr_reset l)" "fl_inst g = Int_Inst 0" "0 \<le> fl_rate g" "fl_rate g \<le> 4000000"
    "1 \<le> lp (float32 (of_int (fl_rate g sdiv 2))) (fl_rate g)" "lp (float32 (of_int (fl_rate g sdiv 2))) (fl_rate g) \<le> 65535"
    "0 \<le> lp 25 (fl_rate g)" "lp 25 (fl_rate g) \<le> 65536"
  shows "\<exists>f. run_init lp True (fr_init l) g = Some (0, f)"
proof -
  define q :: rat where "q = float32 (of_int (fl_rate g sdiv 2))"
  have r: "0 \<le> fl_rate g sdiv 2" "fl_rate g sdiv 2 \<le> 2000000"
    using assms(5,6) by (simp_all add: sdiv_pos pos_imp_zdiv_nonneg_iff)
  then have qq: "q = of_int (fl_rate g sdiv 2)" unfolding q_def by (intro float32_int) simp
  have "0 \<le> q" unfolding qq using r(1) by (simp only: of_int_0_le_iff)
  moreover have "q \<le> of_int 2000000" unfolding qq using r(2) by (simp only: of_int_le_iff)
  then have "q \<le> 4000000" by simp
  ultimately have lo: "\<exists>f d. roardsp_lowp_ctl lp (g\<lparr>fl_inst := Lowp_Inst x\<rparr>) FCTL_FREQ (Float q) = Some (0, f, d)" for x
    using lowp_ctl_coeffs [of "g\<lparr>fl_inst := Lowp_Inst x\<rparr>" x lp q] assms(7,8) by (fastforce simp: q_def)
  have hi: "\<exists>f d. roardsp_highp_ctl lp (g\<lparr>fl_inst := Highp_Inst x\<rparr>) FCTL_FREQ (Float 25) = Some (0, f, d)" for x
    using highp_ctl_ok [of "g\<lparr>fl_inst := Highp_Inst x\<rparr>" x lp 25] assms(9,10) by simp
  consider "l = filterlist ! 2" | "l = filterlist ! 3" | "l \<in> set (take 2 filterlist)" | "l \<in> set (take 3 (drop 4 filterlist))"
    | "l \<in> set (take 2 (drop 7 filterlist))" | "l = filterlist ! 9"
    using assms(1) unfolding arg_cong [OF filterlist_rows, of set] set_append by auto
  then show ?thesis
  proof cases
    case 1
    then show ?thesis using lo by (simp add: filterlist_def init_defs q_def [symmetric]) blast
  next
    case 2
    then show ?thesis using hi by (simp add: filterlist_def init_defs) blast
  next
    case 3
    then show ?thesis using assms(3)
      by (auto simp: filterlist_def init_defs roardsp_filter_reset_def roardsp_amp_reset_def roardsp_add_reset_def resets)
  next
    case 4
    then show ?thesis using assms(3,4)
      by (auto simp: filterlist_def init_defs roardsp_filter_reset_def roardsp_quantify_reset_def roardsp_clip_reset_def roardsp_downmix_reset_def
          int_reset_def roardsp_quantify_ctl_def roardsp_clip_ctl_def roardsp_downmix_ctl_def int_ctl_def resets)
  next
    case 5
    then show ?thesis by (auto simp: filterlist_def init_defs roardsp_swap_reset_def resets)
  next
    case 6
    then show ?thesis using assms(2) by (simp add: filterlist_def filter_for_def filter_ids)
  qed
qed

lemma filterlist_ids: "(\<forall>l \<in> set filterlist. P (fr_id l)) \<longleftrightarrow> P FILTER_AMP \<and> P FILTER_ADD \<and> P FILTER_LOWP \<and> P FILTER_HIGHP \<and> P FILTER_QUANTIFY \<and>
    P FILTER_CLIP \<and> P FILTER_DOWNMIX \<and> P FILTER_DCBLOCK \<and> P FILTER_SWAP \<and> P FILTER_AGC"
  by (simp add: filterlist_def)



text \<open>The AGC has a row without any function for samples: its start fails before its own functions are called, for every format that the table has columns for.\<close>

lemma agc_never_starts:
  assumes "0 \<le> bits info" "bits info < 40" "0 \<le> channels info" "channels info < 2 ^ 31"
  shows "\<exists>f. roardsp_filter_init lp alloc info FILTER_AGC = Some (-1, f) \<and> fl_inst f = Int_Inst 0"
proof -
  obtain l where l: "find (\<lambda>l. fr_id l = FILTER_AGC) filterlist = Some l" "fr_calc l = replicate 5 [None, None, None]"
    by (simp add: filterlist_def filter_ids numeral_eq_Suc)
  have "nat (bits info div 8) < 5" "channels info < 3 \<Longrightarrow> nat (channels info) < 3" using assms by simp_all
  moreover have "[None, None, None] ! c = (None :: calc_fn option)" if "c < 3" for c :: nat
    using that by (auto simp: less_Suc_eq numeral_eq_Suc)
  ultimately show ?thesis using l assms by (auto simp: roardsp_filter_init_def Let_def wrap_s_id filter_zero_def)
qed

text \<open>The end of a DC blocker that has been started: its row has no function for it, so that the memory of its instance is never freed.\<close>

theorem dcblock_leaks:
  assumes "filter_ok f" "fl_inst f = Dcblock_Inst d"
  shows "\<exists>f'. roardsp_filter_uninit f = Some (0, False, f')"
  using assms by (auto simp: filter_ok_def filterlist_def row_ok_def inst_ok_def filter_ids roardsp_filter_uninit_def)

text \<open>The root of the mixer to mono.\<close>

lemma root_half_fold:
  fixes r m :: int
  assumes "0 \<le> r" "2 * r\<^sup>2 \<le> m" "m < 2 * (r + 2 ^ k)\<^sup>2"
  shows "let s = foldl (\<lambda>r b. if 2 * (r + 2 ^ b)\<^sup>2 \<le> m then r + 2 ^ b else r) r (rev [0..<k]) in 0 \<le> s \<and> 2 * s\<^sup>2 \<le> m \<and> m < 2 * (s + 1)\<^sup>2"
  using assms
proof (induction k arbitrary: r)
  case 0
  then show ?case by simp
next
  case (Suc k)
  show ?case
  proof (cases "2 * (r + 2 ^ k)\<^sup>2 \<le> m")
    case True
    have "r + 2 ^ k + 2 ^ k = r + 2 ^ Suc k" by simp
    then have "m < 2 * (r + 2 ^ k + 2 ^ k)\<^sup>2" using Suc.prems(3) by presburger
    then show ?thesis using Suc.IH [of "r + 2 ^ k"] Suc.prems(1) True by simp
  next
    case False
    then show ?thesis using Suc.IH [of r] Suc.prems by simp
  qed
qed

text \<open>The mode of the mixer to mono that keeps the loudness computes, for any two 16 bit samples, the integer part of the root of their mean square,
  with the sign of their sum; the result is a sample, with the one exception of twice the smallest sample,
  which gives the smallest sample again.\<close>

theorem rms_pair_root:
  assumes "sample16 x" "sample16 y"
  shows "\<exists>s. 0 \<le> s \<and> 2 * s\<^sup>2 \<le> x\<^sup>2 + y\<^sup>2 \<and> x\<^sup>2 + y\<^sup>2 < 2 * (s + 1)\<^sup>2 \<and> rms_pair x y = (if x + y < 0 then - s else s)"
proof -
  have "\<bar>x\<bar> \<le> \<bar>32768\<bar>" "\<bar>y\<bar> \<le> \<bar>32768\<bar>" using assms by linarith+
  then have b: "x\<^sup>2 \<le> 32768\<^sup>2" "y\<^sup>2 \<le> 32768\<^sup>2" by (simp_all only: abs_le_square_iff)
  define s where "s = root_half (x\<^sup>2 + y\<^sup>2)"
  have s: "0 \<le> s" "2 * s\<^sup>2 \<le> x\<^sup>2 + y\<^sup>2" "x\<^sup>2 + y\<^sup>2 < 2 * (s + 1)\<^sup>2"
    using root_half_fold [of 0 "x\<^sup>2 + y\<^sup>2" 16] b by (simp_all add: s_def root_half_def Let_def)
  have "s\<^sup>2 \<le> 32768\<^sup>2" using s(2) b by linarith
  then have le: "s \<le> 32768" by (rule power2_le_imp_le) simp
  have "x + y < 0" if "s = 32768"
  proof -
    have "\<bar>32768\<bar>\<^sup>2 \<le> x\<^sup>2" "\<bar>32768\<bar>\<^sup>2 \<le> y\<^sup>2" using s(2) b that by auto
    then have "\<bar>32768\<bar> \<le> \<bar>x\<bar>" "\<bar>32768\<bar> \<le> \<bar>y\<bar>" by (simp_all only: abs_le_square_iff power2_abs)
    then show ?thesis using assms by linarith
  qed
  then have "wrap_s 16 (if x + y < 0 then - s else s) = (if x + y < 0 then - s else s)"
    using le s(1) by (auto intro!: wrap_s_id simp: order.strict_iff_order)
  then have "rms_pair x y = (if x + y < 0 then - s else s)"
    by (simp add: rms_pair_def s_def power2_eq_square cong: if_cong)
  then show ?thesis using s by blast
qed

theorem rms_pair_root_witness:
  "\<exists>s. 0 \<le> s \<and> 2 * s\<^sup>2 \<le> 300\<^sup>2 + (- 400)\<^sup>2 \<and> 300\<^sup>2 + (- 400)\<^sup>2 < 2 * (s + 1)\<^sup>2 \<and> rms_pair 300 (- 400) = - s"
  using rms_pair_root [of 300 "- 400"] by simp

end
