(* ===== verification/Dsp_Law.thy ===== *)
theory Dsp_Law
  imports Conv_Bits
begin

unbundle bit_operations_syntax

text \<open>
  The A-law and mu-law codecs of \<open>src/libroardsp/alaw.c\<close> and \<open>src/libroardsp/mulaw.c\<close>. The tables that decode are
  lists as in the code. The tables that encode have 8192 and 16384 entries in long runs of the same byte; here they are lists of runs, a length and
  a byte. The entries of these tables are the bytes 0 to 255, as they are written in the code. Both directions work on
  one buffer in place.
\<close>

definition alaw2pcm16 :: "int list" where
  "alaw2pcm16 = [
     - 5504, - 5248, - 6016, - 5760, - 4480, - 4224, - 4992, - 4736, - 7552, - 7296, - 8064, - 7808, - 6528, - 6272, - 7040, - 6784, - 2752, - 2624,
     - 3008, - 2880, - 2240, - 2112, - 2496, - 2368, - 3776, - 3648, - 4032, - 3904, - 3264, - 3136, - 3520, - 3392, - 22016, - 20992, - 24064,
     - 23040, - 17920, - 16896, - 19968, - 18944, - 30208, - 29184, - 32256, - 31232, - 26112, - 25088, - 28160, - 27136, - 11008, - 10496, - 12032,
     - 11520, - 8960, - 8448, - 9984, - 9472, - 15104, - 14592, - 16128, - 15616, - 13056, - 12544, - 14080, - 13568, - 344, - 328, - 376, - 360,
     - 280, - 264, - 312, - 296, - 472, - 456, - 504, - 488, - 408, - 392, - 440, - 424, - 88, - 72, - 120, - 104, - 24, - 8, - 56, - 40, - 216,
     - 200, - 248, - 232, - 152, - 136, - 184, - 168, - 1376, - 1312, - 1504, - 1440, - 1120, - 1056, - 1248, - 1184, - 1888, - 1824, - 2016, - 1952,
     - 1632, - 1568, - 1760, - 1696, - 688, - 656, - 752, - 720, - 560, - 528, - 624, - 592, - 944, - 912, - 1008, - 976, - 816, - 784, - 880, - 848,
     5504, 5248, 6016, 5760, 4480, 4224, 4992, 4736, 7552, 7296, 8064, 7808, 6528, 6272, 7040, 6784, 2752, 2624, 3008, 2880, 2240, 2112, 2496, 2368,
     3776, 3648, 4032, 3904, 3264, 3136, 3520, 3392, 22016, 20992, 24064, 23040, 17920, 16896, 19968, 18944, 30208, 29184, 32256, 31232, 26112,
     25088, 28160, 27136, 11008, 10496, 12032, 11520, 8960, 8448, 9984, 9472, 15104, 14592, 16128, 15616, 13056, 12544, 14080, 13568, 344, 328, 376,
     360, 280, 264, 312, 296, 472, 456, 504, 488, 408, 392, 440, 424, 88, 72, 120, 104, 24, 8, 56, 40, 216, 200, 248, 232, 152, 136, 184, 168, 1376,
     1312, 1504, 1440, 1120, 1056, 1248, 1184, 1888, 1824, 2016, 1952, 1632, 1568, 1760, 1696, 688, 656, 752, 720, 560, 528, 624, 592, 944, 912,
     1008, 976, 816, 784, 880, 848]"

definition pcm132alaw :: "(int \<times> int) list" where
  "pcm132alaw = [
     (128, 42), (128, 43), (128, 40), (128, 41), (128, 46), (128, 47), (128, 44), (128, 45), (128, 34), (128, 35), (128, 32), (128, 33), (128, 38),
     (128, 39), (128, 36), (128, 37), (64, 58), (64, 59), (64, 56), (64, 57), (64, 62), (64, 63), (64, 60), (64, 61), (64, 50), (64, 51), (64, 48),
     (64, 49), (64, 54), (64, 55), (64, 52), (64, 53), (32, 10), (32, 11), (32, 8), (32, 9), (32, 14), (32, 15), (32, 12), (32, 13), (32, 2),
     (32, 3), (32, 0), (32, 1), (32, 6), (32, 7), (32, 4), (32, 5), (16, 26), (16, 27), (16, 24), (16, 25), (16, 30), (16, 31), (16, 28), (16, 29),
     (16, 18), (16, 19), (16, 16), (16, 17), (16, 22), (16, 23), (16, 20), (16, 21), (8, 106), (8, 107), (8, 104), (8, 105), (8, 110), (8, 111),
     (8, 108), (8, 109), (8, 98), (8, 99), (8, 96), (8, 97), (8, 102), (8, 103), (8, 100), (8, 101), (4, 122), (4, 123), (4, 120), (4, 121),
     (4, 126), (4, 127), (4, 124), (4, 125), (4, 114), (4, 115), (4, 112), (4, 113), (4, 118), (4, 119), (4, 116), (4, 117), (2, 74), (2, 75),
     (2, 72), (2, 73), (2, 78), (2, 79), (2, 76), (2, 77), (2, 66), (2, 67), (2, 64), (2, 65), (2, 70), (2, 71), (2, 68), (2, 69), (2, 90), (2, 91),
     (2, 88), (2, 89), (2, 94), (2, 95), (2, 92), (2, 93), (2, 82), (2, 83), (2, 80), (2, 81), (2, 86), (2, 87), (2, 84), (2, 85), (2, 213),
     (2, 212), (2, 215), (2, 214), (2, 209), (2, 208), (2, 211), (2, 210), (2, 221), (2, 220), (2, 223), (2, 222), (2, 217), (2, 216), (2, 219),
     (2, 218), (2, 197), (2, 196), (2, 199), (2, 198), (2, 193), (2, 192), (2, 195), (2, 194), (2, 205), (2, 204), (2, 207), (2, 206), (2, 201),
     (2, 200), (2, 203), (2, 202), (4, 245), (4, 244), (4, 247), (4, 246), (4, 241), (4, 240), (4, 243), (4, 242), (4, 253), (4, 252), (4, 255),
     (4, 254), (4, 249), (4, 248), (4, 251), (4, 250), (8, 229), (8, 228), (8, 231), (8, 230), (8, 225), (8, 224), (8, 227), (8, 226), (8, 237),
     (8, 236), (8, 239), (8, 238), (8, 233), (8, 232), (8, 235), (8, 234), (16, 149), (16, 148), (16, 151), (16, 150), (16, 145), (16, 144),
     (16, 147), (16, 146), (16, 157), (16, 156), (16, 159), (16, 158), (16, 153), (16, 152), (16, 155), (16, 154), (32, 133), (32, 132), (32, 135),
     (32, 134), (32, 129), (32, 128), (32, 131), (32, 130), (32, 141), (32, 140), (32, 143), (32, 142), (32, 137), (32, 136), (32, 139), (32, 138),
     (64, 181), (64, 180), (64, 183), (64, 182), (64, 177), (64, 176), (64, 179), (64, 178), (64, 189), (64, 188), (64, 191), (64, 190), (64, 185),
     (64, 184), (64, 187), (64, 186), (128, 165), (128, 164), (128, 167), (128, 166), (128, 161), (128, 160), (128, 163), (128, 162), (128, 173),
     (128, 172), (128, 175), (128, 174), (128, 169), (128, 168), (128, 171), (128, 170)]"

definition mulaw2pcm16 :: "int list" where
  "mulaw2pcm16 = [
     - 32124, - 31100, - 30076, - 29052, - 28028, - 27004, - 25980, - 24956, - 23932, - 22908, - 21884, - 20860, - 19836, - 18812, - 17788, - 16764,
     - 15996, - 15484, - 14972, - 14460, - 13948, - 13436, - 12924, - 12412, - 11900, - 11388, - 10876, - 10364, - 9852, - 9340, - 8828, - 8316,
     - 7932, - 7676, - 7420, - 7164, - 6908, - 6652, - 6396, - 6140, - 5884, - 5628, - 5372, - 5116, - 4860, - 4604, - 4348, - 4092, - 3900, - 3772,
     - 3644, - 3516, - 3388, - 3260, - 3132, - 3004, - 2876, - 2748, - 2620, - 2492, - 2364, - 2236, - 2108, - 1980, - 1884, - 1820, - 1756, - 1692,
     - 1628, - 1564, - 1500, - 1436, - 1372, - 1308, - 1244, - 1180, - 1116, - 1052, - 988, - 924, - 876, - 844, - 812, - 780, - 748, - 716, - 684,
     - 652, - 620, - 588, - 556, - 524, - 492, - 460, - 428, - 396, - 372, - 356, - 340, - 324, - 308, - 292, - 276, - 260, - 244, - 228, - 212,
     - 196, - 180, - 164, - 148, - 132, - 120, - 112, - 104, - 96, - 88, - 80, - 72, - 64, - 56, - 48, - 40, - 32, - 24, - 16, - 8, 0, 32124, 31100,
     30076, 29052, 28028, 27004, 25980, 24956, 23932, 22908, 21884, 20860, 19836, 18812, 17788, 16764, 15996, 15484, 14972, 14460, 13948, 13436,
     12924, 12412, 11900, 11388, 10876, 10364, 9852, 9340, 8828, 8316, 7932, 7676, 7420, 7164, 6908, 6652, 6396, 6140, 5884, 5628, 5372, 5116, 4860,
     4604, 4348, 4092, 3900, 3772, 3644, 3516, 3388, 3260, 3132, 3004, 2876, 2748, 2620, 2492, 2364, 2236, 2108, 1980, 1884, 1820, 1756, 1692, 1628,
     1564, 1500, 1436, 1372, 1308, 1244, 1180, 1116, 1052, 988, 924, 876, 844, 812, 780, 748, 716, 684, 652, 620, 588, 556, 524, 492, 460, 428, 396,
     372, 356, 340, 324, 308, 292, 276, 260, 244, 228, 212, 196, 180, 164, 148, 132, 120, 112, 104, 96, 88, 80, 72, 64, 56, 48, 40, 32, 24, 16, 8, 0]"

definition pcm142mulaw :: "(int \<times> int) list" where
  "pcm142mulaw = [
     (290, 0), (256, 1), (256, 2), (256, 3), (256, 4), (256, 5), (256, 6), (256, 7), (256, 8), (256, 9), (256, 10), (256, 11), (256, 12), (256, 13),
     (256, 14), (256, 15), (128, 16), (128, 17), (128, 18), (128, 19), (128, 20), (128, 21), (128, 22), (128, 23), (128, 24), (128, 25), (128, 26),
     (128, 27), (128, 28), (128, 29), (128, 30), (128, 31), (64, 32), (64, 33), (64, 34), (64, 35), (64, 36), (64, 37), (64, 38), (64, 39), (64, 40),
     (64, 41), (64, 42), (64, 43), (64, 44), (64, 45), (64, 46), (64, 47), (32, 48), (32, 49), (32, 50), (32, 51), (32, 52), (32, 53), (32, 54),
     (32, 55), (32, 56), (32, 57), (32, 58), (32, 59), (32, 60), (32, 61), (32, 62), (32, 63), (16, 64), (16, 65), (16, 66), (16, 67), (16, 68),
     (16, 69), (16, 70), (16, 71), (16, 72), (16, 73), (16, 74), (16, 75), (16, 76), (16, 77), (16, 78), (16, 79), (8, 80), (8, 81), (8, 82),
     (8, 83), (8, 84), (8, 85), (8, 86), (8, 87), (8, 88), (8, 89), (8, 90), (8, 91), (8, 92), (8, 93), (8, 94), (8, 95), (4, 96), (4, 97), (4, 98),
     (4, 99), (4, 100), (4, 101), (4, 102), (4, 103), (4, 104), (4, 105), (4, 106), (4, 107), (4, 108), (4, 109), (4, 110), (4, 111), (2, 112),
     (2, 113), (2, 114), (2, 115), (2, 116), (2, 117), (2, 118), (2, 119), (2, 120), (2, 121), (2, 122), (2, 123), (2, 124), (2, 125), (2, 126),
     (1, 255), (2, 254), (2, 253), (2, 252), (2, 251), (2, 250), (2, 249), (2, 248), (2, 247), (2, 246), (2, 245), (2, 244), (2, 243), (2, 242),
     (2, 241), (2, 240), (4, 239), (4, 238), (4, 237), (4, 236), (4, 235), (4, 234), (4, 233), (4, 232), (4, 231), (4, 230), (4, 229), (4, 228),
     (4, 227), (4, 226), (4, 225), (4, 224), (8, 223), (8, 222), (8, 221), (8, 220), (8, 219), (8, 218), (8, 217), (8, 216), (8, 215), (8, 214),
     (8, 213), (8, 212), (8, 211), (8, 210), (8, 209), (8, 208), (16, 207), (16, 206), (16, 205), (16, 204), (16, 203), (16, 202), (16, 201),
     (16, 200), (16, 199), (16, 198), (16, 197), (16, 196), (16, 195), (16, 194), (16, 193), (16, 192), (32, 191), (32, 190), (32, 189), (32, 188),
     (32, 187), (32, 186), (32, 185), (32, 184), (32, 183), (32, 182), (32, 181), (32, 180), (32, 179), (32, 178), (32, 177), (32, 176), (64, 175),
     (64, 174), (64, 173), (64, 172), (64, 171), (64, 170), (64, 169), (64, 168), (64, 167), (64, 166), (64, 165), (64, 164), (64, 163), (64, 162),
     (64, 161), (64, 160), (128, 159), (128, 158), (128, 157), (128, 156), (128, 155), (128, 154), (128, 153), (128, 152), (128, 151), (128, 150),
     (128, 149), (128, 148), (128, 147), (128, 146), (128, 145), (128, 144), (256, 143), (256, 142), (256, 141), (256, 140), (256, 139), (256, 138),
     (256, 137), (256, 136), (256, 135), (256, 134), (256, 133), (256, 132), (256, 131), (256, 130), (256, 129), (289, 128)]"

text \<open>Entry \<open>i\<close> of a table of runs.\<close>

fun run_nth :: "(int \<times> int) list \<Rightarrow> int \<Rightarrow> int" where
  "run_nth [] i = 0"
| "run_nth ((n, c) # rs) i = (if i < n then c else run_nth rs (i - n))"

definition alaw_decode :: "int \<Rightarrow> int" where
  "alaw_decode c = alaw2pcm16 ! nat c"

definition alaw_encode :: "int \<Rightarrow> int" where
  "alaw_encode x = run_nth pcm132alaw (drop_bit 3 (x + 32768))"

definition mulaw_decode :: "int \<Rightarrow> int" where
  "mulaw_decode c = mulaw2pcm16 ! nat c"

definition mulaw_encode :: "int \<Rightarrow> int" where
  "mulaw_encode x = run_nth pcm142mulaw (drop_bit 2 (x + 32768))"

definition roardsp_conv_alaw2pcm16 :: "mem \<Rightarrow> ptr \<Rightarrow> ptr \<Rightarrow> nat \<Rightarrow> conv_result" where
  "roardsp_conv_alaw2pcm16 m out inp len = (0, for_down len (\<lambda>i m. st16 m (out + 2 * i) (alaw_decode (ldu8 m (inp + 1 * i)))) m)"

definition roardsp_conv_pcm162alaw :: "mem \<Rightarrow> ptr \<Rightarrow> ptr \<Rightarrow> nat \<Rightarrow> conv_result" where
  "roardsp_conv_pcm162alaw m out inp len = (0, for_up len (\<lambda>i m. st8 m (out + 1 * i) (alaw_encode (lds16 m (inp + 2 * i)))) m)"

definition roardsp_conv_mulaw2pcm16 :: "mem \<Rightarrow> ptr \<Rightarrow> ptr \<Rightarrow> nat \<Rightarrow> conv_result" where
  "roardsp_conv_mulaw2pcm16 m out inp len = (0, for_down len (\<lambda>i m. st16 m (out + 2 * i) (mulaw_decode (ldu8 m (inp + 1 * i)))) m)"

definition roardsp_conv_pcm162mulaw :: "mem \<Rightarrow> ptr \<Rightarrow> ptr \<Rightarrow> nat \<Rightarrow> conv_result" where
  "roardsp_conv_pcm162mulaw m out inp len = (0, for_up len (\<lambda>i m. st8 m (out + 1 * i) (mulaw_encode (lds16 m (inp + 2 * i)))) m)"

subsection \<open>Tables of runs\<close>

text \<open>What one pass over the runs checks: a run of the entries from \<open>i\<close> on, each of which stands for \<open>2 ^ s\<close> samples, does not cross 0, its
  byte decodes to a sample of the run itself, and both ends of the run are as near to that sample as \<open>k\<close> allows.\<close>

fun runs_ok :: "(int \<Rightarrow> int) \<Rightarrow> nat \<Rightarrow> int \<Rightarrow> int \<Rightarrow> (int \<times> int) list \<Rightarrow> bool" where
  "runs_ok tab s k i [] = True"
| "runs_ok tab s k i ((n, c) # rs) =
     (let lo = 2 ^ s * i - 32768; hi = 2 ^ s * (i + n) - 32769; d = tab c in
      0 < n \<and> 0 \<le> c \<and> c < 256 \<and> (hi < 0 \<or> 0 \<le> lo) \<and> lo \<le> d \<and> d \<le> hi \<and> 32 * (d - lo) \<le> \<bar>lo\<bar> + k \<and> 32 * (hi - d) \<le> \<bar>hi\<bar> + k \<and>
      runs_ok tab s k (i + n) rs)"

definition total :: "(int \<times> int) list \<Rightarrow> int" where
  "total rs = sum_list (map fst rs)"

lemma run_error:
  fixes x lo hi d k :: int
  assumes "lo \<le> x" "x \<le> hi" "hi < 0 \<or> 0 \<le> lo" "lo \<le> d" "d \<le> hi" "32 * (d - lo) \<le> \<bar>lo\<bar> + k" "32 * (hi - d) \<le> \<bar>hi\<bar> + k"
  shows "32 * \<bar>d - x\<bar> \<le> \<bar>x\<bar> + k"
  using assms by (auto simp: abs_if split: if_splits)

lemma runs_ok_Cons:
  assumes "runs_ok tab s k i ((n, c) # rs)"
  shows "0 < n" "0 \<le> c \<and> c < 256" "2 ^ s * i - 32768 \<le> tab c" "tab c \<le> 2 ^ s * (i + n) - 32769" "runs_ok tab s k (i + n) rs"
    "2 ^ s * i - 32768 \<le> x \<Longrightarrow> x \<le> 2 ^ s * (i + n) - 32769 \<Longrightarrow> 32 * \<bar>tab c - x\<bar> \<le> \<bar>x\<bar> + k"
  using assms run_error [of "2 ^ s * i - 32768" x "2 ^ s * (i + n) - 32769" "tab c" k]
  by (simp_all only: runs_ok.simps Let_def)

lemma runs_ok_nth:
  assumes "runs_ok tab s k i rs" "0 \<le> j" "j < total rs" "2 ^ s * (i + j) - 32768 \<le> x" "x < 2 ^ s * (i + j + 1) - 32768"
  shows "let c = run_nth rs j in 0 \<le> c \<and> c < 256 \<and> 32 * \<bar>tab c - x\<bar> \<le> \<bar>x\<bar> + k"
  using assms
proof (induction rs arbitrary: i j)
  case Nil
  then show ?case by (simp add: total_def)
next
  case (Cons r rs)
  obtain n c where r: "r = (n, c)" by fastforce
  note ok = runs_ok_Cons [OF Cons.prems(1) [unfolded r]]
  show ?case
  proof (cases "j < n")
    case True
    have "(2 :: int) ^ s * i \<le> 2 ^ s * (i + j)" "(2 :: int) ^ s * (i + j + 1) \<le> 2 ^ s * (i + n)"
      using True Cons.prems(2) by (intro mult_left_mono; simp)+
    then have "32 * \<bar>tab c - x\<bar> \<le> \<bar>x\<bar> + k" using Cons.prems(4,5) by (intro ok(6)) linarith+
    then show ?thesis using ok(2) r True by (simp add: Let_def)
  next
    case False
    have "i + n + (j - n) = i + j" by simp
    then show ?thesis using Cons.IH [OF ok(5), of "j - n"] Cons.prems False r by (simp add: total_def)
  qed
qed

lemma runs_ok_code:
  assumes "runs_ok tab s k i rs" "c \<in> snd ` set rs"
  shows "i \<le> (tab c + 32768) div 2 ^ s \<and> run_nth rs ((tab c + 32768) div 2 ^ s - i) = c"
  using assms
proof (induction rs arbitrary: i)
  case (Cons r rs)
  obtain n c' where r: "r = (n, c')" by fastforce
  note ok = runs_ok_Cons [OF Cons.prems(1) [unfolded r]]
  define J where "J = (tab c + 32768) div 2 ^ s"
  show ?case
  proof (cases "c = c'")
    case True
    then have "2 ^ s * i \<le> tab c + 32768" "tab c + 32768 < 2 ^ s * (i + n)" using ok(3,4) by simp_all
    moreover have "J * 2 ^ s \<le> tab c + 32768" unfolding J_def by (rule pos_zdiv_mult_self_le) simp
    ultimately have "J * 2 ^ s < (i + n) * 2 ^ s" unfolding mult.commute [of "2 ^ s"] by (elim order.strict_trans1)
    then have "J < i + n" by simp
    moreover have "i \<le> J" using zdiv_mono1 [of "2 ^ s * i" "tab c + 32768" "2 ^ s"] \<open>2 ^ s * i \<le> tab c + 32768\<close> by (simp add: J_def)
    ultimately have "i \<le> J" "J < i + n" by simp_all
    then show ?thesis using True r unfolding J_def [symmetric] by simp
  next
    case False
    then have "c \<in> snd ` set rs" using Cons.prems(2) r by auto
    then have "i + n \<le> J \<and> run_nth rs (J - (i + n)) = c"
      using Cons.IH [OF ok(5)] unfolding J_def by blast
    then show ?thesis using ok(1) r unfolding J_def [symmetric] by (simp add: diff_diff_eq)
  qed
qed simp

subsection \<open>The tables against the algorithms of G.711\<close>

text \<open>The expansion of a byte: the bits of A-law are inverted by \<open>0x55\<close>, those of mu-law all; a sign, three bits of
  exponent and four bits of mantissa.\<close>

definition alaw_expand :: "int \<Rightarrow> int" where
  "alaw_expand c = (let b = c XOR 0x55; t = push_bit 4 (b AND 15); e = drop_bit 4 (b AND 0x70);
     v = (if e = 0 then t + 8 else push_bit (nat (e - 1)) (t + 0x108)) in if b AND 0x80 = 0 then - v else v)"

definition mulaw_expand :: "int \<Rightarrow> int" where
  "mulaw_expand c = (let b = 255 - c; t = push_bit (nat (drop_bit 4 (b AND 0x70))) (push_bit 3 (b AND 15) + 0x84)
     in if b AND 0x80 = 0 then t - 0x84 else 0x84 - t)"

lemma alaw2pcm16_expand: "alaw2pcm16 = map alaw_expand [0..255]"
  by code_simp

lemma mulaw2pcm16_expand: "mulaw2pcm16 = map mulaw_expand [0..255]"
  by code_simp

lemma alaw_runs: "runs_ok alaw_expand 3 256 0 pcm132alaw \<and> total pcm132alaw = 8192"
  by code_simp

lemma mulaw_runs: "runs_ok mulaw_expand 2 231 0 pcm142mulaw \<and> total pcm142mulaw = 16384"
  by code_simp

lemma alaw_codes: "map snd pcm132alaw = map (\<lambda>k. if k < 128 then (127 - k) XOR 85 else k XOR 85) [0..255]"
  by code_simp

lemma mulaw_codes: "map snd pcm142mulaw = [0..126] @ map (\<lambda>k. 255 - k) [0..127]"
  by code_simp

lemma alaw_decode_expand: "0 \<le> c \<Longrightarrow> c < 256 \<Longrightarrow> alaw_decode c = alaw_expand c"
  by (simp add: alaw_decode_def alaw2pcm16_expand nth_upto)

lemma mulaw_decode_expand: "0 \<le> c \<Longrightarrow> c < 256 \<Longrightarrow> mulaw_decode c = mulaw_expand c"
  by (simp add: mulaw_decode_def mulaw2pcm16_expand nth_upto)

text \<open>A sample and the entry of its run.\<close>

lemma entry_of_sample:
  fixes x :: int
  shows "2 ^ s * (0 + drop_bit s (x + 32768)) - 32768 \<le> x" "x < 2 ^ s * (0 + drop_bit s (x + 32768) + 1) - 32768"
proof -
  have "(x + 32768) mod 2 ^ s = x + 32768 - 2 ^ s * ((x + 32768) div 2 ^ s)" by (simp add: minus_mult_div_eq_mod)
  moreover have "0 \<le> (x + 32768) mod 2 ^ s" "(x + 32768) mod 2 ^ s < 2 ^ s" by simp_all
  ultimately show "2 ^ s * (0 + drop_bit s (x + 32768)) - 32768 \<le> x" "x < 2 ^ s * (0 + drop_bit s (x + 32768) + 1) - 32768"
    by (simp_all add: drop_bit_eq_div distrib_left)
qed

subsection \<open>Codecs\<close>

text \<open>What the two codecs have in common, and what follows for buffers, in place or not.\<close>

locale compander =
  fixes dec enc :: "int \<Rightarrow> int" and k :: int and lost :: "int set"
  assumes near: "- 32768 \<le> x \<Longrightarrow> x \<le> 32767 \<Longrightarrow> 0 \<le> enc x \<and> enc x < 256 \<and> 32 * \<bar>dec (enc x) - x\<bar> \<le> \<bar>x\<bar> + k"
    and dec_range: "0 \<le> c \<Longrightarrow> c < 256 \<Longrightarrow> - 32768 \<le> dec c \<and> dec c \<le> 32767"
    and enc_dec: "0 \<le> c \<Longrightarrow> c < 256 \<Longrightarrow> c \<notin> lost \<Longrightarrow> enc (dec c) = c"
begin

lemma decode_cell:
  assumes "aliasing out (2 * int n) inp (1 * int n)" "0 \<le> i" "i < int n"
  shows "lds16 (for_down n (\<lambda>i m. st16 m (out + 2 * i) (dec (ldu8 m (inp + 1 * i)))) m) (out + 2 * i) = dec (ldu8 m (inp + i))"
proof -
  have "cell_map ldu8 st8 1 (wrap_u 8) lds16 st16 2 (wrap_s 16)" by unfold_locales
  from cell_map.map_down [OF this, of out n inp i dec m] show ?thesis
    using assms dec_range [of "ldu8 m (inp + i)"] ldu_range [of 1 m "inp + i"] by (simp add: wrap_s_id)
qed

lemma encode_cell:
  assumes "aliasing out (1 * int n) inp (2 * int n)" "0 \<le> i" "i < int n"
  shows "ldu8 (for_up n (\<lambda>i m. st8 m (out + 1 * i) (enc (lds16 m (inp + 2 * i)))) m) (out + i) = enc (lds16 m (inp + 2 * i))"
proof -
  have "cell_map lds16 st16 2 (wrap_s 16) ldu8 st8 1 (wrap_u 8)" by unfold_locales
  from cell_map.map_up [OF this, of out n inp i enc m] show ?thesis
    using assms near [of "lds16 m (inp + 2 * i)"] lds16_range [of m "inp + 2 * i"] by (simp add: wrap_u_id)
qed

lemma samples_near:
  fixes m :: mem
  assumes "aliasing mid (1 * int n) inp (2 * int n)" "aliasing out (2 * int n) mid (1 * int n)" "0 \<le> i" "i < int n"
  defines "m1 \<equiv> for_up n (\<lambda>i m. st8 m (mid + 1 * i) (enc (lds16 m (inp + 2 * i)))) m"
  defines "m2 \<equiv> for_down n (\<lambda>i m. st16 m (out + 2 * i) (dec (ldu8 m (mid + 1 * i)))) m1"
  shows "32 * \<bar>lds16 m2 (out + 2 * i) - lds16 m (inp + 2 * i)\<bar> \<le> \<bar>lds16 m (inp + 2 * i)\<bar> + k"
  using decode_cell [OF assms(2-4), of m1] encode_cell [OF assms(1,3,4), of m] near [of "lds16 m (inp + 2 * i)"] lds16_range [of m "inp + 2 * i"]
  by (simp add: m1_def m2_def)

lemma codes_kept:
  fixes m :: mem
  assumes "aliasing mid (2 * int n) inp (1 * int n)" "aliasing out (1 * int n) mid (2 * int n)" "0 \<le> i" "i < int n" "ldu8 m (inp + i) \<notin> lost"
  defines "m1 \<equiv> for_down n (\<lambda>i m. st16 m (mid + 2 * i) (dec (ldu8 m (inp + 1 * i)))) m"
  defines "m2 \<equiv> for_up n (\<lambda>i m. st8 m (out + 1 * i) (enc (lds16 m (mid + 2 * i)))) m1"
  shows "ldu8 m2 (out + i) = ldu8 m (inp + i)"
  using decode_cell [OF assms(1,3,4), of m] encode_cell [OF assms(2-4), of m1] enc_dec [of "ldu8 m (inp + i)"] assms(5) ldu_range [of 1 m "inp + i"]
  by (simp add: m1_def m2_def)

end

text \<open>The contract from the tables.\<close>

lemma compander_runs:
  assumes "runs_ok tab s k 0 rs" "total rs * 2 ^ s = 65536" "\<And>c. 0 \<le> c \<Longrightarrow> c < 256 \<Longrightarrow> dec c = tab c"
    "\<And>x. enc x = run_nth rs (drop_bit s (x + 32768))" "\<And>c. 0 \<le> c \<Longrightarrow> c < 256 \<Longrightarrow> c \<notin> lost \<Longrightarrow> c \<in> snd ` set rs"
    "\<And>c. 0 \<le> c \<Longrightarrow> c < 256 \<Longrightarrow> - 32768 \<le> dec c \<and> dec c \<le> 32767"
  shows "compander dec enc k lost"
proof
  fix x :: int
  assume x: "- 32768 \<le> x" "x \<le> 32767"
  have "0 \<le> drop_bit s (x + 32768)" using x by simp
  moreover have "2 ^ s * drop_bit s (x + 32768) < 2 ^ s * total rs" using entry_of_sample(1) [of s x] x assms(2) by (simp add: mult.commute)
  then have "drop_bit s (x + 32768) < total rs" by (simp add: mult_less_cancel_left)
  ultimately show "0 \<le> enc x \<and> enc x < 256 \<and> 32 * \<bar>dec (enc x) - x\<bar> \<le> \<bar>x\<bar> + k"
    using runs_ok_nth [OF assms(1) _ _ entry_of_sample] assms(3,4) by (simp add: Let_def)
next
  fix c :: int
  assume c: "0 \<le> c" "c < 256"
  then show "- 32768 \<le> dec c \<and> dec c \<le> 32767" by (rule assms(6))
  assume "c \<notin> lost"
  then show "enc (dec c) = c"
    using runs_ok_code [OF assms(1) assms(5)] c assms(3,4) by (simp add: drop_bit_eq_div)
qed

lemma table_range: "list_all (\<lambda>x. - 32768 \<le> x \<and> x \<le> 32767) alaw2pcm16" "list_all (\<lambda>x. - 32768 \<le> x \<and> x \<le> 32767) mulaw2pcm16"
  by code_simp+

lemma table_length: "length alaw2pcm16 = 256" "length mulaw2pcm16 = 256"
  by (simp_all add: alaw2pcm16_expand mulaw2pcm16_expand)

lemma xor85_range: "0 \<le> c \<Longrightarrow> c < 256 \<Longrightarrow> 0 \<le> c XOR 85 \<and> c XOR 85 < (256 :: int)"
  using XOR_upper [of c 8 85] by simp

interpretation alaw: compander alaw_decode alaw_encode 256 "{}"
proof (rule compander_runs [where s = 3 and tab = alaw_expand and rs = pcm132alaw])
  fix c :: int
  assume c: "0 \<le> c" "c < 256"
  show "- 32768 \<le> alaw_decode c \<and> alaw_decode c \<le> 32767"
    using table_range(1) table_length(1) c by (auto simp: alaw_decode_def list_all_length)
  define d where "d = c XOR 85"
  have d: "0 \<le> d" "d < 256" "d XOR 85 = c" using xor85_range [OF c] by (simp_all add: d_def xor.assoc)
  define f where "f = (\<lambda>k :: int. if k < 128 then (127 - k) XOR 85 else k XOR 85)"
  have "f (if d < 128 then 127 - d else d) = c" using d(1,3) by (simp add: f_def)
  moreover have "(if d < 128 then 127 - d else d) \<in> {0..255}" using d(1,2) by simp
  ultimately have "c \<in> f ` {0..255}" by (intro image_eqI [OF sym])
  then have "c \<in> set (map f [0..255])" by (simp only: set_map set_upto)
  then show "c \<in> snd ` set pcm132alaw" unfolding f_def alaw_codes [symmetric] by simp
qed (use alaw_runs alaw_decode_expand in \<open>simp_all add: alaw_encode_def\<close>)

interpretation mulaw: compander mulaw_decode mulaw_encode 231 "{127}"
proof (rule compander_runs [where s = 2 and tab = mulaw_expand and rs = pcm142mulaw])
  fix c :: int
  assume c: "0 \<le> c" "c < 256"
  show "- 32768 \<le> mulaw_decode c \<and> mulaw_decode c \<le> 32767"
    using table_range(2) table_length(2) c by (auto simp: mulaw_decode_def list_all_length)
  assume "c \<notin> {127}"
  then have "c \<in> set ([0..126] @ map (\<lambda>k. 255 - k) [0..127])"
    using c by (cases "c < 127") (auto intro!: image_eqI [of _ _ "255 - c"])
  then show "c \<in> snd ` set pcm142mulaw" unfolding mulaw_codes [symmetric] by simp
qed (use mulaw_runs mulaw_decode_expand in \<open>simp_all add: mulaw_encode_def\<close>)

subsection \<open>The codec filters of the server\<close>

text \<open>The filters of \<open>src/roard/codecfilter_alaw.c\<close> and \<open>codecfilter_mulaw.c\<close>. \<open>vio_read\<close> and \<open>vio_write\<close> are the calls on the stream: a read gives the number of bytes and
  the memory, a write the number of bytes. The division of the length is that of \<open>int\<close>; \<open>block\<close> is what \<open>malloc\<close> gives, 0 for none.\<close>

definition cf_law_read :: "(mem \<Rightarrow> ptr \<Rightarrow> ptr \<Rightarrow> nat \<Rightarrow> conv_result) \<Rightarrow> (ptr \<Rightarrow> int \<Rightarrow> mem \<Rightarrow> int \<times> mem) \<Rightarrow> ptr \<Rightarrow> int \<Rightarrow> mem \<Rightarrow> int \<times> mem" where
  "cf_law_read decode vio_read buf len m =
     (case vio_read buf (len sdiv 2) m of (len, m) \<Rightarrow>
        if len < 1 then (len, m) else (len * 2, snd (decode m buf buf (nat len))))"

definition cf_law_write :: "(mem \<Rightarrow> ptr \<Rightarrow> ptr \<Rightarrow> nat \<Rightarrow> conv_result) \<Rightarrow> (ptr \<Rightarrow> int \<Rightarrow> mem \<Rightarrow> int) \<Rightarrow> ptr \<Rightarrow> ptr \<Rightarrow> int \<Rightarrow> mem \<Rightarrow> int \<times> mem" where
  "cf_law_write encode vio_write block buf len m =
     (let len = len sdiv 2 in
      if block = 0 then (-1, m)
      else let m = snd (encode m block buf (nat len)); r = vio_write block len m in (if r > 0 then r * 2 else -1, m))"

definition cf_alaw_read :: "(ptr \<Rightarrow> int \<Rightarrow> mem \<Rightarrow> int \<times> mem) \<Rightarrow> ptr \<Rightarrow> int \<Rightarrow> mem \<Rightarrow> int \<times> mem" where
  "cf_alaw_read = cf_law_read roardsp_conv_alaw2pcm16"

definition cf_alaw_write :: "(ptr \<Rightarrow> int \<Rightarrow> mem \<Rightarrow> int) \<Rightarrow> ptr \<Rightarrow> ptr \<Rightarrow> int \<Rightarrow> mem \<Rightarrow> int \<times> mem" where
  "cf_alaw_write = cf_law_write roardsp_conv_pcm162alaw"

definition cf_mulaw_read :: "(ptr \<Rightarrow> int \<Rightarrow> mem \<Rightarrow> int \<times> mem) \<Rightarrow> ptr \<Rightarrow> int \<Rightarrow> mem \<Rightarrow> int \<times> mem" where
  "cf_mulaw_read = cf_law_read roardsp_conv_mulaw2pcm16"

definition cf_mulaw_write :: "(ptr \<Rightarrow> int \<Rightarrow> mem \<Rightarrow> int) \<Rightarrow> ptr \<Rightarrow> ptr \<Rightarrow> int \<Rightarrow> mem \<Rightarrow> int \<times> mem" where
  "cf_mulaw_write = cf_law_write roardsp_conv_pcm162mulaw"

text \<open>A read of the filter hands on the expansion of the bytes that it has got, in place, and counts two bytes for each.\<close>

lemma cf_alaw_read_expands:
  assumes "vio_read buf (len sdiv 2) m = (r, m1)" "0 \<le> i" "i < r"
  shows "fst (cf_alaw_read vio_read buf len m) = 2 * r \<and>
    lds16 (snd (cf_alaw_read vio_read buf len m)) (buf + 2 * i) = alaw_expand (ldu8 m1 (buf + i))"
  using alaw.decode_cell [of buf "nat r" buf i m1] assms alaw_decode_expand [of "ldu8 m1 (buf + i)"] ldu_range [of 1 m1 "buf + i"]
  by (simp add: cf_alaw_read_def cf_law_read_def roardsp_conv_alaw2pcm16_def)





end
