(* ===== verification/Roar_Keyval.thy ===== *)
theory Roar_Keyval
  imports Channel_Map "HOL-Library.Monad_Syntax"
begin

text \<open>
  The key-value strings of \<open>src/libroar/keyval.c\<close>. A C string is the list of its characters; the string that is split is changed in place, and
  an entry of the array points into it. \<open>None\<close> is an access outside of the array of entries or through a null pointer.
\<close>

abbreviation (input) NUL :: char where "NUL \<equiv> CHR 0x00"

text \<open>A pair of pointers into a string, and of the strings there.\<close>

type_synonym keyval_ptr = "nat option \<times> nat option"
type_synonym roar_keyval = "string option \<times> string option"

subsection \<open>Lookup\<close>

text \<open>\<open>strcmp\<close> and \<open>strcasecmp\<close> with a null pointer are \<open>None\<close>. The result is the index of the entry.\<close>

fun keyval_find :: "(string \<Rightarrow> string \<Rightarrow> bool) \<Rightarrow> string \<Rightarrow> int \<Rightarrow> nat \<Rightarrow> roar_keyval list \<Rightarrow> nat option option" where
  "keyval_find sc key len i [] = (if len = -1 \<or> int i < len then None else Some None)"
| "keyval_find sc key len i ((k, v) # kv) =
     (if (if len \<noteq> -1 then int i < len else k \<noteq> None) then
        (case k of None \<Rightarrow> None | Some s \<Rightarrow> if sc key s then Some (Some i) else keyval_find sc key len (Suc i) kv)
      else Some None)"

definition roar_keyval_lookup :: "roar_keyval list \<Rightarrow> string \<Rightarrow> int \<Rightarrow> bool \<Rightarrow> nat option option" where
  "roar_keyval_lookup kv key len casesens = keyval_find (if casesens then (=) else same_nocase) key len 0 kv"

subsection \<open>Splitting\<close>

definition is_in :: "char \<Rightarrow> string \<Rightarrow> bool" where
  "is_in c delm \<longleftrightarrow> c \<in> set delm"

text \<open>The loop that counts the segments. No quote is ever open.\<close>

fun keyval_count :: "string \<Rightarrow> bool \<Rightarrow> string \<Rightarrow> nat" where
  "keyval_count fdel seg [] = 0"
| "keyval_count fdel seg (c # cs) =
     (if seg then keyval_count fdel (\<not> is_in c fdel) cs
      else if \<not> is_in c fdel then Suc (keyval_count fdel True cs)
      else keyval_count fdel False cs)"

definition set_at :: "keyval_ptr list \<Rightarrow> nat \<Rightarrow> (keyval_ptr \<Rightarrow> keyval_ptr) \<Rightarrow> keyval_ptr list option" where
  "set_at kvs i g = (if i < length kvs then Some (kvs[i := g (kvs ! i)]) else None)"

text \<open>The loop that fills the array. \<open>pre\<close> is the part of the string up to \<open>sp\<close>, as it has been changed, and \<open>next\<close> is \<open>pos + 1\<close>.\<close>

fun keyval_fill :: "string \<Rightarrow> string \<Rightarrow> string \<Rightarrow> string \<Rightarrow> bool \<Rightarrow> nat \<Rightarrow> keyval_ptr list \<Rightarrow> (keyval_ptr list \<times> string) option" where
  "keyval_fill fdel kdel pre [] seg next kvs = Some (kvs, pre)"
| "keyval_fill fdel kdel pre (c # cs) seg next kvs =
     (if seg then
        if is_in c fdel then keyval_fill fdel kdel (pre @ [NUL]) cs False next kvs
        else if is_in c kdel then
          do { kvs \<leftarrow> set_at kvs (next - 1) (\<lambda>(k, v). (k, Some (length pre + 1)));
               keyval_fill fdel kdel (pre @ [NUL]) cs True next kvs }
        else keyval_fill fdel kdel (pre @ [c]) cs True next kvs
      else if \<not> is_in c fdel then
        do { kvs \<leftarrow> set_at kvs next (\<lambda>_. (Some (length pre), None));
             keyval_fill fdel kdel (pre @ [c]) cs True (next + 1) kvs }
      else keyval_fill fdel kdel (pre @ [c]) cs False next kvs)"

text \<open>\<open>alloc\<close> tells whether there is memory for the array. The entries before they are filled can be anything; here they are null.\<close>

definition roar_keyval_split ::
  "bool \<Rightarrow> string option \<Rightarrow> string option \<Rightarrow> string option \<Rightarrow> bool \<Rightarrow> (int \<times> (keyval_ptr list \<times> string) option) option" where
  "roar_keyval_split alloc str fdel kdel quotes =
     (case str of None \<Rightarrow> Some (-1, None)
      | Some str \<Rightarrow>
        if quotes then Some (-1, None)
        else let fdel = (case fdel of None \<Rightarrow> [CHR '' '', CHR 0x09, CHR '',''] | Some d \<Rightarrow> d);
                 kdel = (case kdel of None \<Rightarrow> ''=:'' | Some d \<Rightarrow> d);
                 len = keyval_count fdel False str
             in if \<not> alloc then Some (-1, None)
                else do { r \<leftarrow> keyval_fill fdel kdel [] str False 0 (replicate (len + 1) (None, None)); Some (int len, Some r) })"

subsection \<open>Fields\<close>

text \<open>The C string at a position.\<close>

definition cstr :: "string \<Rightarrow> nat \<Rightarrow> string" where
  "cstr s p = takeWhile (\<lambda>c. c \<noteq> NUL) (drop p s)"

definition view :: "string \<Rightarrow> keyval_ptr \<Rightarrow> roar_keyval" where
  "view s e = (map_option (cstr s) (fst e), map_option (cstr s) (snd e))"

text \<open>The specification: the fields are the words between delimiters; the key of a field is what is before its first
  delimiter of keys, which is not looked for in the first character, and the value is what is behind its last one.\<close>

function kv_fields :: "string \<Rightarrow> string \<Rightarrow> string list" where
  "kv_fields fdel s = (case dropWhile (\<lambda>c. c \<in> set fdel) s of [] \<Rightarrow> []
     | c # cs \<Rightarrow> (c # takeWhile (\<lambda>c. c \<notin> set fdel) cs) # kv_fields fdel (dropWhile (\<lambda>c. c \<notin> set fdel) cs))"
  by auto
termination
proof (relation "measure (\<lambda>(fdel, s). length s)", simp)
  fix fdel s c cs
  assume "dropWhile (\<lambda>c. c \<in> set fdel) s = c # cs"
  then have "Suc (length cs) \<le> length s" by (metis length_Cons length_dropWhile_le)
  moreover have "length (dropWhile (\<lambda>c. c \<notin> set fdel) cs) \<le> length cs" by (rule length_dropWhile_le)
  ultimately show "((fdel, dropWhile (\<lambda>c. c \<notin> set fdel) cs), fdel, s) \<in> measure (\<lambda>(fdel, s). length s)" by simp
qed

declare kv_fields.simps [simp del]

fun after_last :: "string \<Rightarrow> string \<Rightarrow> string option" where
  "after_last kdel [] = None"
| "after_last kdel (c # cs) = (case after_last kdel cs of Some v \<Rightarrow> Some v | None \<Rightarrow> if c \<in> set kdel then Some cs else None)"

definition field_entry :: "string \<Rightarrow> string \<Rightarrow> roar_keyval" where
  "field_entry kdel w = (case w of [] \<Rightarrow> (None, None) | c # cs \<Rightarrow> (Some (c # takeWhile (\<lambda>c. c \<notin> set kdel) cs), after_last kdel cs))"

lemma fields_Nil [simp]: "kv_fields fdel [] = []"
  by (simp add: kv_fields.simps)

lemma fields_delim [simp]: "d \<in> set fdel \<Longrightarrow> kv_fields fdel (d # s) = kv_fields fdel s"
  by (subst (1 2) kv_fields.simps) simp

lemma fields_word: "c \<notin> set fdel \<Longrightarrow> kv_fields fdel (c # cs) = (c # takeWhile (\<lambda>c. c \<notin> set fdel) cs) # kv_fields fdel (dropWhile (\<lambda>c. c \<notin> set fdel) cs)"
  by (subst kv_fields.simps) simp

lemma count_word: "keyval_count fdel True cs = keyval_count fdel False (dropWhile (\<lambda>c. c \<notin> set fdel) cs)"
  by (induction cs) (simp_all add: is_in_def)

lemma count_fields: "keyval_count fdel False s = length (kv_fields fdel s)"
proof (induction s rule: length_induct)
  case (1 s)
  show ?case
  proof (cases s)
    case (Cons c cs)
    have "length (dropWhile (\<lambda>c. c \<notin> set fdel) cs) < length s" using Cons by (simp add: le_imp_less_Suc length_dropWhile_le)
    with 1 Cons show ?thesis by (cases "c \<in> set fdel") (simp_all add: is_in_def fields_word count_word)
  qed simp
qed

lemma after_last_Some: "after_last kdel cs = Some v \<Longrightarrow> \<exists>u d. cs = u @ d # v \<and> d \<in> set kdel \<and> (\<forall>c \<in> set v. c \<notin> set kdel)"
proof (induction cs)
  case (Cons c cs)
  have none: "after_last kdel cs = None \<Longrightarrow> \<forall>c \<in> set cs. c \<notin> set kdel" for cs
    by (induction cs) (auto split: option.splits if_splits)
  show ?case
  proof (cases "after_last kdel cs")
    case None
    then show ?thesis using Cons.prems none by (force split: if_splits)
  next
    case (Some w)
    then obtain u d where "cs = u @ d # v" "d \<in> set kdel" "\<forall>c \<in> set v. c \<notin> set kdel" using Cons by auto
    then have "c # cs = (c # u) @ d # v" by simp
    then show ?thesis using \<open>d \<in> set kdel\<close> \<open>\<forall>c \<in> set v. c \<notin> set kdel\<close> by blast
  qed
qed simp

text \<open>The characters of a field after it has been split.\<close>

definition cut_char :: "string \<Rightarrow> char \<Rightarrow> char" where
  "cut_char kdel c = (if c \<in> set kdel then NUL else c)"

lemma cut_takeWhile:
  "NUL \<notin> set cs \<Longrightarrow> (t = [] \<or> hd t = NUL) \<Longrightarrow> takeWhile (\<lambda>c. c \<noteq> NUL) (map (cut_char kdel) cs @ t) = takeWhile (\<lambda>c. c \<notin> set kdel) cs"
proof (induction cs)
  case Nil
  then show ?case by (cases t) auto
qed (auto simp: cut_char_def)

lemma view_field:
  assumes "NUL \<notin> set (c # cs)" "t = [] \<or> hd t = NUL"
    "v = (case after_last kdel cs of None \<Rightarrow> None | Some w \<Rightarrow> Some (length a + 1 + length cs - length w))"
  shows "view (a @ (c # map (cut_char kdel) cs) @ t) (Some (length a), v) = field_entry kdel (c # cs)"
proof -
  have k: "cstr (a @ (c # map (cut_char kdel) cs) @ t) (length a) = c # takeWhile (\<lambda>c. c \<notin> set kdel) cs"
    using assms(1) cut_takeWhile [OF _ assms(2)] by (auto simp: cstr_def)
  show ?thesis
  proof (cases "after_last kdel cs")
    case None
    then show ?thesis using k assms(3) by (simp add: view_def field_entry_def)
  next
    case (Some w)
    then obtain u d where cs: "cs = u @ d # w" "\<forall>c \<in> set w. c \<notin> set kdel" using after_last_Some by blast
    have "takeWhile (\<lambda>c. c \<noteq> NUL) (map (cut_char kdel) w @ t) = w"
      using cut_takeWhile [of w t kdel] assms(1,2) cs by (simp add: takeWhile_eq_all_conv)
    moreover have "drop (length a + 1 + length cs - length w) (a @ (c # map (cut_char kdel) cs) @ t) = map (cut_char kdel) w @ t"
      by (simp add: cs(1))
    ultimately have "cstr (a @ (c # map (cut_char kdel) cs) @ t) (length a + 1 + length cs - length w) = w" unfolding cstr_def by simp
    then show ?thesis using k Some assms(3) by (simp add: view_def field_entry_def)
  qed
qed

lemma fill_tail:
  assumes "\<forall>c \<in> set cs. c \<notin> set fdel" "n < length kvs" "kvs ! n = (k, v0)"
    "v = (case after_last kdel cs of None \<Rightarrow> v0 | Some w \<Rightarrow> Some (length pre + length cs - length w))"
  shows "keyval_fill fdel kdel pre (cs @ rest) True (Suc n) kvs = keyval_fill fdel kdel (pre @ map (cut_char kdel) cs) rest True (Suc n) (kvs[n := (k, v)])"
  using assms
proof (induction cs arbitrary: pre kvs v0)
  case Nil
  then have "kvs[n := (k, v)] = kvs" by (metis after_last.simps(1) list_update_id option.case(1))
  then show ?case by simp
next
  case (Cons c cs)
  define v1 where "v1 = (if c \<in> set kdel then Some (length pre + 1) else v0)"
  have "v = (case after_last kdel cs of None \<Rightarrow> v1 | Some w \<Rightarrow> Some (length (pre @ [cut_char kdel c]) + length cs - length w))"
    using Cons.prems(4) by (auto simp: v1_def split: option.splits)
  then have "keyval_fill fdel kdel (pre @ [cut_char kdel c]) (cs @ rest) True (Suc n) (kvs[n := (k, v1)]) =
      keyval_fill fdel kdel (pre @ [cut_char kdel c] @ map (cut_char kdel) cs) rest True (Suc n) (kvs[n := (k, v)])"
    using Cons.IH [of "kvs[n := (k, v1)]" v1 "pre @ [cut_char kdel c]"] Cons.prems(1,2) by simp
  moreover have "kvs[n := (k, v0)] = kvs" using Cons.prems(3) by (metis list_update_id)
  moreover have "cut_char kdel c = (if c \<in> set kdel then NUL else c)" by (simp add: cut_char_def)
  ultimately show ?case using Cons.prems by (cases "c \<in> set kdel") (simp_all add: is_in_def v1_def set_at_def)
qed

lemma fill_ok:
  assumes "NUL \<notin> set s" "next + length (kv_fields fdel s) \<le> length kvs"
  shows "\<exists>kvs' str'. keyval_fill fdel kdel pre s False next kvs = Some (kvs', pre @ str') \<and> length kvs' = length kvs \<and>
    (\<forall>j < length kvs. j < next \<or> next + length (kv_fields fdel s) \<le> j \<longrightarrow> kvs' ! j = kvs ! j) \<and>
    (\<forall>j < length (kv_fields fdel s). view (pre @ str') (kvs' ! (next + j)) = field_entry kdel (kv_fields fdel s ! j))"
  using assms
proof (induction s arbitrary: pre "next" kvs rule: length_induct)
  case (1 s)
  show ?case
  proof (cases s)
    case Nil
    then show ?thesis by simp
  next
    case (Cons c cs)
    show ?thesis
    proof (cases "c \<in> set fdel")
      case True
      then obtain kvs' str' where "keyval_fill fdel kdel (pre @ [c]) cs False next kvs = Some (kvs', (pre @ [c]) @ str')" "length kvs' = length kvs"
        "\<forall>j < length kvs. j < next \<or> next + length (kv_fields fdel s) \<le> j \<longrightarrow> kvs' ! j = kvs ! j"
        "\<forall>j < length (kv_fields fdel s). view ((pre @ [c]) @ str') (kvs' ! (next + j)) = field_entry kdel (kv_fields fdel s ! j)"
        using 1(1) [rule_format, of cs "next" kvs "pre @ [c]"] 1(2,3) Cons by auto
      then show ?thesis using Cons True by (intro exI [of _ kvs'] exI [of _ "c # str'"]) (simp add: is_in_def)
    next
      case False
      define w where "w = takeWhile (\<lambda>c. c \<notin> set fdel) cs"
      define rest where "rest = dropWhile (\<lambda>c. c \<notin> set fdel) cs"
      have cs: "cs = w @ rest" "\<forall>c \<in> set w. c \<notin> set fdel" by (auto simp: w_def rest_def dest: set_takeWhileD)
      have f: "kv_fields fdel s = (c # w) # kv_fields fdel rest" using Cons False by (simp add: fields_word w_def rest_def)
      define v where "v = (case after_last kdel w of None \<Rightarrow> None | Some u \<Rightarrow> Some (length pre + 1 + length w - length u))"
      define kvs1 where "kvs1 = kvs[next := (Some (length pre), v)]"
      have n: "next < length kvs" using 1(3) f by simp
      have v': "v = (case after_last kdel w of None \<Rightarrow> None | Some u \<Rightarrow> Some (length (pre @ [c]) + length w - length u))" by (simp add: v_def split: option.split)
      have step: "keyval_fill fdel kdel pre s False next kvs = keyval_fill fdel kdel (pre @ c # map (cut_char kdel) w) rest True (Suc next) kvs1"
        using fill_tail [where n = "next" and kvs = "kvs[next := (Some (length pre), None)]" and k = "Some (length pre)" and rest = rest, OF cs(2) _ _ v'] n Cons False
        by (simp add: is_in_def set_at_def cs(1) kvs1_def)
      have vw: "view (pre @ (c # map (cut_char kdel) w) @ t) (Some (length pre), v) = field_entry kdel (c # w)" if "t = [] \<or> hd t = NUL" for t
        using that 1(2) Cons cs(1) by (intro view_field) (auto simp: v_def)
      show ?thesis
      proof (cases rest)
        case Nil
        then show ?thesis using step vw [of "[]"] n f
          by (intro exI [of _ kvs1] exI [of _ "c # map (cut_char kdel) w"]) (simp add: kvs1_def)
      next
        case (Cons d rest')
        have d: "d \<in> set fdel" using Cons hd_dropWhile [of "\<lambda>c. c \<notin> set fdel" cs] by (simp add: rest_def)
        have len: "length rest' < length s" "NUL \<notin> set rest'" using \<open>s = c # cs\<close> cs(1) Cons 1(2) by auto
        let ?pre = "pre @ (c # map (cut_char kdel) w) @ [NUL]"
        have "kv_fields fdel rest = kv_fields fdel rest'" using Cons d by simp
        then obtain kvs' str' where r: "keyval_fill fdel kdel ?pre rest' False (Suc next) kvs1 = Some (kvs', ?pre @ str')" "length kvs' = length kvs"
          "\<forall>j < length kvs. j < Suc next \<or> Suc next + length (kv_fields fdel rest) \<le> j \<longrightarrow> kvs' ! j = kvs1 ! j"
          "\<forall>j < length (kv_fields fdel rest). view (?pre @ str') (kvs' ! (Suc next + j)) = field_entry kdel (kv_fields fdel rest ! j)"
          using 1(1) [rule_format, OF len(1,2), of "Suc next" kvs1 ?pre] 1(3) f by (auto simp: kvs1_def)
        have "view (?pre @ str') (kvs' ! (next + j)) = field_entry kdel (kv_fields fdel s ! j)" if "j < length (kv_fields fdel s)" for j
          using that r(3,4) f n vw [of "NUL # str'"] by (cases j) (auto simp: kvs1_def)
        then show ?thesis using step r Cons d f n
          by (intro exI [of _ kvs'] exI [of _ "(c # map (cut_char kdel) w) @ NUL # str'"]) (auto simp: is_in_def kvs1_def)
      qed
    qed
  qed
qed

lemma keyval_split_all:
  assumes "NUL \<notin> set str"
  shows "\<exists>kvs str'. roar_keyval_split True (Some str) (Some fdel) (Some kdel) False = Some (int (length (kv_fields fdel str)), Some (kvs, str')) \<and>
    map (view str') kvs = map (field_entry kdel) (kv_fields fdel str) @ [(None, None)]"
proof -
  let ?n = "length (kv_fields fdel str)"
  obtain kvs' str' where r: "keyval_fill fdel kdel [] str False 0 (replicate (Suc ?n) (None, None)) = Some (kvs', str')" "length kvs' = ?n + 1"
    "\<forall>j < ?n + 1. ?n \<le> j \<longrightarrow> kvs' ! j = (None, None)" "\<forall>j < ?n. view str' (kvs' ! j) = field_entry kdel (kv_fields fdel str ! j)"
    using fill_ok [OF assms, of 0 fdel "replicate (Suc ?n) (None, None)" kdel "[]"] by (auto simp del: replicate_Suc)
  have "map (view str') kvs' = map (field_entry kdel) (kv_fields fdel str) @ [(None, None)]"
    using r(2-4) by (intro nth_equalityI) (auto simp: nth_append view_def less_Suc_eq)
  then show ?thesis using r(1) by (intro exI [of _ kvs'] exI [of _ str']) (simp add: roar_keyval_split_def count_fields del: replicate_Suc)
qed

text \<open>C22: \<open>roar_keyval_split\<close> on any string, with any delimiters: it stays within the array that it has counted, returns the number of fields, and the
  array holds the fields in their order, each with its key and its value as C strings in the changed string, and an end mark. A value starts
  behind the last key delimiter of its field, so \<open>a=b=c\<close> has the key \<open>a\<close> and the value \<open>c\<close>.\<close>

theorem keyval_split_fields:
  assumes "NUL \<notin> set str"
  shows "\<exists>kvs str'. roar_keyval_split True (Some str) (Some fdel) (Some kdel) False = Some (int (length (kv_fields fdel str)), Some (kvs, str')) \<and>
    map (view str') kvs = map (field_entry kdel) (kv_fields fdel str) @ [(None, None)]"
  using keyval_split_all [OF assms] .

theorem keyval_split_fields_witness:
  "\<exists>kvs str'. roar_keyval_split True (Some ''a=b=c  d'') (Some '' '') (Some ''='') False = Some (2, Some (kvs, str')) \<and>
    map (view str') kvs = [(Some ''a'', Some ''c''), (Some ''d'', None), (None, None)]"
proof -
  have "kv_fields '' '' ''a=b=c  d'' = [''a=b=c'', ''d'']" by (simp add: fields_word)
  moreover have "field_entry ''='' ''a=b=c'' = (Some ''a'', Some ''c'')" "field_entry ''='' ''d'' = (Some ''d'', None)" by (simp_all add: field_entry_def)
  ultimately show ?thesis using keyval_split_fields [of "''a=b=c  d''" "'' ''" "''=''"] by simp
qed

text \<open>Printing entries.\<close>

definition keyval_print :: "(string \<times> string) list \<Rightarrow> string" where
  "keyval_print es = concat (map (\<lambda>(k, v). k @ ''='' @ v @ '' '') es)"

definition printable :: "string \<times> string \<Rightarrow> bool" where
  "printable e \<longleftrightarrow> fst e \<noteq> [] \<and> (\<forall>c \<in> set (fst e) \<union> set (snd e). c \<notin> {NUL, CHR '' '', CHR 0x09, CHR '','', CHR ''='', CHR '':''})"

lemma fields_append:
  assumes "w \<noteq> []" "\<forall>c \<in> set w. c \<notin> set fdel" "d \<in> set fdel"
  shows "kv_fields fdel (w @ d # s) = w # kv_fields fdel s"
proof -
  obtain c cs where w: "w = c # cs" using assms(1) by (cases w) auto
  have "takeWhile (\<lambda>c. c \<notin> set fdel) (cs @ d # s) = cs" "dropWhile (\<lambda>c. c \<notin> set fdel) (cs @ d # s) = d # s"
    using assms w by (simp_all add: takeWhile_append dropWhile_append)
  then show ?thesis using assms w by (simp add: fields_word)
qed

lemma after_last_none: "\<forall>c \<in> set cs. c \<notin> set kdel \<Longrightarrow> after_last kdel cs = None"
  by (induction cs) auto

lemma after_last_append: "d \<in> set kdel \<Longrightarrow> \<forall>c \<in> set v. c \<notin> set kdel \<Longrightarrow> after_last kdel (u @ d # v) = Some v"
  by (induction u) (auto simp: after_last_none)

lemma field_entry_print:
  assumes "printable (k, v)"
  shows "field_entry ''=:'' (k @ ''='' @ v) = (Some k, Some v)"
proof -
  obtain c cs where k: "k = c # cs" using assms by (cases k) (auto simp: printable_def)
  have "takeWhile (\<lambda>c. c \<notin> set ''=:'') (cs @ CHR ''='' # v) = cs" using assms k by (auto simp: printable_def takeWhile_append)
  moreover have "after_last ''=:'' (cs @ CHR ''='' # v) = Some v" using assms by (intro after_last_append) (auto simp: printable_def)
  ultimately show ?thesis by (simp add: field_entry_def k)
qed

lemma fields_print:
  assumes "\<forall>e \<in> set es. printable e"
  shows "kv_fields [CHR '' '', CHR 0x09, CHR '',''] (keyval_print es) = map (\<lambda>(k, v). k @ ''='' @ v) es"
  using assms
proof (induction es)
  case Nil
  then show ?case by (simp add: keyval_print_def)
next
  case (Cons e es)
  obtain k v where e: "e = (k, v)" by fastforce
  have "kv_fields [CHR '' '', CHR 0x09, CHR '',''] ((k @ ''='' @ v) @ CHR '' '' # keyval_print es) =
      (k @ ''='' @ v) # kv_fields [CHR '' '', CHR 0x09, CHR '',''] (keyval_print es)"
    using Cons.prems by (intro fields_append) (auto simp: e printable_def)
  then show ?case using Cons by (simp add: keyval_print_def e)
qed

lemma keyval_find_map_of:
  "case map_of es key of None \<Rightarrow> keyval_find (=) key (-1) i (map (\<lambda>(k, v). (Some k, Some v)) es @ [(None, None)]) = Some None
   | Some v \<Rightarrow> \<exists>j < length es. keyval_find (=) key (-1) i (map (\<lambda>(k, v). (Some k, Some v)) es @ [(None, None)]) = Some (Some (i + j)) \<and> es ! j = (key, v)"
proof (induction es arbitrary: i)
  case (Cons e es)
  obtain k v where e: "e = (k, v)" by fastforce
  show ?case
  proof (cases "key = k")
    case True
    then show ?thesis by (auto simp: e)
  next
    case False
    show ?thesis
    proof (cases "map_of es key")
      case None
      then show ?thesis using Cons.IH [of "Suc i"] False by (simp add: e)
    next
      case (Some w)
      then obtain j where "j < length es" "es ! j = (key, w)"
        "keyval_find (=) key (-1) (Suc i) (map (\<lambda>(k, v). (Some k, Some v)) es @ [(None, None)]) = Some (Some (Suc i + j))"
        using Cons.IH [of "Suc i"] by auto
      then show ?thesis using Some False by (auto simp: e intro!: exI [of _ "Suc j"])
    qed
  qed
qed simp

text \<open>Entries that are printed as \<open>key=value\<close> with a space behind each are found again: splitting the string with the default delimiters and looking a key up
  gives the value that the first entry with that key was printed with, and nothing for a key that was not printed. The keys are not
  empty and neither keys nor values have delimiters in them.\<close>

theorem keyval_print_lookup:
  assumes "\<forall>e \<in> set es. printable e"
  shows "\<exists>kvs str'. roar_keyval_split True (Some (keyval_print es)) None None False = Some (int (length es), Some (kvs, str')) \<and>
    (\<forall>key. case map_of es key of None \<Rightarrow> roar_keyval_lookup (map (view str') kvs) key (-1) True = Some None
       | Some v \<Rightarrow> \<exists>j. roar_keyval_lookup (map (view str') kvs) key (-1) True = Some (Some j) \<and> view str' (kvs ! j) = (Some key, Some v))"
proof -
  have nul: "NUL \<notin> set (keyval_print es)" using assms by (fastforce simp: keyval_print_def printable_def)
  have ent: "map (field_entry ''=:'') (map (\<lambda>(k, v). k @ ''='' @ v) es) = map (\<lambda>(k, v). (Some k, Some v)) es"
    using assms field_entry_print by (auto simp del: append_Cons append_assoc)
  obtain kvs str' where r: "roar_keyval_split True (Some (keyval_print es)) (Some [CHR '' '', CHR 0x09, CHR '','']) (Some ''=:'') False =
      Some (int (length es), Some (kvs, str'))" "map (view str') kvs = map (\<lambda>(k, v). (Some k, Some v)) es @ [(None, None)]"
    using keyval_split_all [OF nul, of "[CHR '' '', CHR 0x09, CHR '','']" "''=:''"] unfolding fields_print [OF assms] ent by auto
  have split: "roar_keyval_split True (Some (keyval_print es)) None None False =
      roar_keyval_split True (Some (keyval_print es)) (Some [CHR '' '', CHR 0x09, CHR '','']) (Some ''=:'') False"
    by (simp add: roar_keyval_split_def)
  have "case map_of es key of None \<Rightarrow> roar_keyval_lookup (map (view str') kvs) key (-1) True = Some None
       | Some v \<Rightarrow> \<exists>j. roar_keyval_lookup (map (view str') kvs) key (-1) True = Some (Some j) \<and> view str' (kvs ! j) = (Some key, Some v)" for key
  proof (cases "map_of es key")
    case None
    then show ?thesis using keyval_find_map_of [where es = es and key = key and i = 0] by (simp add: roar_keyval_lookup_def r(2))
  next
    case (Some v)
    then obtain j where j: "j < length es" "es ! j = (key, v)" "roar_keyval_lookup (map (view str') kvs) key (-1) True = Some (Some j)"
      using keyval_find_map_of [where es = es and key = key and i = 0] by (auto simp: roar_keyval_lookup_def r(2))
    have "length kvs = Suc (length es)" using arg_cong [OF r(2), of length] by simp
    then have "view str' (kvs ! j) = (map (\<lambda>(k, v). (Some k, Some v)) es @ [(None, None)]) ! j"
      using j(1) arg_cong [OF r(2), of "\<lambda>xs. xs ! j"] by simp
    then show ?thesis using j Some by (simp add: nth_append)
  qed
  then show ?thesis using r(1) split by auto
qed

theorem keyval_print_lookup_witness:
  "\<exists>kvs str'. roar_keyval_split True (Some (keyval_print [(''rate'', ''44100''), (''bits'', ''16''), (''rate'', ''8000'')])) None None False = Some (3, Some (kvs, str')) \<and>
    (\<exists>j. roar_keyval_lookup (map (view str') kvs) ''rate'' (-1) True = Some (Some j) \<and> view str' (kvs ! j) = (Some ''rate'', Some ''44100''))"
proof -
  have "\<forall>e \<in> set [(''rate'', ''44100''), (''bits'', ''16''), (''rate'', ''8000'')]. printable e" by (simp add: printable_def)
  from keyval_print_lookup [OF this] show ?thesis by (force split: option.splits)
qed

end
