(* ===== verification/Roar_Light.thy ===== *)
theory Roar_Light
  imports Vio_Pipe
begin

text \<open>
  The light control of the server (\<open>src/roard/light.c\<close>) and its messages (\<open>src/libroarlight/roardmx.c\<close>). The server keeps a byte for each
  channel and which of them have changed. A stream of DMX512 carries the first 512 channels as they are; a stream of RoarDMX carries
  messages of up to 85 pairs of a channel and a value. The transport is that of \<open>Roar_Proto\<close>. \<open>None\<close> is an access
  outside of an array.
\<close>

unbundle bit_operations_syntax

subsection \<open>Messages\<close>

record roar_roardmx_message =
  dx_version :: byte
  dx_flags :: byte
  dx_type :: byte
  dx_length :: nat
  dx_data :: "byte list"

definition MASK_FLAGS :: byte where "MASK_FLAGS = 0xF0"
definition MASK_TYPE :: byte where "MASK_TYPE = 0x0F"
definition DATA_LENGTH :: nat where "DATA_LENGTH = 255"
definition TYPE_SSET :: byte where "TYPE_SSET = 0"
definition TYPE_IPO1 :: byte where "TYPE_IPO1 = 1"
definition TYPE_IPO4 :: byte where "TYPE_IPO4 = 2"
definition TYPE_INC8S :: byte where "TYPE_INC8S = 3"

lemmas dmx_consts = MASK_FLAGS_def MASK_TYPE_def DATA_LENGTH_def TYPE_SSET_def TYPE_IPO1_def TYPE_IPO4_def TYPE_INC8S_def

definition roar_roardmx_message_new :: roar_roardmx_message where
  "roar_roardmx_message_new = \<lparr>dx_version = 0, dx_flags = 0, dx_type = 0, dx_length = 0, dx_data = replicate (3 + DATA_LENGTH) 0\<rparr>"

definition roar_roardmx_message_set_type :: "roar_roardmx_message \<Rightarrow> byte \<Rightarrow> c_int \<times> roar_roardmx_message" where
  "roar_roardmx_message_set_type mes type = (if (type OR MASK_TYPE) - MASK_TYPE \<noteq> 0 then (-1, mes) else (0, mes\<lparr>dx_type := type\<rparr>))"

definition roar_roardmx_message_send :: "('v \<Rightarrow> byte list \<Rightarrow> c_int \<times> 'v) \<Rightarrow> roar_roardmx_message \<Rightarrow> 'v \<Rightarrow> c_int \<times> roar_roardmx_message \<times> 'v" where
  "roar_roardmx_message_send wr mes v =
     (if dx_length mes > DATA_LENGTH then (-1, mes, v)
      else let mes = mes\<lparr>dx_data := (dx_data mes)[0 := dx_version mes, 1 := (dx_flags mes AND MASK_FLAGS) OR (dx_type mes AND MASK_TYPE),
                                               2 := word_of_nat (dx_length mes)]\<rparr>
           in case wr v (take (dx_length mes + 3) (dx_data mes)) of (r, v) \<Rightarrow> (if r = int (dx_length mes + 3) then 0 else -1, mes, v))"

definition roar_roardmx_message_recv :: "('v \<Rightarrow> nat \<Rightarrow> c_int \<times> byte list \<times> 'v) \<Rightarrow> 'v \<Rightarrow> c_int \<times> roar_roardmx_message \<times> 'v" where
  "roar_roardmx_message_recv rd v =
     (let mes = roar_roardmx_message_new in
      case rd v 3 of (r, xs, v) \<Rightarrow>
        if r \<noteq> 3 then (-1, mes, v)
        else let mes = mes\<lparr>dx_data := xs @ drop 3 (dx_data mes), dx_version := xs ! 0\<rparr> in
             if dx_version mes \<noteq> 0 then (-1, mes, v)
             else let mes = mes\<lparr>dx_flags := xs ! 1 AND MASK_FLAGS, dx_type := xs ! 1 AND MASK_TYPE, dx_length := unat (xs ! 2)\<rparr> in
                  case rd v (dx_length mes) of (r, ys, v) \<Rightarrow>
                    if r \<noteq> int (dx_length mes) then (-1, mes, v)
                    else (0, mes\<lparr>dx_data := take 3 (dx_data mes) @ ys @ drop (3 + length ys) (dx_data mes)\<rparr>, v))"

definition roar_roardmx_message_new_sset :: roar_roardmx_message where
  "roar_roardmx_message_new_sset = roar_roardmx_message_new\<lparr>dx_type := TYPE_SSET\<rparr>"

text \<open>The channel is stored with its high byte first.\<close>

definition roar_roardmx_message_add_chanval :: "roar_roardmx_message \<Rightarrow> nat \<Rightarrow> byte \<Rightarrow> c_int \<times> roar_roardmx_message" where
  "roar_roardmx_message_add_chanval mes channel val =
     (if dx_length mes + 3 > DATA_LENGTH then (-1, mes)
      else let l = dx_length mes in
        (0, mes\<lparr>dx_data := (dx_data mes)[l + 3 := word_of_nat (channel div 256), l + 4 := word_of_nat channel, l + 5 := val], dx_length := l + 3\<rparr>))"

definition roar_roardmx_message_get_chanval :: "roar_roardmx_message \<Rightarrow> int \<Rightarrow> (nat \<times> byte) option" where
  "roar_roardmx_message_get_chanval mes index =
     (if index < 0 then None
      else if dx_version mes \<noteq> 0 then None
      else if dx_type mes = TYPE_SSET \<or> dx_type mes = TYPE_INC8S then
        if index \<ge> int (DATA_LENGTH div 3) then None
        else let p = 3 + 3 * nat index in
          Some (unat (dx_data mes ! p) * 256 + unat (dx_data mes ! (p + 1)), dx_data mes ! (p + 2))
      else None)"

definition roar_roardmx_message_numchannels :: "roar_roardmx_message \<Rightarrow> int" where
  "roar_roardmx_message_numchannels mes =
     (if dx_version mes \<noteq> 0 then -1
      else if dx_type mes = TYPE_SSET \<or> dx_type mes = TYPE_INC8S then int (dx_length mes div 3)
      else if dx_type mes = TYPE_IPO1 then int (dx_length mes div 6)
      else if dx_type mes = TYPE_IPO4 then int (dx_length mes div 12)
      else -1)"

subsection \<open>The state of the lights\<close>

text \<open>The arrays, \<open>None\<close> for the null pointer. The other part of \<open>light_init\<close> is the mixer stream; \<open>mixer\<close> is what \<open>add_mixer\<close> gives. The content
  of new memory is replaced by the reset before it is read.\<close>

record light_state =
  li_channels :: nat
  li_state :: "byte list option"
  li_changes :: "byte list option"

definition light_reset :: "light_state \<Rightarrow> c_int \<times> light_state" where
  "light_reset li =
     (if li_channels li = 0 then (0, li)
      else if li_state li = None then (-1, li)
      else if li_changes li = None then (-1, li)
      else (0, li\<lparr>li_state := Some (replicate (li_channels li) 0), li_changes := Some (replicate (li_channels li) 0)\<rparr>))"

definition light_reinit :: "light_state \<Rightarrow> c_int \<times> light_state" where
  "light_reinit li = (case li_changes li of None \<Rightarrow> (-1, li)
     | Some xs \<Rightarrow> (0, li\<lparr>li_changes := Some (replicate (li_channels li) 0 @ drop (li_channels li) xs)\<rparr>))"

text \<open>A freed array is the empty list. \<open>alloc\<close> and \<open>alloc2\<close> tell whether there is memory for the two arrays. When the mixer stream can not be made the number of
  channels stays as it is, although the array of the values is freed.\<close>

definition light_init :: "bool \<Rightarrow> bool \<Rightarrow> c_int \<Rightarrow> nat \<Rightarrow> light_state \<Rightarrow> c_int \<times> light_state" where
  "light_init alloc alloc2 mixer chans li =
     (let li = li\<lparr>li_channels := 0\<rparr> in
      if chans = 0 \<or> chans > 512 * 512 then (-1, li)
      else if \<not> alloc then (-1, li\<lparr>li_state := None\<rparr>)
      else if \<not> alloc2 then (-1, li\<lparr>li_state := Some [], li_changes := None\<rparr>)
      else let li = li\<lparr>li_state := Some (replicate chans 0), li_changes := Some (replicate chans 0), li_channels := chans\<rparr> in
        if mixer = -1 then (-1, li\<lparr>li_state := Some []\<rparr>) else light_reset li)"

definition light_free :: "light_state \<Rightarrow> c_int \<times> light_state" where
  "light_free li = (0, li\<lparr>li_state := map_option (\<lambda>_. []) (li_state li), li_changes := map_option (\<lambda>_. []) (li_changes li), li_channels := 0\<rparr>)"

text \<open>A stream as far as the lights use it: its codec and its position.\<close>

definition CODEC_DMX512 :: int where "CODEC_DMX512 = 0x70"
definition CODEC_ROARDMX :: int where "CODEC_ROARDMX = 0x71"

record light_stream =
  ls_codec :: int
  ls_pos :: int

text \<open>The result of a call on a stream: the return value, whether the stream is deleted, the lights, the stream and the transport.\<close>

record 'v light_result =
  lr_ret :: c_int
  lr_deleted :: bool
  lr_light :: light_state
  lr_stream :: light_stream
  lr_vio :: 'v

text \<open>The loop over the pairs of a message. A channel that is equal to the number of channels is not skipped.\<close>

fun light_set_loop :: "roar_roardmx_message \<Rightarrow> nat list \<Rightarrow> nat \<Rightarrow> byte list \<Rightarrow> byte list \<Rightarrow> (c_int \<times> byte list \<times> byte list) option" where
  "light_set_loop mes [] chans st chg = Some (0, st, chg)"
| "light_set_loop mes (i # is) chans st chg =
     (case roar_roardmx_message_get_chanval mes (int i) of None \<Rightarrow> Some (-1, st, chg)
      | Some (channel, val) \<Rightarrow>
          if chans < channel then light_set_loop mes is chans st chg
          else if length st \<le> channel \<or> length chg \<le> channel then None
          else light_set_loop mes is chans (st[channel := val]) (chg[channel := 0xFF]))"

definition light_check_stream :: "('v \<Rightarrow> nat \<Rightarrow> c_int \<times> byte list \<times> 'v) \<Rightarrow> light_stream option \<Rightarrow> light_state \<Rightarrow> 'v \<Rightarrow> 'v light_result option option" where
  "light_check_stream rd s li v = (case s of None \<Rightarrow> Some None
     | Some s \<Rightarrow>
       if ls_codec s = CODEC_DMX512 then
         (case rd v 512 of (r, buf, v) \<Rightarrow>
            if r \<noteq> 512 then Some (Some \<lparr>lr_ret = -1, lr_deleted = True, lr_light = li, lr_stream = s, lr_vio = v\<rparr>)
            else let n = min (li_channels li) 512 in
              (case (li_state li, li_changes li) of (Some st, Some chg) \<Rightarrow>
                 if length st < n \<or> length chg < n then None
                 else Some (Some \<lparr>lr_ret = 0, lr_deleted = False,
                   lr_light = li\<lparr>li_state := Some (take n buf @ drop n st),
                                li_changes := Some (map (\<lambda>i. chg ! i OR (st ! i XOR buf ! i)) [0..<n] @ drop n chg)\<rparr>,
                   lr_stream = s\<lparr>ls_pos := wrap_u 32 (ls_pos s + 1)\<rparr>, lr_vio = v\<rparr>)
               | _ \<Rightarrow> if n = 0 then Some (Some \<lparr>lr_ret = 0, lr_deleted = False, lr_light = li, lr_stream = s\<lparr>ls_pos := wrap_u 32 (ls_pos s + 1)\<rparr>, lr_vio = v\<rparr>)
                      else None))
       else if ls_codec s = CODEC_ROARDMX then
         (case roar_roardmx_message_recv rd v of (r, mes, v) \<Rightarrow>
            if r = -1 then Some (Some \<lparr>lr_ret = -1, lr_deleted = True, lr_light = li, lr_stream = s, lr_vio = v\<rparr>)
            else (case light_set_loop mes [0..<nat (roar_roardmx_message_numchannels mes)] (li_channels li)
                         (case li_state li of None \<Rightarrow> [] | Some st \<Rightarrow> st) (case li_changes li of None \<Rightarrow> [] | Some chg \<Rightarrow> chg) of
                None \<Rightarrow> None
              | Some (r, st, chg) \<Rightarrow> Some (Some \<lparr>lr_ret = r, lr_deleted = False,
                   lr_light = li\<lparr>li_state := map_option (\<lambda>_. st) (li_state li), li_changes := map_option (\<lambda>_. chg) (li_changes li)\<rparr>,
                   lr_stream = s, lr_vio = v\<rparr>)))
       else Some (Some \<lparr>lr_ret = -1, lr_deleted = True, lr_light = li, lr_stream = s, lr_vio = v\<rparr>))"

text \<open>The loop over the channels that have changed. \<open>have\<close> is \<open>have_message\<close>: 0 for no message, 1 for a new and empty one, 2 for one that is to be sent. The
  pair that does not fit a full message is not added to the next one.\<close>

fun light_send_loop :: "('v \<Rightarrow> byte list \<Rightarrow> c_int \<times> 'v) \<Rightarrow> byte list \<Rightarrow> byte list \<Rightarrow> nat list \<Rightarrow> nat \<Rightarrow> roar_roardmx_message \<Rightarrow> 'v \<Rightarrow> c_int \<times> 'v" where
  "light_send_loop wr st chg [] have mes v =
     (if have = 2 then (case roar_roardmx_message_send wr mes v of (r, _, v) \<Rightarrow> (if r = -1 then -1 else 0, v)) else (0, v))"
| "light_send_loop wr st chg (i # is) have mes v =
     (if chg ! i \<noteq> 0 then
        let mes = (if have = 0 then roar_roardmx_message_new_sset else mes) in
        (case roar_roardmx_message_add_chanval mes (i mod 65536) (st ! i) of (r, mes) \<Rightarrow>
           if r = -1 then
             (case roar_roardmx_message_send wr mes v of (r, _, v) \<Rightarrow>
                if r = -1 then (-1, v) else light_send_loop wr st chg is 1 roar_roardmx_message_new_sset v)
           else light_send_loop wr st chg is 2 mes v)
      else light_send_loop wr st chg is have mes v)"

definition light_send_stream :: "('v \<Rightarrow> byte list \<Rightarrow> c_int \<times> 'v) \<Rightarrow> light_stream option \<Rightarrow> light_state \<Rightarrow> 'v \<Rightarrow> 'v light_result option option" where
  "light_send_stream wr s li v = (case s of None \<Rightarrow> Some None
     | Some s \<Rightarrow>
       if ls_codec s = CODEC_DMX512 then
         let chans = min (li_channels li) 512; st = (case li_state li of None \<Rightarrow> [] | Some st \<Rightarrow> st) in
         if length st < chans then None
         else (case wr v (take chans st @ replicate (512 - chans) 0) of (r, v) \<Rightarrow>
            if r \<noteq> 512 then Some (Some \<lparr>lr_ret = -1, lr_deleted = True, lr_light = li, lr_stream = s, lr_vio = v\<rparr>)
            else Some (Some \<lparr>lr_ret = 0, lr_deleted = False, lr_light = li, lr_stream = s\<lparr>ls_pos := wrap_u 32 (ls_pos s + 1)\<rparr>, lr_vio = v\<rparr>))
       else if ls_codec s = CODEC_ROARDMX then
         let st = (case li_state li of None \<Rightarrow> [] | Some st \<Rightarrow> st); chg = (case li_changes li of None \<Rightarrow> [] | Some chg \<Rightarrow> chg) in
         if length st < li_channels li \<or> length chg < li_channels li then None
         else (case light_send_loop wr st chg [0..<li_channels li] 0 roar_roardmx_message_new v of (r, v) \<Rightarrow>
            Some (Some \<lparr>lr_ret = r, lr_deleted = False, lr_light = li, lr_stream = s, lr_vio = v\<rparr>))
       else Some (Some \<lparr>lr_ret = -1, lr_deleted = True, lr_light = li, lr_stream = s, lr_vio = v\<rparr>))"

subsection \<open>Messages on the wire\<close>

definition entry :: "byte list \<Rightarrow> nat \<Rightarrow> byte list" where
  "entry st i = [word_of_nat (i div 256), word_of_nat i, st ! i]"

definition entries :: "byte list \<Rightarrow> nat list \<Rightarrow> byte list" where
  "entries st cur = concat (map (entry st) cur)"

definition wire :: "byte list \<Rightarrow> nat list \<Rightarrow> byte list" where
  "wire st cur = [0, 0, word_of_nat (3 * length cur)] @ entries st cur"

text \<open>A message that the pairs of the channels \<open>cur\<close> have been added to.\<close>

definition mes_of :: "byte list \<Rightarrow> nat list \<Rightarrow> roar_roardmx_message" where
  "mes_of st cur = \<lparr>dx_version = 0, dx_flags = 0, dx_type = 0, dx_length = 3 * length cur,
     dx_data = [0, 0, 0] @ entries st cur @ replicate (255 - 3 * length cur) 0\<rparr>"

lemma length_entries [simp]: "length (entries st cur) = 3 * length cur"
  by (induction cur) (simp_all add: entries_def entry_def)

lemma entries_nth:
  assumes "j < length cur"
  shows "entries st cur ! (3 * j) = word_of_nat (cur ! j div 256)" "entries st cur ! (3 * j + 1) = word_of_nat (cur ! j)" "entries st cur ! (3 * j + 2) = st ! (cur ! j)"
proof -
  have "\<forall>j < length cur. entries st cur ! (3 * j) = word_of_nat (cur ! j div 256) \<and> entries st cur ! (3 * j + 1) = word_of_nat (cur ! j) \<and>
      entries st cur ! (3 * j + 2) = st ! (cur ! j)"
  proof (induction cur)
    case (Cons i cur)
    have "entries st (i # cur) = entry st i @ entries st cur" by (simp add: entries_def)
    with Cons show ?case by (auto simp: entry_def nth_append less_Suc_eq_0_disj)
  qed simp
  then show "entries st cur ! (3 * j) = word_of_nat (cur ! j div 256)" "entries st cur ! (3 * j + 1) = word_of_nat (cur ! j)" "entries st cur ! (3 * j + 2) = st ! (cur ! j)"
    using assms by auto
qed

lemma new_sset_mes_of: "roar_roardmx_message_new_sset = mes_of st []"
  by (simp add: roar_roardmx_message_new_sset_def roar_roardmx_message_new_def mes_of_def entries_def dmx_consts numeral_eq_Suc)

lemma update_three: "(xs @ x # y # z # ys)[length xs := a, length xs + 1 := b, length xs + 2 := c] = xs @ a # b # c # ys"
  by (simp add: list_update_append)

lemma add_chanval_ok:
  assumes "length cur < 85"
  shows "roar_roardmx_message_add_chanval (mes_of st cur) i (st ! i) = (0, mes_of st (cur @ [i]))"
proof -
  let ?xs = "[0, 0, 0] @ entries st cur"
  have "255 - 3 * length cur = Suc (Suc (Suc (255 - 3 * length (cur @ [i]))))" using assms by simp
  then have r: "replicate (255 - 3 * length cur) (0 :: byte) = 0 # 0 # 0 # replicate (255 - 3 * length (cur @ [i])) 0" by (simp only: replicate_Suc)
  have idx: "3 * length cur + 3 = length ?xs" "3 * length cur + 4 = length ?xs + 1" "3 * length cur + 5 = length ?xs + 2" by simp_all
  have "dx_data (mes_of st cur) = ?xs @ 0 # 0 # 0 # replicate (255 - 3 * length (cur @ [i])) 0" unfolding r [symmetric] by (simp add: mes_of_def)
  then have d: "(dx_data (mes_of st cur))[3 * length cur + 3 := word_of_nat (i div 256), 3 * length cur + 4 := word_of_nat i, 3 * length cur + 5 := st ! i] =
      ?xs @ entry st i @ replicate (255 - 3 * length (cur @ [i])) 0"
    unfolding idx by (simp only: update_three) (simp add: entry_def)
  have "dx_length (mes_of st cur) = 3 * length cur" by (simp add: mes_of_def)
  then have "roar_roardmx_message_add_chanval (mes_of st cur) i (st ! i) =
      (0, (mes_of st cur)\<lparr>dx_data := ?xs @ entry st i @ replicate (255 - 3 * length (cur @ [i])) 0, dx_length := 3 * length cur + 3\<rparr>)"
    using assms unfolding d [symmetric] by (simp only: roar_roardmx_message_add_chanval_def DATA_LENGTH_def Let_def) simp
  then show ?thesis by (simp add: mes_of_def entries_def)
qed

lemma add_chanval_full: "length cur = 85 \<Longrightarrow> roar_roardmx_message_add_chanval (mes_of st cur) i b = (-1, mes_of st cur)"
  by (simp add: roar_roardmx_message_add_chanval_def mes_of_def DATA_LENGTH_def)

text \<open>The channels of the messages: each takes 85, and the one that does not fit is lost.\<close>

function dmx_chunks :: "nat list \<Rightarrow> nat list list" where
  "dmx_chunks xs = (if xs = [] then [] else take 85 xs # dmx_chunks (drop 86 xs))"
  by auto
termination by (relation "measure length") auto

declare dmx_chunks.simps [simp del]

lemma dmx_chunks_Nil [simp]: "dmx_chunks [] = []"
  by (simp add: dmx_chunks.simps)

lemma dmx_chunks_one: "xs \<noteq> [] \<Longrightarrow> length xs \<le> 85 \<Longrightarrow> dmx_chunks xs = [xs]"
  by (simp add: dmx_chunks.simps)

lemma dmx_chunks_full: "length cur = 85 \<Longrightarrow> dmx_chunks (cur @ i # xs) = cur # dmx_chunks xs"
  by (subst dmx_chunks.simps) simp

lemma drop_three: "drop (3 + n) (x # y # z # xs) = drop n xs"
  by (simp add: numeral_3_eq_3)

context fifo_stream
begin

lemma dmx_send:
  assumes "valid v" "0 < credit v" "length cur \<le> 85"
  shows "\<exists>mes v'. roar_roardmx_message_send wr (mes_of st cur) v = (0, mes, v') \<and> valid v' \<and> queue v' = queue v @ wire st cur \<and> credit v' = credit v - 1"
proof -
  have t: "take (3 * length cur + 3) ([0, 0, word_of_nat (3 * length cur)] @ entries st cur @ replicate (255 - 3 * length cur) 0) = wire st cur"
  proof -
    have "length (wire st cur) = 3 * length cur + 3" by (simp add: wire_def)
    moreover have "take (length (wire st cur)) (wire st cur @ replicate (255 - 3 * length cur) 0) = wire st cur" by simp
    ultimately show ?thesis by (simp only: wire_def append_assoc)
  qed
  obtain v' where "wr v (wire st cur) = (int (3 * length cur + 3), v')" "valid v'" "queue v' = queue v @ wire st cur" "credit v' = credit v - 1"
    using wr_ok [OF assms(1,2), of "wire st cur"] assms(3) by (auto simp: wire_def)
  then show ?thesis using assms(3) t
    by (simp add: roar_roardmx_message_send_def mes_of_def Let_def dmx_consts)
qed

lemma dmx_recv:
  assumes "valid v" "queue v = wire st cur @ q" "length cur \<le> 85"
  shows "\<exists>mes v'. roar_roardmx_message_recv rd v = (0, mes, v') \<and> valid v' \<and> queue v' = q \<and> credit v' = credit v \<and> 
    roar_roardmx_message_numchannels mes = int (length cur) \<and>
    (\<forall>j < length cur. roar_roardmx_message_get_chanval mes (int j) = Some (cur ! j mod 65536, st ! (cur ! j)))"
proof -
  have w: "length (wire st cur) = 3 * length cur + 3" "take 3 (wire st cur) = [0, 0, word_of_nat (3 * length cur)]" "drop 3 (wire st cur) = entries st cur"
    by (simp_all add: wire_def)
  have n: "unat (word_of_nat (3 * length cur) :: byte) = 3 * length cur" using assms(3) by (subst unat_of_nat) simp
  obtain v1 where v1: "rd v 3 = (3, [0, 0, word_of_nat (3 * length cur)], v1)" "valid v1" "queue v1 = entries st cur @ q" "credit v1 = credit v"
    using rd_ok [OF assms(1), of 3] w assms(2) by auto
  obtain v2 where v2: "rd v1 (3 * length cur) = (int (3 * length cur), entries st cur, v2)" "valid v2" "queue v2 = q" "credit v2 = credit v"
    using rd_ok [OF v1(2), of "3 * length cur"] v1(3,4) by auto
  define mes where "mes = (mes_of st cur)\<lparr>dx_data := [0, 0, word_of_nat (3 * length cur)] @ entries st cur @ replicate (255 - 3 * length cur) 0\<rparr>"
  have "roar_roardmx_message_recv rd v = (0, mes, v2)"
    using v1(1) v2(1) n
    by (simp add: roar_roardmx_message_recv_def roar_roardmx_message_new_def Let_def mes_def mes_of_def dmx_consts drop_three)
  moreover have "roar_roardmx_message_numchannels mes = int (length cur)"
    by (simp add: roar_roardmx_message_numchannels_def mes_def mes_of_def dmx_consts)
  moreover have "roar_roardmx_message_get_chanval mes (int j) = Some (cur ! j mod 65536, st ! (cur ! j))" if j: "j < length cur" for j
  proof -
    have d: "dx_data mes ! (3 + 3 * j + k) = entries st cur ! (3 * j + k)" if "k < 3" for k
      using that j by (simp add: mes_def nth_append)
    have "unat (word_of_nat (cur ! j div 256) :: byte) * 256 + unat (word_of_nat (cur ! j) :: byte) = cur ! j mod 65536"
      using mod_mult2_eq [of "cur ! j" 256 256] by (simp add: unat_of_nat)
    then show ?thesis using j assms(3) d [of 0] d [of 1] d [of 2] entries_nth [OF j, of st]
      by (simp add: roar_roardmx_message_get_chanval_def Let_def dmx_consts) (simp add: mes_def mes_of_def)
  qed
  ultimately show ?thesis using v2 by blast
qed

lemma light_send_loop_ok:
  assumes "valid v" "length (dmx_chunks (cur @ filter (\<lambda>i. chg ! i \<noteq> 0) is)) \<le> credit v" "length cur \<le> 85" "\<forall>i \<in> set is. i < 65536"
    "have = 0 \<and> cur = [] \<or> have = 1 \<and> cur = [] \<and> mes = mes_of st [] \<or> have = 2 \<and> cur \<noteq> [] \<and> mes = mes_of st cur"
  shows "\<exists>v'. light_send_loop wr st chg is have mes v = (0, v') \<and> valid v' \<and>
    queue v' = queue v @ concat (map (wire st) (dmx_chunks (cur @ filter (\<lambda>i. chg ! i \<noteq> 0) is)))"
  using assms
proof (induction "is" arbitrary: cur "have" mes v)
  case Nil
  then show ?case
    using dmx_send [of v cur st] dmx_chunks_one [of cur] by (cases "cur = []") auto
next
  case (Cons i "is")
  define rem where "rem = filter (\<lambda>i. chg ! i \<noteq> 0) is"
  have new: "(if have = 0 then roar_roardmx_message_new_sset else mes) = mes_of st cur"
    using Cons.prems(5) new_sset_mes_of [of st] by auto
  show ?case
  proof (cases "chg ! i \<noteq> 0")
    case False
    then show ?thesis using Cons by simp
  next
    case True
    show ?thesis
    proof (cases "length cur < 85")
      case l: True
      have "\<exists>v'. light_send_loop wr st chg is 2 (mes_of st (cur @ [i])) v = (0, v') \<and> valid v' \<and>
          queue v' = queue v @ concat (map (wire st) (dmx_chunks ((cur @ [i]) @ rem)))"
        unfolding rem_def using Cons.prems True l by (intro Cons.IH) auto
      then show ?thesis using True l Cons.prems(4) new by (simp add: add_chanval_ok rem_def Let_def)
    next
      case False
      then have l: "length cur = 85" using Cons.prems(3) by simp
      have ch: "dmx_chunks (cur @ i # rem) = cur # dmx_chunks rem" using l by (rule dmx_chunks_full)
      obtain mes' v1 where v1: "roar_roardmx_message_send wr (mes_of st cur) v = (0, mes', v1)" "valid v1" "queue v1 = queue v @ wire st cur" "credit v1 = credit v - 1"
        using dmx_send [of v cur st] Cons.prems(1,2) True ch l by (auto simp: rem_def)
      have "\<exists>v'. light_send_loop wr st chg is 1 (mes_of st []) v1 = (0, v') \<and> valid v' \<and>
          queue v' = queue v1 @ concat (map (wire st) (dmx_chunks ([] @ rem)))"
        unfolding rem_def using Cons.prems True v1 ch by (intro Cons.IH) (auto simp: rem_def)
      then show ?thesis using True l Cons.prems(4) new v1 ch new_sset_mes_of [of st] by (auto simp: add_chanval_full rem_def Let_def)
    qed
  qed
qed

end

subsection \<open>From one server to another\<close>

lemma light_set_loop_ok:
  assumes "\<forall>j \<in> set js. roar_roardmx_message_get_chanval mes (int j) = Some (c j, val ! c j) \<and> c j < n" "length st = n" "length chg = n"
  shows "\<exists>st' chg'. light_set_loop mes js n st chg = Some (0, st', chg') \<and> length st' = n \<and> length chg' = n \<and>
    (\<forall>x < n. st' ! x = (if x \<in> c ` set js then val ! x else st ! x) \<and> chg' ! x = (if x \<in> c ` set js then 0xFF else chg ! x))"
  using assms
proof (induction js arbitrary: st chg)
  case (Cons j js)
  have "\<forall>j \<in> set js. roar_roardmx_message_get_chanval mes (int j) = Some (c j, val ! c j) \<and> c j < n"
    "length (st[c j := val ! c j]) = n" "length (chg[c j := 0xFF]) = n" using Cons.prems by simp_all
  from Cons.IH [OF this] obtain st' chg' where "light_set_loop mes js n (st[c j := val ! c j]) (chg[c j := 0xFF]) = Some (0, st', chg')" "length st' = n" "length chg' = n"
    "\<forall>x < n. st' ! x = (if x \<in> c ` set js then val ! x else st[c j := val ! c j] ! x) \<and>
       chg' ! x = (if x \<in> c ` set js then 0xFF else chg[c j := 0xFF] ! x)"
    by blast
  then show ?case using Cons.prems by (auto simp: nth_list_update)
qed simp

definition changed :: "light_state \<Rightarrow> nat list" where
  "changed li = filter (\<lambda>i. the (li_changes li) ! i \<noteq> 0) [0..<li_channels li]"

text \<open>Lights with arrays of their size.\<close>

definition light_ok :: "light_state \<Rightarrow> bool" where
  "light_ok li \<longleftrightarrow> (\<exists>st chg. li_state li = Some st \<and> li_changes li = Some chg \<and> length st = li_channels li \<and> length chg = li_channels li)"

lemma light_init_ok: "light_init alloc alloc2 mixer chans li = (0, li') \<Longrightarrow> light_ok li' \<and> li_channels li' = chans \<and> changed li' = []"
  by (auto simp: light_init_def light_reset_def light_ok_def changed_def Let_def split: if_splits)

lemma light_reset_ok: "light_ok li \<Longrightarrow> light_reset li = (r, li') \<Longrightarrow> r = 0 \<and> light_ok li' \<and> (\<forall>x < li_channels li. the (li_state li') ! x = 0) \<and> changed li' = []"
  by (auto simp: light_reset_def light_ok_def changed_def split: if_splits)

context fifo_stream
begin

lemma light_send_ok:
  assumes "valid v" "queue v = []" "length (dmx_chunks (changed li)) \<le> credit v" "light_ok li" "li_channels li \<le> 65536" "ls_codec s = CODEC_ROARDMX"
  shows "\<exists>v'. light_send_stream wr (Some s) li v = Some (Some \<lparr>lr_ret = 0, lr_deleted = False, lr_light = li, lr_stream = s, lr_vio = v'\<rparr>) \<and> valid v' \<and>
    queue v' = concat (map (wire (the (li_state li))) (dmx_chunks (changed li)))"
proof -
  obtain st chg where li: "li_state li = Some st" "li_changes li = Some chg" "length st = li_channels li" "length chg = li_channels li"
    using assms(4) by (auto simp: light_ok_def)
  obtain v' where "light_send_loop wr st chg [0..<li_channels li] 0 roar_roardmx_message_new v = (0, v')" "valid v'"
    "queue v' = concat (map (wire st) (dmx_chunks (changed li)))"
    using light_send_loop_ok [of v "[]" chg "[0..<li_channels li]" 0 roar_roardmx_message_new st] assms li by (auto simp: changed_def)
  then show ?thesis using assms(6) li by (simp add: light_send_stream_def CODEC_DMX512_def CODEC_ROARDMX_def Let_def)
qed

lemma light_check_ok:
  assumes "valid v" "queue v = wire val cur @ q" "length cur \<le> 85" "\<forall>i \<in> set cur. i < li_channels li" "light_ok li" "li_channels li \<le> 65536"
    "ls_codec s = CODEC_ROARDMX"
  shows "\<exists>v' li'. light_check_stream rd (Some s) li v = Some (Some \<lparr>lr_ret = 0, lr_deleted = False, lr_light = li', lr_stream = s, lr_vio = v'\<rparr>) \<and> valid v' \<and>
    queue v' = q \<and> light_ok li' \<and> li_channels li' = li_channels li \<and>
    (\<forall>x < li_channels li. the (li_state li') ! x = (if x \<in> set cur then val ! x else the (li_state li) ! x) \<and>
       the (li_changes li') ! x = (if x \<in> set cur then 0xFF else the (li_changes li) ! x))"
proof -
  obtain st chg where li: "li_state li = Some st" "li_changes li = Some chg" "length st = li_channels li" "length chg = li_channels li"
    using assms(5) by (auto simp: light_ok_def)
  obtain mes v' where m: "roar_roardmx_message_recv rd v = (0, mes, v')" "valid v'" "queue v' = q" "roar_roardmx_message_numchannels mes = int (length cur)"
    "\<forall>j < length cur. roar_roardmx_message_get_chanval mes (int j) = Some (cur ! j mod 65536, val ! (cur ! j))"
    using dmx_recv [OF assms(1,2,3)] by blast
  have "\<forall>j \<in> set [0..<length cur]. roar_roardmx_message_get_chanval mes (int j) = Some (cur ! j, val ! (cur ! j)) \<and> cur ! j < li_channels li"
  proof
    fix j assume "j \<in> set [0..<length cur]"
    then have j: "j < length cur" by simp
    then have "cur ! j < li_channels li" using assms(4) by simp
    then show "roar_roardmx_message_get_chanval mes (int j) = Some (cur ! j, val ! (cur ! j)) \<and> cur ! j < li_channels li" using m(5) j assms(6) by simp
  qed
  from light_set_loop_ok [of "[0..<length cur]" mes "\<lambda>j. cur ! j" val "li_channels li" st chg, OF this li(3,4)]
  obtain st' chg' where r: "light_set_loop mes [0..<length cur] (li_channels li) st chg = Some (0, st', chg')" "length st' = li_channels li" "length chg' = li_channels li"
    "\<forall>x < li_channels li. st' ! x = (if x \<in> (\<lambda>j. cur ! j) ` set [0..<length cur] then val ! x else st ! x) \<and>
       chg' ! x = (if x \<in> (\<lambda>j. cur ! j) ` set [0..<length cur] then 0xFF else chg ! x)" by blast
  have img: "(\<lambda>j. cur ! j) ` set [0..<length cur] = set cur" using arg_cong [OF map_nth [of cur], of set] by simp
  show ?thesis
    using m r li assms(7) unfolding img
    by (intro exI [of _ v'] exI [of _ "li\<lparr>li_state := Some st', li_changes := Some chg'\<rparr>"])
      (simp add: light_check_stream_def CODEC_DMX512_def CODEC_ROARDMX_def light_ok_def)
qed

end



text \<open>Of 86 channels that have changed the last one is never sent.\<close>

theorem light_channel_lost:
  assumes "pipe_valid v" "pipe_queue v = []" "0 < pipe_credit v" "light_ok a" "li_channels a \<le> 65536" "length (changed a) = 86" "ls_codec s = CODEC_ROARDMX"
  shows "\<exists>v1. light_send_stream (pipe_put os) (Some s) a v = Some (Some \<lparr>lr_ret = 0, lr_deleted = False, lr_light = a, lr_stream = s, lr_vio = v1\<rparr>) \<and>
    pipe_queue v1 = wire (the (li_state a)) (take 85 (changed a))"
proof -
  have "changed a \<noteq> []" using assms(6) by auto
  then have "dmx_chunks (changed a) = [take 85 (changed a)]" using assms(6) by (subst dmx_chunks.simps) simp
  then show ?thesis using pipe.light_send_ok [of v a s os] assms by auto
qed

text \<open>A message for the channel behind the last one writes behind the arrays.\<close>

theorem light_channel_overflow:
  assumes "roar_roardmx_message_get_chanval mes 0 = Some (li_channels li, val)" "light_ok li"
  shows "light_set_loop mes [0] (li_channels li) (the (li_state li)) (the (li_changes li)) = None"
  using assms by (auto simp: light_ok_def)

end
