(* ===== verification/Spec2Isabelle.thy ===== *)
theory Spec2Isabelle
  imports Conv_Pipeline Mid_Side Pcm_Mixer Pcm_Amp Sample_Remove Interleave Channel_Map Roar_Stack Vio_Pipe Roar_Notify
    Server_Flags Server_Mix Client_Session Dsp_Chain Dsp_Law Roar_Keyval Roar_Light
begin

text \<open>
  A verification library for RoarAudio, a networked sound system: the client library (\<open>src/libroar\<close>), the
  signal processing library (\<open>src/libroardsp\<close>) and the server (\<open>src/roard\<close>).

  \<^bold>\<open>The program.\<close> Clients send the server control messages (\<open>libroar/proto.c\<close>) over an abstract stream, a
  table of function pointers with many back ends, among them the two-ended pipe (\<open>libroar/vio_pipe.c\<close>),
  which stores what one end writes in a chain of buffers (\<open>libroar/buffer.c\<close>). The server converts each
  block of a stream to its own format (\<open>libroardsp/convert.c\<close>), routes its channels
  (\<open>libroardsp/channels.c\<close>), scales it to the volume of the stream (\<open>libroardsp/amp.c\<close>), mixes the streams
  (\<open>libroardsp/mixer.c\<close>) and removes a stream from the mix where it is asked to (\<open>libroardsp/remove.c\<close>).
  Parts of the server and of the clients are told of changes through notification cores
  (\<open>libroar/notify.c\<close>). The server keeps its clients and streams in two tables (\<open>roard/clients.c\<close>,
  \<open>roard/streams.c\<close>): a client lists the streams it owns, a stream names its client, its parent and its
  buffers, and deleting one deletes others. Every round takes a block from each playing stream and mixes them, and
  serves the clients that have sent something: \<open>clients_check\<close> receives a message, looks up its command
  (\<open>roard/commands.c\<close>), checks the access level of the client and calls the handler (\<open>roard/req.c\<close>), whose
  answer it sends back. The client library wraps each command in a function (\<open>libroar/ctl.c\<close>, \<open>libroar/stream.c\<close>).

  \<^bold>\<open>Foundations.\<close>
  \<^item> \<open>Roar_Prelude\<close>: the C integer types, narrowing (\<open>wrap_s\<close>, \<open>wrap_u\<close>), truncating division and counted
    loops (\<open>for_up\<close>, \<open>for_down\<close>).
  \<^item> \<open>Memory_Model\<close>: byte-addressed memory with the typed loads and stores of a little-endian host.
    Buffers live in one memory, so a call with \<open>in == out\<close> is an ordinary call. Locale \<open>cell\<close> is the contract
    of one typed access, \<open>frame_loop\<close> and \<open>strided_loop\<close> that of a loop whose body handles one frame: in each
    frame the loop leaves what its body does on the original memory. \<open>cell_map\<close> combines the two.
    The routines below interpret these locales, and \<open>sample b m p i\<close> is sample \<open>i\<close> of the buffer at \<open>p\<close>.

  \<^bold>\<open>Signal processing.\<close> A routine maps the memory, its pointers and its counts to the return value and the
  new memory. A pointer is an integer and the null pointer is 0.
  \<^item> \<open>Conv_Bits\<close>, \<open>Conv_Chans\<close>, \<open>Conv_Codec\<close>: \<open>roar_conv_bits*\<close>, \<open>roar_conv_chans*\<close>, \<open>roar_conv_signedness\<close>,
    \<open>roar_conv_codec*\<close> and \<open>roar_conv_endian*\<close> of \<open>convert.c\<close>. The lemmas give the value of every
    output sample, for equal and for separate buffers, the round trips of widening, signedness and byte
    order, and the calls that do not do what they should.
  \<^item> \<open>Conv_Pipeline\<close>: \<open>roar_conv\<close> and \<open>roar_conv2\<close>, which chain these steps, with the value of the output on the
    way up to the server's format and down again.
  \<^item> \<open>Mid_Side\<close>, \<open>Pcm_Mixer\<close>, \<open>Pcm_Amp\<close>, \<open>Sample_Remove\<close>, \<open>Interleave\<close>: \<open>midside.c\<close>, \<open>mixer.c\<close>, \<open>amp.c\<close>,
    \<open>remove.c\<close>, \<open>interleave.c\<close>. The lemmas show that the accumulators are wide enough, where clipping
    happens, and what the round trips preserve.
  \<^item> \<open>Channel_Map\<close>: the names, layouts and maps of \<open>channels.c\<close>: the names round-trip, layouts name a channel
    once, the calculated map is the first match, and samples move along a map.

  \<^item> \<open>Dsp_Filter\<close>: the filters of \<open>filter.c\<close> and \<open>filter_*.c\<close> and the chains of \<open>filterchain.c\<close>, on lists of samples. Function pointers
    are values of data types and a \<open>float\<close> is a rational number that is rounded to 24 bits. \<open>Dsp_Single\<close> has the filters: the low pass is
    its recurrence on each channel without overflow, the quantifier and the clipper are exact, the DC blocker removes levels that are not
    negative and nothing else. \<open>Dsp_Chain\<close> has their life: the invariant of a filter by rule induction over all calls, which formats have
    which filters, and a chain as a pipe of filters. Locale \<open>chain_op\<close> is what the loop over a chain needs of its call.
  \<^item> \<open>Dsp_Law\<close>: A-law and mu-law. The tables that decode are the expansion of G.711, and one pass over the runs of the tables that encode shows what
    they do for every sample; locale \<open>compander\<close> carries it to buffers.

  \<^bold>\<open>Containers and communication.\<close>
  \<^item> \<open>Roar_Stack\<close>: the pointer stack of \<open>stack.c\<close>, as an interpretation of locale \<open>bounded_lifo\<close>.
  \<^item> \<open>Roar_Buffer\<close>: the chains and rings of \<open>buffer.c\<close> over a heap of buffer records with an allocator that can
    run out. Loops over a chain are partial functions into \<open>option\<close>: \<open>None\<close> is an access to a record that is
    not there or a loop that does not end, and the theorems prove \<open>Some\<close>. A chain is abstracted to the
    bytes it holds (\<open>content\<close>).
  \<^item> \<open>Roar_Proto\<close>: the messages of \<open>proto.c\<close> over any transport. Locale \<open>fifo_stream\<close> is what the protocol relies
    on: a write appends to a queue of bytes while there is credit, and a read takes from its front.
  \<^item> \<open>Vio_Pipe\<close>: the pipe of \<open>vio_pipe.c\<close>, whose two buffer directions interpret \<open>fifo_stream\<close> through the
    theorems on chains. The calls to the operating system are parameters. \<open>roar_vio_open_pipe\<close> refuses
    to open a pipe of this type, so the interpretation speaks of the read and write operations on a
    pipe structure that is there.
  \<^item> \<open>Roar_Notify\<close>: cores, subscribers, delivery and the network form of events of \<open>notify.c\<close>. The calls of the
    interface are a step relation, and soundness of the tables is an invariant of the reachable states.

  \<^item> \<open>Roar_Keyval\<close>: the key-value strings of \<open>keyval.c\<close>, against a specification by fields.
  \<^item> \<open>Roar_Nnode\<close>: node addresses and their network form (\<open>nnode.c\<close>).

  \<^bold>\<open>The server.\<close>
  \<^item> \<open>Server_State\<close>, \<open>Server_Fields\<close>, \<open>Server_Meta\<close>: the two tables with their globals as one record \<open>server\<close>, the
    operations on one entry, and the meta data of \<open>roard/meta.c\<close>. \<open>None\<close> is an access behind a table or to a
    record that is gone. Events and calls that leave the tables are logged; what they return is a
    parameter (\<open>server_io\<close>).
  \<^item> \<open>Server_Delete\<close>: \<open>streams_delete\<close>, \<open>clients_delete\<close> and \<open>client_stream_delete\<close>, which call each other.
  \<^item> \<open>Buffer_Owned\<close>, \<open>Server_Safe\<close>: the invariant of the tables. Every buffer chain and block has one owner
    (\<open>owned\<close>), and the lists of the clients agree with the streams (\<open>slots_agree\<close>). Locale \<open>deleter\<close> is the contract
    of a deletion: defined, keeps the invariant, removes its stream, and only removes. The step of
    \<open>streams_delete\<close> satisfies it when the recursive calls do; the interpretation is the whole function.
  \<^item> \<open>Server_Run\<close>: deletion never touches freed memory and returns, a deleted client leaves no stream behind,
    shutting down empties the tables, and every sequence of table operations keeps the invariant.
  \<^item> \<open>Server_Ops\<close>, \<open>Server_Flags\<close>: ownership, flags, volumes, directions, virtual streams and file handles. The
    lemmas show that there is at most one recording source, that a volume change reaches every stream that shares it and
    nothing else, and that meta data set is what is read.
  \<^item> \<open>Conv_Volume\<close>: \<open>roar_conv_volume\<close> of \<open>libroar/ctl.c\<close>; converted volumes stay between the least and the
    greatest, and up and down again is the identity.
  \<^item> \<open>Server_Mix\<close>: the blocks of the streams, the mix, the mixer stream and the output buffer.
  \<^item> \<open>Roar_Light\<close>: the lights of \<open>roard/light.c\<close> and their messages (\<open>libroarlight/roardmx.c\<close>), over any \<open>fifo_stream\<close>.
  \<^item> \<open>Server_Auth\<close>: the keyring of \<open>roard/auth.c\<close> and the authentication message of \<open>libroar/auth.c\<close>. A client gets
    the level of the first key that accepts it; the list of trusted users also accepts unknown users.
  \<^item> \<open>Ctl_Messages\<close>, \<open>Info_Messages\<close>: the messages that describe streams, clients, lists, capabilities and the server
    (\<open>libroar/ctl.c\<close>, \<open>libroar/stream.c\<close>, \<open>libroar/caps.c\<close>, \<open>libroar/serverinfo.c\<close>); what one side encodes the other
    decodes.
  \<^item> \<open>Server_Requests\<close>, \<open>Server_Info_Requests\<close>, \<open>Server_Stream_Requests\<close>, \<open>Server_Beep\<close>: the handlers of \<open>roard/req.c\<close> and the
    generator of \<open>roard/beep.c\<close>, as functions from the request and the server to the return value, the answer and the
    new server. What comes from outside of the tables is the record \<open>request_env\<close>. \<open>None\<close> is an access outside of
    the message or a table, or a division by zero.
  \<^item> \<open>Server_Commands\<close>, \<open>Server_Access\<close>, \<open>Server_Replies\<close>: the table of commands and the service of one client. A request above the
    level of the client changes nothing, a guest only reads, and every answer fits its message.
  \<^item> \<open>Client_Requests\<close>: the functions of the client library, over an abstract exchange of a message for its answer.
  \<^item> \<open>Client_Session\<close>: client and server, connected by two transports. Locale \<open>duplex\<close> combines two \<open>fifo_stream\<close> and is
    interpreted by two pipes; a volume set by the client library is the volume it reads, and the one the server keeps.
  \<^item> This theory: messages sent over a pipe arrive, which spans \<open>Roar_Proto\<close>, \<open>Vio_Pipe\<close> and \<open>Roar_Buffer\<close>.

  \<^bold>\<open>Bounds.\<close> Integers are kept at the width of the code where a result depends on it: accumulators of 16, 32 and
  64 bits, \<open>int\<close> arguments of the pipelines, \<open>size_t\<close> differences, 16 and 32 bit protocol fields.
  Hypotheses such as at most 65535 streams or channels are the ranges in which the accumulators do not
  overflow. Addresses are unbounded. Counted loops are primitive recursive and loops over chains are partial
  functions with a proof that they return. Two mutual recursions have fuel: \<open>streams_delete\<close> one more than the
  table size, because each level marks another stream as closing, and \<open>streams_set_mixer\<close> two levels, because the
  recursive call finds the flag that causes the recursion cleared. The theorems prove \<open>Some\<close>.

  \<^bold>\<open>Not modelled.\<close> The resamplers (single precision floating point and libsamplerate) are parameters of
  the pipelines, and the floating point generators and polynomials are left out for the same reason; the exponential of the
  low and high pass is a parameter. Drivers,
  codecs and the emulations of other sound systems are wrappers of external libraries. The
  host is little-endian with signed \<open>char\<close>, and optional code is as configured there: a native 64 bit
  integer is available. Debug output is left out. Callbacks are opaque addresses.
\<close>

subsection \<open>Messages over a pipe\<close>

text \<open>C9: The control protocol over a buffer pipe: a sequence of messages that the header format can
  carry (8 bit command, 32 bit position, payload below 64 KiB), written by one end of a pipe while the
  allocator has two allocations per write left, is received at the other end completely, in order,
  and each with its command, stream, position, length and payload; a stream id of 65535 arrives as
  -1. Nothing is left in the pipe.\<close>

theorem messages_over_pipe:
  assumes "pipe_valid v" "pipe_queue v = []" "2 * length ms \<le> pipe_credit v" "\<forall>(mes, dat) \<in> set ms. sendable mes dat"
  shows "\<exists>v1 v2. send_all (pipe_put os) v ms = Some v1 \<and> recv_all (pipe_get os') (length ms) v1 = Some (map delivered ms, v2)
    \<and> pipe_valid v2 \<and> pipe_queue v2 = []"
proof -
  obtain v1 where "send_all (pipe_put os) v ms = Some v1" "pipe_valid v1"
    "pipe_queue v1 = concat (map (\<lambda>(mes, dat). header_v0 mes @ payload mes dat) ms) @ []"
    using pipe.send_all_ok [OF assms(1,3,4)] assms(2) by auto
  then show ?thesis using pipe.recv_all_ok [OF _ _ assms(4), of v1 "[]"] by blast
qed

theorem messages_over_pipe_witness:
  "\<exists>v1 v2. send_all (pipe_put (\<lambda>_ _ _ h. (-1, h)))
      \<lparr>ps_pipe = \<lparr>vp_refcount = 2, vp_type = 1, vp_flags = 2, vp_b = [0, 0], vp_p = [0, 0, 0, 0], vp_s0 = 7\<rparr>,
       ps_heap = \<lparr>bh_bufs = Map.empty, bh_mem = (\<lambda>_. 0), bh_blocks = Map.empty, bh_brk = 1, bh_left = 20\<rparr>,
       ps_writer = 7, ps_reader = 8\<rparr>
      [(zero_message\<lparr>ms_cmd := 1, ms_stream := 65535, ms_datalen := 2\<rparr>, None), (zero_message\<lparr>ms_cmd := 2\<rparr>, None)] = Some v1
    \<and> recv_all (pipe_get (\<lambda>_ _ _ h. (-1, h))) 2 v1 =
        Some ([delivered (zero_message\<lparr>ms_cmd := 1, ms_stream := 65535, ms_datalen := 2\<rparr>, None),
               delivered (zero_message\<lparr>ms_cmd := 2\<rparr>, None)], v2)"
proof -
  let ?v = "\<lparr>ps_pipe = \<lparr>vp_refcount = 2, vp_type = 1, vp_flags = 2, vp_b = [0, 0], vp_p = [0, 0, 0, 0], vp_s0 = 7\<rparr>,
       ps_heap = \<lparr>bh_bufs = Map.empty, bh_mem = (\<lambda>_. 0), bh_blocks = Map.empty, bh_brk = 1, bh_left = 20\<rparr>,
       ps_writer = 7, ps_reader = 8\<rparr>"
  let ?ms = "[(zero_message\<lparr>ms_cmd := 1, ms_stream := 65535, ms_datalen := 2\<rparr>, None), (zero_message\<lparr>ms_cmd := 2\<rparr>, None)]"
  have i: "chain_inv (ps_heap ?v) (ps_buf ?v) []"
    by (simp add: chain_inv_def is_copy_def chain_ok_def below_def ps_buf_def ps_idx_def PIPE_S_def)
  have "ends_ok ?v" by (simp add: ends_ok_def pipe_types access_mode_def O_RDWR_def PIPE_S_def PIPE_SR_def)
  with i have "pipe_valid ?v" by (auto simp: pipe_valid_def)
  moreover have "pipe_queue ?v = []" using pipe_queue_chain [OF i] by (simp add: content_def)
  moreover have "2 * length ?ms \<le> pipe_credit ?v" by (simp add: pipe_credit_def)
  moreover have "\<forall>(mes, dat) \<in> set ?ms. sendable mes dat" by (simp add: sendable_def zero_message_def LIBROAR_BUFFER_MSGDATA_def)
  ultimately show ?thesis
    using messages_over_pipe [of ?v ?ms "\<lambda>_ _ _ h. (-1, h)" "\<lambda>_ _ _ h. (-1, h)"] by (auto simp: numeral_2_eq_2)
qed

end
